(* ===== verification/Prelude.thy ===== *)
theory Prelude
  imports Complex_Main
begin

text \<open>
  Shared vocabulary of the development: the errors of \<^verbatim>\<open>core/exceptions.py\<close> as values, the
  error-or-result combinators every service is written with, and database tables (rows with
  a primary-key sequence) with the lemmas their updates share.

  A service of the backend is a function from its arguments and the database state to
  \<open>error + result \<times> state\<close>.  \<open>Inl\<close> is a raised exception: the function runs inside
  \<^verbatim>\<open>transaction.atomic\<close>, so nothing it wrote survives and no state is returned.
\<close>

named_theorems result_simps \<open>error-or-result combinators\<close>
named_theorems table_simps \<open>reads of a table after a write\<close>
named_theorems decimal_intros \<open>closure of the fixed decimal scales\<close>
named_theorems frame_simps \<open>tables an operation leaves alone\<close>


section \<open>Errors\<close>

text \<open>
  One constructor per exception class of \<^verbatim>\<open>core/exceptions.py\<close> the modelled code raises.
  \<open>ValidationFailed\<close> carries the \<open>(field, code)\<close> pairs of its \<open>errors\<close> list (empty when
  the code gives none); titles and details are prose for humans and are left out.
  \<open>IntegrityError\<close> is a database constraint (named as in the models) refusing a row,
  \<open>Immutable\<close> a model's refusal to edit an append-only row, \<open>PyError\<close> an exception that is
  not a domain error.
\<close>

datatype error =
    InvalidCredentials
  | AccountInactive
  | OtpInvalid
  | OtpExpired
  | OtpAttemptsExceeded
  | OtpRateLimited
  | PermissionDenied
  | ResourceNotFound
  | ValidationFailed "(string \<times> string) list"
  | CreditLimitExceeded
  | IntegrityError string
  | Immutable string
  | PyError string

text \<open>The stable machine-readable code and the HTTP status of each domain error.\<close>

fun error_code :: "error \<Rightarrow> string option" where
  "error_code InvalidCredentials = Some ''INVALID_CREDENTIALS''"
| "error_code AccountInactive = Some ''ACCOUNT_INACTIVE''"
| "error_code OtpInvalid = Some ''OTP_INVALID''"
| "error_code OtpExpired = Some ''OTP_EXPIRED''"
| "error_code OtpAttemptsExceeded = Some ''OTP_ATTEMPTS_EXCEEDED''"
| "error_code OtpRateLimited = Some ''OTP_RATE_LIMITED''"
| "error_code PermissionDenied = Some ''PERMISSION_DENIED''"
| "error_code ResourceNotFound = Some ''RESOURCE_NOT_FOUND''"
| "error_code (ValidationFailed _) = Some ''VALIDATION_FAILED''"
| "error_code CreditLimitExceeded = Some ''CREDIT_LIMIT_EXCEEDED''"
| "error_code (IntegrityError _) = None"
| "error_code (Immutable _) = None"
| "error_code (PyError _) = None"

text \<open>\<open>isinstance(e, DomainError)\<close>: what \<^verbatim>\<open>except DomainError\<close> catches.\<close>

definition is_domain_error :: "error \<Rightarrow> bool" where
  "is_domain_error e \<longleftrightarrow> error_code e \<noteq> None"

abbreviation invalid :: "string \<Rightarrow> string \<Rightarrow> error" where
  "invalid fld cod \<equiv> ValidationFailed [(fld, cod)]"


section \<open>Results\<close>

primrec andThen :: "'e + 'a \<Rightarrow> ('a \<Rightarrow> 'e + 'b) \<Rightarrow> 'e + 'b" where
  "andThen (Inl e) k = Inl e"
| "andThen (Inr x) k = k x"

text \<open>\<open>require c e\<close> is \<^verbatim>\<open>if not c: raise e\<close>.\<close>

definition require :: "bool \<Rightarrow> 'e \<Rightarrow> 'e + unit" where
  "require c e = (if c then Inr () else Inl e)"

lemma andThen_Inr_iff [result_simps]:
  "andThen m k = Inr y \<longleftrightarrow> (\<exists>x. m = Inr x \<and> k x = Inr y)"
  by (cases m) auto

lemma andThen_Inl_iff [result_simps]:
  "andThen m k = Inl e \<longleftrightarrow> m = Inl e \<or> (\<exists>x. m = Inr x \<and> k x = Inl e)"
  by (cases m) auto

lemma require_Inr_iff [result_simps]: "require c e = Inr u \<longleftrightarrow> c"
  by (simp add: require_def)

lemma require_Inl_iff [result_simps]: "require c e = Inl e' \<longleftrightarrow> \<not> c \<and> e' = e"
  by (auto simp: require_def)

lemma require_True [simp]: "require True e = Inr ()"
  and require_False [simp]: "require False e = Inl e"
  by (simp_all add: require_def)

lemma andThen_require [simp]:
  "andThen (require c e) k = (if c then k () else Inl e)"
  by (simp add: require_def)

lemma andThen_cong [fundef_cong]:
  "m = m' \<Longrightarrow> (\<And>x. m' = Inr x \<Longrightarrow> k x = k' x) \<Longrightarrow> andThen m k = andThen m' k'"
  by (cases m') auto

lemma andThen_assoc: "andThen (andThen m k) l = andThen m (\<lambda>x. andThen (k x) l)"
  by (cases m) auto

text \<open>
  For evaluation on concrete inputs: both binders become constructs whose continuation is
  only evaluated once the value it waits for is there.
\<close>

lemma andThen_case [code_unfold]: "andThen m k = (case m of Inl e \<Rightarrow> Inl e | Inr x \<Rightarrow> k x)"
  by (cases m) simp_all

lemma case_prod_let [code_unfold]: "case_prod f p = (let x = p in f (fst x) (snd x))"
  by (simp add: case_prod_beta)

text \<open>A \<^verbatim>\<open>for\<close> loop whose body writes the state and may raise.\<close>

fun for_each :: "'x list \<Rightarrow> ('x \<Rightarrow> 's \<Rightarrow> 'e + 's) \<Rightarrow> 's \<Rightarrow> 'e + 's" where
  "for_each [] f s = Inr s"
| "for_each (x # xs) f s = andThen (f x s) (for_each xs f)"

lemma for_each_invariant:
  assumes "for_each xs f s = Inr s'" "I s"
    and "\<And>x s s'. x \<in> set xs \<Longrightarrow> f x s = Inr s' \<Longrightarrow> I s \<Longrightarrow> I s'"
  shows "I s'"
  using assms
proof (induction xs arbitrary: s)
  case Nil
  then show ?case by simp
next
  case (Cons x xs)
  then obtain t where t: "f x s = Inr t" "for_each xs f t = Inr s'"
    by (auto simp: result_simps)
  have "I t" using Cons.prems t by auto
  then show ?case using Cons.IH [of t] Cons.prems(3) t(2) by auto
qed

text \<open>A list built by a loop whose body may raise.\<close>

fun map_result :: "('x \<Rightarrow> 'e + 'y) \<Rightarrow> 'x list \<Rightarrow> 'e + 'y list" where
  "map_result f [] = Inr []"
| "map_result f (x # xs) = andThen (f x) (\<lambda>y. andThen (map_result f xs) (\<lambda>ys. Inr (y # ys)))"

lemma map_result_Inr_iff:
  "map_result f xs = Inr ys \<longleftrightarrow> list_all2 (\<lambda>x y. f x = Inr y) xs ys"
  by (induction xs arbitrary: ys) (auto simp: result_simps list_all2_Cons1)


section \<open>Tables\<close>

text \<open>
  A table is its rows in insertion order and the next value of its primary-key sequence.
  \<open>key\<close> reads a row's primary key.
\<close>

record 'r table =
  tb_seq :: nat
  tb_rows :: "'r list"

definition empty_table :: "'r table" where
  "empty_table = \<lparr>tb_seq = 1, tb_rows = []\<rparr>"

definition tb_insert :: "(nat \<Rightarrow> 'r) \<Rightarrow> 'r table \<Rightarrow> 'r \<times> 'r table" where
  "tb_insert mk t =
     (let r = mk (tb_seq t)
      in (r, t\<lparr>tb_seq := Suc (tb_seq t), tb_rows := tb_rows t @ [r]\<rparr>))"

definition tb_get :: "('r \<Rightarrow> nat) \<Rightarrow> nat \<Rightarrow> 'r table \<Rightarrow> 'r option" where
  "tb_get key pk t = find (\<lambda>r. key r = pk) (tb_rows t)"

definition tb_update :: "('r \<Rightarrow> nat) \<Rightarrow> nat \<Rightarrow> ('r \<Rightarrow> 'r) \<Rightarrow> 'r table \<Rightarrow> 'r table" where
  "tb_update key pk f t =
     t\<lparr>tb_rows := map (\<lambda>r. if key r = pk then f r else r) (tb_rows t)\<rparr>"

definition tb_delete :: "('r \<Rightarrow> bool) \<Rightarrow> 'r table \<Rightarrow> 'r table" where
  "tb_delete p t = t\<lparr>tb_rows := filter (\<lambda>r. \<not> p r) (tb_rows t)\<rparr>"

text \<open>\<^verbatim>\<open>.filter(p).first()\<close> and \<^verbatim>\<open>.filter(p).exists()\<close>.\<close>

definition tb_first :: "('r \<Rightarrow> bool) \<Rightarrow> 'r table \<Rightarrow> 'r option" where
  "tb_first p t = find p (tb_rows t)"

definition tb_exists :: "('r \<Rightarrow> bool) \<Rightarrow> 'r table \<Rightarrow> bool" where
  "tb_exists p t \<longleftrightarrow> list_ex p (tb_rows t)"

text \<open>Primary keys are distinct and below the sequence.\<close>

definition table_wf :: "('r \<Rightarrow> nat) \<Rightarrow> 'r table \<Rightarrow> bool" where
  "table_wf key t \<longleftrightarrow>
     distinct (map key (tb_rows t)) \<and> list_all (\<lambda>r. key r < tb_seq t) (tb_rows t)"

lemma table_wf_empty [simp]: "table_wf key empty_table"
  by (simp add: table_wf_def empty_table_def)

lemma empty_table_rows [simp]: "tb_rows empty_table = []"
  by (simp add: empty_table_def)

lemma tb_insert_row [table_simps]: "fst (tb_insert mk t) = mk (tb_seq t)"
  by (simp add: tb_insert_def Let_def)

lemma tb_insert_rows [table_simps]:
  "tb_rows (snd (tb_insert mk t)) = tb_rows t @ [mk (tb_seq t)]"
  by (simp add: tb_insert_def Let_def)

lemma tb_insert_seq [table_simps]: "tb_seq (snd (tb_insert mk t)) = Suc (tb_seq t)"
  by (simp add: tb_insert_def Let_def)

lemma table_wf_insert:
  "table_wf key t \<Longrightarrow> key (mk (tb_seq t)) = tb_seq t \<Longrightarrow> table_wf key (snd (tb_insert mk t))"
  by (auto simp: table_wf_def table_simps list_all_iff intro: less_SucI)

lemma tb_update_rows [table_simps]:
  "tb_rows (tb_update key pk f t) = map (\<lambda>r. if key r = pk then f r else r) (tb_rows t)"
  by (simp add: tb_update_def)

lemma tb_update_seq [table_simps]: "tb_seq (tb_update key pk f t) = tb_seq t"
  by (simp add: tb_update_def)

lemma table_wf_update:
  assumes "table_wf key t" "\<And>r. key r = pk \<Longrightarrow> key (f r) = pk"
  shows "table_wf key (tb_update key pk f t)"
proof -
  let ?g = "\<lambda>r. if key r = pk then f r else r"
  have k: "key (?g r) = key r" for r
    using assms(2) by simp
  then have "map key (map ?g (tb_rows t)) = map key (tb_rows t)"
    by simp
  then show ?thesis
    using assms by (auto simp: table_wf_def table_simps list_all_iff simp del: map_map)
qed

lemma table_wf_delete: "table_wf key t \<Longrightarrow> table_wf key (tb_delete p t)"
  by (auto simp: table_wf_def tb_delete_def list_all_iff distinct_map_filter)

lemma tb_delete_rows [table_simps]:
  "tb_rows (tb_delete p t) = filter (\<lambda>r. \<not> p r) (tb_rows t)"
  by (simp add: tb_delete_def)

lemma find_SomeD: "find p xs = Some x \<Longrightarrow> x \<in> set xs \<and> p x"
  by (induction xs) (auto split: if_splits)

lemma find_None_iff_list: "find p xs = None \<longleftrightarrow> (\<forall>x \<in> set xs. \<not> p x)"
  by (induction xs) auto

lemma find_append: "find p (xs @ ys) = (case find p xs of None \<Rightarrow> find p ys | Some x \<Rightarrow> Some x)"
  by (induction xs) auto

lemma tb_getD: "tb_get key pk t = Some r \<Longrightarrow> r \<in> set (tb_rows t) \<and> key r = pk"
  unfolding tb_get_def by (rule find_SomeD)

lemma tb_firstD: "tb_first p t = Some r \<Longrightarrow> r \<in> set (tb_rows t) \<and> p r"
  unfolding tb_first_def by (rule find_SomeD)

lemma tb_first_None: "tb_first p t = None \<longleftrightarrow> (\<forall>r \<in> set (tb_rows t). \<not> p r)"
  by (simp add: tb_first_def find_None_iff_list)

lemma tb_exists_iff: "tb_exists p t \<longleftrightarrow> (\<exists>r \<in> set (tb_rows t). p r)"
  by (simp add: tb_exists_def list_ex_iff)

lemma tb_get_update_same:
  assumes "tb_get key pk t = Some r" "key (f r) = pk"
  shows "tb_get key pk (tb_update key pk f t) = Some (f r)"
proof -
  have "find (\<lambda>r. key r = pk) (map (\<lambda>r. if key r = pk then f r else r) xs) = Some (f r)"
    if "find (\<lambda>r. key r = pk) xs = Some r" for xs
    using that assms(2) by (induction xs) (auto split: if_splits)
  then show ?thesis using assms(1) by (simp add: tb_get_def table_simps)
qed

lemma find_distinct_key:
  "distinct (map key xs) \<Longrightarrow> r \<in> set xs \<Longrightarrow> find (\<lambda>x. key x = key r) xs = Some r"
  by (induction xs) (auto simp: image_iff)

lemma tb_get_row:
  "table_wf key t \<Longrightarrow> r \<in> set (tb_rows t) \<Longrightarrow> tb_get key (key r) t = Some r"
  unfolding tb_get_def table_wf_def by (blast intro: find_distinct_key)


lemma table_wf_inj:
  "table_wf key t \<Longrightarrow> x \<in> set (tb_rows t) \<Longrightarrow> y \<in> set (tb_rows t) \<Longrightarrow> key x = key y \<Longrightarrow> x = y"
  unfolding table_wf_def distinct_map by (blast dest: inj_onD)

lemma table_wf_append:
  assumes "table_wf key t" "tb_rows t' = tb_rows t @ [r]" "tb_seq t' = Suc (tb_seq t)" "key r = tb_seq t"
  shows "table_wf key t'"
  using assms by (auto simp: table_wf_def list_all_iff intro: less_SucI)

lemma insort_key_cong:
  "(\<And>y. y \<in> set ys \<Longrightarrow> f x \<le> f y \<longleftrightarrow> g x \<le> g y) \<Longrightarrow> insort_key f x ys = insort_key g x ys"
  by (induction ys) auto

lemma sort_key_cong_le:
  "(\<And>x y. x \<in> set xs \<Longrightarrow> y \<in> set xs \<Longrightarrow> f x \<le> f y \<longleftrightarrow> g x \<le> g y) \<Longrightarrow> sort_key f xs = sort_key g xs"
proof (induction xs)
  case (Cons x xs)
  have "sort_key f xs = sort_key g xs" by (rule Cons.IH, rule Cons.prems) simp_all
  moreover have "insort_key f x (sort_key g xs) = insort_key g x (sort_key g xs)"
    by (rule insort_key_cong, rule Cons.prems) simp_all
  ultimately show ?case by simp
qed simp


section \<open>Sums\<close>

text \<open>\<^verbatim>\<open>SUM(f) FILTER (WHERE p)\<close>, coalesced to zero.\<close>

definition sum_where :: "('r \<Rightarrow> bool) \<Rightarrow> ('r \<Rightarrow> 'n::comm_monoid_add) \<Rightarrow> 'r list \<Rightarrow> 'n" where
  "sum_where p f rs = sum_list (map f (filter p rs))"

lemma sum_where_Nil [simp]: "sum_where p f [] = 0"
  by (simp add: sum_where_def)

lemma sum_where_Cons [simp]:
  "sum_where p f (r # rs) = (if p r then f r + sum_where p f rs else sum_where p f rs)"
  by (simp add: sum_where_def)

lemma sum_where_append [simp]: "sum_where p f (rs @ rs') = sum_where p f rs + sum_where p f rs'"
  by (simp add: sum_where_def)

lemma sum_where_cong: "(\<And>r. r \<in> set rs \<Longrightarrow> p r = q r) \<Longrightarrow> sum_where p f rs = sum_where q f rs"
  unfolding sum_where_def by (metis filter_cong)

lemma sum_where_split:
  "sum_where p f rs = sum_where (\<lambda>r. p r \<and> q r) f rs + sum_where (\<lambda>r. p r \<and> \<not> q r) f rs"
  by (induction rs) (auto simp: ac_simps)

lemma sum_where_remove_key:
  assumes "distinct (map key rs)" "r \<in> set rs" "p r"
  shows "sum_where p f rs = f r + sum_where (\<lambda>x. p x \<and> key x \<noteq> key r) f rs"
  using assms
proof (induction rs)
  case (Cons x rs)
  show ?case
  proof (cases "x = r")
    case True
    then have "sum_where (\<lambda>x. p x \<and> key x \<noteq> key r) f rs = sum_where p f rs"
      using Cons.prems(1) by (intro sum_where_cong) (auto simp: image_iff)
    then show ?thesis using True Cons.prems(3) by simp
  next
    case False
    then have "key x \<noteq> key r" using Cons.prems by (auto simp: image_iff)
    then show ?thesis using False Cons by (simp add: ac_simps)
  qed
qed simp

lemma sum_where_filter: "sum_where (\<lambda>x. p x \<and> q x) f xs = sum_where q f (filter p xs)"
  by (simp add: sum_where_def conj_commute)

lemma sum_where_update:
  fixes g :: "'r \<Rightarrow> 'n::ab_group_add"
  assumes "distinct (map key rs)" "r \<in> set rs" "p r" "\<not> p (f r)"
  shows "sum_where p g (map (\<lambda>x. if key x = key r then f x else x) rs) = sum_where p g rs - g r"
  using assms
proof (induction rs)
  case (Cons x rs)
  show ?case
  proof (cases "x = r")
    case True
    then have "map (\<lambda>x. if key x = key r then f x else x) rs = rs"
      using Cons.prems(1) by (intro map_idI) (auto simp: image_iff)
    then show ?thesis using True Cons.prems(3,4) by simp
  next
    case False
    then have "key x \<noteq> key r" using Cons.prems(1,2) by (auto simp: image_iff)
    then show ?thesis using False Cons by simp
  qed
qed simp

text \<open>A sum taken key by key.\<close>

lemma sum_list_if:
  "distinct ks \<Longrightarrow> sum_list (map (\<lambda>k. if y = k then v else 0) ks) = (if y \<in> set ks then v else (0 :: 'n::comm_monoid_add))"
  by (induction ks) auto

lemma sum_where_group:
  fixes f :: "'r \<Rightarrow> 'n::comm_monoid_add"
  assumes "distinct ks" "\<And>x. x \<in> set xs \<Longrightarrow> P x \<Longrightarrow> key x \<in> set ks"
  shows "sum_where P f xs = sum_list (map (\<lambda>k. sum_where (\<lambda>x. P x \<and> key x = k) f xs) ks)"
  using assms(2)
proof (induction xs)
  case (Cons x xs)
  then have IH: "sum_where P f xs = sum_list (map (\<lambda>k. sum_where (\<lambda>x. P x \<and> key x = k) f xs) ks)" by simp
  show ?case
  proof (cases "P x")
    case True
    have "sum_list (map (\<lambda>k. sum_where (\<lambda>x. P x \<and> key x = k) f (x # xs)) ks)
        = sum_list (map (\<lambda>k. (if key x = k then f x else 0) + sum_where (\<lambda>x. P x \<and> key x = k) f xs) ks)"
      using True by (intro arg_cong [of _ _ sum_list] map_cong) auto
    also have "\<dots> = sum_list (map (\<lambda>k. if key x = k then f x else 0) ks)
        + sum_list (map (\<lambda>k. sum_where (\<lambda>x. P x \<and> key x = k) f xs) ks)"
      by (rule sum_list_addf)
    also have "sum_list (map (\<lambda>k. if key x = k then f x else 0) ks) = f x"
      using assms(1) Cons.prems [of x] True by (simp add: sum_list_if)
    finally show ?thesis using True IH by simp
  qed (use IH in simp)
qed (simp add: sum_list_triv)

end
