(* ===== verification/Decimals.thy ===== *)
theory Decimals
  imports Prelude
begin

text \<open>
  Exact numbers: \<^verbatim>\<open>core/fields.py\<close> and the part of Python's \<^verbatim>\<open>decimal\<close> it rests on.

  A Decimal is modelled by its exact rational value.  \<open>quantize\<close> is \<^verbatim>\<open>Decimal.quantize\<close> with
  \<^verbatim>\<open>ROUND_HALF_UP\<close> (ties away from zero); \<open>to_money\<close>, \<open>to_quantity\<close> and \<open>to_percent\<close> fix
  the scales of the columns NUMERIC(14,2), NUMERIC(14,3) and NUMERIC(5,2).  Sums and products
  of column values have at most 28 significant digits, so Python's default context computes
  them exactly (\<open>money_times_quantity_exact\<close>, \<open>money_times_percent_exact\<close>); a quotient is
  not exact, so \<open>dec_div\<close> rounds it to 28 significant digits half-even as the context does.
\<close>

type_synonym decimal = rat


section \<open>Rounding half-up to a scale\<close>

definition round_half_up :: "decimal \<Rightarrow> int" where
  "round_half_up x = (if 0 \<le> x then \<lfloor>x + 1/2\<rfloor> else - \<lfloor>- x + 1/2\<rfloor>)"

definition quantize :: "decimal \<Rightarrow> decimal \<Rightarrow> decimal" where
  "quantize x scale = of_int (round_half_up (x / scale)) * scale"

definition MONEY_SCALE :: decimal where "MONEY_SCALE = 1/100"
definition QUANTITY_SCALE :: decimal where "QUANTITY_SCALE = 1/1000"
definition PERCENT_SCALE :: decimal where "PERCENT_SCALE = 1/100"

definition to_money :: "decimal \<Rightarrow> decimal" where
  "to_money x = quantize x MONEY_SCALE"

definition to_quantity :: "decimal \<Rightarrow> decimal" where
  "to_quantity x = quantize x QUANTITY_SCALE"

definition to_percent :: "decimal \<Rightarrow> decimal" where
  "to_percent x = quantize x PERCENT_SCALE"

lemma floor_rat_numeral [simp]:
  "\<lfloor>(numeral a / numeral b :: rat)\<rfloor> = numeral a div numeral b"
  "\<lfloor>(1 / numeral b :: rat)\<rfloor> = 1 div numeral b"
  using floor_divide_of_int_eq [of "numeral a" "numeral b", where 'a = rat]
    floor_divide_of_int_eq [of 1 "numeral b", where 'a = rat] by simp_all

lemma round_half_up_of_int [simp]: "round_half_up (of_int k) = k"
proof -
  have "\<lfloor>(of_int k :: rat) + 1/2\<rfloor> = k" for k
    by (rule floor_unique) auto
  from this [of k] this [of "- k"] show ?thesis by (simp add: round_half_up_def)
qed

lemma round_half_up_minus: "round_half_up (- x) = - round_half_up x"
  by (cases "x = 0") (auto simp: round_half_up_def)

lemma round_half_up_error: "\<bar>of_int (round_half_up x) - x\<bar> \<le> 1/2"
proof -
  have pos: "\<bar>of_int \<lfloor>y + 1/2\<rfloor> - y\<bar> \<le> 1/2" for y :: rat
  proof -
    have "of_int \<lfloor>y + 1/2\<rfloor> \<le> y + 1/2" "y + 1/2 < of_int \<lfloor>y + 1/2\<rfloor> + 1"
      using floor_correct [of "y + 1/2"] by auto
    then show ?thesis by linarith
  qed
  show ?thesis
    using pos [of x] pos [of "- x"] unfolding round_half_up_def by (auto simp: abs_if split: if_splits)
qed

lemma round_half_up_mono: "x \<le> y \<Longrightarrow> round_half_up x \<le> round_half_up y"
proof -
  assume le: "x \<le> y"
  consider "0 \<le> x" | "x < 0" "0 \<le> y" | "y < 0" using le by linarith
  then show ?thesis
  proof cases
    case 1
    then show ?thesis using le by (simp add: round_half_up_def floor_mono)
  next
    case 2
    then have "0 \<le> \<lfloor>- x + 1/2\<rfloor>" "0 \<le> \<lfloor>y + 1/2\<rfloor>" by (auto simp: zero_le_floor)
    then have "- \<lfloor>- x + 1/2\<rfloor> \<le> \<lfloor>y + 1/2\<rfloor>" by linarith
    then show ?thesis using 2 unfolding round_half_up_def by simp
  next
    case 3
    then show ?thesis using le by (simp add: round_half_up_def floor_mono)
  qed
qed

lemma round_half_up_nonneg: "0 \<le> x \<Longrightarrow> 0 \<le> round_half_up x"
  using round_half_up_mono [of 0 x] round_half_up_of_int [of 0] by simp

text \<open>A tie goes away from zero.\<close>

lemma round_half_up_tie: "0 \<le> k \<Longrightarrow> round_half_up (of_int k + 1/2) = k + 1"
proof -
  assume "0 \<le> k"
  then have "0 \<le> (of_int k :: rat) + 1/2" by simp
  moreover have "\<lfloor>(of_int k :: rat) + 1/2 + 1/2\<rfloor> = k + 1"
    by (rule floor_unique) auto
  ultimately show ?thesis by (simp add: round_half_up_def)
qed


section \<open>Values at a scale\<close>

text \<open>\<open>at_scale n x\<close>: \<open>x\<close> has at most \<open>n\<close> decimal places.\<close>

definition at_scale :: "nat \<Rightarrow> decimal \<Rightarrow> bool" where
  "at_scale n x \<longleftrightarrow> of_int \<lfloor>x * 10 ^ n\<rfloor> = x * 10 ^ n"

abbreviation is_money :: "decimal \<Rightarrow> bool" where "is_money \<equiv> at_scale 2"
abbreviation is_quantity :: "decimal \<Rightarrow> bool" where "is_quantity \<equiv> at_scale 3"
abbreviation is_percent :: "decimal \<Rightarrow> bool" where "is_percent \<equiv> at_scale 2"

lemma at_scale_iff: "at_scale n x \<longleftrightarrow> (\<exists>k. x = of_int k / 10 ^ n)"
proof
  assume "at_scale n x"
  then have "x * 10 ^ n = of_int \<lfloor>x * 10 ^ n\<rfloor>" unfolding at_scale_def by (rule sym)
  then have "x = of_int \<lfloor>x * 10 ^ n\<rfloor> / 10 ^ n" by (metis nonzero_mult_div_cancel_right
        power_not_zero zero_neq_numeral)
  then show "\<exists>k. x = of_int k / 10 ^ n" by blast
next
  assume "\<exists>k. x = of_int k / 10 ^ n"
  then show "at_scale n x" by (auto simp: at_scale_def)
qed

lemma at_scale_zero [simp, decimal_intros]: "at_scale n 0"
  by (simp add: at_scale_def)

lemma at_scale_of_int [simp]: "at_scale n (of_int k)"
  using floor_of_int [of "k * 10 ^ n", where 'a = rat] by (simp add: at_scale_def)

lemma at_scale_add [simp, decimal_intros]: "at_scale n x \<Longrightarrow> at_scale n y \<Longrightarrow> at_scale n (x + y)"
  by (metis at_scale_iff add_divide_distrib of_int_add)

lemma at_scale_minus [simp, decimal_intros]: "at_scale n x \<Longrightarrow> at_scale n (- x)"
  by (metis at_scale_iff minus_divide_left of_int_minus)

lemma at_scale_diff [simp, decimal_intros]: "at_scale n x \<Longrightarrow> at_scale n y \<Longrightarrow> at_scale n (x - y)"
  using at_scale_add [of n x "- y"] at_scale_minus by simp

lemma at_scale_abs [simp, decimal_intros]: "at_scale n x \<Longrightarrow> at_scale n \<bar>x\<bar>"
  by (simp add: abs_if at_scale_minus)

lemma at_scale_sum_list [decimal_intros]:
  "(\<And>x. x \<in> set xs \<Longrightarrow> at_scale n (f x)) \<Longrightarrow> at_scale n (sum_list (map f xs))"
  by (induction xs) (auto intro: decimal_intros)

lemma at_scale_sum_where:
  "(\<And>x. x \<in> set xs \<Longrightarrow> p x \<Longrightarrow> at_scale n (f x)) \<Longrightarrow> at_scale n (sum_where p f xs)"
  unfolding sum_where_def by (rule at_scale_sum_list) auto

lemma quantize_at_scale: "at_scale n (quantize x (1 / 10 ^ n))"
  by (auto simp: at_scale_iff quantize_def)

lemma quantize_id: "at_scale n x \<Longrightarrow> quantize x (1 / 10 ^ n) = x"
  by (auto simp: at_scale_iff quantize_def)

lemma quantize_error: "\<bar>quantize x (1 / 10 ^ n) - x\<bar> \<le> (1/2) / 10 ^ n"
proof -
  let ?d = "of_int (round_half_up (x * 10 ^ n)) - x * 10 ^ n"
  have "quantize x (1 / 10 ^ n) - x = ?d / 10 ^ n"
    by (simp add: quantize_def diff_divide_distrib)
  then have "\<bar>quantize x (1 / 10 ^ n) - x\<bar> = \<bar>?d\<bar> / 10 ^ n"
    by (simp add: abs_divide)
  also have "\<dots> \<le> (1/2) / 10 ^ n"
    by (rule divide_right_mono [OF round_half_up_error]) simp
  finally show ?thesis .
qed

lemma quantize_mono: "0 < s \<Longrightarrow> x \<le> y \<Longrightarrow> quantize x s \<le> quantize y s"
  by (simp add: quantize_def round_half_up_mono divide_right_mono mult_right_mono)

lemma quantize_minus: "quantize (- x) s = - quantize x s"
  by (simp add: quantize_def round_half_up_minus)

lemma scale_powers:
  "MONEY_SCALE = 1 / 10 ^ 2" "QUANTITY_SCALE = 1 / 10 ^ 3" "PERCENT_SCALE = 1 / 10 ^ 2"
  by (simp_all add: MONEY_SCALE_def QUANTITY_SCALE_def PERCENT_SCALE_def)

lemmas to_scale_defs = to_money_def to_quantity_def to_percent_def scale_powers

lemma to_money_is_money [simp, decimal_intros]: "is_money (to_money x)"
  and to_quantity_is_quantity [simp, decimal_intros]: "is_quantity (to_quantity x)"
  and to_percent_is_percent [simp, decimal_intros]: "is_percent (to_percent x)"
  unfolding to_scale_defs by (rule quantize_at_scale)+

lemma to_money_id [simp]: "is_money x \<Longrightarrow> to_money x = x"
  and to_quantity_id [simp]: "is_quantity x \<Longrightarrow> to_quantity x = x"
  and to_percent_id [simp]: "is_percent x \<Longrightarrow> to_percent x = x"
  unfolding to_scale_defs by (rule quantize_id, assumption)+

lemma to_money_zero [simp]: "to_money 0 = 0"
  and to_quantity_zero [simp]: "to_quantity 0 = 0"
  by simp_all

lemma to_money_mono: "x \<le> y \<Longrightarrow> to_money x \<le> to_money y"
  and to_quantity_mono: "x \<le> y \<Longrightarrow> to_quantity x \<le> to_quantity y"
  and to_percent_mono: "x \<le> y \<Longrightarrow> to_percent x \<le> to_percent y"
  unfolding to_scale_defs by (rule quantize_mono; simp)+

lemma to_money_nonneg: "0 \<le> x \<Longrightarrow> 0 \<le> to_money x"
  and to_quantity_nonneg: "0 \<le> x \<Longrightarrow> 0 \<le> to_quantity x"
  and to_percent_nonneg: "0 \<le> x \<Longrightarrow> 0 \<le> to_percent x"
  using to_money_mono [of 0 x] to_quantity_mono [of 0 x] to_percent_mono [of 0 x] by simp_all

lemma to_money_minus: "to_money (- x) = - to_money x"
  and to_quantity_minus: "to_quantity (- x) = - to_quantity x"
  unfolding to_scale_defs by (rule quantize_minus)+

lemma to_money_error: "\<bar>to_money x - x\<bar> \<le> 1/200"
  using quantize_error [of x 2] by (simp add: to_scale_defs)

lemma to_money_le_money: "x \<le> y \<Longrightarrow> is_money y \<Longrightarrow> to_money x \<le> y"
  using to_money_mono [of x y] by simp


section \<open>The 28-digit context\<close>

text \<open>
  The context keeps 28 significant digits, rounding half-even.  \<open>scale28 x\<close> is the power of
  ten \<open>d\<close> (of type int) with \<open>10 ^ 27 \<le> x * 10 ^ d < 10 ^ 28\<close> for positive \<open>x\<close>: first the
  digits of the integer part are counted, then a value below one is multiplied up.
\<close>

fun int_digits :: "nat \<Rightarrow> nat" where
  "int_digits n = (if n < 10 then 1 else Suc (int_digits (n div 10)))"

declare int_digits.simps [simp del]

definition round_half_even :: "decimal \<Rightarrow> int" where
  "round_half_even x =
     (let f = \<lfloor>x\<rfloor>; r = x - of_int f
      in if r < 1/2 then f else if 1/2 < r then f + 1 else if even f then f else f + 1)"

function leading_zeros :: "decimal \<Rightarrow> nat" where
  "leading_zeros x = (if 0 < x \<and> x < 1 then Suc (leading_zeros (10 * x)) else 0)"
  by pat_completeness auto
termination
proof (relation "measure (\<lambda>x. nat \<lceil>1 / x\<rceil>)")
  fix x :: decimal
  assume x: "0 < x \<and> x < 1"
  then have "1 < \<lceil>1 / x\<rceil>" by (simp add: less_ceiling_iff field_simps)
  moreover have "\<lceil>1 / (10 * x)\<rceil> \<le> \<lceil>1 / x\<rceil> - 1"
  proof -
    have "1 / (10 * x) = (1 / x) / 10" by simp
    also have "\<dots> \<le> of_int \<lceil>1 / x\<rceil> / 10" by (simp add: divide_right_mono)
    also have "\<dots> \<le> of_int (\<lceil>1 / x\<rceil> - 1)"
    proof -
      define c where "c = \<lceil>1 / x\<rceil>"
      have "2 \<le> c" using \<open>1 < \<lceil>1 / x\<rceil>\<close> unfolding c_def by linarith
      then have "(2::rat) \<le> of_int c" by linarith
      then show ?thesis unfolding c_def [symmetric] by simp
    qed
    finally show ?thesis by (simp only: ceiling_le_iff)
  qed
  ultimately show "(10 * x, x) \<in> measure (\<lambda>x. nat \<lceil>1 / x\<rceil>)"
    using x by simp
qed simp

declare leading_zeros.simps [simp del]

definition ctx28 :: "decimal \<Rightarrow> decimal" where
  "ctx28 x =
     (let a = \<bar>x\<bar>
      in if a = 0 then 0
         else if 1 \<le> a then
           (let d = int_digits (nat \<lfloor>a\<rfloor>)
            in sgn x * of_int (round_half_even (a * 10 ^ 28 / 10 ^ d)) * 10 ^ d / 10 ^ 28)
         else
           (let z = leading_zeros a
            in sgn x * of_int (round_half_even (a * 10 ^ (z + 27))) / 10 ^ (z + 27)))"

definition dec_div :: "decimal \<Rightarrow> decimal \<Rightarrow> decimal" where
  "dec_div x y = ctx28 (x / y)"

lemma round_half_even_of_int [simp]: "round_half_even (of_int k) = k"
  by (simp add: round_half_even_def Let_def)

lemma int_digits_bounds: "n < 10 ^ int_digits n"
proof (induction n rule: int_digits.induct)
  case (1 n)
  show ?case
  proof (cases "n < 10")
    case True
    then show ?thesis by (simp add: int_digits.simps [of n])
  next
    case False
    then have "n div 10 < 10 ^ int_digits (n div 10)" using 1 by simp
    then have "n < 10 * 10 ^ int_digits (n div 10)" by linarith
    then show ?thesis using False by (simp add: int_digits.simps [of n])
  qed
qed

lemma int_digits_le: "n < 10 ^ d \<Longrightarrow> 0 < d \<Longrightarrow> int_digits n \<le> d"
proof (induction n arbitrary: d rule: int_digits.induct)
  case (1 n)
  show ?case
  proof (cases "n < 10")
    case True
    then show ?thesis using 1 by (simp add: int_digits.simps [of n])
  next
    case False
    then obtain d' where d: "d = Suc d'" "0 < d'"
      using "1.prems" by (cases d; cases "d - 1") auto
    have "n div 10 < 10 ^ d'" using "1.prems" d by (simp add: less_mult_imp_div_less mult.commute)
    then show ?thesis using 1 False d by (simp add: int_digits.simps [of n])
  qed
qed

text \<open>
  A value with \<open>n\<close> decimal places whose unscaled coefficient has at most 28 digits is kept
  exactly: for a value of at least one, \<open>int_digits + n \<le> 28\<close>.
\<close>

lemma sgn_times_abs: "sgn x * \<bar>x\<bar> = (x :: rat)"
  by (simp add: sgn_if)

lemma ctx28_exact:
  assumes "at_scale n x" "\<bar>x\<bar> < 10 ^ i" "0 < i" "i + n \<le> 28" "n \<le> 27"
  shows "ctx28 x = x"
proof (cases "1 \<le> \<bar>x\<bar>")
  case True
  let ?d = "int_digits (nat \<lfloor>\<bar>x\<bar>\<rfloor>)"
  have "\<lfloor>\<bar>x\<bar>\<rfloor> < 10 ^ i" using assms(2) by (simp add: floor_less_iff)
  then have "nat \<lfloor>\<bar>x\<bar>\<rfloor> < 10 ^ i" using True by (simp add: nat_less_iff)
  then have d: "?d \<le> i" using assms(3) by (rule int_digits_le)
  obtain k where k: "\<bar>x\<bar> = of_int k / 10 ^ n"
    using at_scale_abs [OF assms(1)] by (auto simp: at_scale_iff)
  have "\<bar>x\<bar> * 10 ^ 28 / 10 ^ ?d = of_int (k * 10 ^ (28 - ?d - n))"
  proof -
    have "(10::rat) ^ 28 = 10 ^ (28 - ?d - n) * 10 ^ n * 10 ^ ?d"
      using d assms(4) by (simp flip: power_add)
    then show ?thesis by (simp add: k del: power_numeral)
  qed
  then have "of_int (round_half_even (\<bar>x\<bar> * 10 ^ 28 / 10 ^ ?d)) = \<bar>x\<bar> * 10 ^ 28 / 10 ^ ?d"
    by (metis round_half_even_of_int)
  then show ?thesis using True by (simp add: ctx28_def Let_def sgn_times_abs)
next
  case False
  show ?thesis
  proof (cases "x = 0")
    case True
    then show ?thesis by (simp add: ctx28_def)
  next
    case nz: False
    let ?z = "leading_zeros \<bar>x\<bar> + 27"
    obtain k where k: "\<bar>x\<bar> = of_int k / 10 ^ n"
      using at_scale_abs [OF assms(1)] by (auto simp: at_scale_iff)
    have "(10::rat) ^ ?z = 10 ^ (?z - n) * 10 ^ n"
      using assms(5) by (simp flip: power_add)
    then have "\<bar>x\<bar> * 10 ^ ?z = of_int (k * 10 ^ (?z - n))"
      by (simp add: k)
    then have "of_int (round_half_even (\<bar>x\<bar> * 10 ^ ?z)) = \<bar>x\<bar> * 10 ^ ?z"
      by (metis round_half_even_of_int)
    then show ?thesis using nz False by (simp add: ctx28_def Let_def sgn_times_abs)
  qed
qed

lemma ctx28_one [simp]: "ctx28 1 = 1"
  by (rule ctx28_exact [of 0 _ 1]) (simp_all add: at_scale_def)

lemma dec_div_self: "x \<noteq> 0 \<Longrightarrow> dec_div x x = 1"
  by (simp add: dec_div_def)

text \<open>
  \<open>quantize\<close> raises \<^verbatim>\<open>InvalidOperation\<close> for a result of more than 28 digits: at two decimal places,
  one of \<open>10 ^ 26\<close> or more.
\<close>

definition quantizable :: "decimal \<Rightarrow> bool" where
  "quantizable x \<longleftrightarrow> \<bar>x\<bar> < 10 ^ 26"

text \<open>Column bounds: NUMERIC(14,2), NUMERIC(14,3), NUMERIC(5,2).\<close>

definition fits_money :: "decimal \<Rightarrow> bool" where
  "fits_money x \<longleftrightarrow> is_money x \<and> \<bar>x\<bar> < 10 ^ 12"

definition fits_quantity :: "decimal \<Rightarrow> bool" where
  "fits_quantity x \<longleftrightarrow> is_quantity x \<and> \<bar>x\<bar> < 10 ^ 11"

definition fits_percent :: "decimal \<Rightarrow> bool" where
  "fits_percent x \<longleftrightarrow> is_percent x \<and> \<bar>x\<bar> < 10 ^ 3"

lemma at_scale_mult: "at_scale m x \<Longrightarrow> at_scale n y \<Longrightarrow> at_scale (m + n) (x * y)"
  unfolding at_scale_iff by (metis of_int_mult power_add times_divide_times_eq)

lemma money_times_quantity_exact:
  "fits_money p \<Longrightarrow> fits_quantity q \<Longrightarrow> ctx28 (p * q) = p * q"
proof -
  assume p: "fits_money p" and q: "fits_quantity q"
  have "\<bar>p * q\<bar> < 10 ^ 12 * 10 ^ 11"
    using p q unfolding fits_money_def fits_quantity_def abs_mult
    by (intro mult_strict_mono') auto
  then show ?thesis
    using at_scale_mult [of 2 p 3 q] p q
    by (intro ctx28_exact [of 5 _ 23]) (simp_all add: fits_money_def fits_quantity_def)
qed

lemma money_times_percent_exact:
  "fits_money t \<Longrightarrow> fits_percent r \<Longrightarrow> ctx28 (t * r) = t * r \<and> ctx28 (t * r / 100) = t * r / 100"
proof -
  assume t: "fits_money t" and r: "fits_percent r"
  have le: "\<bar>t * r\<bar> < 10 ^ 12 * 10 ^ 3"
    using t r unfolding fits_money_def fits_percent_def abs_mult
    by (intro mult_strict_mono') auto
  have sc: "at_scale 4 (t * r)"
    using at_scale_mult [of 2 t 2 r] t r by (simp add: fits_money_def fits_percent_def)
  have "at_scale 2 (1/100)" by (simp add: at_scale_def)
  then have sc': "at_scale 6 (t * r / 100)"
    using at_scale_mult [OF sc, of 2 "1/100"] by simp
  have "ctx28 (t * r) = t * r"
    using sc le by (intro ctx28_exact [of 4 _ 15]) simp_all
  moreover have "ctx28 (t * r / 100) = t * r / 100"
    using sc' le by (intro ctx28_exact [of 6 _ 15]) (simp_all add: abs_divide)
  ultimately show ?thesis by simp
qed

end
