(* ===== verification/Dates.thy ===== *)
theory Dates
  imports Prelude
begin

text \<open>
  Dates and strings: the part of Python's \<^verbatim>\<open>datetime.date\<close> and \<^verbatim>\<open>str\<close> the modelled code uses.
  A date is year, month and day, ordered as Python orders them; \<open>toordinal\<close> is the day number
  that \<^verbatim>\<open>(d - e).days\<close> subtracts.  Decimal numerals are printed and read digit by digit.
\<close>


section \<open>Dates\<close>

datatype date = Date (d_year: int) (d_month: int) (d_day: int)

instantiation date :: linorder
begin

definition less_eq_date :: "date \<Rightarrow> date \<Rightarrow> bool" where
  "less_eq_date a b \<longleftrightarrow>
     d_year a < d_year b \<or>
     (d_year a = d_year b \<and>
       (d_month a < d_month b \<or> (d_month a = d_month b \<and> d_day a \<le> d_day b)))"

definition less_date :: "date \<Rightarrow> date \<Rightarrow> bool" where
  "less_date a b \<longleftrightarrow> a \<le> b \<and> \<not> (b :: date) \<le> a"

instance
proof
  fix a b :: date
  show "a \<le> b \<Longrightarrow> b \<le> a \<Longrightarrow> a = b"
    by (cases a; cases b) (auto simp: less_eq_date_def)
qed (auto simp: less_eq_date_def less_date_def)

end

definition is_leap :: "int \<Rightarrow> bool" where
  "is_leap y \<longleftrightarrow> y mod 4 = 0 \<and> (y mod 100 \<noteq> 0 \<or> y mod 400 = 0)"

definition days_in_month :: "int \<Rightarrow> int \<Rightarrow> int" where
  "days_in_month y m =
     (if m = 2 then (if is_leap y then 29 else 28)
      else if m \<in> {4, 6, 9, 11} then 30 else 31)"

definition valid_date :: "date \<Rightarrow> bool" where
  "valid_date d \<longleftrightarrow>
     1 \<le> d_year d \<and> d_year d \<le> 9999 \<and> 1 \<le> d_month d \<and> d_month d \<le> 12 \<and>
     1 \<le> d_day d \<and> d_day d \<le> days_in_month (d_year d) (d_month d)"

definition days_before_year :: "int \<Rightarrow> int" where
  "days_before_year y = (let p = y - 1 in p * 365 + p div 4 - p div 100 + p div 400)"

definition days_before_month :: "int \<Rightarrow> int \<Rightarrow> int" where
  "days_before_month y m =
     (if m \<le> 1 then 0 else if m = 2 then 31
      else (if m = 3 then 59 else if m = 4 then 90 else if m = 5 then 120 else if m = 6 then 151
            else if m = 7 then 181 else if m = 8 then 212 else if m = 9 then 243
            else if m = 10 then 273 else if m = 11 then 304 else 334)
           + (if is_leap y then 1 else 0))"

definition toordinal :: "date \<Rightarrow> int" where
  "toordinal d =
     days_before_year (d_year d) + days_before_month (d_year d) (d_month d) + d_day d"

text \<open>\<^verbatim>\<open>(a - b).days\<close>\<close>

definition days_between :: "date \<Rightarrow> date \<Rightarrow> int" where
  "days_between a b = toordinal a - toordinal b"

lemma div_step:
  assumes "0 < (k::int)"
  shows "(y - 1) div k = (if y mod k = 0 then y div k - 1 else y div k)"
proof (cases "y mod k = 0")
  case True
  then have "y - 1 = k * (y div k - 1) + (k - 1)"
    using mult_div_mod_eq [of k y] by (simp add: algebra_simps)
  then have "(y - 1) div k = y div k - 1"
    using assms by (intro int_div_pos_eq [where r = "k - 1"]) auto
  then show ?thesis using True by simp
next
  case False
  moreover have "0 \<le> y mod k" "y mod k < k" using assms by simp_all
  ultimately have "0 \<le> y mod k - 1" "y mod k - 1 < k" by linarith+
  moreover have "y - 1 = k * (y div k) + (y mod k - 1)"
    using mult_div_mod_eq [of k y] by linarith
  ultimately have "(y - 1) div k = y div k"
    by (intro int_div_pos_eq [where r = "y mod k - 1"]) auto
  then show ?thesis using False by simp
qed

lemma century_leap: "(y::int) mod 400 = 0 \<Longrightarrow> y mod 100 = 0" "(y::int) mod 100 = 0 \<Longrightarrow> y mod 4 = 0"
  by (auto simp flip: dvd_eq_mod_eq_0 intro: dvd_trans [of _ "100" y] dvd_trans [of _ "400" y])

lemma days_before_year_Suc:
  "days_before_year (y + 1) = days_before_year y + (if is_leap y then 366 else 365)"
  using century_leap [of y]
  by (auto simp: days_before_year_def is_leap_def Let_def div_step)

lemma days_before_year_add: "days_before_year a + 365 * int n \<le> days_before_year (a + int n)"
proof (induction n)
  case (Suc n)
  then show ?case
    using days_before_year_Suc [of "a + int n"] by (auto simp: algebra_simps split: if_splits)
qed simp

lemma days_before_year_mono: "a \<le> b \<Longrightarrow> days_before_year a + 365 * (b - a) \<le> days_before_year b"
  using days_before_year_add [of a "nat (b - a)"] by simp

lemma month_cases:
  "1 \<le> m \<Longrightarrow> m \<le> 12 \<Longrightarrow>
   (m::int) = 1 \<or> m = 2 \<or> m = 3 \<or> m = 4 \<or> m = 5 \<or> m = 6 \<or> m = 7 \<or> m = 8 \<or> m = 9 \<or> m = 10 \<or> m = 11 \<or> m = 12"
  by arith

lemma month_bounds:
  assumes "valid_date d"
  shows "1 \<le> days_before_month (d_year d) (d_month d) + d_day d"
    and "days_before_month (d_year d) (d_month d) + d_day d
           \<le> (if is_leap (d_year d) then 366 else 365)"
proof -
  have "1 \<le> d_month d" "d_month d \<le> 12" using assms by (simp_all add: valid_date_def)
  from month_cases [OF this] assms
  show "1 \<le> days_before_month (d_year d) (d_month d) + d_day d"
    and "days_before_month (d_year d) (d_month d) + d_day d
           \<le> (if is_leap (d_year d) then 366 else 365)"
    by (elim disjE; simp add: valid_date_def days_in_month_def days_before_month_def
        split: if_splits)+
qed

lemma days_before_month_step:
  "1 \<le> m \<Longrightarrow> m < 12 \<Longrightarrow> days_before_month y m + days_in_month y m = days_before_month y (m + 1)"
proof -
  assume "1 \<le> m" "m < 12"
  then have "1 \<le> m" "m \<le> 12" "m \<noteq> 12" by simp_all
  from month_cases [OF this(1,2)] this(3) show ?thesis
    by (elim disjE; simp add: days_in_month_def days_before_month_def)
qed

lemma days_before_month_add:
  "1 \<le> m \<Longrightarrow> m + int n \<le> 12 \<Longrightarrow> days_before_month y m \<le> days_before_month y (m + int n)"
proof (induction n)
  case (Suc n)
  have "0 \<le> days_in_month y (m + int n)" by (simp add: days_in_month_def)
  then show ?case
    using Suc days_before_month_step [of "m + int n" y] by (simp add: algebra_simps)
qed simp

lemma days_before_month_mono:
  "1 \<le> m \<Longrightarrow> m \<le> n \<Longrightarrow> n \<le> 12 \<Longrightarrow> days_before_month y m \<le> days_before_month y n"
  using days_before_month_add [of m "nat (n - m)" y] by simp

lemma month_step:
  assumes "valid_date a" "d_month a < m" "m \<le> 12"
  shows "days_before_month (d_year a) (d_month a) + d_day a \<le> days_before_month (d_year a) m"
proof -
  have "days_before_month (d_year a) (d_month a) + d_day a
      \<le> days_before_month (d_year a) (d_month a + 1)"
    using assms days_before_month_step [of "d_month a" "d_year a"] by (auto simp: valid_date_def)
  also have "\<dots> \<le> days_before_month (d_year a) m"
    using assms by (intro days_before_month_mono) (auto simp: valid_date_def)
  finally show ?thesis .
qed

lemma toordinal_strict_mono:
  assumes "valid_date a" "valid_date b" "a < b"
  shows "toordinal a < toordinal b"
proof -
  have lt: "d_year a < d_year b \<or> (d_year a = d_year b \<and>
      (d_month a < d_month b \<or> (d_month a = d_month b \<and> d_day a < d_day b)))"
    using assms(3) by (auto simp: less_date_def less_eq_date_def)
  then consider (year) "d_year a < d_year b"
    | (month) "d_year a = d_year b" "d_month a < d_month b"
    | (day) "d_year a = d_year b" "d_month a = d_month b" "d_day a < d_day b" by blast
  then show ?thesis
  proof cases
    case year
    have "toordinal a \<le> days_before_year (d_year a + 1)"
      using month_bounds(2) [OF assms(1)] by (simp add: toordinal_def days_before_year_Suc)
    also have "\<dots> \<le> days_before_year (d_year b)"
      using days_before_year_mono [of "d_year a + 1" "d_year b"] year by simp
    also have "\<dots> < toordinal b"
      using month_bounds(1) [OF assms(2)] by (simp add: toordinal_def)
    finally show ?thesis .
  next
    case month
    then show ?thesis
      using month_step [OF assms(1), of "d_month b"] assms(2)
      by (simp add: toordinal_def valid_date_def)
  next
    case day
    then show ?thesis by (simp add: toordinal_def)
  qed
qed

lemma days_between_nonneg:
  "valid_date a \<Longrightarrow> valid_date b \<Longrightarrow> b \<le> a \<Longrightarrow> 0 \<le> days_between a b"
  using toordinal_strict_mono [of b a] by (cases "a = b") (auto simp: days_between_def less_le)

lemma days_between_mono:
  "valid_date a \<Longrightarrow> valid_date b \<Longrightarrow> a \<le> b \<Longrightarrow> days_between c b \<le> days_between c a"
  using toordinal_strict_mono [of a b] by (cases "a = b") (auto simp: days_between_def less_le)


section \<open>The environment of a call\<close>

text \<open>
  \<^verbatim>\<open>timezone.now()\<close> (in microseconds), \<^verbatim>\<open>timezone.localdate()\<close> and \<^verbatim>\<open>date.today()\<close> at the call,
  and the request id of \<^verbatim>\<open>core/context.py\<close>: what a service reads from outside its arguments.
\<close>

record env =
  now :: int
  today :: date
  request_id :: string


section \<open>Decimal numerals\<close>

definition digit_char :: "nat \<Rightarrow> char" where
  "digit_char n = char_of (48 + n)"

definition is_digit :: "char \<Rightarrow> bool" where
  "is_digit c \<longleftrightarrow> 48 \<le> (of_char c :: nat) \<and> (of_char c :: nat) \<le> 57"

definition char_digit :: "char \<Rightarrow> nat" where
  "char_digit c = of_char c - 48"

text \<open>\<^verbatim>\<open>str(n)\<close> for a natural number.\<close>

fun str_nat :: "nat \<Rightarrow> string" where
  "str_nat n = (if n < 10 then [digit_char n] else str_nat (n div 10) @ [digit_char (n mod 10)])"

declare str_nat.simps [simp del]

definition str_int :: "int \<Rightarrow> string" where
  "str_int i = (if i < 0 then CHR ''-'' # str_nat (nat (- i)) else str_nat (nat i))"

text \<open>\<^verbatim>\<open>f"{n:0{w}d}"\<close>: at least \<open>w\<close> digits, padded with zeros.\<close>

definition zero_pad :: "nat \<Rightarrow> nat \<Rightarrow> string" where
  "zero_pad w n = (let s = str_nat n in replicate (w - length s) CHR ''0'' @ s)"

definition nat_of_str :: "string \<Rightarrow> nat" where
  "nat_of_str s = foldl (\<lambda>acc c. 10 * acc + char_digit c) 0 s"

lemma of_char_digit_char: "n < 10 \<Longrightarrow> (of_char (digit_char n) :: nat) = 48 + n"
  by (simp add: digit_char_def)

lemma char_digit_digit_char [simp]: "n < 10 \<Longrightarrow> char_digit (digit_char n) = n"
  by (simp add: char_digit_def of_char_digit_char)

lemma is_digit_digit_char [simp]: "n < 10 \<Longrightarrow> is_digit (digit_char n)"
  by (simp add: is_digit_def of_char_digit_char)

lemma str_nat_digits: "\<forall>c \<in> set (str_nat n). is_digit c"
proof (induction n rule: str_nat.induct)
  case (1 n)
  then show ?case by (cases "n < 10") (auto simp: str_nat.simps [of n])
qed

lemma str_nat_nonempty [simp]: "str_nat n \<noteq> []"
  by (simp add: str_nat.simps [of n])

lemma nat_of_str_snoc: "nat_of_str (s @ [c]) = 10 * nat_of_str s + char_digit c"
  by (simp add: nat_of_str_def)

lemma nat_of_str_str_nat [simp]: "nat_of_str (str_nat n) = n"
proof (induction n rule: str_nat.induct)
  case (1 n)
  show ?case
  proof (cases "n < 10")
    case True
    then show ?thesis by (simp add: str_nat.simps [of n] nat_of_str_def)
  next
    case False
    then show ?thesis using 1 by (simp add: str_nat.simps [of n] nat_of_str_snoc)
  qed
qed

lemma foldl_zeros:
  "foldl (\<lambda>acc c. 10 * acc + char_digit c) 0 (replicate k CHR ''0'' @ s) = nat_of_str s"
  by (induction k) (simp_all add: nat_of_str_def char_digit_def)

lemma nat_of_str_zero_pad [simp]: "nat_of_str (zero_pad w n) = n"
  unfolding zero_pad_def Let_def nat_of_str_def by (simp add: foldl_zeros [unfolded foldl_append])

lemma zero_pad_inj: "zero_pad w m = zero_pad w n \<Longrightarrow> m = n"
  by (metis nat_of_str_zero_pad)

lemma zero_pad_length: "w \<le> length (zero_pad w n)"
  by (simp add: zero_pad_def Let_def)

lemma str_nat_inj: "str_nat m = str_nat n \<Longrightarrow> m = n"
  by (metis nat_of_str_str_nat)


section \<open>Strings\<close>

text \<open>
  \<^verbatim>\<open>str.strip()\<close> and \<^verbatim>\<open>str.upper()\<close> on ASCII text: the white space is the six ASCII
  characters and the four separators 28 to 31 that Python's \<^verbatim>\<open>isspace\<close> counts below 128.
\<close>

definition is_space :: "char \<Rightarrow> bool" where
  "is_space c \<longleftrightarrow> (let n = (of_char c :: nat) in (9 \<le> n \<and> n \<le> 13) \<or> (28 \<le> n \<and> n \<le> 32))"

definition strip :: "string \<Rightarrow> string" where
  "strip s = rev (dropWhile is_space (rev (dropWhile is_space s)))"

definition upper_char :: "char \<Rightarrow> char" where
  "upper_char c = (let n = (of_char c :: nat) in if 97 \<le> n \<and> n \<le> 122 then char_of (n - 32) else c)"

definition lower_char :: "char \<Rightarrow> char" where
  "lower_char c = (let n = (of_char c :: nat) in if 65 \<le> n \<and> n \<le> 90 then char_of (n + 32) else c)"

definition upper :: "string \<Rightarrow> string" where
  "upper s = map upper_char s"

definition lower :: "string \<Rightarrow> string" where
  "lower s = map lower_char s"

text \<open>The database's \<^verbatim>\<open>icontains\<close>: the term occurs, whatever the case.\<close>

definition icontains :: "string \<Rightarrow> string \<Rightarrow> bool" where
  "icontains term s = list_ex (\<lambda>k. take (length term) (drop k (lower s)) = lower term) [0..<Suc (length s)]"

text \<open>\<^verbatim>\<open>sep.join(parts)\<close>\<close>

fun join :: "string \<Rightarrow> string list \<Rightarrow> string" where
  "join sep [] = ''''"
| "join sep [s] = s"
| "join sep (s # t # ss) = s @ sep @ join sep (t # ss)"

lemma strip_Nil [simp]: "strip [] = []"
  by (simp add: strip_def)

lemma dropWhile_idem: "dropWhile p (dropWhile p xs) = dropWhile p xs"
  by (induction xs) auto

lemma strip_strip [simp]: "strip (strip s) = strip s"
proof -
  let ?t = "dropWhile is_space s"
  have "dropWhile is_space (rev (dropWhile is_space (rev ?t))) = rev (dropWhile is_space (rev ?t))"
  proof (cases "rev (dropWhile is_space (rev ?t))")
    case (Cons c cs)
    have "?t \<noteq> []" using Cons by (intro notI) simp
    then have h: "\<not> is_space (hd ?t)" by (simp add: hd_dropWhile)
    obtain pre where "?t = rev (dropWhile is_space (rev ?t)) @ pre"
      by (metis rev_append rev_rev_ident takeWhile_dropWhile_id)
    then have "hd ?t = c" using Cons by (metis append_Cons list.sel(1))
    then show ?thesis using h Cons by simp
  next
    case Nil
    then show ?thesis by (simp only: dropWhile.simps)
  qed
  then show ?thesis by (simp add: strip_def dropWhile_idem)
qed

lemma upper_idem [simp]: "upper (upper s) = upper s"
proof -
  have "upper_char (upper_char c) = upper_char c" for c
    by (auto simp: upper_char_def Let_def of_char_of take_bit_eq_mod)
  then show ?thesis by (simp add: upper_def comp_def)
qed

text \<open>\<^verbatim>\<open>str(date)\<close>, for the years 1 to 9999 a Python date has.\<close>

definition date_str :: "date \<Rightarrow> string" where
  "date_str d = zero_pad 4 (nat (d_year d)) @ ''-'' @ zero_pad 2 (nat (d_month d)) @ ''-'' @ zero_pad 2 (nat (d_day d))"

end
