(* ===== verification/Walk.thy ===== *)
theory Walk
  imports Decimals Dates
begin

text \<open>
  The FIFO application walk of \<^verbatim>\<open>ledger/walk.py\<close>, shared by receivables and payables.

  The dictionary \<^verbatim>\<open>unclaimed\<close> is a map, filled in the order of the entries (a later entry of
  the same key replaces an earlier one).  \<^verbatim>\<open>debit_by_target\<close> holds references to the mutable
  debits of the list; here it maps a document to the debit's position, and a reduction updates
  the list at that position.  The reduction targets are an association list.
\<close>

record ledger_row =
  lr_pk :: nat
  lr_entry_date :: date
  lr_entry_type :: string
  lr_amount :: decimal
  lr_narration :: string
  lr_source_type :: string
  lr_source_id :: "nat option"

record walk_policy =
  wp_adjustment_type :: string
  wp_annullable_source_types :: "string list"
  wp_reducing_type :: string
  wp_target_type :: string

record debit =
  db_entry_id :: nat
  db_entry_date :: date
  db_entry_type :: string
  db_narration :: string
  db_source_id :: "nat option"
  db_original_amount :: decimal
  db_remaining :: decimal

record open_item =
  oi_entry_id :: nat
  oi_entry_date :: date
  oi_entry_type :: string
  oi_document :: string
  oi_original_amount :: decimal
  oi_outstanding_amount :: decimal
  oi_age_days :: int

record position =
  po_party_id :: nat
  po_as_of :: date
  po_open_items :: "open_item list"
  po_total_outstanding :: decimal
  po_credit_on_account :: decimal
  po_balance :: decimal


section \<open>Annulment\<close>

type_synonym doc_key = "string \<times> nat"

fun unclaimed_from :: "ledger_row list \<Rightarrow> (doc_key \<Rightarrow> ledger_row option) \<Rightarrow> doc_key \<Rightarrow> ledger_row option" where
  "unclaimed_from [] m = m"
| "unclaimed_from (e # es) m =
     unclaimed_from es
       (case lr_source_id e of None \<Rightarrow> m
        | Some i \<Rightarrow> if lr_entry_type e = lr_source_type e then m((lr_source_type e, i) := Some e) else m)"

definition unclaimed :: "ledger_row list \<Rightarrow> doc_key \<Rightarrow> ledger_row option" where
  "unclaimed entries = unclaimed_from entries (\<lambda>_. None)"

fun annul_loop ::
  "walk_policy \<Rightarrow> ledger_row list \<Rightarrow> (doc_key \<Rightarrow> ledger_row option) \<Rightarrow> nat set \<Rightarrow> nat set" where
  "annul_loop pol [] m annulled = annulled"
| "annul_loop pol (e # es) m annulled =
     (if lr_entry_type e \<noteq> wp_adjustment_type pol then annul_loop pol es m annulled
      else if lr_source_type e \<notin> set (wp_annullable_source_types pol) then annul_loop pol es m annulled
      else case lr_source_id e of None \<Rightarrow> annul_loop pol es m annulled
      | Some i \<Rightarrow>
         (let key = (lr_source_type e, i)
          in case m key of None \<Rightarrow> annul_loop pol es m annulled
             | Some target \<Rightarrow>
                 if lr_amount e + lr_amount target \<noteq> 0 then annul_loop pol es m annulled
                 else annul_loop pol es (m(key := None))
                        (insert (lr_pk target) (insert (lr_pk e) annulled))))"

definition annulled_entry_ids :: "ledger_row list \<Rightarrow> walk_policy \<Rightarrow> nat set" where
  "annulled_entry_ids entries pol = annul_loop pol entries (unclaimed entries) {}"


section \<open>Reduce and settle\<close>

definition debit_of :: "ledger_row \<Rightarrow> debit" where
  "debit_of e = \<lparr>db_entry_id = lr_pk e, db_entry_date = lr_entry_date e,
     db_entry_type = lr_entry_type e, db_narration = lr_narration e,
     db_source_id = lr_source_id e, db_original_amount = lr_amount e,
     db_remaining = lr_amount e\<rparr>"

definition debits_of :: "ledger_row list \<Rightarrow> debit list" where
  "debits_of live = map debit_of (filter (\<lambda>e. lr_amount e > 0) live)"

text \<open>The position of the last debit of the target type for a document.\<close>

fun target_index :: "walk_policy \<Rightarrow> nat \<Rightarrow> debit list \<Rightarrow> nat \<Rightarrow> nat option" where
  "target_index pol n [] doc = None"
| "target_index pol n (d # ds) doc =
     (case target_index pol (Suc n) ds doc of Some i \<Rightarrow> Some i
      | None \<Rightarrow> if db_entry_type d = wp_target_type pol \<and> db_source_id d = Some doc
                then Some n else None)"

definition debit_by_target :: "walk_policy \<Rightarrow> debit list \<Rightarrow> nat \<Rightarrow> nat option" where
  "debit_by_target pol debits doc = target_index pol 0 debits doc"

definition resolve_target ::
  "walk_policy \<Rightarrow> debit list \<Rightarrow> (nat \<times> nat) list \<Rightarrow> ledger_row \<Rightarrow> nat option" where
  "resolve_target pol debits targets e =
     (case map_of targets (case lr_source_id e of None \<Rightarrow> 0 | Some i \<Rightarrow> i) of
        None \<Rightarrow> None
      | Some pk \<Rightarrow> if pk = 0 then None else debit_by_target pol debits pk)"

text \<open>The third step.  The index is looked up in the debits as first built: a reduction changes
  only \<^verbatim>\<open>remaining\<close>.\<close>

fun reduce_loop ::
  "(ledger_row \<Rightarrow> nat option) \<Rightarrow> walk_policy \<Rightarrow> ledger_row list \<Rightarrow> debit list \<times> decimal \<Rightarrow>
   debit list \<times> decimal" where
  "reduce_loop target pol [] (debits, pool) = (debits, pool)"
| "reduce_loop target pol (e # es) (debits, pool) =
     (if lr_entry_type e \<noteq> wp_reducing_type pol then reduce_loop target pol es (debits, pool)
      else
        let credited = \<bar>lr_amount e\<bar>
        in case target e of None \<Rightarrow> reduce_loop target pol es (debits, pool + credited)
           | Some i \<Rightarrow>
               let applied = min credited (db_remaining (debits ! i))
               in reduce_loop target pol es
                    (debits[i := (debits ! i)\<lparr>db_remaining := db_remaining (debits ! i) - applied\<rparr>],
                     pool + (credited - applied)))"

fun settle_loop :: "debit list \<Rightarrow> decimal \<Rightarrow> debit list \<times> decimal" where
  "settle_loop [] pool = ([], pool)"
| "settle_loop (d # ds) pool =
     (if pool \<le> 0 then (d # ds, pool)
      else
        let applied = min pool (db_remaining d);
            (ds', pool') = settle_loop ds (pool - applied)
        in (d\<lparr>db_remaining := db_remaining d - applied\<rparr> # ds', pool'))"

definition open_item_of :: "date \<Rightarrow> debit \<Rightarrow> open_item" where
  "open_item_of as_of d = \<lparr>oi_entry_id = db_entry_id d, oi_entry_date = db_entry_date d,
     oi_entry_type = db_entry_type d, oi_document = db_narration d,
     oi_original_amount = db_original_amount d, oi_outstanding_amount = db_remaining d,
     oi_age_days = days_between as_of (db_entry_date d)\<rparr>"

definition live_entries :: "ledger_row list \<Rightarrow> walk_policy \<Rightarrow> ledger_row list" where
  "live_entries entries pol =
     (let annulled = annulled_entry_ids entries pol in filter (\<lambda>e. lr_pk e \<notin> annulled) entries)"

definition settling :: "walk_policy \<Rightarrow> ledger_row list \<Rightarrow> decimal" where
  "settling pol live =
     sum_where (\<lambda>e. lr_amount e < 0 \<and> lr_entry_type e \<noteq> wp_reducing_type pol) (\<lambda>e. \<bar>lr_amount e\<bar>) live"

definition walk_debits ::
  "ledger_row list \<Rightarrow> (nat \<times> nat) list \<Rightarrow> walk_policy \<Rightarrow> debit list \<times> decimal" where
  "walk_debits entries targets pol =
     (let live = live_entries entries pol;
          debits = debits_of live;
          (reduced, pool) = reduce_loop (resolve_target pol debits targets) pol live (debits, 0)
      in settle_loop reduced (pool + settling pol live))"

definition walk ::
  "nat \<Rightarrow> date \<Rightarrow> ledger_row list \<Rightarrow> (nat \<times> nat) list \<Rightarrow> walk_policy \<Rightarrow> position" where
  "walk party as_of entries targets pol =
     (let (debits, pool) = walk_debits entries targets pol;
          items = map (open_item_of as_of) (filter (\<lambda>d. db_remaining d > 0) debits);
          total = sum_list (map oi_outstanding_amount items)
      in \<lparr>po_party_id = party, po_as_of = as_of, po_open_items = items,
          po_total_outstanding = total, po_credit_on_account = pool, po_balance = total - pool\<rparr>)"


section \<open>What annulment removes\<close>

definition row_key :: "ledger_row \<Rightarrow> doc_key option" where
  "row_key e = (case lr_source_id e of None \<Rightarrow> None | Some i \<Rightarrow> Some (lr_source_type e, i))"

definition is_target :: "ledger_row \<Rightarrow> bool" where
  "is_target e \<longleftrightarrow> lr_source_id e \<noteq> None \<and> lr_entry_type e = lr_source_type e"

definition is_annuller :: "walk_policy \<Rightarrow> ledger_row \<Rightarrow> bool" where
  "is_annuller pol e \<longleftrightarrow> lr_source_id e \<noteq> None \<and> lr_entry_type e = wp_adjustment_type pol \<and>
     lr_source_type e \<in> set (wp_annullable_source_types pol)"

text \<open>\<open>annuls pol k t e\<close>: \<open>e\<close> claims the target \<open>t\<close> under the key \<open>k\<close>.\<close>

definition annuls :: "walk_policy \<Rightarrow> doc_key \<Rightarrow> ledger_row \<Rightarrow> ledger_row \<Rightarrow> bool" where
  "annuls pol k t e \<longleftrightarrow> is_annuller pol e \<and> row_key e = Some k \<and> lr_amount e + lr_amount t = 0"

lemma unclaimed_from_eq:
  "unclaimed_from es m k =
     (case find (\<lambda>e. is_target e \<and> row_key e = Some k) (rev es) of None \<Rightarrow> m k | Some e \<Rightarrow> Some e)"
  by (induction es arbitrary: m) (auto simp: find_append is_target_def row_key_def split: option.splits)

lemma unclaimed_eq: "unclaimed es k = find (\<lambda>e. is_target e \<and> row_key e = Some k) (rev es)"
  by (simp add: unclaimed_def unclaimed_from_eq split: option.splits)

lemma unclaimed_SomeD:
  "unclaimed es k = Some t \<Longrightarrow> t \<in> set es \<and> is_target t \<and> row_key t = Some k"
  unfolding unclaimed_eq by (drule find_SomeD) simp

lemma annul_loop_step:
  "annul_loop pol (e # es) m S =
     (case (if is_annuller pol e then (case row_key e of None \<Rightarrow> None | Some k \<Rightarrow>
              (case m k of None \<Rightarrow> None
               | Some t \<Rightarrow> if annuls pol k t e then Some (k, t) else None)) else None) of
        None \<Rightarrow> annul_loop pol es m S
      | Some (k, t) \<Rightarrow> annul_loop pol es (m(k := None)) (insert (lr_pk t) (insert (lr_pk e) S)))"
  by (auto simp: is_annuller_def row_key_def annuls_def Let_def split: option.splits)

declare annul_loop.simps(2) [simp del]

lemma annul_loop_mem:
  "pk \<in> annul_loop pol es m S \<longleftrightarrow>
     pk \<in> S \<or> (\<exists>k t a. m k = Some t \<and> find (annuls pol k t) es = Some a \<and> (pk = lr_pk a \<or> pk = lr_pk t))"
proof (induction es arbitrary: m S)
  case (Cons e es)
  show ?case
  proof (cases "\<exists>k t. m k = Some t \<and> annuls pol k t e")
    case True
    then obtain k t where kt: "m k = Some t" "annuls pol k t e" by blast
    then have key: "is_annuller pol e" "row_key e = Some k" by (auto simp: annuls_def)
    have other: "\<not> annuls pol k' t' e" if "k' \<noteq> k" for k' t'
      using that key(2) by (auto simp: annuls_def)
    have step: "annul_loop pol (e # es) m S
        = annul_loop pol es (m(k := None)) (insert (lr_pk t) (insert (lr_pk e) S))"
      using kt key by (simp add: annul_loop_step)
    have claimed: "(\<exists>k' t' a. m k' = Some t' \<and> find (annuls pol k' t') (e # es) = Some a
          \<and> (pk = lr_pk a \<or> pk = lr_pk t')) \<longleftrightarrow>
        (pk = lr_pk e \<or> pk = lr_pk t) \<or>
        (\<exists>k' t' a. (m(k := None)) k' = Some t' \<and> find (annuls pol k' t') es = Some a
          \<and> (pk = lr_pk a \<or> pk = lr_pk t'))" (is "?L \<longleftrightarrow> ?R")
    proof
      assume ?L
      then obtain k' t' a where h: "m k' = Some t'" "find (annuls pol k' t') (e # es) = Some a"
        "pk = lr_pk a \<or> pk = lr_pk t'" by blast
      show ?R
      proof (cases "k' = k")
        case True
        then show ?thesis using h kt by auto
      next
        case False
        then have "find (annuls pol k' t') es = Some a" using h(2) other by simp
        then show ?thesis using h(1,3) False
          by (intro disjI2 exI [of _ k'] exI [of _ t'] exI [of _ a]) simp
      qed
    next
      assume ?R
      then show ?L
      proof
        assume "pk = lr_pk e \<or> pk = lr_pk t"
        then show ?thesis using kt by (intro exI [of _ k] exI [of _ t] exI [of _ e]) simp
      next
        assume "\<exists>k' t' a. (m(k := None)) k' = Some t' \<and> find (annuls pol k' t') es = Some a
          \<and> (pk = lr_pk a \<or> pk = lr_pk t')"
        then obtain k' t' a where h: "(m(k := None)) k' = Some t'" "find (annuls pol k' t') es = Some a"
          "pk = lr_pk a \<or> pk = lr_pk t'" by blast
        then have "k' \<noteq> k" by (auto split: if_splits)
        then show ?thesis using h other by (intro exI [of _ k'] exI [of _ t'] exI [of _ a]) simp
      qed
    qed
    show ?thesis unfolding step claimed Cons.IH insert_iff by (simp only: disj_ac)
  next
    case False
    then have no: "\<not> annuls pol k t e" if "m k = Some t" for k t using that by blast
    then have "annul_loop pol (e # es) m S = annul_loop pol es m S"
      by (simp add: annul_loop_step split: option.split)
    then show ?thesis by (simp add: Cons.IH no cong: conj_cong)
  qed
qed simp

text \<open>
  The pair annulled under a key: its target, and the first annuller that offsets it.  It
  depends on the entries of that key only.
\<close>

definition annulled_pair :: "walk_policy \<Rightarrow> ledger_row list \<Rightarrow> doc_key \<Rightarrow> (ledger_row \<times> ledger_row) option" where
  "annulled_pair pol es k =
     (case unclaimed es k of None \<Rightarrow> None
      | Some t \<Rightarrow> (case find (annuls pol k t) es of None \<Rightarrow> None | Some a \<Rightarrow> Some (a, t)))"

lemma annulled_pair_Some:
  "annulled_pair pol es k = Some (a, t) \<longleftrightarrow>
     unclaimed es k = Some t \<and> find (annuls pol k t) es = Some a"
  by (auto simp: annulled_pair_def split: option.splits)

lemma annulled_iff:
  "pk \<in> annulled_entry_ids es pol \<longleftrightarrow>
     (\<exists>k t a. annulled_pair pol es k = Some (a, t) \<and> (pk = lr_pk a \<or> pk = lr_pk t))"
  by (simp only: annulled_entry_ids_def annul_loop_mem annulled_pair_Some empty_iff simp_thms conj_assoc)

lemma annulled_pairD:
  assumes "annulled_pair pol es k = Some (a, t)"
  shows "a \<in> set es" "t \<in> set es" "row_key a = Some k" "row_key t = Some k" "is_target t"
    "is_annuller pol a" "lr_amount a + lr_amount t = 0"
  using assms unclaimed_SomeD [of es k t] find_SomeD [of "annuls pol k t" es a]
  by (auto simp: annulled_pair_def annuls_def split: option.splits)

text \<open>
  What leaves the walk sums to zero: annulled entries come in pairs of one key, and no entry
  belongs to two keys.
\<close>

lemma sum_where_remove_pk:
  assumes "distinct (map lr_pk es)" "a \<in> set es" "lr_pk a \<notin> S"
  shows "sum_where (\<lambda>e. lr_pk e \<notin> S) lr_amount es
       = lr_amount a + sum_where (\<lambda>e. lr_pk e \<notin> insert (lr_pk a) S) lr_amount es"
  using assms
proof (induction es)
  case (Cons e es)
  show ?case
  proof (cases "a = e")
    case True
    have "sum_where (\<lambda>x. lr_pk x \<notin> S) lr_amount es
        = sum_where (\<lambda>x. lr_pk x \<notin> insert (lr_pk a) S) lr_amount es"
      using Cons.prems(1) True by (intro sum_where_cong) (auto simp: image_iff)
    then show ?thesis using Cons.prems True by simp
  next
    case False
    then have "lr_pk e \<noteq> lr_pk a" using Cons.prems by force
    then show ?thesis using Cons False by (auto simp: algebra_simps)
  qed
qed simp

lemma annul_loop_sum:
  assumes "distinct (map lr_pk es)" "set es' \<subseteq> set es"
    and "\<And>k t. m k = Some t \<Longrightarrow> t \<in> set es \<and> row_key t = Some k"
    and "\<And>e k. e \<in> set es \<Longrightarrow> row_key e = Some k \<Longrightarrow> m k \<noteq> None \<Longrightarrow> lr_pk e \<notin> S"
  shows "sum_where (\<lambda>e. lr_pk e \<notin> annul_loop pol es' m S) lr_amount es
       = sum_where (\<lambda>e. lr_pk e \<notin> S) lr_amount es"
  using assms(2-)
proof (induction es' arbitrary: m S)
  case (Cons e es')
  show ?case
  proof (cases "\<exists>k t. m k = Some t \<and> annuls pol k t e")
    case False
    then have "annul_loop pol (e # es') m S = annul_loop pol es' m S"
      by (simp add: annul_loop_step split: option.split)
    then show ?thesis using Cons by simp
  next
    case True
    then obtain k t where kt: "m k = Some t" "annuls pol k t e" by blast
    then have key: "is_annuller pol e" "row_key e = Some k" "lr_amount e + lr_amount t = 0"
      by (auto simp: annuls_def)
    have t: "t \<in> set es" "row_key t = Some k" and e: "e \<in> set es"
      using Cons.prems(2) [OF kt(1)] Cons.prems(1) by auto
    have fresh: "lr_pk e \<notin> S" "lr_pk t \<notin> S"
      using Cons.prems(3) [OF e key(2)] Cons.prems(3) [OF t] kt(1) by auto
    let ?S = "insert (lr_pk t) (insert (lr_pk e) S)"
    have step: "annul_loop pol (e # es') m S = annul_loop pol es' (m(k := None)) ?S"
      using kt key by (simp add: annul_loop_step)
    have pk_inj: "x = y" if "x \<in> set es" "y \<in> set es" "lr_pk x = lr_pk y" for x y
      using that assms(1) by (auto simp: distinct_map inj_on_def)
    have "sum_where (\<lambda>x. lr_pk x \<notin> annul_loop pol es' (m(k := None)) ?S) lr_amount es
        = sum_where (\<lambda>x. lr_pk x \<notin> ?S) lr_amount es"
    proof (rule Cons.IH)
      show "set es' \<subseteq> set es" using Cons.prems(1) by simp
      show "t' \<in> set es \<and> row_key t' = Some k'" if "(m(k := None)) k' = Some t'" for k' t'
        using that Cons.prems(2) [of k' t'] by (auto split: if_splits)
      show "lr_pk x \<notin> ?S" if x: "x \<in> set es" "row_key x = Some k'" "(m(k := None)) k' \<noteq> None" for x k'
      proof -
        have "k' \<noteq> k" "m k' \<noteq> None" using x(3) by (auto split: if_splits)
        then have "lr_pk x \<notin> S" "x \<noteq> e" "x \<noteq> t"
          using Cons.prems(3) [OF x(1,2)] x(2) key(2) t(2) by auto
        then show ?thesis using pk_inj [OF x(1) e] pk_inj [OF x(1) t(1)] by auto
      qed
    qed
    also have "\<dots> = sum_where (\<lambda>x. lr_pk x \<notin> S) lr_amount es"
    proof (cases "e = t")
      case True
      then have "lr_amount e = 0" using key(3) by simp
      then show ?thesis using sum_where_remove_pk [OF assms(1) e fresh(1)] True by simp
    next
      case False
      then have "lr_pk t \<noteq> lr_pk e" using pk_inj [OF e t(1)] by auto
      then show ?thesis
        using sum_where_remove_pk [OF assms(1) e fresh(1)] key(3)
          sum_where_remove_pk [OF assms(1) t(1), of "insert (lr_pk e) S"] fresh(2) by simp
    qed
    finally show ?thesis unfolding step .
  qed
qed simp

lemma sum_list_live:
  assumes "distinct (map lr_pk es)"
  shows "sum_list (map lr_amount (live_entries es pol)) = sum_list (map lr_amount es)"
proof -
  have "sum_where (\<lambda>e. lr_pk e \<notin> annulled_entry_ids es pol) lr_amount es
      = sum_where (\<lambda>e. lr_pk e \<notin> {}) lr_amount es"
    unfolding annulled_entry_ids_def
    by (rule annul_loop_sum [OF assms subset_refl]) (auto dest: unclaimed_SomeD)
  then show ?thesis by (simp add: live_entries_def Let_def sum_where_def)
qed


section \<open>Reducing and settling\<close>

definition remaining_sum :: "debit list \<Rightarrow> decimal" where
  "remaining_sum ds = sum_list (map db_remaining ds)"

definition remaining_nonneg :: "debit list \<Rightarrow> bool" where
  "remaining_nonneg ds \<longleftrightarrow> list_all (\<lambda>d. 0 \<le> db_remaining d) ds"

text \<open>What a reduction or a settlement leaves alone.\<close>

definition same_debit :: "debit \<Rightarrow> debit \<Rightarrow> bool" where
  "same_debit d d' \<longleftrightarrow> db_remaining d' \<le> db_remaining d \<and>
     d' = d\<lparr>db_remaining := db_remaining d'\<rparr>"

lemma same_debit_refl [simp]: "same_debit d d"
  by (simp add: same_debit_def)

lemma same_debit_trans: "same_debit a b \<Longrightarrow> same_debit b c \<Longrightarrow> same_debit a c"
  by (cases a; cases b; cases c) (auto simp: same_debit_def)

lemma same_debits_trans:
  assumes "list_all2 same_debit as bs" "list_all2 same_debit bs cs"
  shows "list_all2 same_debit as cs"
  by (rule list_all2_trans [OF _ assms]) (rule same_debit_trans)

lemma list_all2_same_refl: "list_all2 same_debit ds ds"
  by (rule list.rel_refl) simp

lemma target_index_bound: "target_index pol n ds doc = Some i \<Longrightarrow> n \<le> i \<and> i < n + length ds"
  by (induction ds arbitrary: n) (force split: option.splits if_splits)+

lemma target_index_match:
  "target_index pol n ds doc = Some i \<Longrightarrow>
   db_entry_type (ds ! (i - n)) = wp_target_type pol \<and> db_source_id (ds ! (i - n)) = Some doc"
proof (induction ds arbitrary: n)
  case (Cons d ds)
  show ?case
  proof (cases "target_index pol (Suc n) ds doc")
    case None
    then show ?thesis using Cons.prems by (auto split: if_splits)
  next
    case (Some j)
    then have "j = i" using Cons.prems by simp
    then have "target_index pol (Suc n) ds doc = Some i" using Some by simp
    from Cons.IH [OF this] target_index_bound [OF this] show ?thesis
      by (auto simp: nth_Cons')
  qed
qed simp

lemma resolve_target_bound: "resolve_target pol ds targets e = Some i \<Longrightarrow> i < length ds"
  by (auto simp: resolve_target_def debit_by_target_def dest: target_index_bound
      split: option.splits if_splits)

lemma sum_list_replace:
  "i < length xs \<Longrightarrow> sum_list (xs[i := x]) = sum_list xs - xs ! i + (x :: decimal)"
  by (induction xs arbitrary: i) (auto split: nat.split)

lemma reduce_loop_props:
  assumes "reduce_loop target pol es (ds, pool) = (ds', pool')"
    and "\<forall>e i. target e = Some i \<longrightarrow> i < length ds" "remaining_nonneg ds"
  shows "remaining_nonneg ds' \<and> pool \<le> pool' \<and> length ds' = length ds \<and>
    list_all2 same_debit ds ds' \<and>
    remaining_sum ds' - pool'
      = remaining_sum ds - pool
        - sum_where (\<lambda>e. lr_entry_type e = wp_reducing_type pol) (\<lambda>e. \<bar>lr_amount e\<bar>) es"
  using assms
proof (induction es arbitrary: ds pool)
  case Nil
  then show ?case by (simp add: list_all2_same_refl)
next
  case (Cons e es)
  show ?case
  proof (cases "lr_entry_type e = wp_reducing_type pol")
    case False
    then show ?thesis using Cons.IH [of ds pool] Cons.prems by simp
  next
    case True
    let ?c = "\<bar>lr_amount e\<bar>"
    show ?thesis
    proof (cases "target e")
      case None
      then have "reduce_loop target pol es (ds, pool + ?c) = (ds', pool')"
        using Cons.prems(1) True by (simp add: Let_def)
      note ih = Cons.IH [OF this Cons.prems(2) Cons.prems(3)]
      have "remaining_nonneg ds'" "pool \<le> pool'" "length ds' = length ds" "list_all2 same_debit ds ds'"
        "remaining_sum ds' - pool' = remaining_sum ds - (pool + ?c)
          - sum_where (\<lambda>e. lr_entry_type e = wp_reducing_type pol) (\<lambda>e. \<bar>lr_amount e\<bar>) es"
        using ih abs_ge_zero [of "lr_amount e"] by linarith+
      then show ?thesis using True by simp
    next
      case (Some i)
      let ?a = "min ?c (db_remaining (ds ! i))"
      let ?d = "(ds ! i)\<lparr>db_remaining := db_remaining (ds ! i) - ?a\<rparr>"
      have i: "i < length ds" using Cons.prems(2) Some by simp
      then have nn: "0 \<le> db_remaining (ds ! i)"
        using Cons.prems(3) by (simp add: remaining_nonneg_def list_all_length)
      have nn': "remaining_nonneg (ds[i := ?d])"
        using Cons.prems(3) unfolding remaining_nonneg_def list_all_iff
        by (auto dest!: subsetD [OF set_update_subset_insert])
      have same: "list_all2 same_debit ds (ds[i := ?d])"
        using i nn by (auto simp: list_all2_conv_all_nth nth_list_update same_debit_def)
      have sum: "remaining_sum (ds[i := ?d]) = remaining_sum ds - ?a"
        using i by (simp add: remaining_sum_def map_update sum_list_replace)
      have "reduce_loop target pol es (ds[i := ?d], pool + (?c - ?a)) = (ds', pool')"
        using Cons.prems(1) True Some by (simp add: Let_def)
      from Cons.IH [OF this] Cons.prems(2) nn'
      have "remaining_nonneg ds'" "pool + (?c - ?a) \<le> pool'" "length ds' = length ds"
        "list_all2 same_debit (ds[i := ?d]) ds'"
        "remaining_sum ds' - pool' = remaining_sum (ds[i := ?d]) - (pool + (?c - ?a))
          - sum_where (\<lambda>e. lr_entry_type e = wp_reducing_type pol) (\<lambda>e. \<bar>lr_amount e\<bar>) es"
        by simp_all
      moreover have "list_all2 same_debit ds ds'"
        using same same_debits_trans calculation(4) by blast
      ultimately show ?thesis using True sum nn by simp
    qed
  qed
qed

lemma settle_loop_props:
  assumes "settle_loop ds pool = (ds', pool')" "remaining_nonneg ds" "0 \<le> pool"
  shows "remaining_nonneg ds' \<and> 0 \<le> pool' \<and> list_all2 same_debit ds ds' \<and>
    remaining_sum ds' - pool' = remaining_sum ds - pool \<and>
    (0 < pool' \<longrightarrow> list_all (\<lambda>d. db_remaining d = 0) ds')"
  using assms
proof (induction ds arbitrary: pool ds')
  case Nil
  then show ?case by (simp add: remaining_sum_def)
next
  case (Cons d ds)
  show ?case
  proof (cases "pool \<le> 0")
    case True
    then show ?thesis using Cons.prems by (simp add: list_all2_same_refl)
  next
    case False
    let ?a = "min pool (db_remaining d)"
    obtain es where es: "settle_loop ds (pool - ?a) = (es, pool')"
        "ds' = d\<lparr>db_remaining := db_remaining d - ?a\<rparr> # es"
      using Cons.prems(1) False by (auto simp: Let_def split: prod.splits)
    have nn: "0 \<le> db_remaining d" "remaining_nonneg ds"
      using Cons.prems(2) by (simp_all add: remaining_nonneg_def)
    from Cons.IH [OF es(1) nn(2)] False nn(1)
    have "remaining_nonneg es" "0 \<le> pool'" "list_all2 same_debit ds es"
      "remaining_sum es - pool' = remaining_sum ds - (pool - ?a)"
      and z: "0 < pool' \<Longrightarrow> list_all (\<lambda>d. db_remaining d = 0) es" by auto
    moreover have "?a = db_remaining d" if "0 < pool'"
    proof (rule ccontr)
      assume "?a \<noteq> db_remaining d"
      then have "pool - ?a = 0" by (simp add: min_def split: if_splits)
      then have "pool' = 0" using es(1) by (cases ds) auto
      then show False using that by simp
    qed
    moreover have "same_debit d (d\<lparr>db_remaining := db_remaining d - ?a\<rparr>)"
      using False nn(1) by (simp add: same_debit_def)
    ultimately show ?thesis
      using es(2) False nn(1) by (auto simp: remaining_nonneg_def remaining_sum_def)
  qed
qed



section \<open>The walk's invariant\<close>

text \<open>
  The sign rule the ledger's constraint gives every entry of the reducing type; nothing is
  asked of the other types.
\<close>

definition reducing_negative :: "walk_policy \<Rightarrow> ledger_row list \<Rightarrow> bool" where
  "reducing_negative pol es \<longleftrightarrow>
     list_all (\<lambda>e. lr_entry_type e = wp_reducing_type pol \<longrightarrow> lr_amount e \<le> 0) es"

lemma debits_minus_credits:
  assumes "reducing_negative pol live"
  shows "remaining_sum (debits_of live)
      - sum_where (\<lambda>e. lr_entry_type e = wp_reducing_type pol) (\<lambda>e. \<bar>lr_amount e\<bar>) live
      - settling pol live = sum_list (map lr_amount live)"
  using assms
  by (induction live)
    (auto simp: remaining_sum_def debits_of_def debit_of_def settling_def reducing_negative_def)

lemma debits_of_nonneg: "remaining_nonneg (debits_of live)"
  by (auto simp: remaining_nonneg_def debits_of_def debit_of_def list_all_iff)

lemma settling_nonneg: "0 \<le> settling pol live"
  by (induction live) (auto simp: settling_def)

lemma remaining_sum_zero: "list_all (\<lambda>d. db_remaining d = 0) ds \<Longrightarrow> remaining_sum ds = 0"
  by (induction ds) (auto simp: remaining_sum_def)

lemma walk_debits_props:
  assumes "walk_debits entries targets pol = (ds, pool)"
    and "distinct (map lr_pk entries)" "reducing_negative pol entries"
  shows "remaining_nonneg ds" "0 \<le> pool" "list_all2 same_debit (debits_of (live_entries entries pol)) ds"
    "remaining_sum ds - pool = sum_list (map lr_amount entries)"
    "0 < pool \<Longrightarrow> remaining_sum ds = 0"
proof -
  let ?live = "live_entries entries pol"
  obtain rs p where r: "reduce_loop (resolve_target pol (debits_of ?live) targets) pol ?live
      (debits_of ?live, 0) = (rs, p)" by fastforce
  then have s: "settle_loop rs (p + settling pol ?live) = (ds, pool)"
    using assms(1) by (simp add: walk_debits_def Let_def)
  have red: "remaining_nonneg rs" "0 \<le> p" "list_all2 same_debit (debits_of ?live) rs"
    "remaining_sum rs - p = remaining_sum (debits_of ?live)
       - sum_where (\<lambda>e. lr_entry_type e = wp_reducing_type pol) (\<lambda>e. \<bar>lr_amount e\<bar>) ?live"
    using reduce_loop_props [OF r _ debits_of_nonneg] resolve_target_bound by auto
  have "0 \<le> p + settling pol ?live" using red(2) settling_nonneg [of pol ?live] by simp
  note st = settle_loop_props [OF s red(1) this]
  show "remaining_nonneg ds" "0 \<le> pool" using st by auto
  have "list_all2 same_debit rs ds" using st by simp
  then show "list_all2 same_debit (debits_of ?live) ds" by (rule same_debits_trans [OF red(3)])
  have "reducing_negative pol ?live"
    using assms(3) by (auto simp: reducing_negative_def live_entries_def Let_def list_all_iff)
  from debits_minus_credits [OF this] red(4) st sum_list_live [OF assms(2), of pol]
  show "remaining_sum ds - pool = sum_list (map lr_amount entries)" by simp
  show "remaining_sum ds = 0" if "0 < pool"
    using st that by (intro remaining_sum_zero) simp
qed

lemma sum_positive_part:
  "remaining_nonneg ds \<Longrightarrow>
   sum_list (map oi_outstanding_amount (map (open_item_of as_of) (filter (\<lambda>d. db_remaining d > 0) ds)))
   = remaining_sum ds"
  by (induction ds) (auto simp: remaining_nonneg_def remaining_sum_def open_item_of_def)

text \<open>
  The position is the ledger's sum: what is open is its positive part, what is on account its
  negative part, so a party never has both.
\<close>

lemma walk_position:
  assumes "distinct (map lr_pk entries)" "reducing_negative pol entries"
  shows "po_total_outstanding (walk party as_of entries targets pol)
           = max 0 (sum_list (map lr_amount entries))"
    "po_credit_on_account (walk party as_of entries targets pol)
           = max 0 (- sum_list (map lr_amount entries))"
    "po_balance (walk party as_of entries targets pol) = sum_list (map lr_amount entries)"
proof -
  obtain ds pool where w: "walk_debits entries targets pol = (ds, pool)" by fastforce
  note p = walk_debits_props [OF w assms]
  have total: "po_total_outstanding (walk party as_of entries targets pol) = remaining_sum ds"
    "po_credit_on_account (walk party as_of entries targets pol) = pool"
    "po_balance (walk party as_of entries targets pol) = remaining_sum ds - pool"
    using w sum_positive_part [OF p(1), of as_of] by (simp_all add: walk_def Let_def)
  have nn: "0 \<le> remaining_sum ds"
    using p(1) by (auto simp: remaining_sum_def remaining_nonneg_def list_all_iff intro!: sum_list_nonneg)
  show "po_balance (walk party as_of entries targets pol) = sum_list (map lr_amount entries)"
    using total p(4) by simp
  show "po_total_outstanding (walk party as_of entries targets pol)
      = max 0 (sum_list (map lr_amount entries))"
    "po_credit_on_account (walk party as_of entries targets pol)
      = max 0 (- sum_list (map lr_amount entries))"
    using total p(2,4,5) nn by (cases "pool = 0"; simp)+
qed

text \<open>Every open item is a live debit of the ledger, owed at most its amount and aged from its date.\<close>

lemma walk_open_item:
  assumes "distinct (map lr_pk entries)" "reducing_negative pol entries"
    and "it \<in> set (po_open_items (walk party as_of entries targets pol))"
  shows "\<exists>e \<in> set entries. lr_pk e \<notin> annulled_entry_ids entries pol \<and>
    oi_entry_id it = lr_pk e \<and> oi_entry_date it = lr_entry_date e \<and> oi_entry_type it = lr_entry_type e \<and>
    oi_document it = lr_narration e \<and> oi_original_amount it = lr_amount e \<and>
    0 < oi_outstanding_amount it \<and> oi_outstanding_amount it \<le> lr_amount e \<and>
    oi_age_days it = days_between as_of (lr_entry_date e)"
proof -
  obtain ds pool where w: "walk_debits entries targets pol = (ds, pool)" by fastforce
  obtain d where d: "d \<in> set ds" "0 < db_remaining d" "it = open_item_of as_of d"
    using assms(3) w by (auto simp: walk_def Let_def)
  have all2: "list_all2 same_debit (debits_of (live_entries entries pol)) ds"
    by (rule walk_debits_props [OF w assms(1,2)])
  obtain i where "i < length ds" "d = ds ! i" using d(1) by (metis in_set_conv_nth)
  then have "same_debit (debits_of (live_entries entries pol) ! i) d"
    "i < length (debits_of (live_entries entries pol))"
    using all2 by (auto simp: list_all2_conv_all_nth)
  then obtain d0 where d0: "d0 \<in> set (debits_of (live_entries entries pol))" "same_debit d0 d"
    by (meson nth_mem)
  then obtain e where e: "e \<in> set entries" "lr_pk e \<notin> annulled_entry_ids entries pol" "d0 = debit_of e"
    by (auto simp: debits_of_def live_entries_def Let_def)
  have "d = d0\<lparr>db_remaining := db_remaining d\<rparr>" "db_remaining d \<le> lr_amount e"
    using d0(2) e(3) by (auto simp: same_debit_def debit_of_def)
  then have "db_entry_id d = lr_pk e" "db_entry_date d = lr_entry_date e"
    "db_entry_type d = lr_entry_type e" "db_narration d = lr_narration e"
    "db_original_amount d = lr_amount e" "db_remaining d \<le> lr_amount e"
    unfolding e(3) by (metis debit.simps debit_of_def)+
  then show ?thesis using d e by (intro bexI [of _ e]) (simp_all add: open_item_of_def)
qed


section \<open>Oldest first\<close>

text \<open>The debits after the targeted reductions, before anything is settled.\<close>

definition reduced_debits :: "ledger_row list \<Rightarrow> (nat \<times> nat) list \<Rightarrow> walk_policy \<Rightarrow> debit list" where
  "reduced_debits entries targets pol =
     (let live = live_entries entries pol; debits = debits_of live
      in fst (reduce_loop (resolve_target pol debits targets) pol live (debits, 0)))"

lemma settle_loop_length: "settle_loop ds pool = (ds', pool') \<Longrightarrow> length ds' = length ds"
  by (induction ds arbitrary: pool ds') (auto simp: Let_def split: if_splits prod.splits)

lemma settle_loop_stop: "pool \<le> 0 \<Longrightarrow> settle_loop ds pool = (ds, pool)"
  by (cases ds) simp_all

lemma settle_loop_fifo:
  assumes "settle_loop ds pool = (ds', pool')" "i < j" "j < length ds" "0 < db_remaining (ds' ! i)"
  shows "ds' ! j = ds ! j"
  using assms
proof (induction ds arbitrary: pool ds' i j)
  case (Cons d ds)
  show ?case
  proof (cases "pool \<le> 0")
    case True
    then show ?thesis using Cons.prems(1) by simp
  next
    case False
    let ?a = "min pool (db_remaining d)"
    obtain es where es: "settle_loop ds (pool - ?a) = (es, pool')"
        "ds' = d\<lparr>db_remaining := db_remaining d - ?a\<rparr> # es"
      using Cons.prems(1) False by (auto simp: Let_def split: prod.splits)
    obtain j' where j': "j = Suc j'" using Cons.prems(2) by (cases j) auto
    show ?thesis
    proof (cases i)
      case 0
      then have "0 < db_remaining d - ?a" using Cons.prems(4) es(2) by simp
      then have "pool - ?a \<le> 0" by (simp add: min_def split: if_splits)
      then have "es = ds" using es(1) settle_loop_stop by simp
      then show ?thesis using es(2) j' by simp
    next
      case (Suc i')
      then show ?thesis
        using Cons.IH [OF es(1), of i' j'] Cons.prems es(2) j' by simp
    qed
  qed
qed simp

lemma walk_debits_fifo:
  assumes "walk_debits entries targets pol = (ds, pool)" "i < j" "j < length ds"
    "0 < db_remaining (ds ! i)"
  shows "ds ! j = reduced_debits entries targets pol ! j"
  using assms settle_loop_fifo [of "reduced_debits entries targets pol" _ ds pool i j]
    settle_loop_length [of "reduced_debits entries targets pol" _ ds pool]
  by (auto simp: walk_debits_def reduced_debits_def Let_def split: prod.splits)


section \<open>A reversal leaves no trace\<close>

lemma find_filter: "(\<And>x. x \<in> set xs \<Longrightarrow> P x \<Longrightarrow> Q x) \<Longrightarrow> find P (filter Q xs) = find P xs"
  by (induction xs) auto

lemma find_cong_set: "(\<And>x. x \<in> set xs \<Longrightarrow> P x = Q x) \<Longrightarrow> find P xs = find Q xs"
  by (induction xs) auto

lemma annulled_pair_filter:
  assumes "\<And>e. e \<in> set es \<Longrightarrow> row_key e = Some k \<Longrightarrow> is_target e \<or> is_annuller pol e \<Longrightarrow> Q e"
  shows "annulled_pair pol (filter Q es) k = annulled_pair pol es k"
proof -
  have "unclaimed (filter Q es) k = unclaimed es k"
    unfolding unclaimed_eq rev_filter by (rule find_filter) (use assms in auto)
  moreover have "find (annuls pol k t) (filter Q es) = find (annuls pol k t) es" for t
    by (rule find_filter) (use assms in \<open>auto simp: annuls_def\<close>)
  ultimately show ?thesis by (cases "unclaimed es k") (simp_all add: annulled_pair_def)
qed

text \<open>
  \<open>t\<close> and \<open>a\<close> are the only target and the only annuller of their key, and offset: the entry of
  a document and the adjustment that reverses it.
\<close>

definition reversal_pair :: "walk_policy \<Rightarrow> ledger_row list \<Rightarrow> ledger_row \<Rightarrow> ledger_row \<Rightarrow> bool" where
  "reversal_pair pol es t a \<longleftrightarrow>
     t \<in> set es \<and> a \<in> set es \<and> is_target t \<and> is_annuller pol a \<and> row_key a = row_key t \<and>
     lr_amount a + lr_amount t = 0 \<and>
     list_all (\<lambda>e. row_key e = row_key t \<longrightarrow>
        (is_target e \<longrightarrow> e = t) \<and> (is_annuller pol e \<longrightarrow> e = a)) es"

lemma reversal_annulled_pair:
  assumes "reversal_pair pol es t a" "row_key t = Some k"
  shows "annulled_pair pol es k = Some (a, t)"
proof -
  have u: "unclaimed es k = Some t"
  proof (cases "unclaimed es k")
    case None
    then show ?thesis using assms unfolding unclaimed_eq find_None_iff_list
      by (auto simp: reversal_pair_def)
  next
    case (Some t')
    then show ?thesis using unclaimed_SomeD [OF Some] assms by (auto simp: reversal_pair_def list_all_iff)
  qed
  moreover have "find (annuls pol k t) es = Some a"
  proof (cases "find (annuls pol k t) es")
    case None
    then show ?thesis using assms by (auto simp: find_None_iff_list reversal_pair_def annuls_def)
  next
    case (Some a')
    then show ?thesis using find_SomeD [OF Some] assms
      by (auto simp: reversal_pair_def list_all_iff annuls_def)
  qed
  ultimately show ?thesis by (simp add: annulled_pair_def)
qed

lemma live_entries_reversal:
  assumes rp: "reversal_pair pol es t a" and dist: "distinct (map lr_pk es)"
  shows "live_entries es pol = live_entries (filter (\<lambda>e. e \<noteq> t \<and> e \<noteq> a) es) pol"
proof -
  let ?Q = "\<lambda>e. e \<noteq> t \<and> e \<noteq> a"
  obtain k where k: "row_key t = Some k" "row_key a = Some k"
    using rp by (auto simp: reversal_pair_def is_target_def row_key_def split: option.splits)
  have pair_k: "annulled_pair pol es k = Some (a, t)"
    by (rule reversal_annulled_pair [OF rp k(1)])
  have none: "annulled_pair pol (filter ?Q es) k = None"
  proof (rule ccontr)
    assume "annulled_pair pol (filter ?Q es) k \<noteq> None"
    then obtain a' t' where "annulled_pair pol (filter ?Q es) k = Some (a', t')" by auto
    from annulled_pairD [OF this] show False
      using rp k by (auto simp: reversal_pair_def list_all_iff)
  qed
  have other: "annulled_pair pol (filter ?Q es) k' = annulled_pair pol es k'" if "k' \<noteq> k" for k'
    by (rule annulled_pair_filter) (use that k in auto)
  have pk_inj: "x = y" if "x \<in> set es" "y \<in> set es" "lr_pk x = lr_pk y" for x y
    using that dist by (auto simp: distinct_map inj_on_def)
  have ta: "t \<in> set es" "a \<in> set es" using rp by (auto simp: reversal_pair_def)
  have mem: "lr_pk e \<in> annulled_entry_ids es pol \<longleftrightarrow>
      e = t \<or> e = a \<or> lr_pk e \<in> annulled_entry_ids (filter ?Q es) pol" if e: "e \<in> set es" for e
  proof
    assume "lr_pk e \<in> annulled_entry_ids es pol"
    then obtain k' t' a' where p: "annulled_pair pol es k' = Some (a', t')"
      "lr_pk e = lr_pk a' \<or> lr_pk e = lr_pk t'" unfolding annulled_iff by blast
    show "e = t \<or> e = a \<or> lr_pk e \<in> annulled_entry_ids (filter ?Q es) pol"
    proof (cases "k' = k")
      case True
      then have "lr_pk e = lr_pk a \<or> lr_pk e = lr_pk t" using p pair_k by simp
      then show ?thesis using pk_inj [OF e] ta by blast
    next
      case False
      then show ?thesis using p other [OF False] unfolding annulled_iff by metis
    qed
  next
    assume h: "e = t \<or> e = a \<or> lr_pk e \<in> annulled_entry_ids (filter ?Q es) pol"
    show "lr_pk e \<in> annulled_entry_ids es pol"
    proof (cases "e = t \<or> e = a")
      case True
      then show ?thesis using pair_k unfolding annulled_iff by blast
    next
      case False
      then obtain k' t' a' where p: "annulled_pair pol (filter ?Q es) k' = Some (a', t')"
        "lr_pk e = lr_pk a' \<or> lr_pk e = lr_pk t'" using h unfolding annulled_iff by blast
      then have "k' \<noteq> k" using none by auto
      then show ?thesis using p other unfolding annulled_iff by metis
    qed
  qed
  then show ?thesis by (auto simp: live_entries_def Let_def intro!: filter_cong)
qed

lemma walk_reversal:
  assumes "reversal_pair pol es t a" "distinct (map lr_pk es)"
  shows "walk party as_of es targets pol
       = walk party as_of (filter (\<lambda>e. e \<noteq> t \<and> e \<noteq> a) es) targets pol"
  by (simp add: walk_def walk_debits_def live_entries_reversal [OF assms])

end
