(* ===== verification/Core.thy ===== *)
theory Core
  imports Decimals Dates "HOL-Library.Char_ord" "HOL-Library.List_Lexorder"
begin

text \<open>
  The foundation layer \<^verbatim>\<open>backend/core\<close>: role checks (\<^verbatim>\<open>permissions.py\<close>), the append-only audit
  log and the singleton business profile (\<^verbatim>\<open>models.py\<close>, \<^verbatim>\<open>services.py\<close>).

  The database is a chain of extensible records, one per application in the order the layer
  contract allows imports.  An operation of this theory is polymorphic in the extension
  \<open>'a core_db_scheme\<close>: that it leaves every table of the layers above alone is part of its type.
\<close>


section \<open>Actors and roles\<close>

definition OWNER :: string where "OWNER = ''OWNER''"
definition SALESMAN :: string where "SALESMAN = ''SALESMAN''"
definition DELIVERY :: string where "DELIVERY = ''DELIVERY''"
definition RETAILER :: string where "RETAILER = ''RETAILER''"

definition INTERNAL :: "string list" where "INTERNAL = [OWNER, SALESMAN, DELIVERY]"
definition FIELD_ROLES :: "string list" where "FIELD_ROLES = [SALESMAN, DELIVERY]"
definition ALL_ROLES :: "string list" where "ALL_ROLES = [OWNER, SALESMAN, DELIVERY, RETAILER]"

lemmas role_defs = OWNER_def SALESMAN_def DELIVERY_def RETAILER_def INTERNAL_def FIELD_ROLES_def
  ALL_ROLES_def

text \<open>
  The user instance a service receives: its primary key (absent on an anonymous user), the
  two flags, the cached role codes and the customer its login belongs to.
\<close>

record actor =
  ac_pk :: "nat option"
  ac_authenticated :: bool
  ac_active :: bool
  ac_roles :: "string list"
  ac_customer :: "nat option"

definition role_codes :: "actor option \<Rightarrow> string list" where
  "role_codes user =
     (case user of None \<Rightarrow> []
      | Some u \<Rightarrow> if \<not> ac_authenticated u then [] else if \<not> ac_active u then []
                 else sort (remdups (ac_roles u)))"

definition has_role :: "actor option \<Rightarrow> string list \<Rightarrow> bool" where
  "has_role user codes =
     (case user of None \<Rightarrow> False
      | Some u \<Rightarrow> ac_authenticated u \<and> ac_active u \<and> list_ex (\<lambda>c. c \<in> set (ac_roles u)) codes)"

definition require_roles :: "actor option \<Rightarrow> string list \<Rightarrow> error + unit" where
  "require_roles user codes = require (has_role user codes) PermissionDenied"

lemma require_roles_Inr [result_simps]: "require_roles u cs = Inr x \<longleftrightarrow> has_role u cs"
  by (simp add: require_roles_def result_simps)

lemma require_roles_Inl [result_simps]:
  "require_roles u cs = Inl e \<longleftrightarrow> \<not> has_role u cs \<and> e = PermissionDenied"
  by (auto simp: require_roles_def result_simps)

lemma andThen_require_roles [simp]:
  "andThen (require_roles u cs) k = (if has_role u cs then k () else Inl PermissionDenied)"
  by (simp add: require_roles_def)

lemma has_role_iff: "has_role u cs \<longleftrightarrow> (\<exists>c \<in> set cs. c \<in> set (role_codes u))"
  by (auto simp: has_role_def role_codes_def list_ex_iff split: option.splits)

lemma has_role_mono: "set cs \<subseteq> set ds \<Longrightarrow> has_role u cs \<Longrightarrow> has_role u ds"
  by (auto simp: has_role_iff)

definition actor_pk :: "actor option \<Rightarrow> nat option" where
  "actor_pk user = (case user of None \<Rightarrow> None | Some u \<Rightarrow> ac_pk u)"


section \<open>Audited values\<close>

text \<open>
  A value of an audited state.  \<open>PDec n x\<close> is a \<^verbatim>\<open>Decimal\<close> with \<open>n\<close> decimal places.
\<close>

datatype pyval =
    PNone
  | PBool bool
  | PInt int
  | PStr string
  | PDec nat decimal
  | PList "pyval list"
  | PDict "(string \<times> pyval) list"

text \<open>\<^verbatim>\<open>str\<close> of a \<^verbatim>\<open>Decimal\<close> held at \<open>n \<le> 6\<close> decimal places.\<close>

definition dec_str :: "nat \<Rightarrow> decimal \<Rightarrow> string" where
  "dec_str n x =
     (let k = nat \<lfloor>\<bar>x\<bar> * 10 ^ n\<rfloor>
      in (if x < 0 then ''-'' else '''') @ str_nat (k div 10 ^ n)
         @ (if n = 0 then '''' else ''.'' @ zero_pad n (k mod 10 ^ n)))"

fun canonical :: "pyval \<Rightarrow> pyval" where
  "canonical (PDec n x) = PStr (dec_str n x)"
| "canonical (PDict kvs) = PDict (map (\<lambda>(k, v). (k, canonical v)) kvs)"
| "canonical (PList vs) = PList (map canonical vs)"
| "canonical v = v"

definition SENSITIVE :: "string list" where
  "SENSITIVE = [''password'', ''password_hash'', ''code'', ''code_hash'', ''token'', ''access_token'',
     ''refresh_token'', ''secret'', ''api_key'', ''session'', ''csrf'']"

type_synonym state = "(string \<times> pyval) list"

definition scrub :: "state option \<Rightarrow> state option" where
  "scrub st = map_option (map (\<lambda>(k, v).
     (k, if lower k \<in> set SENSITIVE then PStr ''[redacted]'' else canonical v))) st"

text \<open>No Decimal reaches the JSON column, at any depth.\<close>

fun decimal_free :: "pyval \<Rightarrow> bool" where
  "decimal_free (PDec n x) = False"
| "decimal_free (PDict kvs) = list_all (\<lambda>kv. decimal_free (snd kv)) kvs"
| "decimal_free (PList vs) = list_all decimal_free vs"
| "decimal_free v = True"

lemma canonical_decimal_free: "decimal_free (canonical v)"
  by (induction v rule: canonical.induct) (auto simp: list_all_iff)

lemma canonical_id: "decimal_free v \<Longrightarrow> canonical v = v"
proof (induction v rule: canonical.induct)
  case (2 kvs)
  then have "map (\<lambda>(k, v). (k, canonical v)) kvs = map id kvs"
    by (intro map_cong) (auto simp: list_all_iff)
  then show ?case by simp
next
  case (3 vs)
  then have "map canonical vs = map id vs" by (intro map_cong) (auto simp: list_all_iff)
  then show ?case by simp
qed auto

lemma scrub_keys: "scrub (Some st) = Some st' \<Longrightarrow> map fst st' = map fst st"
  by (auto simp: scrub_def)

lemma scrub_redacts:
  "scrub st = Some st' \<Longrightarrow> (k, v) \<in> set st' \<Longrightarrow> lower k \<in> set SENSITIVE \<Longrightarrow> v = PStr ''[redacted]''"
  by (auto simp: scrub_def)

lemma scrub_decimal_free: "scrub st = Some st' \<Longrightarrow> (k, v) \<in> set st' \<Longrightarrow> decimal_free v"
  by (auto simp: scrub_def canonical_decimal_free)

text \<open>
  What is stored of a state: the same keys in the same order; under a sensitive key only that there
  was a value, under any other the value, its decimals as text.  The keys of nested dicts are not
  looked at.
\<close>

definition stored_as :: "string \<times> pyval \<Rightarrow> string \<times> pyval \<Rightarrow> bool" where
  "stored_as kv kv' \<longleftrightarrow>
     fst kv' = fst kv \<and> decimal_free (snd kv') \<and>
     (if lower (fst kv) \<in> set SENSITIVE then snd kv' = PStr ''[redacted]''
      else case snd kv of PDec n x \<Rightarrow> snd kv' = PStr (dec_str n x)
           | v \<Rightarrow> decimal_free v \<longrightarrow> snd kv' = v)"

definition clean_copy :: "state option \<Rightarrow> state option \<Rightarrow> bool" where
  "clean_copy st st' \<longleftrightarrow>
     (case st of None \<Rightarrow> st' = None
      | Some kvs \<Rightarrow> (case st' of None \<Rightarrow> False | Some kvs' \<Rightarrow> list_all2 stored_as kvs kvs'))"

lemma scrub_clean_copy: "clean_copy st (scrub st)"
proof (cases st)
  case (Some kvs)
  have "stored_as (k, v) (k, if lower k \<in> set SENSITIVE then PStr ''[redacted]'' else canonical v)" for k v
    by (auto simp: stored_as_def canonical_decimal_free canonical_id simp del: canonical.simps(2,3)
        split: pyval.split)
  then show ?thesis
    by (auto simp: Some clean_copy_def scrub_def list.rel_map intro!: list.rel_refl_strong)
qed (simp add: clean_copy_def scrub_def)


section \<open>The audit log\<close>

datatype surface = S_WEB | S_API | S_SYSTEM

datatype audit_action =
    A_CREATE | A_ISSUE | A_CANCEL | A_CREDIT_LIMIT_CHANGE | A_CREDIT_OVERRIDE | A_UPDATE
  | A_CONFIRM | A_DISCOUNT_APPLIED | A_DEACTIVATE | A_PRICE_CHANGE | A_STOCK_ADJUST
  | A_PAYMENT_REVERSE | A_ROLE_GRANT | A_ROLE_REVOKE | A_OWNER_BOOTSTRAP | A_LOGIN_SUCCESS
  | A_LOGIN_FAILED

record audit_entry =
  al_pk :: nat
  al_occurred_at :: int
  al_actor :: "nat option"
  al_actor_role :: string
  al_surface :: surface
  al_device_id :: string
  al_entity_type :: string
  al_entity_id :: "nat option"
  al_action :: audit_action
  al_before :: "state option"
  al_after :: "state option"
  al_request_id :: string
  al_ip :: string

datatype credit_mode = WARN | BLOCK

record business_profile =
  bp_legal_name :: string
  bp_trade_name :: string
  bp_gstin :: string
  bp_state_code :: string
  bp_address_line1 :: string
  bp_address_line2 :: string
  bp_city :: string
  bp_state :: string
  bp_pin_code :: string
  bp_phone :: string
  bp_email :: string
  bp_invoice_footer :: string
  bp_max_manual_discount_percent :: decimal
  bp_over_receipt_tolerance_percent :: decimal
  bp_credit_limit_mode :: credit_mode
  bp_otp_expiry_minutes :: int
  bp_updated_by :: "nat option"

record core_db =
  db_audit :: "audit_entry table"
  db_profile :: "business_profile option"

definition audit_role :: "actor option \<Rightarrow> string" where
  "audit_role user =
     (case user of None \<Rightarrow> ''''
      | Some u \<Rightarrow> if ac_pk u = None then '''' else join '','' (sort (remdups (ac_roles u))))"

definition record_audit_from ::
  "env \<Rightarrow> audit_action \<Rightarrow> string \<Rightarrow> nat option \<Rightarrow> actor option \<Rightarrow> surface \<Rightarrow> state option \<Rightarrow>
   state option \<Rightarrow> string \<Rightarrow> string \<Rightarrow> 'a core_db_scheme \<Rightarrow> 'a core_db_scheme" where
  "record_audit_from env action etype eid user surf before after device ip db =
     db\<lparr>db_audit := snd (tb_insert (\<lambda>pk. \<lparr>al_pk = pk, al_occurred_at = now env,
        al_actor = actor_pk user, al_actor_role = take 32 (audit_role user),
        al_surface = surf, al_device_id = take 64 device,
        al_entity_type = take 50 etype, al_entity_id = eid, al_action = action,
        al_before = scrub before, al_after = scrub after,
        al_request_id = take 64 (request_id env), al_ip = take 45 ip\<rparr>) (db_audit db))\<rparr>"

text \<open>Most callers leave \<^verbatim>\<open>device_id\<close> and \<^verbatim>\<open>ip_address\<close> at their defaults.\<close>

definition record_audit ::
  "env \<Rightarrow> audit_action \<Rightarrow> string \<Rightarrow> nat option \<Rightarrow> actor option \<Rightarrow> surface \<Rightarrow> state option \<Rightarrow>
   state option \<Rightarrow> 'a core_db_scheme \<Rightarrow> 'a core_db_scheme" where
  "record_audit env action etype eid user surf before after db =
     record_audit_from env action etype eid user surf before after '''' '''' db"

text \<open>\<open>AuditLog.save\<close> and \<open>AuditLog.delete\<close> on an instance that has a primary key.\<close>

definition audit_save :: "audit_entry \<Rightarrow> bool \<Rightarrow> error + unit" where
  "audit_save row has_pk = require (\<not> has_pk) (Immutable ''audit_log'')"

definition audit_delete :: "audit_entry \<Rightarrow> error + unit" where
  "audit_delete row = Inl (Immutable ''audit_log'')"

text \<open>The audit rows an operation added, and that it removed or edited none.\<close>

definition audit_extends :: "'a core_db_scheme \<Rightarrow> 'b core_db_scheme \<Rightarrow> bool" where
  "audit_extends db db' \<longleftrightarrow>
     take (length (tb_rows (db_audit db))) (tb_rows (db_audit db')) = tb_rows (db_audit db)"

lemma audit_extends_refl [simp]: "audit_extends db db"
  by (simp add: audit_extends_def)

lemma audit_extends_iff:
  "audit_extends db db' \<longleftrightarrow> (\<exists>new. tb_rows (db_audit db') = tb_rows (db_audit db) @ new)"
  unfolding audit_extends_def by (metis append_eq_conv_conj append_take_drop_id)

lemma audit_extends_trans: "audit_extends a b \<Longrightarrow> audit_extends b c \<Longrightarrow> audit_extends a c"
  by (auto simp: audit_extends_iff)

lemma record_audit_extends [simp]: "audit_extends db (record_audit env a et ei u s b c db)"
  by (auto simp: audit_extends_iff record_audit_def record_audit_from_def table_simps)

lemma record_audit_from_extends [simp]:
  "audit_extends db (record_audit_from env a et ei u s b c d i db)"
  by (auto simp: audit_extends_iff record_audit_from_def table_simps)

lemma record_audit_profile [frame_simps, simp]:
  "db_profile (record_audit env a et ei u s b c db) = db_profile db"
  "db_profile (record_audit_from env a et ei u s b c d i db) = db_profile db"
  by (simp_all add: record_audit_def record_audit_from_def)

lemma record_audit_more [frame_simps, simp]:
  "core_db.more (record_audit env a et ei u s b c db) = core_db.more db"
  "core_db.more (record_audit_from env a et ei u s b c d i db) = core_db.more db"
  by (simp_all add: record_audit_def record_audit_from_def)

text \<open>One call writes one row.\<close>

lemma record_audit_from_row:
  "\<exists>e. tb_rows (db_audit (record_audit_from env a et ei u s b c dev ip db)) = tb_rows (db_audit db) @ [e] \<and>
     al_action e = a \<and> al_entity_type e = take 50 et \<and> al_entity_id e = ei \<and> al_actor e = actor_pk u \<and>
     al_before e = scrub b \<and> al_after e = scrub c"
  by (simp add: record_audit_from_def table_simps)

text \<open>The newest audit row.\<close>

definition last_audit :: "'a core_db_scheme \<Rightarrow> audit_entry" where
  "last_audit db = last (tb_rows (db_audit db))"

lemma last_audit_record_audit [simp]:
  "al_action (last_audit (record_audit env a et ei u s b c db)) = a"
  "al_entity_type (last_audit (record_audit env a et ei u s b c db)) = take 50 et"
  "al_entity_id (last_audit (record_audit env a et ei u s b c db)) = ei"
  "al_actor (last_audit (record_audit env a et ei u s b c db)) = actor_pk u"
  "al_before (last_audit (record_audit env a et ei u s b c db)) = scrub b"
  "al_after (last_audit (record_audit env a et ei u s b c db)) = scrub c"
  by (simp_all add: last_audit_def record_audit_def record_audit_from_def table_simps)


section \<open>The business profile\<close>

definition default_profile :: business_profile where
  "default_profile = \<lparr>bp_legal_name = ''DistriCore'', bp_trade_name = '''', bp_gstin = '''',
     bp_state_code = '''', bp_address_line1 = '''', bp_address_line2 = '''', bp_city = '''',
     bp_state = '''', bp_pin_code = '''', bp_phone = '''', bp_email = '''', bp_invoice_footer = '''',
     bp_max_manual_discount_percent = 10, bp_over_receipt_tolerance_percent = 0,
     bp_credit_limit_mode = WARN, bp_otp_expiry_minutes = 10, bp_updated_by = None\<rparr>"

text \<open>
  \<open>profile_of\<close> is the row \<^verbatim>\<open>get_business_profile()\<close> answers with; \<open>get_business_profile\<close> also
  creates it when it is missing.
\<close>

definition profile_of :: "'a core_db_scheme \<Rightarrow> business_profile" where
  "profile_of db = (case db_profile db of None \<Rightarrow> default_profile | Some p \<Rightarrow> p)"

definition get_business_profile ::
  "'a core_db_scheme \<Rightarrow> business_profile \<times> 'a core_db_scheme" where
  "get_business_profile db =
     (case db_profile db of None \<Rightarrow> (default_profile, db\<lparr>db_profile := Some default_profile\<rparr>)
      | Some p \<Rightarrow> (p, db))"

lemma get_business_profile_fst [simp]: "fst (get_business_profile db) = profile_of db"
  by (simp add: get_business_profile_def profile_of_def split: option.splits)

lemma profile_of_get [simp]: "profile_of (snd (get_business_profile db)) = profile_of db"
  by (simp add: get_business_profile_def profile_of_def split: option.splits)

lemma get_business_profile_eq: "snd (get_business_profile db) = db\<lparr>db_profile := Some (profile_of db)\<rparr>"
  by (cases db) (simp add: get_business_profile_def profile_of_def split: option.splits)

lemma profile_of_set [simp]: "profile_of (db\<lparr>db_profile := Some p\<rparr>) = p"
  by (simp add: profile_of_def)

lemma get_business_profile_pair:
  "get_business_profile db = (profile_of db, db\<lparr>db_profile := Some (profile_of db)\<rparr>)"
  by (simp add: prod_eq_iff get_business_profile_eq)

lemma profile_of_record_audit [simp, frame_simps]:
  "profile_of (record_audit env a et ei u s b c db) = profile_of db"
  by (simp add: profile_of_def)

lemma get_business_profile_more [simp, frame_simps]:
  "core_db.more (snd (get_business_profile db)) = core_db.more db"
  "db_audit (snd (get_business_profile db)) = db_audit db"
  by (simp_all add: get_business_profile_def split: option.splits)

text \<open>The table's CHECK constraints.\<close>

definition profile_constraints :: "business_profile \<Rightarrow> bool" where
  "profile_constraints p \<longleftrightarrow>
     0 \<le> bp_max_manual_discount_percent p \<and> bp_max_manual_discount_percent p \<le> 100 \<and>
     0 < bp_otp_expiry_minutes p \<and>
     0 \<le> bp_over_receipt_tolerance_percent p \<and> bp_over_receipt_tolerance_percent p \<le> 100"

lemma default_profile_constraints [simp]: "profile_constraints default_profile"
  by (simp add: profile_constraints_def default_profile_def)

text \<open>One keyword argument of \<^verbatim>\<open>update_business_profile\<close>: a column and its new value.\<close>

datatype profile_field =
    PF_legal_name string | PF_trade_name string | PF_gstin string | PF_state_code string
  | PF_address_line1 string | PF_address_line2 string | PF_city string | PF_state string
  | PF_pin_code string | PF_phone string | PF_email string | PF_invoice_footer string
  | PF_max_manual_discount_percent decimal | PF_over_receipt_tolerance_percent decimal
  | PF_credit_limit_mode credit_mode | PF_otp_expiry_minutes int

fun profile_field_name :: "profile_field \<Rightarrow> string" where
  "profile_field_name (PF_legal_name _) = ''legal_name''"
| "profile_field_name (PF_trade_name _) = ''trade_name''"
| "profile_field_name (PF_gstin _) = ''gstin''"
| "profile_field_name (PF_state_code _) = ''state_code''"
| "profile_field_name (PF_address_line1 _) = ''address_line1''"
| "profile_field_name (PF_address_line2 _) = ''address_line2''"
| "profile_field_name (PF_city _) = ''city''"
| "profile_field_name (PF_state _) = ''state''"
| "profile_field_name (PF_pin_code _) = ''pin_code''"
| "profile_field_name (PF_phone _) = ''phone''"
| "profile_field_name (PF_email _) = ''email''"
| "profile_field_name (PF_invoice_footer _) = ''invoice_footer''"
| "profile_field_name (PF_max_manual_discount_percent _) = ''max_manual_discount_percent''"
| "profile_field_name (PF_over_receipt_tolerance_percent _) = ''over_receipt_tolerance_percent''"
| "profile_field_name (PF_credit_limit_mode _) = ''credit_limit_mode''"
| "profile_field_name (PF_otp_expiry_minutes _) = ''otp_expiry_minutes''"

definition PROFILE_EDITABLE :: "string list" where
  "PROFILE_EDITABLE = [''legal_name'', ''trade_name'', ''gstin'', ''state_code'', ''address_line1'',
     ''address_line2'', ''city'', ''state'', ''pin_code'', ''phone'', ''email'', ''invoice_footer'',
     ''max_manual_discount_percent'', ''credit_limit_mode'', ''otp_expiry_minutes'']"

definition credit_mode_str :: "credit_mode \<Rightarrow> string" where
  "credit_mode_str m = (case m of WARN \<Rightarrow> ''WARN'' | BLOCK \<Rightarrow> ''BLOCK'')"

fun profile_set :: "profile_field \<Rightarrow> business_profile \<Rightarrow> business_profile" where
  "profile_set (PF_legal_name v) p = p\<lparr>bp_legal_name := v\<rparr>"
| "profile_set (PF_trade_name v) p = p\<lparr>bp_trade_name := v\<rparr>"
| "profile_set (PF_gstin v) p = p\<lparr>bp_gstin := v\<rparr>"
| "profile_set (PF_state_code v) p = p\<lparr>bp_state_code := v\<rparr>"
| "profile_set (PF_address_line1 v) p = p\<lparr>bp_address_line1 := v\<rparr>"
| "profile_set (PF_address_line2 v) p = p\<lparr>bp_address_line2 := v\<rparr>"
| "profile_set (PF_city v) p = p\<lparr>bp_city := v\<rparr>"
| "profile_set (PF_state v) p = p\<lparr>bp_state := v\<rparr>"
| "profile_set (PF_pin_code v) p = p\<lparr>bp_pin_code := v\<rparr>"
| "profile_set (PF_phone v) p = p\<lparr>bp_phone := v\<rparr>"
| "profile_set (PF_email v) p = p\<lparr>bp_email := v\<rparr>"
| "profile_set (PF_invoice_footer v) p = p\<lparr>bp_invoice_footer := v\<rparr>"
| "profile_set (PF_max_manual_discount_percent v) p = p\<lparr>bp_max_manual_discount_percent := v\<rparr>"
| "profile_set (PF_over_receipt_tolerance_percent v) p = p\<lparr>bp_over_receipt_tolerance_percent := v\<rparr>"
| "profile_set (PF_credit_limit_mode v) p = p\<lparr>bp_credit_limit_mode := v\<rparr>"
| "profile_set (PF_otp_expiry_minutes v) p = p\<lparr>bp_otp_expiry_minutes := v\<rparr>"

text \<open>The field with the profile's current value, and its audited value.\<close>

fun profile_get :: "profile_field \<Rightarrow> business_profile \<Rightarrow> profile_field" where
  "profile_get (PF_legal_name _) p = PF_legal_name (bp_legal_name p)"
| "profile_get (PF_trade_name _) p = PF_trade_name (bp_trade_name p)"
| "profile_get (PF_gstin _) p = PF_gstin (bp_gstin p)"
| "profile_get (PF_state_code _) p = PF_state_code (bp_state_code p)"
| "profile_get (PF_address_line1 _) p = PF_address_line1 (bp_address_line1 p)"
| "profile_get (PF_address_line2 _) p = PF_address_line2 (bp_address_line2 p)"
| "profile_get (PF_city _) p = PF_city (bp_city p)"
| "profile_get (PF_state _) p = PF_state (bp_state p)"
| "profile_get (PF_pin_code _) p = PF_pin_code (bp_pin_code p)"
| "profile_get (PF_phone _) p = PF_phone (bp_phone p)"
| "profile_get (PF_email _) p = PF_email (bp_email p)"
| "profile_get (PF_invoice_footer _) p = PF_invoice_footer (bp_invoice_footer p)"
| "profile_get (PF_max_manual_discount_percent _) p =
     PF_max_manual_discount_percent (bp_max_manual_discount_percent p)"
| "profile_get (PF_over_receipt_tolerance_percent _) p =
     PF_over_receipt_tolerance_percent (bp_over_receipt_tolerance_percent p)"
| "profile_get (PF_credit_limit_mode _) p = PF_credit_limit_mode (bp_credit_limit_mode p)"
| "profile_get (PF_otp_expiry_minutes _) p = PF_otp_expiry_minutes (bp_otp_expiry_minutes p)"

fun profile_pyval :: "profile_field \<Rightarrow> pyval" where
  "profile_pyval (PF_legal_name v) = PStr v"
| "profile_pyval (PF_trade_name v) = PStr v"
| "profile_pyval (PF_gstin v) = PStr v"
| "profile_pyval (PF_state_code v) = PStr v"
| "profile_pyval (PF_address_line1 v) = PStr v"
| "profile_pyval (PF_address_line2 v) = PStr v"
| "profile_pyval (PF_city v) = PStr v"
| "profile_pyval (PF_state v) = PStr v"
| "profile_pyval (PF_pin_code v) = PStr v"
| "profile_pyval (PF_phone v) = PStr v"
| "profile_pyval (PF_email v) = PStr v"
| "profile_pyval (PF_invoice_footer v) = PStr v"
| "profile_pyval (PF_max_manual_discount_percent v) = PDec 2 v"
| "profile_pyval (PF_over_receipt_tolerance_percent v) = PDec 2 v"
| "profile_pyval (PF_credit_limit_mode v) = PStr (credit_mode_str v)"
| "profile_pyval (PF_otp_expiry_minutes v) = PInt v"

text \<open>
  \<open>update_business_profile\<close> is not wrapped in a transaction: the row \<^verbatim>\<open>get_business_profile\<close>
  created stays when the save is refused, so the state is returned with either outcome.
\<close>

definition update_business_profile ::
  "env \<Rightarrow> actor option \<Rightarrow> profile_field list \<Rightarrow> 'a core_db_scheme \<Rightarrow>
   (error + business_profile) \<times> 'a core_db_scheme" where
  "update_business_profile env user kwargs db =
     (if \<not> has_role user [OWNER] then (Inl PermissionDenied, db)
      else
        let (profile, db1) = get_business_profile db;
            payload = filter (\<lambda>f. profile_field_name f \<in> set PROFILE_EDITABLE) kwargs
        in if payload = [] then (Inr profile, db1)
           else
             let before = map (\<lambda>f. (profile_field_name f, profile_pyval (profile_get f profile))) payload;
                 profile' = (fold profile_set payload profile)\<lparr>bp_updated_by := actor_pk user\<rparr>
             in if \<not> profile_constraints profile'
                then (Inl (IntegrityError ''business_profile''), db1)
                else (Inr profile',
                      record_audit env A_UPDATE ''business_profile'' (Some 1) user S_WEB
                        (Some before)
                        (Some (map (\<lambda>f. (profile_field_name f, profile_pyval f)) payload))
                        (db1\<lparr>db_profile := Some profile'\<rparr>)))"

lemma profile_set_tolerance:
  "profile_field_name f \<in> set PROFILE_EDITABLE \<Longrightarrow>
   bp_over_receipt_tolerance_percent (profile_set f p) = bp_over_receipt_tolerance_percent p"
  by (cases f) (simp_all add: PROFILE_EDITABLE_def)

lemma fold_profile_set_tolerance:
  "bp_over_receipt_tolerance_percent
     (fold profile_set (filter (\<lambda>f. profile_field_name f \<in> set PROFILE_EDITABLE) fs) p)
   = bp_over_receipt_tolerance_percent p"
  by (induction fs arbitrary: p) (auto simp: profile_set_tolerance)

lemma update_business_profile_constraints:
  assumes "update_business_profile env user kwargs db = (r, db')" "profile_constraints (profile_of db)"
  shows "profile_constraints (profile_of db')"
  using assms
  by (auto simp: update_business_profile_def Let_def get_business_profile_def profile_of_def
      record_audit_def record_audit_from_def split: if_splits option.splits)

lemma update_business_profile_tolerance:
  "bp_over_receipt_tolerance_percent (profile_of (snd (update_business_profile env user kwargs db)))
   = bp_over_receipt_tolerance_percent (profile_of db)"
  by (simp add: update_business_profile_def Let_def get_business_profile_def profile_of_def
      record_audit_def record_audit_from_def fold_profile_set_tolerance split: option.splits)

lemma update_business_profile_audited:
  assumes "update_business_profile env user kwargs db = (Inr p, db')"
    and "profile_of db' \<noteq> profile_of db"
  shows "has_role user [OWNER]"
    and "tb_rows (db_audit db') = tb_rows (db_audit db) @ [last_audit db']"
    and "al_action (last_audit db') = A_UPDATE"
  using assms
  by (auto simp: update_business_profile_def Let_def get_business_profile_def profile_of_def
      record_audit_def record_audit_from_def table_simps last_audit_def
      split: if_splits option.splits)


section \<open>The empty database\<close>

definition empty_core_db :: core_db where
  "empty_core_db = \<lparr>db_audit = empty_table, db_profile = None\<rparr>"

end
