(* ===== verification/Identity.thy ===== *)
theory Identity
  imports Core
begin

text \<open>
  Identity: \<^verbatim>\<open>identity/phone.py\<close>, \<^verbatim>\<open>managers.py\<close>, \<^verbatim>\<open>models.py\<close> and \<^verbatim>\<open>services.py\<close>.  Users, roles, their
  links and one-time passcodes.

  Django's password hashers, the random source and the settings are outside the repository's
  code: \<open>hashers\<close> holds \<^verbatim>\<open>make_password\<close> and \<^verbatim>\<open>check_password\<close>, the generated code is an argument
  of \<open>request_otp\<close>, and \<open>otp_settings\<close> the two settings read.  Sending the SMS has no effect on
  the database: the result says whether one is sent.
\<close>


section \<open>Phone numbers\<close>

definition lstrip_plus :: "string \<Rightarrow> string" where
  "lstrip_plus s = dropWhile (\<lambda>c. c = CHR ''+'') s"

definition normalise_phone :: "string \<Rightarrow> error + string" where
  "normalise_phone phone =
     (let cleaned = strip (filter (\<lambda>c. is_digit c \<or> c = CHR ''+'') phone)
      in andThen (require (cleaned \<noteq> '''') (invalid ''phone'' ''REQUIRED'')) (\<lambda>_.
         let digits = lstrip_plus cleaned;
             digits = (if length digits = 10 then ''91'' @ digits else digits)
         in Inr (CHR ''+'' # digits)))"

lemma strip_no_space: "\<forall>c \<in> set s. \<not> is_space c \<Longrightarrow> strip s = s"
proof -
  assume s: "\<forall>c \<in> set s. \<not> is_space c"
  have "dropWhile is_space t = t" if "\<forall>c \<in> set t. \<not> is_space c" for t
    using that by (cases t) auto
  from this [of s] this [of "rev s"] show ?thesis using s by (simp add: strip_def)
qed

lemma phone_char_no_space: "is_digit c \<or> c = CHR ''+'' \<Longrightarrow> \<not> is_space c"
  by (auto simp: is_digit_def is_space_def Let_def)

lemma normalise_phone_chars:
  "normalise_phone p = Inr q \<Longrightarrow> \<forall>c \<in> set q. is_digit c \<or> c = CHR ''+''"
proof -
  assume n: "normalise_phone p = Inr q"
  let ?f = "filter (\<lambda>c. is_digit c \<or> c = CHR ''+'') p"
  have "strip ?f = ?f" by (rule strip_no_space) (use phone_char_no_space in auto)
  then have "q = CHR ''+'' # lstrip_plus ?f \<or> q = CHR ''+'' # CHR ''9'' # CHR ''1'' # lstrip_plus ?f"
    using n by (auto simp: normalise_phone_def Let_def split: if_splits)
  moreover have "\<forall>c \<in> set (lstrip_plus ?f). is_digit c \<or> c = CHR ''+''"
    by (auto simp: lstrip_plus_def dest: set_dropWhileD)
  moreover have "is_digit (CHR ''9'')" "is_digit (CHR ''1'')" by (simp_all add: is_digit_def)
  moreover from calculation(1) have "set q \<subseteq> {CHR ''+'', CHR ''9'', CHR ''1''} \<union> set (lstrip_plus ?f)"
    by (elim disjE) (simp_all only: list.set, blast+)
  ultimately show ?thesis by blast
qed

lemma normalise_phone_idem:
  assumes "normalise_phone p = Inr q"
  shows "normalise_phone q = Inr q"
proof -
  have chars: "\<forall>c \<in> set q. is_digit c \<or> c = CHR ''+''" by (rule normalise_phone_chars [OF assms])
  then have f: "filter (\<lambda>c. is_digit c \<or> c = CHR ''+'') q = q" by (simp add: filter_id_conv)
  have s: "strip q = q" by (rule strip_no_space) (use chars phone_char_no_space in blast)
  obtain d where d: "q = CHR ''+'' # d" "length d \<noteq> 10" "d = [] \<or> hd d \<noteq> CHR ''+''"
  proof -
    obtain c where c: "q = CHR ''+'' # (if length (lstrip_plus c) = 10 then ''91'' @ lstrip_plus c else lstrip_plus c)"
    proof (rule that)
      let ?c = "strip (filter (\<lambda>c. is_digit c \<or> c = CHR ''+'') p)"
      show "q = CHR ''+'' # (if length (lstrip_plus ?c) = 10 then ''91'' @ lstrip_plus ?c else lstrip_plus ?c)"
        using assms by (simp add: normalise_phone_def Let_def split: if_splits)
    qed
    have "lstrip_plus c = [] \<or> hd (lstrip_plus c) \<noteq> CHR ''+''"
      unfolding lstrip_plus_def using hd_dropWhile [of "\<lambda>c. c = CHR ''+''" c] by blast
    then show ?thesis using c by (intro that [of "if length (lstrip_plus c) = 10 then ''91'' @ lstrip_plus c else lstrip_plus c"]) auto
  qed
  have "lstrip_plus q = d" using d(1,3) by (cases d) (auto simp: lstrip_plus_def)
  then show ?thesis using f s d by (simp add: normalise_phone_def)
qed


section \<open>Tables\<close>

datatype language = HINDI | ENGLISH

record user =
  us_pk :: nat
  us_phone :: string
  us_full_name :: string
  us_language :: language
  us_password :: "string option"
  us_customer :: "nat option"
  us_is_active :: bool
  us_is_superuser :: bool
  us_last_login_at :: "int option"
  us_updated_at :: int

record role_row =
  ro_pk :: nat
  ro_code :: string

record user_role =
  ur_pk :: nat
  ur_user :: nat
  ur_role :: nat
  ur_granted_by :: "nat option"

datatype otp_purpose = LOGIN | PHONE_CHANGE

record otp_request =
  ot_pk :: nat
  ot_phone :: string
  ot_code_hash :: string
  ot_purpose :: otp_purpose
  ot_expires_at :: int
  ot_attempt_count :: int
  ot_consumed_at :: "int option"
  ot_requested_ip :: string
  ot_created_at :: int

record identity_db = core_db +
  db_users :: "user table"
  db_roles :: "role_row table"
  db_user_roles :: "user_role table"
  db_otps :: "otp_request table"

record hashers =
  make_password :: "string \<Rightarrow> string"
  check_password :: "string \<Rightarrow> string \<Rightarrow> bool"

record otp_settings =
  OTP_MAX_ATTEMPTS :: int

lemma record_audit_identity [simp, frame_simps]:
  "db_users (record_audit env a et ei u s b c db) = db_users db"
  "db_roles (record_audit env a et ei u s b c db) = db_roles db"
  "db_user_roles (record_audit env a et ei u s b c db) = db_user_roles db"
  "db_otps (record_audit env a et ei u s b c db) = db_otps db"
  "db_users (record_audit_from env a et ei u s b c d i db) = db_users db"
  "db_roles (record_audit_from env a et ei u s b c d i db) = db_roles db"
  "db_user_roles (record_audit_from env a et ei u s b c d i db) = db_user_roles db"
  "db_otps (record_audit_from env a et ei u s b c d i db) = db_otps db"
  by (simp_all add: record_audit_def record_audit_from_def)

definition has_perm :: "user \<Rightarrow> bool" where
  "has_perm u \<longleftrightarrow> us_is_active u \<and> us_is_superuser u"

definition is_staff :: "user \<Rightarrow> bool" where
  "is_staff u \<longleftrightarrow> us_is_superuser u"

definition is_expired :: "env \<Rightarrow> otp_request \<Rightarrow> bool" where
  "is_expired env x \<longleftrightarrow> now env \<ge> ot_expires_at x"

definition is_consumed :: "otp_request \<Rightarrow> bool" where
  "is_consumed x \<longleftrightarrow> ot_consumed_at x \<noteq> None"

text \<open>\<open>User.role_codes()\<close>, and the user as the actor of a service.\<close>

definition user_role_codes :: "'a identity_db_scheme \<Rightarrow> nat \<Rightarrow> string list" where
  "user_role_codes db user =
     map ro_code (filter (\<lambda>r. tb_exists (\<lambda>l. ur_user l = user \<and> ur_role l = ro_pk r) (db_user_roles db))
       (tb_rows (db_roles db)))"

definition actor_of :: "'a identity_db_scheme \<Rightarrow> user \<Rightarrow> actor" where
  "actor_of db u = \<lparr>ac_pk = Some (us_pk u), ac_authenticated = True, ac_active = us_is_active u,
     ac_roles = user_role_codes db (us_pk u), ac_customer = us_customer u\<rparr>"


section \<open>One-time passcodes\<close>

definition MAX_OTP_PER_WINDOW :: nat where "MAX_OTP_PER_WINDOW = 3"
definition OTP_WINDOW :: int where "OTP_WINDOW = 15 * 60 * 1000000"

record otp_challenge =
  oc_expires_in_seconds :: int
  oc_attempts_allowed :: int

definition recent_otps :: "env \<Rightarrow> string \<Rightarrow> 'a identity_db_scheme \<Rightarrow> nat" where
  "recent_otps env phone db =
     length (filter (\<lambda>x. ot_phone x = phone \<and> ot_created_at x \<ge> now env - OTP_WINDOW) (tb_rows (db_otps db)))"

definition request_otp ::
  "env \<Rightarrow> hashers \<Rightarrow> otp_settings \<Rightarrow> string \<Rightarrow> string \<Rightarrow> string \<Rightarrow> otp_purpose \<Rightarrow>
   'a identity_db_scheme \<Rightarrow> error + (otp_challenge \<times> bool) \<times> 'a identity_db_scheme" where
  "request_otp env hs cfg code phone ip purpose db =
     andThen (normalise_phone phone) (\<lambda>phone.
     andThen (require (\<not> recent_otps env phone db \<ge> MAX_OTP_PER_WINDOW) OtpRateLimited) (\<lambda>_.
     let (profile, db) = get_business_profile db;
         expires = now env + bp_otp_expiry_minutes profile * 60 * 1000000;
         otps = snd (tb_insert (\<lambda>pk. \<lparr>ot_pk = pk, ot_phone = phone, ot_code_hash = make_password hs code,
            ot_purpose = purpose, ot_expires_at = expires, ot_attempt_count = 0,
            ot_consumed_at = None, ot_requested_ip = take 45 ip, ot_created_at = now env\<rparr>) (db_otps db));
         sms = tb_exists (\<lambda>u. us_phone u = phone \<and> us_is_active u) (db_users db)
     in Inr ((\<lparr>oc_expires_in_seconds = (expires - now env) div 1000000,
               oc_attempts_allowed = OTP_MAX_ATTEMPTS cfg\<rparr>, sms), db\<lparr>db_otps := otps\<rparr>)))"

text \<open>\<^verbatim>\<open>.order_by("-created_at").first()\<close>; rows of one instant are taken in the order of insertion.\<close>

fun newest_otp :: "otp_request list \<Rightarrow> otp_request option" where
  "newest_otp [] = None"
| "newest_otp (x # xs) =
     (case newest_otp xs of None \<Rightarrow> Some x
      | Some y \<Rightarrow> if ot_created_at y > ot_created_at x then Some y else Some x)"

definition active_otp :: "string \<Rightarrow> 'a identity_db_scheme \<Rightarrow> otp_request option" where
  "active_otp phone db =
     newest_otp (filter (\<lambda>x. ot_phone x = phone \<and> ot_consumed_at x = None) (tb_rows (db_otps db)))"

definition login_success ::
  "env \<Rightarrow> user \<Rightarrow> surface \<Rightarrow> string \<Rightarrow> string \<Rightarrow> string \<Rightarrow> 'a identity_db_scheme \<Rightarrow>
   user \<times> 'a identity_db_scheme" where
  "login_success env u surf device ip method db =
     (let upd = (\<lambda>r. r\<lparr>us_last_login_at := Some (now env), us_updated_at := now env\<rparr>)
      in (upd u, record_audit_from env A_LOGIN_SUCCESS ''app_user'' (Some (us_pk u))
            (Some (actor_of db u)) surf None (Some [(''method'', PStr method)]) device ip
            (db\<lparr>db_users := tb_update us_pk (us_pk u) upd (db_users db)\<rparr>)))"

text \<open>
  The outcome is returned with the state: a failed attempt is committed before the rejection
  is raised.  The three early refusals have written nothing.
\<close>

definition verify_otp ::
  "env \<Rightarrow> hashers \<Rightarrow> otp_settings \<Rightarrow> string \<Rightarrow> string \<Rightarrow> string \<Rightarrow> string \<Rightarrow>
   'a identity_db_scheme \<Rightarrow> (error + user) \<times> 'a identity_db_scheme" where
  "verify_otp env hs cfg phone code device ip db =
     (case normalise_phone phone of Inl e \<Rightarrow> (Inl e, db)
      | Inr phone \<Rightarrow>
        (case active_otp phone db of None \<Rightarrow> (Inl OtpInvalid, db)
         | Some otp \<Rightarrow>
           if ot_attempt_count otp \<ge> OTP_MAX_ATTEMPTS cfg then (Inl OtpAttemptsExceeded, db)
           else if now env \<ge> ot_expires_at otp then (Inl OtpExpired, db)
           else if check_password hs code (ot_code_hash otp) then
             let db = db\<lparr>db_otps := tb_update ot_pk (ot_pk otp)
                   (\<lambda>x. x\<lparr>ot_consumed_at := Some (now env)\<rparr>) (db_otps db)\<rparr>
             in (case tb_first (\<lambda>u. us_phone u = phone) (db_users db) of
                   None \<Rightarrow> (Inl InvalidCredentials, db)
                 | Some u \<Rightarrow>
                     if \<not> us_is_active u then (Inl AccountInactive, db)
                     else let (u, db) = login_success env u S_API device ip ''OTP'' db in (Inr u, db))
           else (Inl OtpInvalid, db\<lparr>db_otps := tb_update ot_pk (ot_pk otp)
                   (\<lambda>x. x\<lparr>ot_attempt_count := ot_attempt_count x + 1\<rparr>) (db_otps db)\<rparr>)))"

definition phone_suffix :: "string \<Rightarrow> string" where
  "phone_suffix phone = drop (length phone - 4) phone"

definition authenticate_password ::
  "env \<Rightarrow> hashers \<Rightarrow> string \<Rightarrow> string \<Rightarrow> string \<Rightarrow> 'a identity_db_scheme \<Rightarrow>
   (error + user) \<times> 'a identity_db_scheme" where
  "authenticate_password env hs phone password ip db =
     (case normalise_phone phone of Inl e \<Rightarrow> (Inl e, db)
      | Inr phone \<Rightarrow>
        let user = tb_first (\<lambda>u. us_phone u = phone) (db_users db);
            matches = (case user of None \<Rightarrow> False
                       | Some u \<Rightarrow> (case us_password u of None \<Rightarrow> False
                                   | Some h \<Rightarrow> check_password hs password h))
        in (case user of
              Some u \<Rightarrow>
                if \<not> matches then
                  (Inl InvalidCredentials,
                   record_audit_from env A_LOGIN_FAILED ''app_user'' (Some (us_pk u)) None S_WEB None
                     (Some [(''phone_suffix'', PStr (phone_suffix phone))]) '''' ip db)
                else if \<not> us_is_active u then (Inl AccountInactive, db)
                else let (u, db) = login_success env u S_WEB '''' ip ''PASSWORD'' db in (Inr u, db)
            | None \<Rightarrow>
                (Inl InvalidCredentials,
                 record_audit_from env A_LOGIN_FAILED ''app_user'' None None S_WEB None
                   (Some [(''phone_suffix'', PStr (phone_suffix phone))]) '''' ip db)))"


section \<open>Roles\<close>

definition role_link :: "nat \<Rightarrow> nat \<Rightarrow> 'a identity_db_scheme \<Rightarrow> user_role option" where
  "role_link user role db = tb_first (\<lambda>l. ur_user l = user \<and> ur_role l = role) (db_user_roles db)"

text \<open>\<^verbatim>\<open>UserRole.objects.get_or_create\<close>: the link, whether it was created, and the state.\<close>

definition get_or_create_link ::
  "nat \<Rightarrow> nat \<Rightarrow> nat option \<Rightarrow> 'a identity_db_scheme \<Rightarrow>
   user_role \<times> bool \<times> 'a identity_db_scheme" where
  "get_or_create_link user role granted_by db =
     (case role_link user role db of Some l \<Rightarrow> (l, False, db)
      | None \<Rightarrow>
        let (l, links) = tb_insert (\<lambda>pk. \<lparr>ur_pk = pk, ur_user = user, ur_role = role,
              ur_granted_by = granted_by\<rparr>) (db_user_roles db)
        in (l, True, db\<lparr>db_user_roles := links\<rparr>))"

definition grant_role ::
  "env \<Rightarrow> actor option \<Rightarrow> nat \<Rightarrow> string \<Rightarrow> 'a identity_db_scheme \<Rightarrow>
   error + user_role \<times> 'a identity_db_scheme" where
  "grant_role env actor user role_code db =
     andThen (require_roles actor [OWNER]) (\<lambda>_.
     case tb_first (\<lambda>r. ro_code r = role_code) (db_roles db) of
       None \<Rightarrow> Inl (invalid ''role_code'' ''NOT_FOUND'')
     | Some role \<Rightarrow>
         let (link, created, db) = get_or_create_link user (ro_pk role) (actor_pk actor) db
         in Inr (link,
              if created then
                record_audit env A_ROLE_GRANT ''user_role'' (Some (ur_pk link)) actor S_WEB None
                  (Some [(''user_id'', PInt (int user)), (''role'', PStr role_code)]) db
              else db))"

definition revoke_role ::
  "env \<Rightarrow> actor option \<Rightarrow> nat \<Rightarrow> string \<Rightarrow> 'a identity_db_scheme \<Rightarrow>
   error + unit \<times> 'a identity_db_scheme" where
  "revoke_role env actor user role_code db =
     andThen (require_roles actor [OWNER]) (\<lambda>_.
     case tb_first (\<lambda>l. ur_user l = user \<and>
            tb_exists (\<lambda>r. ro_pk r = ur_role l \<and> ro_code r = role_code) (db_roles db)) (db_user_roles db) of
       None \<Rightarrow> Inr ((), db)
     | Some link \<Rightarrow>
         Inr ((), record_audit env A_ROLE_REVOKE ''user_role'' (Some (ur_pk link)) actor S_WEB
            (Some [(''user_id'', PInt (int user)), (''role'', PStr role_code)]) None
            (db\<lparr>db_user_roles := tb_delete (\<lambda>l. ur_pk l = ur_pk link) (db_user_roles db)\<rparr>)))"

datatype bootstrap_mode = FIRST_BOOT | RECOVERY

record bootstrap_result =
  br_user :: user
  br_mode :: bootstrap_mode
  br_created_user :: bool

text \<open>
  \<open>create_account\<close> is the manager's \<^verbatim>\<open>_create\<close>; the last argument of \<open>create_superuser\<close> is the
  \<^verbatim>\<open>is_superuser\<close> a caller may pass.
\<close>

definition create_account ::
  "env \<Rightarrow> hashers \<Rightarrow> string \<Rightarrow> string option \<Rightarrow> string \<Rightarrow> bool \<Rightarrow> 'a identity_db_scheme \<Rightarrow>
   error + user \<times> 'a identity_db_scheme" where
  "create_account env hs phone password full_name superuser db =
     andThen (require (phone \<noteq> '''') (PyError ''ValueError'')) (\<lambda>_.
     andThen (normalise_phone phone) (\<lambda>phone.
     andThen (require (\<not> tb_exists (\<lambda>u. us_phone u = phone) (db_users db)) (IntegrityError ''app_user_phone'')) (\<lambda>_.
     let (u, users) = tb_insert (\<lambda>pk. \<lparr>us_pk = pk, us_phone = phone, us_full_name = full_name,
           us_language = HINDI,
           us_password = (case password of None \<Rightarrow> None
                          | Some pw \<Rightarrow> if pw = '''' then None else Some (make_password hs pw)),
           us_customer = None, us_is_active = True, us_is_superuser = superuser,
           us_last_login_at = None, us_updated_at = now env\<rparr>) (db_users db)
     in Inr (u, db\<lparr>db_users := users\<rparr>))))"

definition create_user ::
  "env \<Rightarrow> hashers \<Rightarrow> string \<Rightarrow> string option \<Rightarrow> string \<Rightarrow> 'a identity_db_scheme \<Rightarrow>
   error + user \<times> 'a identity_db_scheme" where
  "create_user env hs phone password full_name db = create_account env hs phone password full_name False db"

definition create_superuser ::
  "env \<Rightarrow> hashers \<Rightarrow> string \<Rightarrow> string option \<Rightarrow> string \<Rightarrow> bool option \<Rightarrow> 'a identity_db_scheme \<Rightarrow>
   error + user \<times> 'a identity_db_scheme" where
  "create_superuser env hs phone password full_name superuser db =
     andThen (require (superuser \<noteq> Some False) (PyError ''ValueError'')) (\<lambda>_.
     andThen (require (password \<noteq> None \<and> password \<noteq> Some '''') (PyError ''ValueError'')) (\<lambda>_.
     create_account env hs phone password full_name True db))"

definition active_owner :: "nat \<Rightarrow> 'a identity_db_scheme \<Rightarrow> bool" where
  "active_owner role db \<longleftrightarrow>
     tb_exists (\<lambda>l. ur_role l = role \<and>
       tb_exists (\<lambda>u. us_pk u = ur_user l \<and> us_is_active u) (db_users db)) (db_user_roles db)"

definition mode_str :: "bootstrap_mode \<Rightarrow> string" where
  "mode_str m = (case m of FIRST_BOOT \<Rightarrow> ''FIRST_BOOT'' | RECOVERY \<Rightarrow> ''RECOVERY'')"

definition bootstrap_owner ::
  "env \<Rightarrow> hashers \<Rightarrow> string \<Rightarrow> string \<Rightarrow> string option \<Rightarrow> string \<Rightarrow> 'a identity_db_scheme \<Rightarrow>
   error + bootstrap_result \<times> 'a identity_db_scheme" where
  "bootstrap_owner env hs phone full_name password reason db =
     andThen (normalise_phone phone) (\<lambda>phone.
     case tb_first (\<lambda>r. ro_code r = OWNER) (db_roles db) of
       None \<Rightarrow> Inl (invalid ''role'' ''NOT_FOUND'')
     | Some owner_role \<Rightarrow>
       andThen (require (\<not> active_owner (ro_pk owner_role) db) PermissionDenied) (\<lambda>_.
       let owner_rows = length (filter (\<lambda>l. ur_role l = ro_pk owner_role) (tb_rows (db_user_roles db)));
           users = length (tb_rows (db_users db));
           mode = (if owner_rows = 0 then FIRST_BOOT else RECOVERY);
           found = tb_first (\<lambda>u. us_phone u = phone) (db_users db)
       in andThen (case found of
              None \<Rightarrow> andThen (require (full_name \<noteq> '''') (invalid ''full_name'' ''REQUIRED''))
                        (\<lambda>_. create_user env hs phone password full_name db)
            | Some u \<Rightarrow> andThen (require (us_is_active u) PermissionDenied) (\<lambda>_. Inr (u, db)))
          (\<lambda>(user, db).
            let (link, created, db) = get_or_create_link (us_pk user) (ro_pk owner_role) None db
            in Inr (\<lparr>br_user = user, br_mode = mode, br_created_user = (found = None)\<rparr>,
                 record_audit env A_OWNER_BOOTSTRAP ''user_role'' (Some (ur_pk link)) None S_SYSTEM None
                   (Some [(''mode'', PStr (mode_str mode)), (''role'', PStr OWNER),
                          (''user_id'', PInt (int (us_pk user))),
                          (''phone_suffix'', PStr (phone_suffix phone)),
                          (''users_existing'', PInt (int users)),
                          (''owner_rows_existing'', PInt (int owner_rows)),
                          (''inactive_owners'', PInt (int owner_rows)),
                          (''reason'', PStr reason), (''granted'', PBool created)]) db))))"

text \<open>
  The command behind it: the password comes from the environment or, unless \<^verbatim>\<open>--noinput\<close>, from a
  prompt; the exit is the mode and the user, or the refusal.
\<close>

definition bootstrap_command ::
  "env \<Rightarrow> hashers \<Rightarrow> string \<Rightarrow> string \<Rightarrow> string \<Rightarrow> bool \<Rightarrow> string option \<Rightarrow> string \<Rightarrow> 'a identity_db_scheme \<Rightarrow>
   error + (user \<times> bootstrap_mode) \<times> 'a identity_db_scheme" where
  "bootstrap_command env hs phone full_name reason noinput password_env prompt db =
     (let some = (\<lambda>p. if p = '''' then None else Some p);
          password = (case password_env of None \<Rightarrow> None | Some p \<Rightarrow> some p);
          password = (if password = None \<and> \<not> noinput then some prompt else password)
      in andThen (bootstrap_owner env hs phone full_name password reason db) (\<lambda>(res, db).
         Inr ((br_user res, br_mode res), db)))"


section \<open>Reads\<close>

definition active_users_with_role :: "string \<Rightarrow> 'a identity_db_scheme \<Rightarrow> user list" where
  "active_users_with_role code db =
     filter (\<lambda>u. us_is_active u \<and> code \<in> set (user_role_codes db (us_pk u))) (tb_rows (db_users db))"

definition get_active_user_by_phone :: "string \<Rightarrow> 'a identity_db_scheme \<Rightarrow> user option" where
  "get_active_user_by_phone phone db = tb_first (\<lambda>u. us_phone u = phone \<and> us_is_active u) (db_users db)"

definition get_active_user :: "nat \<Rightarrow> 'a identity_db_scheme \<Rightarrow> user option" where
  "get_active_user user_id db = tb_first (\<lambda>u. us_pk u = user_id \<and> us_is_active u) (db_users db)"

record user_view =
  uw_id :: nat
  uw_full_name :: string
  uw_phone :: string
  uw_language :: language
  uw_roles :: "string list"
  uw_customer_id :: "nat option"

definition user_payload :: "user \<Rightarrow> 'a identity_db_scheme \<Rightarrow> user_view" where
  "user_payload u db = \<lparr>uw_id = us_pk u, uw_full_name = us_full_name u, uw_phone = us_phone u,
     uw_language = us_language u, uw_roles = sort (remdups (user_role_codes db (us_pk u))),
     uw_customer_id = us_customer u\<rparr>"

text \<open>The web login: any refusal of the service is a failed login.  \<open>ip\<close> is \<open>client_ip(request)\<close>.\<close>

definition phone_backend ::
  "env \<Rightarrow> hashers \<Rightarrow> string option \<Rightarrow> string option \<Rightarrow> string option \<Rightarrow> string \<Rightarrow> 'a identity_db_scheme \<Rightarrow>
   (error + user option) \<times> 'a identity_db_scheme" where
  "phone_backend env hs username phone password ip db =
     (let phone = (if username = None \<or> username = Some '''' then phone else username)
      in if phone = None \<or> phone = Some '''' \<or> password = None \<or> password = Some '''' then (Inr None, db)
         else case authenticate_password env hs (the phone) (the password) ip db of
                (Inr u, db) \<Rightarrow> (Inr (Some u), db)
              | (Inl e, db) \<Rightarrow> (if is_domain_error e then Inr None else Inl e, db))"

section \<open>Passcode attempts\<close>

text \<open>At most three codes are issued for a number in any window, counted at the newest request.\<close>

lemma request_otp_rate:
  assumes "request_otp env hs cfg code phone ip purpose db = Inr (r, db')"
    and "normalise_phone phone = Inr q"
  shows "recent_otps env q db' \<le> MAX_OTP_PER_WINDOW"
    and "tb_rows (db_users db') = tb_rows (db_users db)"
  using assms
  by (auto simp: request_otp_def recent_otps_def get_business_profile_def table_simps OTP_WINDOW_def
      MAX_OTP_PER_WINDOW_def Let_def split: if_splits option.splits)

lemma request_otp_limited:
  assumes "normalise_phone phone = Inr q"
  shows "request_otp env hs cfg code phone ip purpose db = Inl OtpRateLimited \<longleftrightarrow>
    MAX_OTP_PER_WINDOW \<le> recent_otps env q db"
  using assms by (auto simp: request_otp_def Let_def split: prod.splits if_splits)

lemma newest_otp_map:
  assumes "\<And>x. ot_created_at (g x) = ot_created_at x"
  shows "newest_otp (map g os) = map_option g (newest_otp os)"
  using assms by (induction os) (auto split: option.splits)

text \<open>A wrong code is counted on the row it was checked against, and the row stays the active one.\<close>

lemma active_otp_attempt:
  assumes "active_otp q db = Some otp"
  shows "active_otp q (db\<lparr>db_otps := tb_update ot_pk (ot_pk otp)
            (\<lambda>x. x\<lparr>ot_attempt_count := ot_attempt_count x + 1\<rparr>) (db_otps db)\<rparr>)
       = Some (otp\<lparr>ot_attempt_count := ot_attempt_count otp + 1\<rparr>)"
proof -
  let ?g = "\<lambda>x :: otp_request. if ot_pk x = ot_pk otp then x\<lparr>ot_attempt_count := ot_attempt_count x + 1\<rparr> else x"
  let ?p = "\<lambda>x :: otp_request. ot_phone x = q \<and> ot_consumed_at x = None"
  have "filter ?p (map ?g os) = map ?g (filter ?p os)" for os
    by (induction os) auto
  moreover have "newest_otp (map ?g os) = map_option ?g (newest_otp os)" for os
    by (rule newest_otp_map) simp
  ultimately show ?thesis
    using assms by (simp add: active_otp_def table_simps)
qed

lemma verify_otp_wrong:
  assumes "normalise_phone phone = Inr q" "active_otp q db = Some otp"
    "ot_attempt_count otp < OTP_MAX_ATTEMPTS cfg" "now env < ot_expires_at otp"
    "\<not> check_password hs code (ot_code_hash otp)"
  shows "verify_otp env hs cfg phone code device ip db =
    (Inl OtpInvalid, db\<lparr>db_otps := tb_update ot_pk (ot_pk otp)
        (\<lambda>x. x\<lparr>ot_attempt_count := ot_attempt_count x + 1\<rparr>) (db_otps db)\<rparr>)"
  using assms by (simp add: verify_otp_def)

lemma verify_otp_exceeded:
  assumes "normalise_phone phone = Inr q" "active_otp q db = Some otp"
    "OTP_MAX_ATTEMPTS cfg \<le> ot_attempt_count otp"
  shows "verify_otp env hs cfg phone code device ip db = (Inl OtpAttemptsExceeded, db)"
  using assms by (simp add: verify_otp_def)

text \<open>A run of guesses at one instant before the code expires.\<close>

fun guess_all ::
  "env \<Rightarrow> hashers \<Rightarrow> otp_settings \<Rightarrow> string \<Rightarrow> string list \<Rightarrow> 'a identity_db_scheme \<Rightarrow> 'a identity_db_scheme" where
  "guess_all env hs cfg phone [] db = db"
| "guess_all env hs cfg phone (c # cs) db =
     guess_all env hs cfg phone cs (snd (verify_otp env hs cfg phone c '''' '''' db))"

lemma guess_all_count:
  assumes "normalise_phone phone = Inr q" "active_otp q db = Some otp" "now env < ot_expires_at otp"
    "\<forall>c \<in> set cs. \<not> check_password hs c (ot_code_hash otp)" "ot_attempt_count otp \<le> OTP_MAX_ATTEMPTS cfg"
  shows "\<exists>otp'. active_otp q (guess_all env hs cfg phone cs db) = Some otp' \<and>
    ot_code_hash otp' = ot_code_hash otp \<and> ot_expires_at otp' = ot_expires_at otp \<and>
    ot_attempt_count otp' = min (OTP_MAX_ATTEMPTS cfg) (ot_attempt_count otp + int (length cs))"
  using assms(2-)
proof (induction cs arbitrary: db otp)
  case (Cons c cs)
  show ?case
  proof (cases "ot_attempt_count otp < OTP_MAX_ATTEMPTS cfg")
    case True
    let ?db = "db\<lparr>db_otps := tb_update ot_pk (ot_pk otp)
            (\<lambda>x. x\<lparr>ot_attempt_count := ot_attempt_count x + 1\<rparr>) (db_otps db)\<rparr>"
    let ?otp = "otp\<lparr>ot_attempt_count := ot_attempt_count otp + 1\<rparr>"
    have "\<not> check_password hs c (ot_code_hash otp)" using Cons.prems(3) by simp
    from verify_otp_wrong [OF assms(1) Cons.prems(1) True Cons.prems(2) this]
    have v: "snd (verify_otp env hs cfg phone c '''' '''' db) = ?db" by simp
    have "active_otp q ?db = Some ?otp" by (rule active_otp_attempt [OF Cons.prems(1)])
    from Cons.IH [OF this] Cons.prems True show ?thesis by (simp add: v add.assoc)
  next
    case False
    then have "snd (verify_otp env hs cfg phone c '''' '''' db) = db"
      using verify_otp_exceeded [OF assms(1) Cons.prems(1)] by simp
    then show ?thesis using Cons.IH [OF Cons.prems(1)] Cons.prems False by simp
  qed
qed simp

lemma guess_all_locks_out:
  assumes "normalise_phone phone = Inr q" "active_otp q db = Some otp" "now env < ot_expires_at otp"
    "\<forall>c \<in> set cs. \<not> check_password hs c (ot_code_hash otp)" "ot_attempt_count otp \<le> OTP_MAX_ATTEMPTS cfg"
    "OTP_MAX_ATTEMPTS cfg \<le> ot_attempt_count otp + int (length cs)"
  shows "fst (verify_otp env' hs cfg phone code device ip (guess_all env hs cfg phone cs db))
       = Inl OtpAttemptsExceeded"
proof -
  obtain otp' where "active_otp q (guess_all env hs cfg phone cs db) = Some otp'"
    "ot_attempt_count otp' = OTP_MAX_ATTEMPTS cfg"
    using guess_all_count [OF assms(1-5)] assms(6) by (auto simp: min_def)
  then have "OTP_MAX_ATTEMPTS cfg \<le> ot_attempt_count otp'" by linarith
  with \<open>active_otp q _ = Some otp'\<close>
  have "verify_otp env' hs cfg phone code device ip (guess_all env hs cfg phone cs db)
      = (Inl OtpAttemptsExceeded, guess_all env hs cfg phone cs db)"
    by (rule verify_otp_exceeded [OF assms(1)])
  then show ?thesis by simp
qed


section \<open>Bootstrap\<close>

definition empty_identity_db :: identity_db where
  "empty_identity_db = core_db.extend empty_core_db
     (identity_db.fields empty_table
        \<lparr>tb_seq = 5, tb_rows = [\<lparr>ro_pk = 1, ro_code = OWNER\<rparr>, \<lparr>ro_pk = 2, ro_code = SALESMAN\<rparr>,
           \<lparr>ro_pk = 3, ro_code = DELIVERY\<rparr>, \<lparr>ro_pk = 4, ro_code = RETAILER\<rparr>]\<rparr>
        empty_table empty_table)"

text \<open>Break-glass works exactly when no active owner exists, and leaves an active owner.\<close>

lemma tb_insert_exists [simp]:
  "tb_exists p (snd (tb_insert mk t)) \<longleftrightarrow> tb_exists p t \<or> p (mk (tb_seq t))"
  by (auto simp: tb_exists_iff table_simps)

lemma bootstrap_owner_refused:
  assumes "normalise_phone phone = Inr q" "tb_first (\<lambda>r. ro_code r = OWNER) (db_roles db) = Some r"
    "active_owner (ro_pk r) db"
  shows "bootstrap_owner env hs phone full_name password reason db = Inl PermissionDenied"
  using assms by (simp add: bootstrap_owner_def)

lemma get_or_create_link_props:
  assumes "get_or_create_link u r g db = (l, created, db')"
  shows "db_users db' = db_users db" "db_roles db' = db_roles db"
    "tb_exists (\<lambda>l. ur_user l = u \<and> ur_role l = r) (db_user_roles db')"
    "db_audit db' = db_audit db"
  using assms
  by (auto simp: get_or_create_link_def role_link_def tb_insert_def Let_def tb_exists_iff
      dest!: tb_firstD split: option.splits)

lemma create_user_props:
  assumes "create_user env hs phone password full_name db = Inr (u, db')"
  shows "us_is_active u" "tb_rows (db_users db') = tb_rows (db_users db) @ [u]"
    "us_phone u \<notin> us_phone ` set (tb_rows (db_users db))" "normalise_phone phone = Inr (us_phone u)"
  using assms
  by (auto simp: create_user_def create_account_def result_simps Let_def tb_insert_def tb_exists_iff split: if_splits)

lemma bootstrap_owner_active:
  assumes "bootstrap_owner env hs phone full_name password reason db = Inr (res, db')"
    and "tb_first (\<lambda>r. ro_code r = OWNER) (db_roles db) = Some r"
  shows "active_owner (ro_pk r) db'" "\<not> active_owner (ro_pk r) db"
    "al_action (last_audit db') = A_OWNER_BOOTSTRAP"
proof -
  obtain q where q: "normalise_phone phone = Inr q"
    using assms(1) by (auto simp: bootstrap_owner_def result_simps)
  let ?found = "tb_first (\<lambda>u. us_phone u = q) (db_users db)"
  obtain u db1 where u: "(case ?found of
              None \<Rightarrow> andThen (require (full_name \<noteq> '''') (invalid ''full_name'' ''REQUIRED''))
                        (\<lambda>_. create_user env hs q password full_name db)
            | Some u \<Rightarrow> andThen (require (us_is_active u) PermissionDenied) (\<lambda>_. Inr (u, db))) = Inr (u, db1)"
    and na: "\<not> active_owner (ro_pk r) db"
    using assms q by (auto simp: bootstrap_owner_def Let_def result_simps split: if_splits)
  obtain l c db2 where l: "get_or_create_link (us_pk u) (ro_pk r) None db1 = (l, c, db2)"
    by (cases "get_or_create_link (us_pk u) (ro_pk r) None db1")
  have db': "\<exists>b a. db' = record_audit env A_OWNER_BOOTSTRAP ''user_role'' (Some (ur_pk l)) None S_SYSTEM b a db2"
    using assms q u l na by (auto simp: bootstrap_owner_def Let_def)
  have "tb_exists (\<lambda>x. us_pk x = us_pk u \<and> us_is_active x) (db_users db1)"
    using u by (auto simp: tb_exists_iff create_user_props
        dest!: tb_firstD split: option.splits if_splits)
  then have "active_owner (ro_pk r) db2"
    using get_or_create_link_props [OF l] unfolding active_owner_def tb_exists_iff by metis
  then show "active_owner (ro_pk r) db'" using db' by (auto simp: active_owner_def)
  show "\<not> active_owner (ro_pk r) db" by (rule na)
  show "al_action (last_audit db') = A_OWNER_BOOTSTRAP" using db' by auto
qed

section \<open>A new account can sign in\<close>

text \<open>
  What an account is stored under is what a login looks for, however the number is spelt.
\<close>

lemma create_account_props:
  assumes "create_account env hs phone password full_name adm db = Inr (u, db')"
  shows "normalise_phone phone = Inr (us_phone u)" "us_is_active u" "us_is_superuser u = adm"
    "us_phone u \<notin> us_phone ` set (tb_rows (db_users db))"
    "tb_rows (db_users db') = tb_rows (db_users db) @ [u]"
    "password = Some pw \<Longrightarrow> pw \<noteq> '''' \<Longrightarrow> us_password u = Some (make_password hs pw)"
  using assms
  by (auto simp: create_account_def result_simps Let_def tb_insert_def tb_exists_iff split: if_splits)

lemma new_account_signs_in:
  assumes "create_account env hs phone (Some pw) full_name adm db = Inr (u, db')" "pw \<noteq> ''''"
    "normalise_phone spelling = normalise_phone phone" "check_password hs pw (make_password hs pw)"
  shows "\<exists>v. fst (authenticate_password env' hs spelling pw ip db') = Inr v \<and> us_pk v = us_pk u"
proof -
  note P = create_account_props [OF assms(1)]
  have "find (\<lambda>x. us_phone x = us_phone u) (tb_rows (db_users db)) = None"
    unfolding find_None_iff using P(4) by (metis imageI)
  then have f: "tb_first (\<lambda>x. us_phone x = us_phone u) (db_users db') = Some u"
    by (simp add: tb_first_def P(5) find_append)
  show ?thesis
    using P(1,2) P(6) [OF refl assms(2)] assms(3,4) f
    by (simp add: authenticate_password_def login_success_def Let_def)
qed

lemma superuser_has_password:
  "create_superuser env hs phone password full_name adm db = Inr (u, db') \<Longrightarrow>
   us_password u \<noteq> None \<and> us_is_superuser u \<and> has_perm u"
  using create_account_props [of env hs phone password full_name True db u db']
  by (auto simp: create_superuser_def has_perm_def split: if_splits)

text \<open>At most three codes in any window, whatever the number asked for: the fourth is refused.\<close>

lemma passcode_requests_are_limited:
  assumes "normalise_phone phone = Inr q"
  shows "request_otp env hs cfg code phone ip purpose db = Inl OtpRateLimited \<longleftrightarrow> MAX_OTP_PER_WINDOW \<le> recent_otps env q db"
    and "request_otp env hs cfg code phone ip purpose db = Inr (r, db') \<Longrightarrow> recent_otps env q db' \<le> MAX_OTP_PER_WINDOW"
  using request_otp_limited [OF assms] request_otp_rate(1) [OF _ assms] by blast+

end
