(* ===== verification/Customers.thy ===== *)
theory Customers
  imports Identity
begin

text \<open>
  Zones and customers: \<^verbatim>\<open>customers/models.py\<close>, \<^verbatim>\<open>services.py\<close> and \<^verbatim>\<open>selectors.py\<close>.  A customer's
  balance is not here: \<^verbatim>\<open>opening_balance_amount\<close> is documentation, the ledger is the truth.
\<close>

record zone =
  zo_pk :: nat
  zo_name :: string
  zo_road_name :: string
  zo_pin_code :: string
  zo_panchayat :: string
  zo_ward_number :: string
  zo_city :: string
  zo_assigned_user :: "nat option"
  zo_is_active :: bool
  zo_updated_at :: int

record customer =
  cu_pk :: nat
  cu_code :: string
  cu_shop_name :: string
  cu_owner_name :: string
  cu_phone :: string
  cu_alt_phone :: string
  cu_gstin :: string
  cu_state_code :: string
  cu_zone :: "nat option"
  cu_billing_address :: string
  cu_delivery_address :: string
  cu_credit_limit_amount :: decimal
  cu_credit_days :: int
  cu_opening_balance_amount :: decimal
  cu_latitude :: "decimal option"
  cu_longitude :: "decimal option"
  cu_is_active :: bool
  cu_created_by :: "nat option"
  cu_updated_at :: int

record customers_db = identity_db +
  db_zones :: "zone table"
  db_customers :: "customer table"

definition customer_constraints :: "customer \<Rightarrow> bool" where
  "customer_constraints c \<longleftrightarrow>
     0 \<le> cu_credit_limit_amount c \<and> 0 \<le> cu_credit_days c \<and>
     (cu_latitude c = None \<longleftrightarrow> cu_longitude c = None)"

lemma record_audit_customers [simp, frame_simps]:
  "db_zones (record_audit env a et ei u s b c db) = db_zones db"
  "db_customers (record_audit env a et ei u s b c db) = db_customers db"
  by (simp_all add: record_audit_def record_audit_from_def)


section \<open>Zones\<close>

datatype zone_field =
    ZF_name string | ZF_road_name string | ZF_pin_code string | ZF_panchayat string
  | ZF_ward_number string | ZF_city string | ZF_assigned_user "nat option" | ZF_is_active bool

text \<open>\<open>_zone_fields\<close> lets every field through but the name, which is set apart and stripped.\<close>

fun zone_set :: "zone_field \<Rightarrow> zone \<Rightarrow> zone" where
  "zone_set (ZF_name v) z = z"
| "zone_set (ZF_road_name v) z = z\<lparr>zo_road_name := v\<rparr>"
| "zone_set (ZF_pin_code v) z = z\<lparr>zo_pin_code := v\<rparr>"
| "zone_set (ZF_panchayat v) z = z\<lparr>zo_panchayat := v\<rparr>"
| "zone_set (ZF_ward_number v) z = z\<lparr>zo_ward_number := v\<rparr>"
| "zone_set (ZF_city v) z = z\<lparr>zo_city := v\<rparr>"
| "zone_set (ZF_assigned_user v) z = z\<lparr>zo_assigned_user := v\<rparr>"
| "zone_set (ZF_is_active v) z = z\<lparr>zo_is_active := v\<rparr>"

fun zone_name_arg :: "zone_field list \<Rightarrow> string option" where
  "zone_name_arg [] = None"
| "zone_name_arg (ZF_name v # fs) = Some v"
| "zone_name_arg (_ # fs) = zone_name_arg fs"

definition opt_pk :: "nat option \<Rightarrow> pyval" where
  "opt_pk v = (case v of None \<Rightarrow> PNone | Some n \<Rightarrow> PInt (int n))"

definition create_zone ::
  "env \<Rightarrow> actor option \<Rightarrow> string \<Rightarrow> zone_field list \<Rightarrow> 'a customers_db_scheme \<Rightarrow>
   error + zone \<times> 'a customers_db_scheme" where
  "create_zone env user name kwargs db =
     andThen (require_roles user [OWNER]) (\<lambda>_.
     let (z, zones) = tb_insert (\<lambda>pk. fold zone_set kwargs
           \<lparr>zo_pk = pk, zo_name = strip name, zo_road_name = '''', zo_pin_code = '''',
            zo_panchayat = '''', zo_ward_number = '''', zo_city = '''', zo_assigned_user = None,
            zo_is_active = True, zo_updated_at = now env\<rparr>) (db_zones db)
     in Inr (z, record_audit env A_CREATE ''zone'' (Some (zo_pk z)) user S_WEB None
          (Some [(''name'', PStr (zo_name z))]) (db\<lparr>db_zones := zones\<rparr>)))"

definition update_zone ::
  "env \<Rightarrow> actor option \<Rightarrow> zone \<Rightarrow> zone_field list \<Rightarrow> 'a customers_db_scheme \<Rightarrow>
   error + zone \<times> 'a customers_db_scheme" where
  "update_zone env user z kwargs db =
     andThen (require_roles user [OWNER]) (\<lambda>_.
     let audited = (\<lambda>z. Some [(''name'', PStr (zo_name z)), (''assigned_user_id'', opt_pk (zo_assigned_user z))]);
         z1 = fold zone_set kwargs z;
         z2 = (case zone_name_arg kwargs of None \<Rightarrow> z1 | Some n \<Rightarrow> z1\<lparr>zo_name := strip n\<rparr>);
         z3 = z2\<lparr>zo_updated_at := now env\<rparr>
     in Inr (z3, record_audit env A_UPDATE ''zone'' (Some (zo_pk z)) user S_WEB (audited z) (audited z3)
          (db\<lparr>db_zones := tb_update zo_pk (zo_pk z) (\<lambda>_. z3) (db_zones db)\<rparr>)))"


section \<open>Customers\<close>

datatype customer_field =
    CF_owner_name string | CF_alt_phone string | CF_gstin string | CF_zone "nat option"
  | CF_delivery_address string | CF_credit_limit_amount decimal | CF_credit_days int
  | CF_opening_balance_amount decimal | CF_latitude "decimal option" | CF_longitude "decimal option"
  | CF_is_active bool | CF_shop_name string | CF_phone string | CF_billing_address string
  | CF_state_code string

fun customer_field_name :: "customer_field \<Rightarrow> string" where
  "customer_field_name (CF_owner_name _) = ''owner_name''"
| "customer_field_name (CF_alt_phone _) = ''alt_phone''"
| "customer_field_name (CF_gstin _) = ''gstin''"
| "customer_field_name (CF_zone _) = ''zone''"
| "customer_field_name (CF_delivery_address _) = ''delivery_address''"
| "customer_field_name (CF_credit_limit_amount _) = ''credit_limit_amount''"
| "customer_field_name (CF_credit_days _) = ''credit_days''"
| "customer_field_name (CF_opening_balance_amount _) = ''opening_balance_amount''"
| "customer_field_name (CF_latitude _) = ''latitude''"
| "customer_field_name (CF_longitude _) = ''longitude''"
| "customer_field_name (CF_is_active _) = ''is_active''"
| "customer_field_name (CF_shop_name _) = ''shop_name''"
| "customer_field_name (CF_phone _) = ''phone''"
| "customer_field_name (CF_billing_address _) = ''billing_address''"
| "customer_field_name (CF_state_code _) = ''state_code''"

definition CUSTOMER_ALLOWED :: "string list" where
  "CUSTOMER_ALLOWED = [''owner_name'', ''alt_phone'', ''gstin'', ''zone'', ''zone_id'', ''delivery_address'',
     ''credit_limit_amount'', ''credit_days'', ''opening_balance_amount'', ''latitude'', ''longitude'',
     ''is_active'', ''shop_name'', ''phone'', ''billing_address'']"

definition customer_fields :: "customer_field list \<Rightarrow> customer_field list" where
  "customer_fields kwargs = filter (\<lambda>f. customer_field_name f \<in> set CUSTOMER_ALLOWED) kwargs"

fun customer_set :: "customer_field \<Rightarrow> customer \<Rightarrow> customer" where
  "customer_set (CF_owner_name v) c = c\<lparr>cu_owner_name := v\<rparr>"
| "customer_set (CF_alt_phone v) c = c\<lparr>cu_alt_phone := v\<rparr>"
| "customer_set (CF_gstin v) c = c\<lparr>cu_gstin := v\<rparr>"
| "customer_set (CF_zone v) c = c\<lparr>cu_zone := v\<rparr>"
| "customer_set (CF_delivery_address v) c = c\<lparr>cu_delivery_address := v\<rparr>"
| "customer_set (CF_credit_limit_amount v) c = c\<lparr>cu_credit_limit_amount := v\<rparr>"
| "customer_set (CF_credit_days v) c = c\<lparr>cu_credit_days := v\<rparr>"
| "customer_set (CF_opening_balance_amount v) c = c\<lparr>cu_opening_balance_amount := v\<rparr>"
| "customer_set (CF_latitude v) c = c\<lparr>cu_latitude := v\<rparr>"
| "customer_set (CF_longitude v) c = c\<lparr>cu_longitude := v\<rparr>"
| "customer_set (CF_is_active v) c = c\<lparr>cu_is_active := v\<rparr>"
| "customer_set (CF_shop_name v) c = c\<lparr>cu_shop_name := v\<rparr>"
| "customer_set (CF_phone v) c = c\<lparr>cu_phone := v\<rparr>"
| "customer_set (CF_billing_address v) c = c\<lparr>cu_billing_address := v\<rparr>"
| "customer_set (CF_state_code v) c = c\<lparr>cu_state_code := v\<rparr>"

definition opt_coord :: "decimal option \<Rightarrow> pyval" where
  "opt_coord v = (case v of None \<Rightarrow> PNone | Some x \<Rightarrow> PDec 6 x)"

fun customer_getattr :: "customer_field \<Rightarrow> customer \<Rightarrow> pyval" where
  "customer_getattr (CF_owner_name _) c = PStr (cu_owner_name c)"
| "customer_getattr (CF_alt_phone _) c = PStr (cu_alt_phone c)"
| "customer_getattr (CF_gstin _) c = PStr (cu_gstin c)"
| "customer_getattr (CF_zone _) c = opt_pk (cu_zone c)"
| "customer_getattr (CF_delivery_address _) c = PStr (cu_delivery_address c)"
| "customer_getattr (CF_credit_limit_amount _) c = PDec 2 (cu_credit_limit_amount c)"
| "customer_getattr (CF_credit_days _) c = PInt (cu_credit_days c)"
| "customer_getattr (CF_opening_balance_amount _) c = PDec 2 (cu_opening_balance_amount c)"
| "customer_getattr (CF_latitude _) c = opt_coord (cu_latitude c)"
| "customer_getattr (CF_longitude _) c = opt_coord (cu_longitude c)"
| "customer_getattr (CF_is_active _) c = PBool (cu_is_active c)"
| "customer_getattr (CF_shop_name _) c = PStr (cu_shop_name c)"
| "customer_getattr (CF_phone _) c = PStr (cu_phone c)"
| "customer_getattr (CF_billing_address _) c = PStr (cu_billing_address c)"
| "customer_getattr (CF_state_code _) c = PStr (cu_state_code c)"

fun limit_arg :: "customer_field list \<Rightarrow> decimal option" where
  "limit_arg [] = None"
| "limit_arg (CF_credit_limit_amount v # fs) = Some v"
| "limit_arg (_ # fs) = limit_arg fs"

definition without_limit :: "customer_field list \<Rightarrow> customer_field list" where
  "without_limit fs = filter (\<lambda>f. customer_field_name f \<noteq> ''credit_limit_amount'') fs"

definition create_customer ::
  "env \<Rightarrow> actor option \<Rightarrow> string \<Rightarrow> string \<Rightarrow> string \<Rightarrow> string \<Rightarrow> customer_field list \<Rightarrow>
   'a customers_db_scheme \<Rightarrow> error + customer \<times> 'a customers_db_scheme" where
  "create_customer env user code shop_name phone billing_address kwargs db =
     andThen (require_roles user [OWNER, SALESMAN]) (\<lambda>_.
     let code = upper (strip code) in
     andThen (require (\<not> tb_exists (\<lambda>c. cu_code c = code) (db_customers db))
                (invalid ''code'' ''DUPLICATE'')) (\<lambda>_.
     let payload = customer_fields kwargs;
         requested_limit = limit_arg payload;
         payload = without_limit payload in
     andThen (require (\<not> (requested_limit \<noteq> None \<and> \<not> has_role user [OWNER])) PermissionDenied) (\<lambda>_.
     let (c, customers) = tb_insert (\<lambda>pk. fold customer_set payload
           \<lparr>cu_pk = pk, cu_code = code, cu_shop_name = strip shop_name, cu_owner_name = '''',
            cu_phone = strip phone, cu_alt_phone = '''', cu_gstin = '''', cu_state_code = '''',
            cu_zone = None, cu_billing_address = strip billing_address, cu_delivery_address = '''',
            cu_credit_limit_amount = (case requested_limit of None \<Rightarrow> 0 | Some v \<Rightarrow> v),
            cu_credit_days = 0, cu_opening_balance_amount = 0, cu_latitude = None,
            cu_longitude = None, cu_is_active = True, cu_created_by = actor_pk user,
            cu_updated_at = now env\<rparr>) (db_customers db)
     in andThen (require (customer_constraints c) (IntegrityError ''customer'')) (\<lambda>_.
        Inr (c, record_audit env A_CREATE ''customer'' (Some (cu_pk c)) user S_WEB None
               (Some [(''code'', PStr (cu_code c)), (''shop_name'', PStr (cu_shop_name c))])
               (db\<lparr>db_customers := customers\<rparr>))))))"

definition set_credit_limit ::
  "env \<Rightarrow> actor option \<Rightarrow> customer \<Rightarrow> decimal \<Rightarrow> 'a customers_db_scheme \<Rightarrow>
   error + customer \<times> 'a customers_db_scheme" where
  "set_credit_limit env user c amount db =
     andThen (require_roles user [OWNER]) (\<lambda>_.
     let amount = to_money amount in
     andThen (require (\<not> amount < 0) (invalid ''credit_limit_amount'' ''MIN_VALUE'')) (\<lambda>_.
     Inr (c\<lparr>cu_credit_limit_amount := amount, cu_updated_at := now env\<rparr>,
       record_audit env A_CREDIT_LIMIT_CHANGE ''customer'' (Some (cu_pk c)) user S_WEB
         (Some [(''credit_limit_amount'', PDec 2 (to_money (cu_credit_limit_amount c)))])
         (Some [(''credit_limit_amount'', PDec 2 amount)])
         (db\<lparr>db_customers := tb_update cu_pk (cu_pk c)
               (\<lambda>r. r\<lparr>cu_credit_limit_amount := amount, cu_updated_at := now env\<rparr>) (db_customers db)\<rparr>))))"

definition update_customer ::
  "env \<Rightarrow> actor option \<Rightarrow> customer \<Rightarrow> customer_field list \<Rightarrow> 'a customers_db_scheme \<Rightarrow>
   error + customer \<times> 'a customers_db_scheme" where
  "update_customer env user c kwargs db =
     andThen (require_roles user [OWNER, SALESMAN]) (\<lambda>_.
     let payload = customer_fields kwargs in
     andThen (case limit_arg payload of None \<Rightarrow> Inr (c, db)
              | Some v \<Rightarrow> set_credit_limit env user c v db) (\<lambda>(c, db).
     let payload = without_limit payload in
     if payload = [] then Inr (c, db)
     else
       let c' = (fold customer_set payload c)\<lparr>cu_updated_at := now env\<rparr>
       in andThen (require (customer_constraints c') (IntegrityError ''customer'')) (\<lambda>_.
          Inr (c', record_audit env A_UPDATE ''customer'' (Some (cu_pk c)) user S_WEB
                (Some (map (\<lambda>f. (customer_field_name f, customer_getattr f c)) payload))
                (Some (map (\<lambda>f. (customer_field_name f, customer_getattr f c')) payload))
                (db\<lparr>db_customers := tb_update cu_pk (cu_pk c) (\<lambda>_. c') (db_customers db)\<rparr>)))))"

definition deactivate_customer ::
  "env \<Rightarrow> actor option \<Rightarrow> customer \<Rightarrow> 'a customers_db_scheme \<Rightarrow>
   error + customer \<times> 'a customers_db_scheme" where
  "deactivate_customer env user c db =
     andThen (require_roles user [OWNER]) (\<lambda>_.
     Inr (c\<lparr>cu_is_active := False, cu_updated_at := now env\<rparr>,
       record_audit env A_DEACTIVATE ''customer'' (Some (cu_pk c)) user S_WEB
         (Some [(''is_active'', PBool True)]) (Some [(''is_active'', PBool False)])
         (db\<lparr>db_customers := tb_update cu_pk (cu_pk c)
               (\<lambda>r. r\<lparr>cu_is_active := False, cu_updated_at := now env\<rparr>) (db_customers db)\<rparr>)))"

definition get_customer_for ::
  "actor option \<Rightarrow> nat \<Rightarrow> 'a customers_db_scheme \<Rightarrow> error + customer" where
  "get_customer_for user pk db =
     (case tb_get cu_pk pk (db_customers db) of None \<Rightarrow> Inl ResourceNotFound
      | Some c \<Rightarrow>
         if has_role user [RETAILER] \<and> \<not> has_role user INTERNAL
            \<and> (case user of None \<Rightarrow> None | Some u \<Rightarrow> ac_customer u) \<noteq> Some (cu_pk c)
         then Inl ResourceNotFound else Inr c)"

definition visible_customers :: "actor option \<Rightarrow> 'a customers_db_scheme \<Rightarrow> customer list" where
  "visible_customers user db =
     (let base = tb_rows (db_customers db)
      in if has_role user [OWNER] then base
         else if has_role user [SALESMAN, DELIVERY] then
           filter (\<lambda>c. case cu_zone c of None \<Rightarrow> True
                       | Some z \<Rightarrow> actor_pk user \<noteq> None \<and>
                           tb_exists (\<lambda>zo. zo_pk zo = z \<and> zo_assigned_user zo = actor_pk user) (db_zones db)) base
         else if has_role user [RETAILER] then
           filter (\<lambda>c. cu_pk c = (case user of None \<Rightarrow> 0
                       | Some u \<Rightarrow> (case ac_customer u of None \<Rightarrow> 0 | Some pk \<Rightarrow> pk))) base
         else [])"

definition search_customers ::
  "actor option \<Rightarrow> string \<Rightarrow> nat option \<Rightarrow> bool option \<Rightarrow> 'a customers_db_scheme \<Rightarrow> customer list" where
  "search_customers user term zone_id is_active db =
     filter (\<lambda>c. (term = '''' \<or> icontains term (cu_shop_name c) \<or> icontains term (cu_code c) \<or> icontains term (cu_phone c)) \<and>
       (zone_id = None \<or> cu_zone c = zone_id) \<and>
       (case is_active of None \<Rightarrow> True | Some b \<Rightarrow> cu_is_active c = b)) (visible_customers user db)"

definition active_zones :: "'a customers_db_scheme \<Rightarrow> zone list" where
  "active_zones db = filter zo_is_active (tb_rows (db_zones db))"

definition state_code_for :: "customer \<Rightarrow> string" where
  "state_code_for c =
     (if cu_state_code c \<noteq> '''' then cu_state_code c
      else let gstin = strip (cu_gstin c)
           in if length gstin \<ge> 2 \<and> list_all is_digit (take 2 gstin) then take 2 gstin else '''')"


section \<open>Only the owner sets a credit limit\<close>

lemma limit_arg_None: "limit_arg fs = None \<Longrightarrow> without_limit fs = fs"
proof (induction fs)
  case (Cons f fs)
  then show ?case by (cases f) (simp_all add: without_limit_def)
qed (simp add: without_limit_def)

lemma customer_set_limit:
  "customer_field_name f \<noteq> ''credit_limit_amount'' \<Longrightarrow>
   cu_credit_limit_amount (customer_set f c) = cu_credit_limit_amount c"
  by (cases f) simp_all

lemma customer_set_pk [simp]: "cu_pk (customer_set f c) = cu_pk c" "cu_code (customer_set f c) = cu_code c"
  by (cases f; simp)+

lemma fold_customer_set_pk [simp]:
  "cu_pk (fold customer_set fs c) = cu_pk c" "cu_code (fold customer_set fs c) = cu_code c"
  by (induction fs arbitrary: c) simp_all

lemma fold_customer_set_limit:
  "cu_credit_limit_amount (fold customer_set (without_limit fs) c) = cu_credit_limit_amount c"
  by (induction fs arbitrary: c) (auto simp: without_limit_def customer_set_limit)

lemma create_customer_limit:
  assumes "create_customer env user code shop phone addr kwargs db = Inr (c, db')"
    "\<not> has_role user [OWNER]"
  shows "cu_credit_limit_amount c = 0"
  using assms
  by (auto simp: create_customer_def Let_def tb_insert_def fold_customer_set_limit
      split: if_splits prod.splits)

lemma update_customer_limit:
  assumes "update_customer env user c kwargs db = Inr (c', db')" "\<not> has_role user [OWNER]"
  shows "cu_credit_limit_amount c' = cu_credit_limit_amount c"
proof -
  have none: "limit_arg (customer_fields kwargs) = None"
    using assms by (auto simp: update_customer_def set_credit_limit_def Let_def split: if_splits option.splits)
  then have "c' = c \<or> c' = (fold customer_set (without_limit (customer_fields kwargs)) c)\<lparr>cu_updated_at := now env\<rparr>"
    using assms by (auto simp: update_customer_def Let_def split: if_splits)
  then show ?thesis by (auto simp: fold_customer_set_limit)
qed

text \<open>The same of the table: every customer and his limit.\<close>

definition limits :: "'a customers_db_scheme \<Rightarrow> (nat \<times> decimal) list" where
  "limits db = map (\<lambda>c. (cu_pk c, cu_credit_limit_amount c)) (tb_rows (db_customers db))"

lemma create_customer_limits:
  assumes "create_customer env user code shop phone addr kwargs db = Inr (c, db')" "\<not> has_role user [OWNER]"
  shows "limits db' = limits db @ [(cu_pk c, 0)]"
  using assms create_customer_limit [OF assms]
  by (auto simp: create_customer_def Let_def tb_insert_def limits_def split: if_splits prod.splits)

lemma update_customer_limits:
  assumes "update_customer env user c kwargs db = Inr (c', db')" "\<not> has_role user [OWNER]"
    "table_wf cu_pk (db_customers db)" "tb_get cu_pk (cu_pk c) (db_customers db) = Some c"
  shows "limits db' = limits db"
proof -
  have none: "limit_arg (customer_fields kwargs) = None"
    using assms(1,2) by (auto simp: update_customer_def set_credit_limit_def Let_def split: if_splits option.splits)
  have row: "r = c" if "r \<in> set (tb_rows (db_customers db))" "cu_pk r = cu_pk c" for r
    using tb_get_row [OF assms(3) that(1)] that(2) assms(4) by simp
  have "limits db' = limits db \<or>
    limits db' = map (\<lambda>r. (cu_pk r, cu_credit_limit_amount r)) (map (\<lambda>r. if cu_pk r = cu_pk c
       then (fold customer_set (without_limit (customer_fields kwargs)) c)\<lparr>cu_updated_at := now env\<rparr> else r)
       (tb_rows (db_customers db)))"
    using assms(1) none by (auto simp: update_customer_def Let_def limits_def table_simps split: if_splits)
  moreover have "map (\<lambda>r. (cu_pk r, cu_credit_limit_amount r)) (map (\<lambda>r. if cu_pk r = cu_pk c
       then (fold customer_set (without_limit (customer_fields kwargs)) c)\<lparr>cu_updated_at := now env\<rparr> else r)
       (tb_rows (db_customers db))) = limits db"
    using row by (auto simp: limits_def fold_customer_set_limit)
  ultimately show ?thesis by metis
qed

text \<open>A limit that changes leaves a row in the audit log that tells by whom, whose, from what and to what.\<close>

definition limit_change_logged :: "actor option \<Rightarrow> customer \<Rightarrow> decimal \<Rightarrow> 'a customers_db_scheme \<Rightarrow> 'a customers_db_scheme \<Rightarrow> bool" where
  "limit_change_logged user c amount db db' \<longleftrightarrow>
     (\<exists>e \<in> set (drop (length (tb_rows (db_audit db))) (tb_rows (db_audit db'))).
        al_action e = A_CREDIT_LIMIT_CHANGE \<and> al_actor e = actor_pk user \<and>
        al_entity_type e = ''customer'' \<and> al_entity_id e = Some (cu_pk c) \<and>
        al_before e = Some [(''credit_limit_amount'', PStr (dec_str 2 (to_money (cu_credit_limit_amount c))))] \<and>
        al_after e = Some [(''credit_limit_amount'', PStr (dec_str 2 amount))])"

lemma limit_row_scrubbed:
  "scrub (Some [(''credit_limit_amount'', PDec 2 x)]) = Some [(''credit_limit_amount'', PStr (dec_str 2 x))]"
proof -
  have "lower ''credit_limit_amount'' \<notin> set SENSITIVE" by code_simp
  then show ?thesis by (simp add: scrub_def)
qed

lemma set_credit_limit_logged:
  assumes "set_credit_limit env user c amount db = Inr (c', db')"
  shows "limit_change_logged user c (to_money amount) db db'" "cu_credit_limit_amount c' = to_money amount"
    "audit_extends db db'"
proof -
  define db1 where "db1 = db\<lparr>db_customers := tb_update cu_pk (cu_pk c)
     (\<lambda>r. r\<lparr>cu_credit_limit_amount := to_money amount, cu_updated_at := now env\<rparr>) (db_customers db)\<rparr>"
  have db1: "db_audit db1 = db_audit db" by (simp add: db1_def)
  have db': "db' = record_audit env A_CREDIT_LIMIT_CHANGE ''customer''
      (Some (cu_pk c)) user S_WEB (Some [(''credit_limit_amount'', PDec 2 (to_money (cu_credit_limit_amount c)))])
      (Some [(''credit_limit_amount'', PDec 2 (to_money amount))]) db1"
    and c': "cu_credit_limit_amount c' = to_money amount"
    using assms by (auto simp: set_credit_limit_def Let_def db1_def split: if_splits)
  obtain e where "tb_rows (db_audit db') = tb_rows (db_audit db) @ [e]" "al_action e = A_CREDIT_LIMIT_CHANGE"
    "al_entity_type e = take 50 ''customer''" "al_entity_id e = Some (cu_pk c)" "al_actor e = actor_pk user"
    "al_before e = scrub (Some [(''credit_limit_amount'', PDec 2 (to_money (cu_credit_limit_amount c)))])"
    "al_after e = scrub (Some [(''credit_limit_amount'', PDec 2 (to_money amount))])"
    using record_audit_from_row [of env A_CREDIT_LIMIT_CHANGE "''customer''"] db1 unfolding db' record_audit_def by metis
  then show "limit_change_logged user c (to_money amount) db db'"
    unfolding limit_change_logged_def limit_row_scrubbed by simp
  show "cu_credit_limit_amount c' = to_money amount" by (rule c')
  show "audit_extends db db'" using db1 unfolding db' by (auto simp: audit_extends_def record_audit_def record_audit_from_def table_simps)
qed

lemma limit_change_logged_later:
  assumes "limit_change_logged user c amount db db1" "audit_extends db db1" "audit_extends db1 db'"
  shows "limit_change_logged user c amount db db'"
proof -
  obtain new more where "tb_rows (db_audit db1) = tb_rows (db_audit db) @ new" "tb_rows (db_audit db') = tb_rows (db_audit db1) @ more"
    using assms(2,3) by (auto simp: audit_extends_iff)
  then show ?thesis using assms(1) unfolding limit_change_logged_def by auto
qed

lemma update_customer_logged:
  assumes "update_customer env user c kwargs db = Inr (c', db')" "cu_credit_limit_amount c' \<noteq> cu_credit_limit_amount c"
  shows "limit_change_logged user c (cu_credit_limit_amount c') db db'"
proof -
  let ?p = "customer_fields kwargs"
  obtain c1 db1 where one: "(case limit_arg ?p of None \<Rightarrow> Inr (c, db) | Some v \<Rightarrow> set_credit_limit env user c v db) = Inr (c1, db1)"
    and rest: "c' = c1 \<and> db' = db1 \<or> c' = (fold customer_set (without_limit ?p) c1)\<lparr>cu_updated_at := now env\<rparr> \<and> audit_extends db1 db'"
    using assms(1)
    by (auto simp: update_customer_def Let_def result_simps audit_extends_def record_audit_def record_audit_from_def table_simps
        split: if_splits)
  have same: "cu_credit_limit_amount c' = cu_credit_limit_amount c1" using rest by (auto simp: fold_customer_set_limit)
  obtain v where v: "limit_arg ?p = Some v" using one assms(2) same by (cases "limit_arg ?p") auto
  then have s: "set_credit_limit env user c v db = Inr (c1, db1)" using one by simp
  note S = set_credit_limit_logged [OF s]
  have "audit_extends db1 db'" using rest by auto
  then show ?thesis using limit_change_logged_later [OF S(1) S(3)] S(2) same by simp
qed

text \<open>A retailer's scope is one customer, whichever way it is asked for.\<close>

lemma get_customer_for_retailer:
  assumes "get_customer_for user pk db = Inr c" "has_role user [RETAILER]" "\<not> has_role user INTERNAL"
  shows "(case user of None \<Rightarrow> None | Some u \<Rightarrow> ac_customer u) = Some (cu_pk c)" "cu_pk c = pk"
  using assms by (auto simp: get_customer_for_def dest: tb_getD split: option.splits if_splits)

lemma visible_customers_retailer:
  assumes "has_role user [RETAILER]" "\<not> has_role user INTERNAL" "c \<in> set (visible_customers user db)"
    "0 < cu_pk c"
  shows "(case user of None \<Rightarrow> None | Some u \<Rightarrow> ac_customer u) = Some (cu_pk c)"
proof -
  have "\<not> has_role user [OWNER]" "\<not> has_role user [SALESMAN, DELIVERY]"
    using assms(2) by (auto simp: has_role_iff INTERNAL_def)
  then show ?thesis
    using assms by (auto simp: visible_customers_def has_role_def split: option.splits)
qed

text \<open>A retailer sees one customer, his own, whether he lists or asks for one.\<close>

lemma retailer_sees_only_itself:
  assumes "has_role user [RETAILER]" "\<not> has_role user INTERNAL" "0 < cu_pk c"
    and "get_customer_for user pk db = Inr c \<or> c \<in> set (search_customers user term zone active db)"
  shows "(case user of None \<Rightarrow> None | Some u \<Rightarrow> ac_customer u) = Some (cu_pk c)"
  using get_customer_for_retailer(1) [OF _ assms(1,2)] visible_customers_retailer [OF assms(1,2) _ assms(3)] assms(4)
  by (auto simp: search_customers_def)

lemma set_credit_limit_result:
  assumes "set_credit_limit env user c amount db = Inr (c', db')"
  shows "has_role user [OWNER]" "cu_credit_limit_amount c' = to_money amount" "0 \<le> to_money amount"
    "al_action (last_audit db') = A_CREDIT_LIMIT_CHANGE"
  using assms by (auto simp: set_credit_limit_def Let_def split: if_splits)

definition empty_customers_db :: customers_db where
  "empty_customers_db = identity_db.extend empty_identity_db (customers_db.fields empty_table empty_table)"

end
