(* ===== verification/Catalogue.thy ===== *)
theory Catalogue
  imports Customers
begin

text \<open>
  The product master: \<^verbatim>\<open>catalogue/models.py\<close> and \<^verbatim>\<open>catalogue/services.py\<close>.  A service receives a
  product instance, which may be older than the row it came from: a \<^verbatim>\<open>save(update_fields=...)\<close>
  writes those columns of the row, a plain \<^verbatim>\<open>save()\<close> writes every column of the instance.
\<close>

record product =
  pr_pk :: nat
  pr_code :: string
  pr_name :: string
  pr_description :: string
  pr_hsn_code :: string
  pr_tax_rate_percent :: decimal
  pr_selling_price :: decimal
  pr_unit_name :: string
  pr_pack_size :: int
  pr_pack_name :: string
  pr_image_media :: "nat option"
  pr_is_active :: bool
  pr_updated_at :: int

record catalogue_db = customers_db +
  db_products :: "product table"

definition to_base_units :: "product \<Rightarrow> decimal \<Rightarrow> bool \<Rightarrow> decimal" where
  "to_base_units p quantity in_packs =
     (let entered = to_quantity quantity
      in if in_packs then to_quantity (entered * of_int (pr_pack_size p)) else entered)"

definition product_constraints :: "product \<Rightarrow> bool" where
  "product_constraints p \<longleftrightarrow>
     0 \<le> pr_selling_price p \<and> 0 \<le> pr_tax_rate_percent p \<and> pr_tax_rate_percent p \<le> 100 \<and>
     1 \<le> pr_pack_size p"

lemma to_base_units_quantity [simp]: "is_quantity (to_base_units p q b)"
  by (simp add: to_base_units_def Let_def)

lemma to_base_units_packs: "to_base_units p q True = to_quantity q * of_int (pr_pack_size p)"
proof -
  have "is_quantity (to_quantity q * of_int (pr_pack_size p))"
    using at_scale_mult [of 3 "to_quantity q" 0 "of_int (pr_pack_size p)"]
    by (simp add: at_scale_of_int)
  then show ?thesis by (simp add: to_base_units_def Let_def)
qed


section \<open>Keyword arguments\<close>

datatype product_field =
    PR_name string | PR_description string | PR_hsn_code string | PR_tax_rate_percent decimal
  | PR_unit_name string | PR_pack_size int | PR_pack_name string | PR_image_media "nat option"
  | PR_is_active bool | PR_selling_price decimal

fun product_field_name :: "product_field \<Rightarrow> string" where
  "product_field_name (PR_name _) = ''name''"
| "product_field_name (PR_description _) = ''description''"
| "product_field_name (PR_hsn_code _) = ''hsn_code''"
| "product_field_name (PR_tax_rate_percent _) = ''tax_rate_percent''"
| "product_field_name (PR_unit_name _) = ''unit_name''"
| "product_field_name (PR_pack_size _) = ''pack_size''"
| "product_field_name (PR_pack_name _) = ''pack_name''"
| "product_field_name (PR_image_media _) = ''image_media''"
| "product_field_name (PR_is_active _) = ''is_active''"
| "product_field_name (PR_selling_price _) = ''selling_price''"

definition PRODUCT_EDITABLE :: "string list" where
  "PRODUCT_EDITABLE = [''name'', ''description'', ''hsn_code'', ''tax_rate_percent'', ''unit_name'',
     ''pack_size'', ''pack_name'', ''image_media'', ''image_media_id'', ''is_active'']"

fun product_set :: "product_field \<Rightarrow> product \<Rightarrow> product" where
  "product_set (PR_name v) p = p\<lparr>pr_name := v\<rparr>"
| "product_set (PR_description v) p = p\<lparr>pr_description := v\<rparr>"
| "product_set (PR_hsn_code v) p = p\<lparr>pr_hsn_code := v\<rparr>"
| "product_set (PR_tax_rate_percent v) p = p\<lparr>pr_tax_rate_percent := v\<rparr>"
| "product_set (PR_unit_name v) p = p\<lparr>pr_unit_name := v\<rparr>"
| "product_set (PR_pack_size v) p = p\<lparr>pr_pack_size := v\<rparr>"
| "product_set (PR_pack_name v) p = p\<lparr>pr_pack_name := v\<rparr>"
| "product_set (PR_image_media v) p = p\<lparr>pr_image_media := v\<rparr>"
| "product_set (PR_is_active v) p = p\<lparr>pr_is_active := v\<rparr>"
| "product_set (PR_selling_price v) p = p\<lparr>pr_selling_price := v\<rparr>"

text \<open>The audited value of a field of an instance (a media file is written by its key).\<close>

fun product_getattr :: "product_field \<Rightarrow> product \<Rightarrow> pyval" where
  "product_getattr (PR_name _) p = PStr (pr_name p)"
| "product_getattr (PR_description _) p = PStr (pr_description p)"
| "product_getattr (PR_hsn_code _) p = PStr (pr_hsn_code p)"
| "product_getattr (PR_tax_rate_percent _) p = PDec 2 (pr_tax_rate_percent p)"
| "product_getattr (PR_unit_name _) p = PStr (pr_unit_name p)"
| "product_getattr (PR_pack_size _) p = PInt (pr_pack_size p)"
| "product_getattr (PR_pack_name _) p = PStr (pr_pack_name p)"
| "product_getattr (PR_image_media _) p =
     (case pr_image_media p of None \<Rightarrow> PNone | Some m \<Rightarrow> PInt (int m))"
| "product_getattr (PR_is_active _) p = PBool (pr_is_active p)"
| "product_getattr (PR_selling_price _) p = PDec 2 (pr_selling_price p)"

definition product_payload :: "product_field list \<Rightarrow> product_field list" where
  "product_payload kwargs = filter (\<lambda>f. product_field_name f \<in> set PRODUCT_EDITABLE) kwargs"


section \<open>Services\<close>

definition validate_price :: "decimal \<Rightarrow> error + unit" where
  "validate_price price = require (\<not> price < 0) (invalid ''selling_price'' ''MIN_VALUE'')"

definition has_history :: "product \<Rightarrow> bool" where
  "has_history p = False"

definition create_product ::
  "env \<Rightarrow> actor option \<Rightarrow> string \<Rightarrow> string \<Rightarrow> decimal \<Rightarrow> product_field list \<Rightarrow>
   'a catalogue_db_scheme \<Rightarrow> error + product \<times> 'a catalogue_db_scheme" where
  "create_product env user code name price kwargs db =
     andThen (require_roles user [OWNER]) (\<lambda>_.
     let code = upper (strip code) in
     andThen (require (\<not> tb_exists (\<lambda>p. pr_code p = code) (db_products db))
                (invalid ''code'' ''DUPLICATE'')) (\<lambda>_.
     andThen (validate_price price) (\<lambda>_.
     let (p, products) = tb_insert (\<lambda>pk.
           fold product_set (product_payload kwargs)
             \<lparr>pr_pk = pk, pr_code = code, pr_name = strip name, pr_description = '''',
              pr_hsn_code = '''', pr_tax_rate_percent = 0, pr_selling_price = to_money price,
              pr_unit_name = ''PCS'', pr_pack_size = 1, pr_pack_name = ''CASE'',
              pr_image_media = None, pr_is_active = True, pr_updated_at = now env\<rparr>)
           (db_products db)
     in andThen (require (product_constraints p) (IntegrityError ''product'')) (\<lambda>_.
        Inr (p, record_audit env A_CREATE ''product'' (Some (pr_pk p)) user S_WEB None
                 (Some [(''code'', PStr (pr_code p)), (''selling_price'', PDec 2 (pr_selling_price p))])
                 (db\<lparr>db_products := products\<rparr>))))))"

definition set_price ::
  "env \<Rightarrow> actor option \<Rightarrow> product \<Rightarrow> decimal \<Rightarrow> 'a catalogue_db_scheme \<Rightarrow>
   error + product \<times> 'a catalogue_db_scheme" where
  "set_price env user p price db =
     andThen (require_roles user [OWNER]) (\<lambda>_.
     let price = to_money price in
     andThen (validate_price price) (\<lambda>_.
     if pr_selling_price p = price then Inr (p, db)
     else Inr (p\<lparr>pr_selling_price := price, pr_updated_at := now env\<rparr>,
        record_audit env A_PRICE_CHANGE ''product'' (Some (pr_pk p)) user S_WEB
          (Some [(''selling_price'', PDec 2 (to_money (pr_selling_price p)))])
          (Some [(''selling_price'', PDec 2 price)])
          (db\<lparr>db_products := tb_update pr_pk (pr_pk p)
                (\<lambda>r. r\<lparr>pr_selling_price := price, pr_updated_at := now env\<rparr>) (db_products db)\<rparr>))))"

fun popped_price :: "product_field list \<Rightarrow> decimal option" where
  "popped_price [] = None"
| "popped_price (PR_selling_price v # fs) = Some v"
| "popped_price (_ # fs) = popped_price fs"

definition new_pack_size :: "product_field list \<Rightarrow> int option" where
  "new_pack_size kwargs =
     (case filter (\<lambda>f. product_field_name f = ''pack_size'') kwargs of
        PR_pack_size v # _ \<Rightarrow> Some v | _ \<Rightarrow> None)"

definition update_product ::
  "env \<Rightarrow> actor option \<Rightarrow> product \<Rightarrow> product_field list \<Rightarrow> 'a catalogue_db_scheme \<Rightarrow>
   error + product \<times> 'a catalogue_db_scheme" where
  "update_product env user p kwargs db =
     andThen (require_roles user [OWNER]) (\<lambda>_.
     andThen (case popped_price kwargs of None \<Rightarrow> Inr (p, db) | Some v \<Rightarrow> set_price env user p v db)
       (\<lambda>(p, db).
     andThen (require (\<not> (case new_pack_size kwargs of None \<Rightarrow> False
                             | Some v \<Rightarrow> v \<noteq> pr_pack_size p \<and> has_history p))
                (invalid ''pack_size'' ''IMMUTABLE'')) (\<lambda>_.
     let payload = product_payload kwargs in
     if payload = [] then Inr (p, db)
     else
       let p' = (fold product_set payload p)\<lparr>pr_updated_at := now env\<rparr>
       in andThen (require (product_constraints p') (IntegrityError ''product'')) (\<lambda>_.
          Inr (p', record_audit env A_UPDATE ''product'' (Some (pr_pk p)) user S_WEB
                (Some (map (\<lambda>f. (product_field_name f, product_getattr f p)) payload))
                (Some (map (\<lambda>f. (product_field_name f, product_getattr f p')) payload))
                (db\<lparr>db_products := tb_update pr_pk (pr_pk p) (\<lambda>_. p') (db_products db)\<rparr>))))))"

definition deactivate_product ::
  "env \<Rightarrow> actor option \<Rightarrow> product \<Rightarrow> 'a catalogue_db_scheme \<Rightarrow>
   error + product \<times> 'a catalogue_db_scheme" where
  "deactivate_product env user p db =
     andThen (require_roles user [OWNER]) (\<lambda>_.
     Inr (p\<lparr>pr_is_active := False, pr_updated_at := now env\<rparr>,
       record_audit env A_DEACTIVATE ''product'' (Some (pr_pk p)) user S_WEB
         (Some [(''is_active'', PBool True)]) (Some [(''is_active'', PBool False)])
         (db\<lparr>db_products := tb_update pr_pk (pr_pk p)
               (\<lambda>r. r\<lparr>pr_is_active := False, pr_updated_at := now env\<rparr>) (db_products db)\<rparr>)))"


section \<open>The invariant of the product table\<close>

text \<open>Keys and codes are unique, and every row meets its CHECK constraints.\<close>

definition catalogue_ok :: "'a catalogue_db_scheme \<Rightarrow> bool" where
  "catalogue_ok db \<longleftrightarrow>
     table_wf pr_pk (db_products db) \<and>
     distinct (map pr_code (tb_rows (db_products db))) \<and>
     list_all product_constraints (tb_rows (db_products db))"

text \<open>An instance read from the table: same key and code as the row, constraints met.\<close>

definition product_instance :: "product \<Rightarrow> 'a catalogue_db_scheme \<Rightarrow> bool" where
  "product_instance p db \<longleftrightarrow>
     product_constraints p \<and>
     (\<exists>r \<in> set (tb_rows (db_products db)). pr_pk r = pr_pk p \<and> pr_code r = pr_code p)"

lemma record_audit_products [simp, frame_simps]:
  "db_products (record_audit env a et ei u s b c db) = db_products db"
  by (simp add: record_audit_def record_audit_from_def)

lemma product_set_key [simp]:
  "pr_pk (product_set f p) = pr_pk p" "pr_code (product_set f p) = pr_code p"
  by (cases f; simp)+

lemma fold_product_set_key [simp]:
  "pr_pk (fold product_set fs p) = pr_pk p" "pr_code (fold product_set fs p) = pr_code p"
  by (induction fs arbitrary: p) simp_all

lemma catalogue_ok_update:
  assumes ok: "catalogue_ok db" and keys: "\<And>r. pr_pk (f r) = pr_pk r"
    and codes: "\<And>r. r \<in> set (tb_rows (db_products db)) \<Longrightarrow> pr_pk r = pk \<Longrightarrow> pr_code (f r) = pr_code r"
    and con: "\<And>r. r \<in> set (tb_rows (db_products db)) \<Longrightarrow> pr_pk r = pk \<Longrightarrow> product_constraints (f r)"
  shows "catalogue_ok (db\<lparr>db_products := tb_update pr_pk pk f (db_products db)\<rparr>)"
proof -
  let ?rows = "tb_rows (db_products db)"
  let ?g = "\<lambda>r. if pr_pk r = pk then f r else r"
  have "table_wf pr_pk (tb_update pr_pk pk f (db_products db))"
    using ok keys by (intro table_wf_update) (auto simp: catalogue_ok_def)
  moreover have "map pr_code (map ?g ?rows) = map pr_code ?rows"
    using codes by auto
  moreover have "list_all product_constraints (map ?g ?rows)"
    using ok con by (auto simp: catalogue_ok_def list_all_iff)
  ultimately show ?thesis
    using ok by (simp add: catalogue_ok_def table_simps del: map_map list.map_comp)
qed

lemma catalogue_ok_audit [simp]:
  "catalogue_ok (record_audit env a et ei u s b c db) = catalogue_ok db"
  by (simp add: catalogue_ok_def)

lemma create_product_ok:
  assumes "create_product env user code name price kwargs db = Inr (p, db')" "catalogue_ok db"
  shows "catalogue_ok db'" "product_instance p db'" "pr_code p = upper (strip code)"
proof -
  have *: "has_role user [OWNER]" "\<not> tb_exists (\<lambda>q. pr_code q = upper (strip code)) (db_products db)"
    "product_constraints p" "pr_code p = upper (strip code)" "pr_pk p = tb_seq (db_products db)"
    "tb_rows (db_products db') = tb_rows (db_products db) @ [p]"
    "tb_seq (db_products db') = Suc (tb_seq (db_products db))"
    using assms(1) by (auto simp: create_product_def Let_def tb_insert_def result_simps split: if_splits)
  then show "pr_code p = upper (strip code)" "product_instance p db'"
    by (auto simp: product_instance_def)
  have "\<forall>r \<in> set (tb_rows (db_products db)). pr_pk r < tb_seq (db_products db)"
    using assms(2) by (auto simp: catalogue_ok_def table_wf_def list_all_iff)
  then show "catalogue_ok db'"
    using * assms(2) by (auto simp: catalogue_ok_def table_wf_def list_all_iff tb_exists_iff)
qed

lemma product_instance_update:
  assumes "product_instance p db" "product_constraints q" "pr_pk q = pr_pk p" "pr_code q = pr_code p"
    and f: "\<And>r. pr_pk r = pk \<Longrightarrow> pr_code r = pr_code p \<Longrightarrow> pr_pk (f r) = pr_pk r \<and> pr_code (f r) = pr_code r"
  shows "product_instance q (db\<lparr>db_products := tb_update pr_pk pk f (db_products db)\<rparr>)"
proof -
  obtain r where r: "r \<in> set (tb_rows (db_products db))" "pr_pk r = pr_pk p" "pr_code r = pr_code p"
    using assms(1) by (auto simp: product_instance_def)
  let ?r = "if pr_pk r = pk then f r else r"
  have "pr_pk ?r = pr_pk q" "pr_code ?r = pr_code q"
    using f [of r] r(2,3) assms(3,4) by auto
  moreover have "?r \<in> set (tb_rows (tb_update pr_pk pk f (db_products db)))"
    unfolding tb_update_rows set_map using r(1) by (rule imageI)
  ultimately show ?thesis
    using assms(2) unfolding product_instance_def by auto
qed

lemma product_instance_audit [simp]:
  "product_instance q (record_audit env a et ei u s b c db) = product_instance q db"
  by (simp add: product_instance_def)

lemma product_instance_row_code:
  assumes "catalogue_ok db" "product_instance p db" "r \<in> set (tb_rows (db_products db))"
    "pr_pk r = pr_pk p"
  shows "pr_code r = pr_code p"
proof -
  obtain q where q: "q \<in> set (tb_rows (db_products db))" "pr_pk q = pr_pk p" "pr_code q = pr_code p"
    using assms(2) by (auto simp: product_instance_def)
  then have "Some r = Some q"
    using tb_get_row [of pr_pk "db_products db"] assms by (metis catalogue_ok_def)
  then show ?thesis using q by simp
qed

text \<open>Writing an instance back over its row, whatever columns it changed besides key and code.\<close>

lemma catalogue_ok_save:
  assumes "catalogue_ok db" "product_instance p db" "product_constraints q"
    "pr_pk q = pr_pk p" "pr_code q = pr_code p"
  shows "catalogue_ok (db\<lparr>db_products := tb_update pr_pk (pr_pk p) (\<lambda>_. q) (db_products db)\<rparr>)"
    and "product_instance q (db\<lparr>db_products := tb_update pr_pk (pr_pk p) (\<lambda>_. q) (db_products db)\<rparr>)"
proof -
  let ?f = "\<lambda>r. if pr_pk r = pr_pk p then q else r"
  have same: "tb_update pr_pk (pr_pk p) (\<lambda>_. q) t = tb_update pr_pk (pr_pk p) ?f t" for t
    by (simp add: tb_update_def cong: map_cong)
  show "catalogue_ok (db\<lparr>db_products := tb_update pr_pk (pr_pk p) (\<lambda>_. q) (db_products db)\<rparr>)"
    unfolding same using assms product_instance_row_code [OF assms(1,2)]
    by (intro catalogue_ok_update) auto
  show "product_instance q (db\<lparr>db_products := tb_update pr_pk (pr_pk p) (\<lambda>_. q) (db_products db)\<rparr>)"
    using assms by (intro product_instance_update [of p]) auto
qed

lemma set_price_ok:
  assumes "set_price env user p price db = Inr (p', db')" "catalogue_ok db" "product_instance p db"
  shows "catalogue_ok db'" "product_instance p' db'" "pr_selling_price p' = to_money price"
    "pr_pk p' = pr_pk p"
proof -
  have price: "0 \<le> to_money price" "pr_selling_price p' = to_money price" "pr_pk p' = pr_pk p"
    "pr_code p' = pr_code p"
    using assms(1) by (auto simp: set_price_def validate_price_def Let_def split: if_splits)
  have con: "product_constraints p'"
    using assms price by (auto simp: set_price_def validate_price_def Let_def product_instance_def
        product_constraints_def split: if_splits)
  let ?f = "\<lambda>r. r\<lparr>pr_selling_price := to_money price, pr_updated_at := now env\<rparr>"
  let ?db = "db\<lparr>db_products := tb_update pr_pk (pr_pk p) ?f (db_products db)\<rparr>"
  have db': "(p', db') = (p, db) \<or> (\<exists>b c. db' = record_audit env A_PRICE_CHANGE ''product'' (Some (pr_pk p)) user S_WEB b c ?db)"
    using assms(1) by (auto simp: set_price_def validate_price_def Let_def split: if_splits)
  have "catalogue_ok ?db"
    using assms(2) price(1)
    by (intro catalogue_ok_update) (auto simp: product_constraints_def catalogue_ok_def list_all_iff)
  moreover have "product_instance p' ?db"
    using assms(3) con price by (intro product_instance_update [of p]) auto
  ultimately show "catalogue_ok db'" "product_instance p' db'"
    using db' assms(2,3) by auto
  show "pr_selling_price p' = to_money price" "pr_pk p' = pr_pk p" by fact+
qed

lemma set_price_code: "set_price env user p price db = Inr (p', db') \<Longrightarrow> pr_code p' = pr_code p"
  by (auto simp: set_price_def validate_price_def Let_def split: if_splits)

lemma no_history: "\<not> (case x of None \<Rightarrow> False | Some v \<Rightarrow> v \<noteq> k \<and> has_history p)"
  by (simp add: has_history_def split: option.split)

lemma update_product_ok:
  assumes "update_product env user p kwargs db = Inr (p', db')" "catalogue_ok db" "product_instance p db"
  shows "catalogue_ok db'" "product_instance p' db'" "pr_pk p' = pr_pk p" "pr_code p' = pr_code p"
proof -
  obtain q dbq where q: "(case popped_price kwargs of None \<Rightarrow> Inr (p, db)
      | Some v \<Rightarrow> set_price env user p v db) = Inr (q, dbq)"
    using assms(1) by (auto simp: update_product_def result_simps split: if_splits)
  have ok: "catalogue_ok dbq" "product_instance q dbq" "pr_pk q = pr_pk p" "pr_code q = pr_code p"
  proof -
    consider "q = p" "dbq = db" | v where "set_price env user p v db = Inr (q, dbq)"
      using q by (cases "popped_price kwargs") auto
    then show "catalogue_ok dbq" "product_instance q dbq" "pr_pk q = pr_pk p" "pr_code q = pr_code p"
      using assms(2,3) by (cases; simp add: set_price_ok set_price_code)+
  qed
  define r where "r = (fold product_set (product_payload kwargs) q)\<lparr>pr_updated_at := now env\<rparr>"
  define dbr where
    "dbr = dbq\<lparr>db_products := tb_update pr_pk (pr_pk q) (\<lambda>_. r) (db_products dbq)\<rparr>"
  have r: "pr_pk r = pr_pk q" "pr_code r = pr_code q"
    by (simp_all add: r_def)
  consider "p' = q" "db' = dbq"
    | b c where "product_constraints r" "p' = r"
      "db' = record_audit env A_UPDATE ''product'' (Some (pr_pk q)) user S_WEB b c dbr"
    using assms(1) unfolding update_product_def q andThen.simps prod.case Let_def r_def [symmetric]
      dbr_def [symmetric]
    by (auto simp: no_history split: if_splits)
  then have "catalogue_ok db' \<and> product_instance p' db' \<and> pr_pk p' = pr_pk p \<and> pr_code p' = pr_code p"
  proof cases
    case 1
    then show ?thesis using ok by simp
  next
    case 2
    have "catalogue_ok dbr" "product_instance r dbr"
      unfolding dbr_def using catalogue_ok_save [OF ok(1,2) 2(1) r] by blast+
    then show ?thesis unfolding 2(2,3) using r ok by simp
  qed
  then show "catalogue_ok db'" "product_instance p' db'" "pr_pk p' = pr_pk p" "pr_code p' = pr_code p"
    by blast+
qed

lemma deactivate_product_ok:
  assumes "deactivate_product env user p db = Inr (p', db')" "catalogue_ok db" "product_instance p db"
  shows "catalogue_ok db'" "product_instance p' db'" "\<not> pr_is_active p'"
proof -
  let ?f = "\<lambda>r. r\<lparr>pr_is_active := False, pr_updated_at := now env\<rparr>"
  let ?db = "db\<lparr>db_products := tb_update pr_pk (pr_pk p) ?f (db_products db)\<rparr>"
  have *: "p' = p\<lparr>pr_is_active := False, pr_updated_at := now env\<rparr>"
    "\<exists>b c. db' = record_audit env A_DEACTIVATE ''product'' (Some (pr_pk p)) user S_WEB b c ?db"
    using assms(1) by (auto simp: deactivate_product_def split: if_splits)
  have "catalogue_ok ?db"
    using assms(2)
    by (intro catalogue_ok_update) (auto simp: product_constraints_def catalogue_ok_def list_all_iff)
  moreover have "product_instance p' ?db"
    using assms(3) * by (intro product_instance_update [of p]) (auto simp: product_instance_def product_constraints_def)
  ultimately show "catalogue_ok db'" "product_instance p' db'" "\<not> pr_is_active p'" using * by auto
qed

text \<open>
  The transacted-history guard of the pack size is never reached: \<^verbatim>\<open>_has_history\<close> answers no for
  every product, so \<^verbatim>\<open>IMMUTABLE\<close> is never raised.
\<close>

lemma update_product_never_immutable:
  "update_product env user p kwargs db \<noteq> Inl (invalid ''pack_size'' ''IMMUTABLE'')"
  by (auto simp: update_product_def has_history_def set_price_def validate_price_def Let_def
      result_simps split: option.splits if_splits)

definition empty_catalogue_db :: catalogue_db where
  "empty_catalogue_db = customers_db.extend empty_customers_db (catalogue_db.fields empty_table)"

lemma empty_catalogue_ok: "catalogue_ok empty_catalogue_db"
  by (simp add: catalogue_ok_def empty_catalogue_db_def catalogue_db.defs customers_db.defs
      empty_customers_db_def empty_identity_db_def identity_db.defs empty_core_db_def core_db.defs)

end
