(* ===== verification/Ledger.thy ===== *)
theory Ledger
  imports Catalogue "HOL-Library.Product_Lexorder" "HOL-Library.Multiset"
begin

text \<open>
  The two ledgers of \<^verbatim>\<open>backend/ledger\<close>: customer entries (what a customer owes) and supplier
  entries (what the distributor owes), their single write paths and the selectors that derive
  every balance.  Entry types are strings, as the services receive them.
\<close>


section \<open>Interface: an append-only ledger\<close>

text \<open>
  What both ledgers and the stock ledger promise: a successful append adds its one row at the
  end and touches no other.  A balance is the sum of the amounts under a key.
\<close>

locale append_ledger =
  fixes rows :: "'db \<Rightarrow> 'row list"
    and key :: "'row \<Rightarrow> 'k"
    and amount :: "'row \<Rightarrow> decimal"
    and append :: "'req \<Rightarrow> 'db \<Rightarrow> error + 'row \<times> 'db"
  assumes append_adds: "append req db = Inr (r, db') \<Longrightarrow> rows db' = rows db @ [r]"
begin

definition balance :: "'k \<Rightarrow> 'db \<Rightarrow> decimal" where
  "balance k db = sum_where (\<lambda>r. key r = k) amount (rows db)"

primrec run :: "'req list \<Rightarrow> 'db \<Rightarrow> error + 'row list \<times> 'db" where
  "run [] db = Inr ([], db)"
| "run (q # qs) db =
     andThen (append q db) (\<lambda>(r, db). andThen (run qs db) (\<lambda>(rs, db). Inr (r # rs, db)))"

lemma balance_append:
  "append q db = Inr (r, db') \<Longrightarrow>
   balance k db' = balance k db + (if key r = k then amount r else 0)"
  by (simp add: balance_def append_adds)

lemma run_rows: "run qs db = Inr (rs, db') \<Longrightarrow> rows db' = rows db @ rs"
proof (induction qs arbitrary: db rs)
  case (Cons q qs)
  then obtain r db1 rs' where "append q db = Inr (r, db1)" "run qs db1 = Inr (rs', db')" "rs = r # rs'"
    by (auto simp: result_simps)
  then show ?case using Cons.IH append_adds by auto
qed simp

lemma run_balance:
  "run qs db = Inr (rs, db') \<Longrightarrow> balance k db' = balance k db + sum_where (\<lambda>r. key r = k) amount rs"
  by (simp add: balance_def run_rows)

text \<open>Appends do not contend: whatever the interleaving, the balance sees every one of them.\<close>

lemma interleaving_balance:
  assumes "run qs db = Inr (rs, db1)" "run qs' db = Inr (rs', db2)"
    "mset (map (\<lambda>r. (key r, amount r)) rs) = mset (map (\<lambda>r. (key r, amount r)) rs')"
  shows "balance k db1 = balance k db2"
proof -
  have "sum_where (\<lambda>r. key r = k) amount rs =
      sum_mset (image_mset snd (filter_mset (\<lambda>p. fst p = k) (mset (map (\<lambda>r. (key r, amount r)) rs))))" for rs
    by (induction rs) auto
  then show ?thesis using assms by (simp add: run_balance)
qed

text \<open>A row and its compensation leave every balance as it was.\<close>

lemma compensated:
  assumes "append q db = Inr (r, db1)" "append q' db1 = Inr (r', db2)"
    "key r' = key r" "amount r' = - amount r"
  shows "balance k db2 = balance k db"
  using balance_append [OF assms(1), of k] balance_append [OF assms(2), of k] assms(3,4) by auto

end


section \<open>Entries\<close>

record cle =
  ce_pk :: nat
  ce_customer :: nat
  ce_entry_date :: date
  ce_entry_type :: string
  ce_amount :: decimal
  ce_sales_order :: "nat option"
  ce_source_type :: string
  ce_source_id :: "nat option"
  ce_narration :: string
  ce_created_by :: "nat option"
  ce_created_at :: int

record sle =
  se_pk :: nat
  se_supplier :: nat
  se_entry_date :: date
  se_entry_type :: string
  se_amount :: decimal
  se_source_type :: string
  se_source_id :: "nat option"
  se_narration :: string
  se_created_by :: "nat option"
  se_created_at :: int

record ledger_db = catalogue_db +
  db_cle :: "cle table"
  db_sle :: "sle table"

definition CLE_TYPES :: "string list" where
  "CLE_TYPES = [''INVOICE'', ''CREDIT_NOTE'', ''PAYMENT'', ''OPENING'', ''ADJUSTMENT'', ''WRITE_OFF'']"

definition SLE_TYPES :: "string list" where
  "SLE_TYPES = [''GOODS_RECEIPT'', ''PAYMENT'', ''OPENING'', ''ADJUSTMENT'', ''DEBIT_NOTE'']"

text \<open>The CHECK constraints of the two tables, in the order the database evaluates them.\<close>

definition source_pair_ok :: "string \<Rightarrow> nat option \<Rightarrow> bool" where
  "source_pair_ok st sid \<longleftrightarrow> (st = '''' \<and> sid = None) \<or> (st \<noteq> '''' \<and> sid \<noteq> None)"

definition cle_sign_ok :: "string \<Rightarrow> decimal \<Rightarrow> bool" where
  "cle_sign_ok t a \<longleftrightarrow>
     (t \<in> {''INVOICE'', ''OPENING''} \<and> 0 < a) \<or>
     (t \<in> {''PAYMENT'', ''CREDIT_NOTE'', ''WRITE_OFF''} \<and> a < 0) \<or> t = ''ADJUSTMENT''"

definition sle_sign_ok :: "string \<Rightarrow> decimal \<Rightarrow> bool" where
  "sle_sign_ok t a \<longleftrightarrow>
     (t = ''GOODS_RECEIPT'' \<and> 0 < a) \<or> (t \<in> {''PAYMENT'', ''DEBIT_NOTE''} \<and> a < 0) \<or>
     t \<in> {''OPENING'', ''ADJUSTMENT''}"

definition cle_check :: "cle \<Rightarrow> error + unit" where
  "cle_check e =
     andThen (require (ce_amount e \<noteq> 0) (IntegrityError ''ck_cle_amount_nonzero'')) (\<lambda>_.
     andThen (require (cle_sign_ok (ce_entry_type e) (ce_amount e)) (IntegrityError ''ck_cle_sign'')) (\<lambda>_.
     require (source_pair_ok (ce_source_type e) (ce_source_id e)) (IntegrityError ''ck_cle_source_pair'')))"

definition sle_check :: "sle \<Rightarrow> error + unit" where
  "sle_check e =
     andThen (require (se_amount e \<noteq> 0) (IntegrityError ''ck_sle_amount_non_zero'')) (\<lambda>_.
     andThen (require (sle_sign_ok (se_entry_type e) (se_amount e)) (IntegrityError ''ck_sle_sign'')) (\<lambda>_.
     require (source_pair_ok (se_source_type e) (se_source_id e)) (IntegrityError ''ck_sle_source_pair'')))"

text \<open>The partial unique indexes: one OPENING entry per customer, one per supplier.\<close>

definition cle_opening_free :: "cle \<Rightarrow> cle list \<Rightarrow> bool" where
  "cle_opening_free e es \<longleftrightarrow>
     ce_entry_type e = ''OPENING'' \<longrightarrow>
     \<not> list_ex (\<lambda>x. ce_entry_type x = ''OPENING'' \<and> ce_customer x = ce_customer e) es"

definition sle_opening_free :: "sle \<Rightarrow> sle list \<Rightarrow> bool" where
  "sle_opening_free e es \<longleftrightarrow>
     se_entry_type e = ''OPENING'' \<longrightarrow>
     \<not> list_ex (\<lambda>x. se_entry_type x = ''OPENING'' \<and> se_supplier x = se_supplier e) es"

text \<open>\<open>save()\<close> and \<open>delete()\<close> on an entry that has a primary key, on either ledger.\<close>

definition cle_save_existing :: "cle \<Rightarrow> error + unit" where
  "cle_save_existing e = Inl (Immutable ''customer_ledger_entry'')"

definition sle_save_existing :: "sle \<Rightarrow> error + unit" where
  "sle_save_existing e = Inl (Immutable ''supplier_ledger_entry'')"


section \<open>The write paths\<close>

text \<open>
  A source document is a model instance: its class and its primary key, absent until it is
  saved.  The registry is what \<^verbatim>\<open>billing\<close>, \<^verbatim>\<open>receivables\<close> and \<^verbatim>\<open>purchasing\<close> enter at import time.
\<close>

type_synonym document = "string \<times> nat option"

definition SOURCE_DOCUMENT_REGISTRY :: "(string \<times> string) list" where
  "SOURCE_DOCUMENT_REGISTRY = [(''Invoice'', ''INVOICE''), (''CreditNote'', ''CREDIT_NOTE''),
     (''Payment'', ''PAYMENT''), (''GoodsReceipt'', ''GOODS_RECEIPT''), (''SupplierPayment'', ''PAYMENT'')]"

definition resolve_source :: "(string \<times> string) list \<Rightarrow> document option \<Rightarrow> error + string \<times> nat option" where
  "resolve_source registry doc =
     (case doc of None \<Rightarrow> Inr ('''', None)
      | Some (model, pk) \<Rightarrow>
         (case map_of registry model of None \<Rightarrow> Inl (invalid ''source_document'' ''UNREGISTERED_SOURCE'')
          | Some t \<Rightarrow> (case pk of None \<Rightarrow> Inl (invalid ''source_document'' ''UNSAVED'')
                      | Some i \<Rightarrow> Inr (t, Some i))))"

datatype sign = Plus | Minus

definition SIGN_RULES :: "(string \<times> sign) list" where
  "SIGN_RULES = [(''INVOICE'', Plus), (''OPENING'', Plus), (''PAYMENT'', Minus),
     (''CREDIT_NOTE'', Minus), (''WRITE_OFF'', Minus)]"

definition SUPPLIER_SIGN_RULES :: "(string \<times> sign) list" where
  "SUPPLIER_SIGN_RULES = [(''GOODS_RECEIPT'', Plus), (''PAYMENT'', Minus), (''DEBIT_NOTE'', Minus)]"

definition validated_amount ::
  "string \<Rightarrow> decimal \<Rightarrow> string list \<Rightarrow> (string \<times> sign) list \<Rightarrow> error + decimal" where
  "validated_amount entry_type amount valid_types sign_rules =
     andThen (require (entry_type \<in> set valid_types) (invalid ''entry_type'' ''INVALID'')) (\<lambda>_.
     let money = to_money amount in
     andThen (require (quantizable money) (PyError ''InvalidOperation'')) (\<lambda>_.
     andThen (require (money \<noteq> 0) (invalid ''amount'' ''ZERO'')) (\<lambda>_.
     let required = map_of sign_rules entry_type in
     andThen (require (\<not> (required = Some Plus \<and> money < 0)) (invalid ''amount'' ''SIGN'')) (\<lambda>_.
     andThen (require (\<not> (required = Some Minus \<and> money > 0)) (invalid ''amount'' ''SIGN'')) (\<lambda>_.
     Inr money)))))"

text \<open>
  \<open>cle_insert\<close> is \<open>entry.save()\<close>: a value the NUMERIC(14,2) column cannot hold is refused before
  the constraints are looked at, then the row.  \<open>record_entry\<close> is the only caller.
\<close>

definition money_column :: "decimal \<Rightarrow> bool" where
  "money_column x \<longleftrightarrow> \<bar>x\<bar> < 10 ^ 12"

definition cle_insert :: "(nat \<Rightarrow> cle) \<Rightarrow> 'a ledger_db_scheme \<Rightarrow> error + cle \<times> 'a ledger_db_scheme" where
  "cle_insert mk db =
     (let (e, entries) = tb_insert mk (db_cle db)
      in andThen (require (money_column (ce_amount e)) (PyError ''DataError'')) (\<lambda>_.
         andThen (cle_check e) (\<lambda>_.
         andThen (require (cle_opening_free e (tb_rows (db_cle db)))
                    (IntegrityError ''uq_cle_one_opening_per_customer'')) (\<lambda>_.
         Inr (e, db\<lparr>db_cle := entries\<rparr>)))))"

definition sle_insert :: "(nat \<Rightarrow> sle) \<Rightarrow> 'a ledger_db_scheme \<Rightarrow> error + sle \<times> 'a ledger_db_scheme" where
  "sle_insert mk db =
     (let (e, entries) = tb_insert mk (db_sle db)
      in andThen (require (money_column (se_amount e)) (PyError ''DataError'')) (\<lambda>_.
         andThen (sle_check e) (\<lambda>_.
         andThen (require (sle_opening_free e (tb_rows (db_sle db)))
                    (IntegrityError ''uq_sle_one_opening_per_supplier'')) (\<lambda>_.
         Inr (e, db\<lparr>db_sle := entries\<rparr>)))))"

definition record_entry ::
  "env \<Rightarrow> actor option \<Rightarrow> nat \<Rightarrow> string \<Rightarrow> decimal \<Rightarrow> string \<Rightarrow> date option \<Rightarrow> document option \<Rightarrow>
   nat option \<Rightarrow> 'a ledger_db_scheme \<Rightarrow> error + cle \<times> 'a ledger_db_scheme" where
  "record_entry env user customer entry_type amount narration entry_date document sales_order db =
     andThen (validated_amount entry_type amount CLE_TYPES SIGN_RULES) (\<lambda>amount.
     andThen (resolve_source SOURCE_DOCUMENT_REGISTRY document) (\<lambda>(source_type, source_id).
     cle_insert (\<lambda>pk. \<lparr>ce_pk = pk, ce_customer = customer,
        ce_entry_date = (case entry_date of None \<Rightarrow> today env | Some d \<Rightarrow> d),
        ce_entry_type = entry_type, ce_amount = amount, ce_sales_order = sales_order,
        ce_source_type = source_type, ce_source_id = source_id,
        ce_narration = take 255 narration, ce_created_by = actor_pk user,
        ce_created_at = now env\<rparr>) db))"

definition record_supplier_entry ::
  "env \<Rightarrow> actor option \<Rightarrow> nat \<Rightarrow> string \<Rightarrow> decimal \<Rightarrow> string \<Rightarrow> date option \<Rightarrow> document option \<Rightarrow>
   'a ledger_db_scheme \<Rightarrow> error + sle \<times> 'a ledger_db_scheme" where
  "record_supplier_entry env user supplier entry_type amount narration entry_date document db =
     andThen (validated_amount entry_type amount SLE_TYPES SUPPLIER_SIGN_RULES) (\<lambda>amount.
     andThen (resolve_source SOURCE_DOCUMENT_REGISTRY document) (\<lambda>(source_type, source_id).
     sle_insert (\<lambda>pk. \<lparr>se_pk = pk, se_supplier = supplier,
        se_entry_date = (case entry_date of None \<Rightarrow> today env | Some d \<Rightarrow> d),
        se_entry_type = entry_type, se_amount = amount,
        se_source_type = source_type, se_source_id = source_id,
        se_narration = take 255 narration, se_created_by = actor_pk user,
        se_created_at = now env\<rparr>) db))"


section \<open>Selectors\<close>

definition up_to :: "date option \<Rightarrow> date \<Rightarrow> bool" where
  "up_to as_of d \<longleftrightarrow> (case as_of of None \<Rightarrow> True | Some x \<Rightarrow> d \<le> x)"

definition since :: "date option \<Rightarrow> date \<Rightarrow> bool" where
  "since date_from d \<longleftrightarrow> (case date_from of None \<Rightarrow> True | Some x \<Rightarrow> x \<le> d)"

text \<open>\<open>_balance_expression\<close>: the left join's sum, coalesced to zero.\<close>

definition balance_expression :: "date option \<Rightarrow> nat \<Rightarrow> 'a ledger_db_scheme \<Rightarrow> decimal" where
  "balance_expression as_of customer db =
     sum_where (\<lambda>e. ce_customer e = customer \<and> up_to as_of (ce_entry_date e)) ce_amount (tb_rows (db_cle db))"

definition settled_balance :: "nat \<Rightarrow> date option \<Rightarrow> 'a ledger_db_scheme \<Rightarrow> decimal" where
  "settled_balance customer as_of db =
     (case tb_get cu_pk customer (db_customers db) of
        None \<Rightarrow> 0 | Some c \<Rightarrow> balance_expression as_of (cu_pk c) db)"

definition outstanding_balances :: "bool \<Rightarrow> 'a ledger_db_scheme \<Rightarrow> (customer \<times> decimal) list" where
  "outstanding_balances include_inactive db =
     map (\<lambda>c. (c, balance_expression None (cu_pk c) db))
       (sort_key cu_shop_name
          (filter (\<lambda>c. include_inactive \<or> cu_is_active c) (tb_rows (db_customers db))))"

definition statement_for ::
  "nat \<Rightarrow> date option \<Rightarrow> date option \<Rightarrow> 'a ledger_db_scheme \<Rightarrow> cle list" where
  "statement_for customer date_from date_to db =
     sort_key (\<lambda>e. (ce_entry_date e, ce_pk e))
       (filter (\<lambda>e. ce_customer e = customer \<and> since date_from (ce_entry_date e) \<and> up_to date_to (ce_entry_date e))
          (tb_rows (db_cle db)))"

definition settled_order_ids :: "nat \<Rightarrow> 'a ledger_db_scheme \<Rightarrow> nat list" where
  "settled_order_ids customer db =
     remdups (List.map_filter ce_sales_order
       (filter (\<lambda>e. ce_customer e = customer \<and> ce_sales_order e \<noteq> None \<and> ce_entry_type e = ''INVOICE'')
          (tb_rows (db_cle db))))"

definition supplier_balance :: "nat \<Rightarrow> date option \<Rightarrow> 'a ledger_db_scheme \<Rightarrow> decimal" where
  "supplier_balance supplier as_of db =
     sum_where (\<lambda>e. se_supplier e = supplier \<and> up_to as_of (se_entry_date e)) se_amount (tb_rows (db_sle db))"

definition supplier_statement_for ::
  "nat \<Rightarrow> date option \<Rightarrow> date option \<Rightarrow> 'a ledger_db_scheme \<Rightarrow> sle list" where
  "supplier_statement_for supplier date_from date_to db =
     sort_key (\<lambda>e. (se_entry_date e, se_pk e))
       (filter (\<lambda>e. se_supplier e = supplier \<and> since date_from (se_entry_date e) \<and> up_to date_to (se_entry_date e))
          (tb_rows (db_sle db)))"


section \<open>What an append does\<close>

lemma money_column_quantizable: "money_column x \<Longrightarrow> quantizable x"
  by (simp add: money_column_def quantizable_def)

lemma validated_amount_Inr:
  "validated_amount t a types rules = Inr m \<longleftrightarrow>
     t \<in> set types \<and> m = to_money a \<and> quantizable m \<and> m \<noteq> 0 \<and>
     (map_of rules t = Some Plus \<longrightarrow> 0 < m) \<and> (map_of rules t = Some Minus \<longrightarrow> m < 0)"
  by (auto simp: validated_amount_def Let_def not_less less_le)

lemma resolve_source_Inr:
  "resolve_source SOURCE_DOCUMENT_REGISTRY doc = Inr (st, sid) \<Longrightarrow> source_pair_ok st sid"
  by (auto simp: resolve_source_def source_pair_ok_def SOURCE_DOCUMENT_REGISTRY_def
      split: option.splits if_splits)

text \<open>
  The service's own checks are the table's: once an amount is validated, no CHECK constraint
  of the table can refuse the row.
\<close>

lemma cle_check_ok:
  assumes "validated_amount t a CLE_TYPES SIGN_RULES = Inr m" "source_pair_ok st sid"
    "ce_entry_type e = t" "ce_amount e = m" "ce_source_type e = st" "ce_source_id e = sid"
  shows "cle_check e = Inr ()"
  using assms
  by (auto simp: validated_amount_Inr cle_check_def cle_sign_ok_def CLE_TYPES_def SIGN_RULES_def)

lemma sle_check_ok:
  assumes "validated_amount t a SLE_TYPES SUPPLIER_SIGN_RULES = Inr m" "source_pair_ok st sid"
    "se_entry_type e = t" "se_amount e = m" "se_source_type e = st" "se_source_id e = sid"
  shows "sle_check e = Inr ()"
  using assms
  by (auto simp: validated_amount_Inr sle_check_def sle_sign_ok_def SLE_TYPES_def SUPPLIER_SIGN_RULES_def)

lemma cle_insert_Inr:
  "cle_insert mk db = Inr (e, db') \<longleftrightarrow>
     e = mk (tb_seq (db_cle db)) \<and> money_column (ce_amount e) \<and> cle_check e = Inr () \<and> cle_opening_free e (tb_rows (db_cle db)) \<and>
     db' = db\<lparr>db_cle := snd (tb_insert mk (db_cle db))\<rparr>"
  by (auto simp: cle_insert_def tb_insert_def Let_def result_simps split: if_splits)

lemma sle_insert_Inr:
  "sle_insert mk db = Inr (e, db') \<longleftrightarrow>
     e = mk (tb_seq (db_sle db)) \<and> money_column (se_amount e) \<and> sle_check e = Inr () \<and> sle_opening_free e (tb_rows (db_sle db)) \<and>
     db' = db\<lparr>db_sle := snd (tb_insert mk (db_sle db))\<rparr>"
  by (auto simp: sle_insert_def tb_insert_def Let_def result_simps split: if_splits)

lemma record_audit_ledger [simp, frame_simps]:
  "db_cle (record_audit env a et ei u s b c db) = db_cle db"
  "db_sle (record_audit env a et ei u s b c db) = db_sle db"
  by (simp_all add: record_audit_def record_audit_from_def)

lemma record_entryD:
  assumes "record_entry env user cust t a narr d doc so db = Inr (e, db')"
  shows "tb_rows (db_cle db') = tb_rows (db_cle db) @ [e]"
    "db' = db\<lparr>db_cle := db_cle db'\<rparr>"
    "tb_seq (db_cle db') = Suc (tb_seq (db_cle db))" "ce_pk e = tb_seq (db_cle db)"
    "ce_customer e = cust" "ce_entry_type e = t" "ce_amount e = to_money a" "ce_sales_order e = so"
    "ce_entry_date e = (case d of None \<Rightarrow> today env | Some d \<Rightarrow> d)"
    "cle_check e = Inr ()" "cle_opening_free e (tb_rows (db_cle db))"
    "resolve_source SOURCE_DOCUMENT_REGISTRY doc = Inr (ce_source_type e, ce_source_id e)"
    "validated_amount t a CLE_TYPES SIGN_RULES = Inr (ce_amount e)" "money_column (ce_amount e)"
  using assms
  by (auto simp: record_entry_def result_simps cle_insert_Inr table_simps validated_amount_Inr)

lemma record_supplier_entryD:
  assumes "record_supplier_entry env user supp t a narr d doc db = Inr (e, db')"
  shows "tb_rows (db_sle db') = tb_rows (db_sle db) @ [e]"
    "db' = db\<lparr>db_sle := db_sle db'\<rparr>"
    "tb_seq (db_sle db') = Suc (tb_seq (db_sle db))" "se_pk e = tb_seq (db_sle db)"
    "se_supplier e = supp" "se_entry_type e = t" "se_amount e = to_money a"
    "se_entry_date e = (case d of None \<Rightarrow> today env | Some d \<Rightarrow> d)"
    "sle_check e = Inr ()" "sle_opening_free e (tb_rows (db_sle db))"
    "resolve_source SOURCE_DOCUMENT_REGISTRY doc = Inr (se_source_type e, se_source_id e)"
    "validated_amount t a SLE_TYPES SUPPLIER_SIGN_RULES = Inr (se_amount e)" "money_column (se_amount e)"
  using assms
  by (auto simp: record_supplier_entry_def result_simps sle_insert_Inr table_simps validated_amount_Inr)

text \<open>Every way an append can fail.\<close>

lemma record_entry_Inl:
  assumes "record_entry env user cust t a narr d doc so db = Inl err"
  shows "validated_amount t a CLE_TYPES SIGN_RULES = Inl err \<or>
    resolve_source SOURCE_DOCUMENT_REGISTRY doc = Inl err \<or>
    (err = PyError ''DataError'' \<and> \<not> money_column (to_money a)) \<or>
    (err = IntegrityError ''uq_cle_one_opening_per_customer'' \<and> t = ''OPENING'' \<and>
     (\<exists>e \<in> set (tb_rows (db_cle db)). ce_entry_type e = ''OPENING'' \<and> ce_customer e = cust))"
proof (cases "validated_amount t a CLE_TYPES SIGN_RULES")
  case (Inr m)
  show ?thesis
  proof (cases "resolve_source SOURCE_DOCUMENT_REGISTRY doc")
    case r: (Inr p)
    obtain st sid where p: "p = (st, sid)" by (cases p)
    let ?e = "\<lparr>ce_pk = tb_seq (db_cle db), ce_customer = cust,
        ce_entry_date = (case d of None \<Rightarrow> today env | Some d \<Rightarrow> d), ce_entry_type = t,
        ce_amount = m, ce_sales_order = so, ce_source_type = st, ce_source_id = sid,
        ce_narration = take 255 narr, ce_created_by = actor_pk user, ce_created_at = now env\<rparr>"
    have m: "m = to_money a" using Inr unfolding validated_amount_Inr by blast
    have "cle_check ?e = Inr ()"
      using Inr resolve_source_Inr r p by (intro cle_check_ok) auto
    then show ?thesis
      using assms Inr r p
      by (auto simp: m record_entry_def cle_insert_def tb_insert_def Let_def cle_opening_free_def
          list_ex_iff split: if_splits)
  qed (use assms Inr in \<open>simp add: record_entry_def\<close>)
qed (use assms in \<open>simp add: record_entry_def\<close>)

lemma record_supplier_entry_Inl:
  assumes "record_supplier_entry env user supp t a narr d doc db = Inl err"
  shows "validated_amount t a SLE_TYPES SUPPLIER_SIGN_RULES = Inl err \<or>
    resolve_source SOURCE_DOCUMENT_REGISTRY doc = Inl err \<or>
    (err = PyError ''DataError'' \<and> \<not> money_column (to_money a)) \<or>
    (err = IntegrityError ''uq_sle_one_opening_per_supplier'' \<and> t = ''OPENING'' \<and>
     (\<exists>e \<in> set (tb_rows (db_sle db)). se_entry_type e = ''OPENING'' \<and> se_supplier e = supp))"
proof (cases "validated_amount t a SLE_TYPES SUPPLIER_SIGN_RULES")
  case (Inr m)
  show ?thesis
  proof (cases "resolve_source SOURCE_DOCUMENT_REGISTRY doc")
    case r: (Inr p)
    obtain st sid where p: "p = (st, sid)" by (cases p)
    let ?e = "\<lparr>se_pk = tb_seq (db_sle db), se_supplier = supp,
        se_entry_date = (case d of None \<Rightarrow> today env | Some d \<Rightarrow> d), se_entry_type = t,
        se_amount = m, se_source_type = st, se_source_id = sid,
        se_narration = take 255 narr, se_created_by = actor_pk user, se_created_at = now env\<rparr>"
    have m: "m = to_money a" using Inr unfolding validated_amount_Inr by blast
    have "sle_check ?e = Inr ()"
      using Inr resolve_source_Inr r p by (intro sle_check_ok) auto
    then show ?thesis
      using assms Inr r p
      by (auto simp: m record_supplier_entry_def sle_insert_def tb_insert_def Let_def sle_opening_free_def
          list_ex_iff split: if_splits)
  qed (use assms Inr in \<open>simp add: record_supplier_entry_def\<close>)
qed (use assms in \<open>simp add: record_supplier_entry_def\<close>)


section \<open>The ledgers' invariant\<close>

definition openings :: "cle list \<Rightarrow> nat list" where
  "openings es = map ce_customer (filter (\<lambda>e. ce_entry_type e = ''OPENING'') es)"

definition supplier_openings :: "sle list \<Rightarrow> nat list" where
  "supplier_openings es = map se_supplier (filter (\<lambda>e. se_entry_type e = ''OPENING'') es)"

definition ledger_ok :: "'a ledger_db_scheme \<Rightarrow> bool" where
  "ledger_ok db \<longleftrightarrow>
     table_wf ce_pk (db_cle db) \<and> table_wf se_pk (db_sle db) \<and>
     list_all (\<lambda>e. cle_check e = Inr () \<and> is_money (ce_amount e)) (tb_rows (db_cle db)) \<and>
     list_all (\<lambda>e. sle_check e = Inr () \<and> is_money (se_amount e)) (tb_rows (db_sle db)) \<and>
     distinct (openings (tb_rows (db_cle db))) \<and> distinct (supplier_openings (tb_rows (db_sle db)))"

lemma record_entry_ok:
  assumes "record_entry env user cust t a narr d doc so db = Inr (e, db')" "ledger_ok db"
  shows "ledger_ok db'"
proof -
  note e = record_entryD [OF assms(1)]
  have "table_wf ce_pk (db_cle db')"
    by (rule table_wf_append [where key = ce_pk, OF _ e(1,3,4)]) (use assms(2) in \<open>simp add: ledger_ok_def\<close>)
  moreover have "distinct (openings (tb_rows (db_cle db')))"
    using assms(2) e(1,11)
    by (auto simp: ledger_ok_def openings_def cle_opening_free_def list_ex_iff)
  moreover have "db_sle db' = db_sle db" using arg_cong [OF e(2), of db_sle] by simp
  ultimately show ?thesis using assms(2) e(1,7,10) by (simp add: ledger_ok_def)
qed

lemma record_supplier_entry_ok:
  assumes "record_supplier_entry env user supp t a narr d doc db = Inr (e, db')" "ledger_ok db"
  shows "ledger_ok db'"
proof -
  note e = record_supplier_entryD [OF assms(1)]
  have "table_wf se_pk (db_sle db')"
    by (rule table_wf_append [where key = se_pk, OF _ e(1,3,4)]) (use assms(2) in \<open>simp add: ledger_ok_def\<close>)
  moreover have "distinct (supplier_openings (tb_rows (db_sle db')))"
    using assms(2) e(1,10)
    by (auto simp: ledger_ok_def supplier_openings_def sle_opening_free_def list_ex_iff)
  moreover have "db_cle db' = db_cle db" using arg_cong [OF e(2), of db_cle] by simp
  ultimately show ?thesis using assms(2) e(1,7,9) by (simp add: ledger_ok_def)
qed


section \<open>The ledgers are append-only\<close>

text \<open>A request to a write path: everything its caller passes.\<close>

record entry_request =
  rq_env :: env
  rq_user :: "actor option"
  rq_party :: nat
  rq_type :: string
  rq_amount :: decimal
  rq_narration :: string
  rq_date :: "date option"
  rq_document :: "document option"
  rq_order :: "nat option"

definition append_cle :: "entry_request \<Rightarrow> 'a ledger_db_scheme \<Rightarrow> error + cle \<times> 'a ledger_db_scheme" where
  "append_cle q = record_entry (rq_env q) (rq_user q) (rq_party q) (rq_type q) (rq_amount q)
     (rq_narration q) (rq_date q) (rq_document q) (rq_order q)"

definition append_sle :: "entry_request \<Rightarrow> 'a ledger_db_scheme \<Rightarrow> error + sle \<times> 'a ledger_db_scheme" where
  "append_sle q = record_supplier_entry (rq_env q) (rq_user q) (rq_party q) (rq_type q) (rq_amount q)
     (rq_narration q) (rq_date q) (rq_document q)"

interpretation cust_ledger:
  append_ledger "\<lambda>db :: 'a ledger_db_scheme. tb_rows (db_cle db)" ce_customer ce_amount append_cle
  by unfold_locales (auto simp: append_cle_def dest: record_entryD(1))

interpretation supp_ledger:
  append_ledger "\<lambda>db :: 'a ledger_db_scheme. tb_rows (db_sle db)" se_supplier se_amount append_sle
  by unfold_locales (auto simp: append_sle_def dest: record_supplier_entryD(1))

text \<open>The locale's balance is the selectors' balance.\<close>

lemma balance_expression_eq: "balance_expression None c db = cust_ledger.balance c db"
  by (simp add: balance_expression_def cust_ledger.balance_def up_to_def)

lemma append_order_is_irrelevant:
  assumes "cust_ledger.run qs db = Inr (rs, db1)" "cust_ledger.run qs' db = Inr (rs', db2)"
    "mset (map (\<lambda>e. (ce_customer e, ce_amount e)) rs) = mset (map (\<lambda>e. (ce_customer e, ce_amount e)) rs')"
  shows "balance_expression None c db1 = balance_expression None c db2"
  using cust_ledger.interleaving_balance [OF assms] by (simp add: balance_expression_eq)

lemma supplier_balance_eq: "supplier_balance s None db = supp_ledger.balance s db"
  by (simp add: supplier_balance_def supp_ledger.balance_def up_to_def)

lemma settled_balance_eq:
  "(\<exists>c \<in> set (tb_rows (db_customers db)). cu_pk c = k) \<Longrightarrow>
   settled_balance k as_of db = balance_expression as_of k db"
  by (auto simp: settled_balance_def tb_get_def find_None_iff_list dest: find_SomeD split: option.splits)

lemma settled_balance_missing:
  "(\<forall>c \<in> set (tb_rows (db_customers db)). cu_pk c \<noteq> k) \<Longrightarrow> settled_balance k as_of db = 0"
  by (auto simp: settled_balance_def dest: tb_getD split: option.splits)

text \<open>No customer vanishes from the balances for having no entry.\<close>

lemma outstanding_balances_all:
  "mset (map fst (outstanding_balances True db)) = mset (tb_rows (db_customers db))"
  by (simp add: outstanding_balances_def comp_def)

lemma outstanding_balances_value:
  "(c, b) \<in> set (outstanding_balances inc db) \<Longrightarrow> b = balance_expression None (cu_pk c) db"
  by (auto simp: outstanding_balances_def)

text \<open>The statement explains the balance: it is exactly the entries that make it up, in order.\<close>

lemma sum_list_map_sort_key: "sum_list (map f (sort_key g xs)) = sum_list (map f (xs :: 'b list) :: decimal list)"
  by (metis mset_map mset_sort sum_mset_sum_list)

lemma statement_sum:
  "sum_list (map ce_amount (statement_for c None d db)) = balance_expression d c db"
  by (simp add: statement_for_def balance_expression_def sum_where_def sum_list_map_sort_key since_def)

lemma statement_opening:
  assumes "\<And>x. up_to d x = (\<not> f \<le> x)" "\<And>x. \<not> f \<le> x \<Longrightarrow> up_to d' x"
  shows "balance_expression d c db + sum_list (map ce_amount (statement_for c (Some f) d' db))
       = balance_expression d' c db"
proof -
  let ?es = "tb_rows (db_cle db)"
  have "balance_expression d' c db
      = sum_where (\<lambda>e. (ce_customer e = c \<and> up_to d' (ce_entry_date e)) \<and> \<not> f \<le> ce_entry_date e) ce_amount ?es
        + sum_where (\<lambda>e. (ce_customer e = c \<and> up_to d' (ce_entry_date e)) \<and> \<not> \<not> f \<le> ce_entry_date e) ce_amount ?es"
    unfolding balance_expression_def by (rule sum_where_split)
  also have "(\<lambda>e. (ce_customer e = c \<and> up_to d' (ce_entry_date e)) \<and> \<not> f \<le> ce_entry_date e)
      = (\<lambda>e. ce_customer e = c \<and> up_to d (ce_entry_date e))"
    using assms by auto
  also have "(\<lambda>e. (ce_customer e = c \<and> up_to d' (ce_entry_date e)) \<and> \<not> \<not> f \<le> ce_entry_date e)
      = (\<lambda>e. ce_customer e = c \<and> since (Some f) (ce_entry_date e) \<and> up_to d' (ce_entry_date e))"
    by (auto simp: since_def)
  finally show ?thesis
    by (simp add: statement_for_def balance_expression_def sum_list_map_sort_key sum_where_def)
qed

lemma statement_sorted:
  "sorted (map (\<lambda>e. (ce_entry_date e, ce_pk e)) (statement_for c f d db))"
  by (simp add: statement_for_def)

lemma settled_order_ids_iff:
  "k \<in> set (settled_order_ids c db) \<longleftrightarrow>
     (\<exists>e \<in> set (tb_rows (db_cle db)). ce_customer e = c \<and> ce_sales_order e = Some k \<and> ce_entry_type e = ''INVOICE'')"
  by (force simp: settled_order_ids_def List.map_filter_def)

definition empty_ledger_db :: ledger_db where
  "empty_ledger_db = catalogue_db.extend empty_catalogue_db (ledger_db.fields empty_table empty_table)"

lemma empty_ledger_ok: "ledger_ok empty_ledger_db"
  by (simp add: ledger_ok_def empty_ledger_db_def ledger_db.defs openings_def supplier_openings_def
      catalogue_db.defs empty_catalogue_db_def)

text \<open>Exactly which entries the write paths accept.\<close>

lemma SIGN_RULES_types:
  shows "map_of SIGN_RULES t = Some Plus \<Longrightarrow> t \<in> {''INVOICE'', ''OPENING''}"
    and "map_of SIGN_RULES t = Some Minus \<Longrightarrow> t \<in> {''PAYMENT'', ''CREDIT_NOTE'', ''WRITE_OFF''}"
proof -
  assume "map_of SIGN_RULES t = Some Plus"
  then have "(t, Plus) \<in> set SIGN_RULES" by (rule map_of_SomeD)
  then show "t \<in> {''INVOICE'', ''OPENING''}" by (simp add: SIGN_RULES_def)
next
  assume "map_of SIGN_RULES t = Some Minus"
  then have "(t, Minus) \<in> set SIGN_RULES" by (rule map_of_SomeD)
  then show "t \<in> {''PAYMENT'', ''CREDIT_NOTE'', ''WRITE_OFF''}" by (simp add: SIGN_RULES_def)
qed

lemma record_entry_accepts:
  "(\<exists>e db'. record_entry env user cust t a narr d doc so db = Inr (e, db')) \<longleftrightarrow>
     t \<in> set CLE_TYPES \<and> to_money a \<noteq> 0 \<and> \<bar>to_money a\<bar> < 10 ^ 12 \<and>
     (t \<in> {''INVOICE'', ''OPENING''} \<longrightarrow> 0 < to_money a) \<and>
     (t \<in> {''PAYMENT'', ''CREDIT_NOTE'', ''WRITE_OFF''} \<longrightarrow> to_money a < 0) \<and>
     (\<exists>src. resolve_source SOURCE_DOCUMENT_REGISTRY doc = Inr src) \<and>
     \<not> (t = ''OPENING'' \<and> (\<exists>e \<in> set (tb_rows (db_cle db)). ce_entry_type e = ''OPENING'' \<and> ce_customer e = cust))"
  (is "?L \<longleftrightarrow> ?R")
proof
  assume ?L
  then obtain e db' where r: "record_entry env user cust t a narr d doc so db = Inr (e, db')" by blast
  note R = record_entryD [OF r]
  have v: "t \<in> set CLE_TYPES" "to_money a \<noteq> 0" "map_of SIGN_RULES t = Some Plus \<longrightarrow> 0 < to_money a"
    "map_of SIGN_RULES t = Some Minus \<longrightarrow> to_money a < 0"
    using R(13) unfolding validated_amount_Inr by auto
  have "t \<in> {''INVOICE'', ''OPENING''} \<longrightarrow> 0 < to_money a"
    using v(3) by (auto simp: SIGN_RULES_def)
  moreover have "t \<in> {''PAYMENT'', ''CREDIT_NOTE'', ''WRITE_OFF''} \<longrightarrow> to_money a < 0"
    using v(4) by (auto simp: SIGN_RULES_def)
  moreover have "\<not> (t = ''OPENING'' \<and> (\<exists>e \<in> set (tb_rows (db_cle db)). ce_entry_type e = ''OPENING'' \<and> ce_customer e = cust))"
    using R(5,6,11) by (auto simp: cle_opening_free_def list_ex_iff)
  moreover have "\<bar>to_money a\<bar> < 10 ^ 12" using R(7,14) by (simp add: money_column_def)
  ultimately show ?R using R(12) v(1,2) by blast
next
  assume R: ?R
  show ?L
  proof (cases "record_entry env user cust t a narr d doc so db")
    case (Inl err)
    note R1 = R [THEN conjunct1] and R' = R [THEN conjunct2]
    note R2 = R' [THEN conjunct1] and R0 = R' [THEN conjunct2]
    note col = R0 [THEN conjunct1] and R'' = R0 [THEN conjunct2]
    note R3 = R'' [THEN conjunct1] and R''' = R'' [THEN conjunct2]
    note R4 = R''' [THEN conjunct1] and R5 = R''' [THEN conjunct2]
    have columnar: "money_column (to_money a)" using col by (simp add: money_column_def)
    have "validated_amount t a CLE_TYPES SIGN_RULES = Inr (to_money a)"
      unfolding validated_amount_Inr
    proof (intro conjI impI)
      assume "map_of SIGN_RULES t = Some Plus"
      then have "t \<in> {''INVOICE'', ''OPENING''}" by (rule SIGN_RULES_types(1))
      then show "0 < to_money a" by (rule R3 [THEN mp])
    next
      assume "map_of SIGN_RULES t = Some Minus"
      then have "t \<in> {''PAYMENT'', ''CREDIT_NOTE'', ''WRITE_OFF''}" by (rule SIGN_RULES_types(2))
      then show "to_money a < 0" by (rule R4 [THEN mp])
    qed (fact R1, rule refl, rule money_column_quantizable, fact columnar, fact R2)
    then show ?thesis using record_entry_Inl [OF Inl] R5 columnar by auto
  next
    case (Inr x)
    then show ?thesis by (cases x) auto
  qed
qed

end
