(* ===== verification/Pricing.thy ===== *)
theory Pricing
  imports Catalogue
begin

text \<open>
  Price resolution and line arithmetic: \<^verbatim>\<open>pricing/services.py\<close>.  The single place a price, a
  discount ceiling and a line's money are computed, rounded half-up at line level.
\<close>

record line_amounts =
  la_unit_price :: decimal
  la_gross_amount :: decimal
  la_discount_amount :: decimal
  la_taxable_amount :: decimal
  la_tax_rate_percent :: decimal
  la_tax_amount :: decimal
  la_line_total :: decimal

text \<open>The customer is accepted and ignored.\<close>

definition resolve_price :: "product \<Rightarrow> nat option \<Rightarrow> decimal" where
  "resolve_price p customer = to_money (pr_selling_price p)"

definition max_discount_amount :: "decimal \<Rightarrow> 'a core_db_scheme \<Rightarrow> decimal \<times> 'a core_db_scheme" where
  "max_discount_amount gross_amount db =
     (let (profile, db) = get_business_profile db;
          percent = to_percent (bp_max_manual_discount_percent profile)
      in (to_money (to_money gross_amount * percent / 100), db))"

definition compute_line ::
  "product \<Rightarrow> decimal \<Rightarrow> nat option \<Rightarrow> decimal \<Rightarrow> 'a core_db_scheme \<Rightarrow>
   error + line_amounts \<times> 'a core_db_scheme" where
  "compute_line p quantity customer discount_amount db =
     (let unit_price = resolve_price p customer;
          gross = to_money (unit_price * quantity);
          discount = to_money discount_amount
      in andThen (require (\<not> discount < 0) (invalid ''discount_amount'' ''MIN_VALUE'')) (\<lambda>_.
         let (ceiling, db) = max_discount_amount gross db
         in andThen (require (\<not> discount > ceiling) (invalid ''discount_amount'' ''ABOVE_LIMIT'')) (\<lambda>_.
         let taxable = to_money (gross - discount);
             tax_rate = to_percent (pr_tax_rate_percent p);
             tax = to_money (taxable * tax_rate / 100)
         in Inr (\<lparr>la_unit_price = unit_price, la_gross_amount = gross, la_discount_amount = discount,
                 la_taxable_amount = taxable, la_tax_rate_percent = tax_rate, la_tax_amount = tax,
                 la_line_total = to_money (taxable + tax)\<rparr>, db))))"

text \<open>The ceiling, and what asking for it does to the database: the profile's row exists afterwards.\<close>

lemma max_discount_amount_eq:
  "max_discount_amount g db =
     (to_money (to_money g * to_percent (bp_max_manual_discount_percent (profile_of db)) / 100),
      db\<lparr>db_profile := Some (profile_of db)\<rparr>)"
  by (simp add: max_discount_amount_def get_business_profile_pair)

lemma compute_line_db:
  "compute_line p q c d db = Inr (l, db') \<Longrightarrow> db' = db\<lparr>db_profile := Some (profile_of db)\<rparr>"
  by (auto simp: compute_line_def max_discount_amount_eq Let_def split: if_splits)

lemma map_sum_fst_Inr: "map_sum id fst x = Inr a \<longleftrightarrow> (\<exists>db. x = Inr (a, db))"
  by (cases x) auto

lemma compute_line_cong:
  assumes "profile_of (db :: 'a core_db_scheme) = profile_of (db2 :: 'b core_db_scheme)"
  shows "map_sum id fst (compute_line p q c d db) = map_sum id fst (compute_line p q c d db2)"
  using assms by (simp add: compute_line_def max_discount_amount_eq Let_def)

text \<open>What every computed line satisfies.\<close>

definition line_ok :: "line_amounts \<Rightarrow> decimal \<Rightarrow> bool" where
  "line_ok l quantity \<longleftrightarrow>
     is_money (la_unit_price l) \<and> is_money (la_gross_amount l) \<and> is_money (la_discount_amount l) \<and>
     is_money (la_taxable_amount l) \<and> is_money (la_tax_amount l) \<and> is_money (la_line_total l) \<and>
     is_percent (la_tax_rate_percent l) \<and>
     la_gross_amount l = to_money (la_unit_price l * quantity) \<and>
     0 \<le> la_discount_amount l \<and>
     la_taxable_amount l = la_gross_amount l - la_discount_amount l \<and>
     la_tax_amount l = to_money (la_taxable_amount l * la_tax_rate_percent l / 100) \<and>
     la_line_total l = la_taxable_amount l + la_tax_amount l"

lemma compute_line_line_ok:
  assumes "compute_line p quantity customer discount db = Inr (l, db')"
  shows "line_ok l quantity" "la_discount_amount l \<le> fst (max_discount_amount (la_gross_amount l) db)"
    "la_unit_price l = to_money (pr_selling_price p)" "la_discount_amount l = to_money discount"
    "la_tax_rate_percent l = to_percent (pr_tax_rate_percent p)"
  using assms
  by (auto simp: compute_line_def max_discount_amount_eq Let_def resolve_price_def line_ok_def
      intro: decimal_intros split: if_splits)

lemma compute_line_cases:
  "compute_line p quantity customer discount db = Inl e \<longleftrightarrow>
     (if to_money discount < 0 then e = invalid ''discount_amount'' ''MIN_VALUE''
      else fst (max_discount_amount (to_money (to_money (pr_selling_price p) * quantity)) db) < to_money discount
        \<and> e = invalid ''discount_amount'' ''ABOVE_LIMIT'')"
  by (auto simp: compute_line_def max_discount_amount_eq Let_def resolve_price_def)

text \<open>A permitted percentage never lets the ceiling exceed the line.\<close>

lemma max_discount_le_gross:
  assumes "profile_constraints (profile_of db)" "0 \<le> g" "is_money g"
  shows "0 \<le> fst (max_discount_amount g db)" "fst (max_discount_amount g db) \<le> g"
proof -
  let ?p = "to_percent (bp_max_manual_discount_percent (profile_of db))"
  have "to_percent 100 = 100"
    by (rule to_percent_id) (use at_scale_of_int [of 2 100] in simp)
  then have p: "0 \<le> ?p" "?p \<le> 100"
    using assms(1) to_percent_mono [of 0] to_percent_mono [of _ 100]
    by (auto simp: profile_constraints_def)
  have "g * ?p \<le> g * 100" "0 \<le> g * ?p"
    using assms(2) p by (simp_all add: mult_left_mono)
  then have "0 \<le> to_money (g * ?p / 100)" "to_money (g * ?p / 100) \<le> g"
    using assms(3) by (auto intro!: to_money_nonneg to_money_le_money)
  then show "0 \<le> fst (max_discount_amount g db)" "fst (max_discount_amount g db) \<le> g"
    using assms(3) by (simp_all add: max_discount_amount_eq)
qed

lemma compute_line_nonneg:
  assumes l: "compute_line p quantity customer discount db = Inr (l, db')"
    and "profile_constraints (profile_of db)" "product_constraints p" "0 \<le> quantity"
  shows "0 \<le> la_gross_amount l" "0 \<le> la_taxable_amount l" "0 \<le> la_tax_amount l"
    "0 \<le> la_line_total l"
proof -
  note ok = compute_line_line_ok [OF l]
  have "0 \<le> to_money (pr_selling_price p)" "0 \<le> la_tax_rate_percent l"
    using assms(3) ok(5) by (auto simp: product_constraints_def to_money_nonneg to_percent_nonneg)
  moreover from this show g: "0 \<le> la_gross_amount l"
    using assms(4) ok(1,3) by (simp add: line_ok_def to_money_nonneg)
  ultimately show t: "0 \<le> la_taxable_amount l"
    using max_discount_le_gross(2) [OF assms(2) g] ok(1,2) by (simp add: line_ok_def)
  show x: "0 \<le> la_tax_amount l"
    using t \<open>0 \<le> la_tax_rate_percent l\<close> ok(1) by (auto simp: line_ok_def intro!: to_money_nonneg)
  show "0 \<le> la_line_total l" using t x ok(1) by (simp add: line_ok_def)
qed

end
