(* ===== verification/Inventory.thy ===== *)
theory Inventory
  imports Ledger
begin

text \<open>
  The stock ledger: \<^verbatim>\<open>inventory/models.py\<close>, \<^verbatim>\<open>services.py\<close> and \<^verbatim>\<open>selectors.py\<close>.  Every movement is one
  append-only row with a signed quantity; the quantity on hand is their sum and may be
  negative.
\<close>


section \<open>Tables\<close>

record stock_location =
  lc_pk :: nat
  lc_code :: string
  lc_is_default :: bool
  lc_is_active :: bool

record stock_lot =
  lt_pk :: nat
  lt_product :: nat
  lt_lot_code :: string
  lt_is_default :: bool

datatype direction = D_IN | D_OUT | D_BOTH

record reason_code =
  rc_pk :: nat
  rc_code :: string
  rc_name :: string
  rc_direction :: direction
  rc_is_restockable :: bool
  rc_is_system :: bool
  rc_is_active :: bool

record movement =
  mv_pk :: nat
  mv_product :: nat
  mv_location :: nat
  mv_lot :: nat
  mv_quantity :: decimal
  mv_movement_type :: string
  mv_source_type :: string
  mv_source_id :: "nat option"
  mv_reason_code :: "nat option"
  mv_occurred_at :: int
  mv_notes :: string
  mv_created_by :: "nat option"
  mv_created_at :: int

record inventory_db = ledger_db +
  db_locations :: "stock_location table"
  db_lots :: "stock_lot table"
  db_reasons :: "reason_code table"
  db_movements :: "movement table"

definition MOVEMENT_TYPES :: "string list" where
  "MOVEMENT_TYPES = [''RECEIPT'', ''ISSUE'', ''ADJUSTMENT'', ''RETURN'', ''OPENING'']"

definition movement_sign_ok :: "string \<Rightarrow> decimal \<Rightarrow> bool" where
  "movement_sign_ok t q \<longleftrightarrow>
     (t = ''RECEIPT'' \<and> 0 < q) \<or> (t = ''ISSUE'' \<and> q < 0) \<or> t \<in> {''ADJUSTMENT'', ''RETURN'', ''OPENING''}"

definition movement_check :: "movement \<Rightarrow> error + unit" where
  "movement_check m =
     andThen (require (mv_source_id m \<noteq> None \<or> mv_reason_code m \<noteq> None)
                (IntegrityError ''ck_stock_movement_has_source'')) (\<lambda>_.
     andThen (require (mv_quantity m \<noteq> 0) (IntegrityError ''ck_stock_movement_qty_nonzero'')) (\<lambda>_.
     andThen (require (movement_sign_ok (mv_movement_type m) (mv_quantity m))
                (IntegrityError ''ck_stock_movement_sign_per_type'')) (\<lambda>_.
     require (source_pair_ok (mv_source_type m) (mv_source_id m))
       (IntegrityError ''ck_stock_movement_source_pair''))))"

definition movement_save_existing :: "movement \<Rightarrow> error + unit" where
  "movement_save_existing m = Inl (Immutable ''stock_movement'')"

lemma record_audit_inventory [simp, frame_simps]:
  "db_locations (record_audit env a et ei u s b c db) = db_locations db"
  "db_lots (record_audit env a et ei u s b c db) = db_lots db"
  "db_reasons (record_audit env a et ei u s b c db) = db_reasons db"
  "db_movements (record_audit env a et ei u s b c db) = db_movements db"
  by (simp_all add: record_audit_def record_audit_from_def)


section \<open>Structure\<close>

text \<open>The documents \<^verbatim>\<open>fulfilment\<close> and \<^verbatim>\<open>purchasing\<close> register at import time.\<close>

definition STOCK_DOCUMENT_REGISTRY :: "(string \<times> string) list" where
  "STOCK_DOCUMENT_REGISTRY = [(''Delivery'', ''DELIVERY''), (''GoodsReceipt'', ''GOODS_RECEIPT'')]"

definition default_location :: "'a inventory_db_scheme \<Rightarrow> error + stock_location" where
  "default_location db =
     (case tb_first (\<lambda>l. lc_is_default l \<and> lc_is_active l) (db_locations db) of
        None \<Rightarrow> Inl (ValidationFailed []) | Some l \<Rightarrow> Inr l)"

definition default_lot_for :: "nat \<Rightarrow> 'a inventory_db_scheme \<Rightarrow> stock_lot \<times> 'a inventory_db_scheme" where
  "default_lot_for product db =
     (case tb_first (\<lambda>l. lt_product l = product \<and> lt_lot_code l = ''DEFAULT'') (db_lots db) of
        Some lot \<Rightarrow> (lot, db)
      | None \<Rightarrow>
          let (lot, lots) = tb_insert (\<lambda>pk. \<lparr>lt_pk = pk, lt_product = product,
                lt_lot_code = ''DEFAULT'', lt_is_default = True\<rparr>) (db_lots db)
          in (lot, db\<lparr>db_lots := lots\<rparr>))"

definition check_direction :: "reason_code option \<Rightarrow> decimal \<Rightarrow> error + unit" where
  "check_direction reason quantity =
     (case reason of None \<Rightarrow> Inr ()
      | Some r \<Rightarrow>
         andThen (require (\<not> (rc_direction r = D_IN \<and> quantity < 0)) (invalid ''reason_code'' ''DIRECTION'')) (\<lambda>_.
         require (\<not> (rc_direction r = D_OUT \<and> quantity > 0)) (invalid ''reason_code'' ''DIRECTION'')))"


section \<open>Writers\<close>

text \<open>The optional keyword arguments every writer hands through to \<open>record_movement\<close>.\<close>

record movement_kw =
  kw_document :: "document option"
  kw_occurred_at :: "int option"
  kw_notes :: string
  kw_location :: "stock_location option"

definition no_kw :: movement_kw where
  "no_kw = \<lparr>kw_document = None, kw_occurred_at = None, kw_notes = '''', kw_location = None\<rparr>"

definition record_movement ::
  "env \<Rightarrow> actor option \<Rightarrow> product \<Rightarrow> decimal \<Rightarrow> string \<Rightarrow> reason_code option \<Rightarrow> movement_kw \<Rightarrow>
   'a inventory_db_scheme \<Rightarrow> error + movement \<times> 'a inventory_db_scheme" where
  "record_movement env user product quantity movement_type reason kw db =
     (let quantity = to_quantity quantity in
     andThen (require (quantity \<noteq> 0) (invalid ''quantity'' ''ZERO'')) (\<lambda>_.
     andThen (require (movement_type \<in> set MOVEMENT_TYPES) (invalid ''movement_type'' ''INVALID'')) (\<lambda>_.
     andThen (resolve_source STOCK_DOCUMENT_REGISTRY (kw_document kw)) (\<lambda>(source_type, source_id).
     andThen (require (\<not> (source_id = None \<and> reason = None)) (invalid ''reason_code'' ''REQUIRED'')) (\<lambda>_.
     andThen (require (case reason of None \<Rightarrow> True | Some r \<Rightarrow> rc_is_active r)
                (invalid ''reason_code'' ''INACTIVE'')) (\<lambda>_.
     andThen (check_direction reason quantity) (\<lambda>_.
     andThen (case kw_location kw of Some l \<Rightarrow> Inr l | None \<Rightarrow> default_location db) (\<lambda>location.
     let (lot, db) = default_lot_for (pr_pk product) db;
         (m, movements) = tb_insert (\<lambda>pk. \<lparr>mv_pk = pk, mv_product = pr_pk product,
            mv_location = lc_pk location, mv_lot = lt_pk lot, mv_quantity = quantity,
            mv_movement_type = movement_type, mv_source_type = source_type,
            mv_source_id = source_id, mv_reason_code = map_option rc_pk reason,
            mv_occurred_at = (case kw_occurred_at kw of None \<Rightarrow> now env | Some t \<Rightarrow> t),
            mv_notes = kw_notes kw, mv_created_by = actor_pk user, mv_created_at = now env\<rparr>)
            (db_movements db)
     in andThen (movement_check m) (\<lambda>_.
        let db = db\<lparr>db_movements := movements\<rparr>
        in Inr (m,
             if movement_type = ''ADJUSTMENT'' then
               record_audit env A_STOCK_ADJUST ''stock_movement'' (Some (mv_pk m)) user S_WEB None
                 (Some [(''product'', PStr (pr_code product)), (''quantity'', PDec 3 quantity),
                        (''reason'', case reason of None \<Rightarrow> PNone | Some r \<Rightarrow> PStr (rc_code r)),
                        (''notes'', PStr (kw_notes kw))]) db
             else db))))))))))"

definition receive_stock ::
  "env \<Rightarrow> actor option \<Rightarrow> product \<Rightarrow> decimal \<Rightarrow> reason_code option \<Rightarrow> movement_kw \<Rightarrow>
   'a inventory_db_scheme \<Rightarrow> error + movement \<times> 'a inventory_db_scheme" where
  "receive_stock env user product quantity reason kw db =
     andThen (require_roles user [OWNER]) (\<lambda>_.
     record_movement env user product \<bar>to_quantity quantity\<bar> ''RECEIPT'' reason kw db)"

definition issue_stock ::
  "env \<Rightarrow> actor option \<Rightarrow> product \<Rightarrow> decimal \<Rightarrow> reason_code option \<Rightarrow> movement_kw \<Rightarrow>
   'a inventory_db_scheme \<Rightarrow> error + movement \<times> 'a inventory_db_scheme" where
  "issue_stock env user product quantity reason kw db =
     andThen (require_roles user [OWNER]) (\<lambda>_.
     record_movement env user product (- \<bar>to_quantity quantity\<bar>) ''ISSUE'' reason kw db)"

definition adjust_stock ::
  "env \<Rightarrow> actor option \<Rightarrow> product \<Rightarrow> decimal \<Rightarrow> reason_code \<Rightarrow> movement_kw \<Rightarrow>
   'a inventory_db_scheme \<Rightarrow> error + movement \<times> 'a inventory_db_scheme" where
  "adjust_stock env user product quantity reason kw db =
     andThen (require_roles user [OWNER]) (\<lambda>_.
     record_movement env user product quantity ''ADJUSTMENT'' (Some reason) kw db)"

definition WRITABLE_MOVEMENT_TYPES :: "string list" where
  "WRITABLE_MOVEMENT_TYPES = [''RECEIPT'', ''ISSUE'', ''ADJUSTMENT'']"

definition record_manual_movement ::
  "env \<Rightarrow> actor option \<Rightarrow> product \<Rightarrow> decimal \<Rightarrow> string \<Rightarrow> reason_code \<Rightarrow> string \<Rightarrow>
   'a inventory_db_scheme \<Rightarrow> error + movement \<times> 'a inventory_db_scheme" where
  "record_manual_movement env user product quantity movement_type reason notes db =
     andThen (require (movement_type \<in> set WRITABLE_MOVEMENT_TYPES)
                (invalid ''movement_type'' ''NOT_WRITABLE'')) (\<lambda>_.
     let kw = no_kw\<lparr>kw_notes := notes\<rparr> in
     if movement_type = ''RECEIPT'' then receive_stock env user product quantity (Some reason) kw db
     else if movement_type = ''ISSUE'' then issue_stock env user product quantity (Some reason) kw db
     else adjust_stock env user product quantity reason kw db)"

definition create_reason_code ::
  "env \<Rightarrow> actor option \<Rightarrow> string \<Rightarrow> string \<Rightarrow> direction \<Rightarrow> bool \<Rightarrow> 'a inventory_db_scheme \<Rightarrow>
   error + reason_code \<times> 'a inventory_db_scheme" where
  "create_reason_code env user code name direction is_restockable db =
     andThen (require_roles user [OWNER]) (\<lambda>_.
     let code = upper (strip code) in
     andThen (require (\<not> tb_exists (\<lambda>r. rc_code r = code) (db_reasons db))
                (invalid ''code'' ''DUPLICATE'')) (\<lambda>_.
     let (r, reasons) = tb_insert (\<lambda>pk. \<lparr>rc_pk = pk, rc_code = code, rc_name = strip name,
           rc_direction = direction, rc_is_restockable = is_restockable, rc_is_system = False,
           rc_is_active = True\<rparr>) (db_reasons db)
     in Inr (r, record_audit env A_CREATE ''reason_code'' (Some (rc_pk r)) user S_WEB None
          (Some [(''code'', PStr (rc_code r))]) (db\<lparr>db_reasons := reasons\<rparr>))))"

definition deactivate_reason_code ::
  "env \<Rightarrow> actor option \<Rightarrow> reason_code \<Rightarrow> 'a inventory_db_scheme \<Rightarrow>
   error + reason_code \<times> 'a inventory_db_scheme" where
  "deactivate_reason_code env user reason db =
     andThen (require_roles user [OWNER]) (\<lambda>_.
     andThen (require (\<not> rc_is_system reason) (invalid ''code'' ''SYSTEM'')) (\<lambda>_.
     Inr (reason\<lparr>rc_is_active := False\<rparr>,
       record_audit env A_DEACTIVATE ''reason_code'' (Some (rc_pk reason)) user S_WEB None
         (Some [(''is_active'', PBool False)])
         (db\<lparr>db_reasons := tb_update rc_pk (rc_pk reason) (\<lambda>r. r\<lparr>rc_is_active := False\<rparr>) (db_reasons db)\<rparr>))))"


section \<open>Selectors\<close>

definition occurred_by :: "int option \<Rightarrow> int \<Rightarrow> bool" where
  "occurred_by as_of t \<longleftrightarrow> (case as_of of None \<Rightarrow> True | Some x \<Rightarrow> t \<le> x)"

definition occurred_since :: "int option \<Rightarrow> int \<Rightarrow> bool" where
  "occurred_since date_from t \<longleftrightarrow> (case date_from of None \<Rightarrow> True | Some x \<Rightarrow> x \<le> t)"

definition on_hand_expression :: "int option \<Rightarrow> nat \<Rightarrow> 'a inventory_db_scheme \<Rightarrow> decimal" where
  "on_hand_expression as_of product db =
     sum_where (\<lambda>m. mv_product m = product \<and> occurred_by as_of (mv_occurred_at m)) mv_quantity
       (tb_rows (db_movements db))"

definition stock_on_hand ::
  "int option \<Rightarrow> bool \<Rightarrow> 'a inventory_db_scheme \<Rightarrow> (product \<times> decimal) list" where
  "stock_on_hand as_of include_inactive db =
     map (\<lambda>p. (p, on_hand_expression as_of (pr_pk p) db))
       (sort_key pr_name (filter (\<lambda>p. include_inactive \<or> pr_is_active p) (tb_rows (db_products db))))"

definition on_hand_for :: "nat \<Rightarrow> int option \<Rightarrow> 'a inventory_db_scheme \<Rightarrow> decimal" where
  "on_hand_for product as_of db =
     (case tb_get pr_pk product (db_products db) of
        None \<Rightarrow> 0 | Some p \<Rightarrow> on_hand_expression as_of (pr_pk p) db)"

definition movements_for ::
  "nat option \<Rightarrow> nat option \<Rightarrow> int option \<Rightarrow> int option \<Rightarrow> 'a inventory_db_scheme \<Rightarrow> movement list" where
  "movements_for product reason date_from date_to db =
     sort_key (\<lambda>m. (- mv_occurred_at m, - int (mv_pk m)))
       (filter (\<lambda>m. (product = None \<or> product = Some (mv_product m)) \<and>
                    (reason = None \<or> reason = mv_reason_code m) \<and>
                    occurred_since date_from (mv_occurred_at m) \<and> occurred_by date_to (mv_occurred_at m))
          (tb_rows (db_movements db)))"

definition negative_stock :: "'a inventory_db_scheme \<Rightarrow> product list" where
  "negative_stock db = map fst (filter (\<lambda>(p, q). q < 0) (stock_on_hand None True db))"

definition active_reason_codes :: "direction option \<Rightarrow> 'a inventory_db_scheme \<Rightarrow> reason_code list" where
  "active_reason_codes direction db =
     sort_key rc_code (filter (\<lambda>r. rc_is_active r \<and>
        (case direction of None \<Rightarrow> True | Some d \<Rightarrow> rc_direction r \<in> {d, D_BOTH})) (tb_rows (db_reasons db)))"

definition get_active_reason_code :: "nat \<Rightarrow> 'a inventory_db_scheme \<Rightarrow> reason_code option" where
  "get_active_reason_code pk db = tb_first (\<lambda>r. rc_pk r = pk \<and> rc_is_active r) (db_reasons db)"

text \<open>Adjustments grouped by the code and name of their reason.\<close>

definition reason_label :: "'a inventory_db_scheme \<Rightarrow> movement \<Rightarrow> (string \<times> string) option" where
  "reason_label db m =
     (case mv_reason_code m of None \<Rightarrow> None
      | Some pk \<Rightarrow> map_option (\<lambda>r. (rc_code r, rc_name r)) (tb_get rc_pk pk (db_reasons db)))"

definition variance_by_reason ::
  "int option \<Rightarrow> int option \<Rightarrow> 'a inventory_db_scheme \<Rightarrow> ((string \<times> string) \<times> decimal) list" where
  "variance_by_reason date_from date_to db =
     (let ms = filter (\<lambda>m. reason_label db m \<noteq> None \<and> occurred_since date_from (mv_occurred_at m) \<and>
                            occurred_by date_to (mv_occurred_at m)) (tb_rows (db_movements db))
      in map (\<lambda>k. (k, sum_where (\<lambda>m. reason_label db m = Some k) mv_quantity ms))
           (sort_key fst (remdups (List.map_filter (reason_label db) ms))))"


section \<open>What a movement does\<close>

lemma default_lot_for_frame [simp, frame_simps]:
  "db_movements (snd (default_lot_for p db)) = db_movements db"
  "db_products (snd (default_lot_for p db)) = db_products db"
  "db_audit (snd (default_lot_for p db)) = db_audit db"
  "db_cle (snd (default_lot_for p db)) = db_cle db"
  "db_sle (snd (default_lot_for p db)) = db_sle db"
  "db_reasons (snd (default_lot_for p db)) = db_reasons db"
  "db_customers (snd (default_lot_for p db)) = db_customers db"
  "db_profile (snd (default_lot_for p db)) = db_profile db"
  "inventory_db.more (snd (default_lot_for p db)) = inventory_db.more db"
  by (simp_all add: default_lot_for_def Let_def split: option.splits prod.splits)

lemma default_lot_for_lot:
  "lt_product (fst (default_lot_for p db)) = p"
  "lt_lot_code (fst (default_lot_for p db)) = ''DEFAULT''"
  by (auto simp: default_lot_for_def tb_insert_def Let_def dest: tb_firstD split: option.splits)

lemma record_movementD:
  assumes "record_movement env user p q t reason kw db = Inr (m, db')"
  shows "tb_rows (db_movements db') = tb_rows (db_movements db) @ [m]"
    "tb_seq (db_movements db') = Suc (tb_seq (db_movements db))" "mv_pk m = tb_seq (db_movements db)"
    "mv_product m = pr_pk p" "mv_quantity m = to_quantity q" "mv_movement_type m = t"
    "mv_reason_code m = map_option rc_pk reason" "movement_check m = Inr ()" "t \<in> set MOVEMENT_TYPES"
    "resolve_source STOCK_DOCUMENT_REGISTRY (kw_document kw) = Inr (mv_source_type m, mv_source_id m)"
    "inventory_db.more db' = inventory_db.more db"
    "db_cle db' = db_cle db" "db_sle db' = db_sle db" "db_products db' = db_products db"
    "db_customers db' = db_customers db" "db_profile db' = db_profile db"
    "tb_rows (db_audit db') = tb_rows (db_audit db) @
       (if t = ''ADJUSTMENT'' then [last_audit db'] else [])"
    "t = ''ADJUSTMENT'' \<Longrightarrow> al_action (last_audit db') = A_STOCK_ADJUST"
proof -
  obtain st sid where src: "resolve_source STOCK_DOCUMENT_REGISTRY (kw_document kw) = Inr (st, sid)"
    using assms by (auto simp: record_movement_def Let_def result_simps split: if_splits)
  obtain loc where loc: "(case kw_location kw of Some l \<Rightarrow> Inr l | None \<Rightarrow> default_location db) = Inr loc"
    using assms src by (auto simp: record_movement_def Let_def result_simps split: if_splits)
  let ?lot = "fst (default_lot_for (pr_pk p) db)" and ?db = "snd (default_lot_for (pr_pk p) db)"
  let ?m = "\<lparr>mv_pk = tb_seq (db_movements db), mv_product = pr_pk p,
            mv_location = lc_pk loc, mv_lot = lt_pk ?lot, mv_quantity = to_quantity q,
            mv_movement_type = t, mv_source_type = st,
            mv_source_id = sid, mv_reason_code = map_option rc_pk reason,
            mv_occurred_at = (case kw_occurred_at kw of None \<Rightarrow> now env | Some t \<Rightarrow> t),
            mv_notes = kw_notes kw, mv_created_by = actor_pk user, mv_created_at = now env\<rparr>"
  let ?db' = "?db\<lparr>db_movements := db_movements ?db\<lparr>tb_seq := Suc (tb_seq (db_movements ?db)),
      tb_rows := tb_rows (db_movements ?db) @ [?m]\<rparr>\<rparr>"
  have *: "m = ?m" "movement_check ?m = Inr ()" "t \<in> set MOVEMENT_TYPES"
    and db': "db' = ?db' \<and> t \<noteq> ''ADJUSTMENT'' \<or> t = ''ADJUSTMENT'' \<and>
      (\<exists>st. db' = record_audit env A_STOCK_ADJUST ''stock_movement'' (Some (mv_pk ?m)) user S_WEB None (Some st) ?db')"
    using assms src loc
    by (auto simp: record_movement_def Let_def tb_insert_def result_simps case_prod_unfold split: if_splits)
  show "tb_rows (db_movements db') = tb_rows (db_movements db) @ [m]"
    "tb_seq (db_movements db') = Suc (tb_seq (db_movements db))" "mv_pk m = tb_seq (db_movements db)"
    "mv_product m = pr_pk p" "mv_quantity m = to_quantity q" "mv_movement_type m = t"
    "mv_reason_code m = map_option rc_pk reason" "movement_check m = Inr ()" "t \<in> set MOVEMENT_TYPES"
    "resolve_source STOCK_DOCUMENT_REGISTRY (kw_document kw) = Inr (mv_source_type m, mv_source_id m)"
    using * db' src by auto
  show "inventory_db.more db' = inventory_db.more db"
    "db_cle db' = db_cle db" "db_sle db' = db_sle db" "db_products db' = db_products db"
    "db_customers db' = db_customers db" "db_profile db' = db_profile db"
    using db' by (auto simp: record_audit_def record_audit_from_def)
  show "tb_rows (db_audit db') = tb_rows (db_audit db) @ (if t = ''ADJUSTMENT'' then [last_audit db'] else [])"
    using db' by (auto simp: record_audit_def record_audit_from_def table_simps last_audit_def)
  show "t = ''ADJUSTMENT'' \<Longrightarrow> al_action (last_audit db') = A_STOCK_ADJUST"
    using db' by auto
qed

text \<open>Only an adjustment is audited: every other movement writes the movement and, at most, a lot.\<close>

lemma record_movement_frame:
  assumes "record_movement env user p q t reason kw db = Inr (m, db')" "t \<noteq> ''ADJUSTMENT''"
  shows "db' = db\<lparr>db_lots := db_lots db', db_movements := db_movements db'\<rparr>"
proof -
  have lot: "snd (default_lot_for k db) = db\<lparr>db_lots := db_lots (snd (default_lot_for k db))\<rparr>" for k
    by (simp add: default_lot_for_def Let_def split: option.splits prod.splits)
  obtain ms where "db' = snd (default_lot_for (pr_pk p) db)\<lparr>db_movements := ms\<rparr>"
    using assms
    by (auto simp: record_movement_def Let_def tb_insert_def result_simps case_prod_unfold split: if_splits)
  then show ?thesis by (subst (asm) lot) simp
qed

interpretation stock_ledger:
  append_ledger "\<lambda>db :: 'a inventory_db_scheme. tb_rows (db_movements db)" mv_product mv_quantity
    "\<lambda>(env, user, p, q, t, reason, kw). record_movement env user p q t reason kw"
  by unfold_locales (auto dest: record_movementD(1))

lemma on_hand_expression_eq: "on_hand_expression None p db = stock_ledger.balance p db"
  by (simp add: on_hand_expression_def stock_ledger.balance_def occurred_by_def)

lemma record_movement_on_hand:
  assumes "record_movement env user p q t reason kw db = Inr (m, db')"
  shows "on_hand_expression None k db' = on_hand_expression None k db + (if pr_pk p = k then to_quantity q else 0)"
  using record_movementD(1,4,5) [OF assms] by (simp add: on_hand_expression_def occurred_by_def)

text \<open>The manual entry decides the sign from the type.\<close>

lemma receive_stock_on_hand:
  assumes "receive_stock env user p q reason kw db = Inr (m, db')"
  shows "on_hand_expression None (pr_pk p) db' = on_hand_expression None (pr_pk p) db + \<bar>to_quantity q\<bar>"
    "has_role user [OWNER]"
  using assms record_movement_on_hand [of env user p "\<bar>to_quantity q\<bar>" "''RECEIPT''" reason kw db m db' "pr_pk p"]
  by (auto simp: receive_stock_def split: if_splits)

lemma issue_stock_on_hand:
  assumes "issue_stock env user p q reason kw db = Inr (m, db')"
  shows "on_hand_expression None (pr_pk p) db' = on_hand_expression None (pr_pk p) db - \<bar>to_quantity q\<bar>"
    "has_role user [OWNER]"
  using assms record_movement_on_hand [of env user p "- \<bar>to_quantity q\<bar>" "''ISSUE''" reason kw db m db' "pr_pk p"]
  by (auto simp: issue_stock_def split: if_splits)

lemma adjust_stock_on_hand:
  assumes "adjust_stock env user p q reason kw db = Inr (m, db')"
  shows "on_hand_expression None (pr_pk p) db' = on_hand_expression None (pr_pk p) db + to_quantity q"
    "has_role user [OWNER]"
  using assms record_movement_on_hand [of env user p q "''ADJUSTMENT''" "Some reason" kw db m db' "pr_pk p"]
  by (auto simp: adjust_stock_def split: if_splits)


section \<open>The stock ledger's invariant\<close>

definition stock_ok :: "'a inventory_db_scheme \<Rightarrow> bool" where
  "stock_ok db \<longleftrightarrow>
     table_wf mv_pk (db_movements db) \<and>
     list_all (\<lambda>m. movement_check m = Inr () \<and> mv_movement_type m \<in> set MOVEMENT_TYPES
        \<and> is_quantity (mv_quantity m)) (tb_rows (db_movements db))"

lemma record_movement_ok:
  assumes "record_movement env user p q t reason kw db = Inr (m, db')" "stock_ok db"
  shows "stock_ok db'"
proof -
  note m = record_movementD [OF assms(1)]
  have "table_wf mv_pk (db_movements db')"
    by (rule table_wf_append [where key = mv_pk, OF _ m(1-3)]) (use assms(2) in \<open>simp add: stock_ok_def\<close>)
  then show ?thesis using assms(2) m(1,5,6,8,9) by (simp add: stock_ok_def)
qed

lemma on_hand_for_eq:
  "(\<exists>p \<in> set (tb_rows (db_products db)). pr_pk p = k) \<Longrightarrow> on_hand_for k as_of db = on_hand_expression as_of k db"
  by (auto simp: on_hand_for_def tb_get_def find_None_iff_list dest: find_SomeD split: option.splits)

lemma stock_on_hand_all:
  "mset (map fst (stock_on_hand as_of True db)) = mset (tb_rows (db_products db))"
  by (simp add: stock_on_hand_def comp_def)

lemma negative_stock_iff:
  "p \<in> set (negative_stock db) \<longleftrightarrow>
     p \<in> set (tb_rows (db_products db)) \<and> on_hand_expression None (pr_pk p) db < 0"
  by (force simp: negative_stock_def stock_on_hand_def)

definition empty_inventory_db :: inventory_db where
  "empty_inventory_db = ledger_db.extend empty_ledger_db
     (inventory_db.fields
        \<lparr>tb_seq = 2, tb_rows = [\<lparr>lc_pk = 1, lc_code = ''MAIN'', lc_is_default = True, lc_is_active = True\<rparr>]\<rparr>
        empty_table empty_table empty_table)"

end
