(* ===== verification/Interfaces.thy ===== *)
theory Interfaces
  imports Prelude
begin

text \<open>
  The contracts several components share: a state machine declared as a table of allowed
  transitions; a writer keyed on an identifier the client chose, that answers a repeat from what is
  stored after checking that it is the same request; and one that answers every repeat.
\<close>


section \<open>State machines\<close>

text \<open>
  \<open>allowed\<close> is the table of transitions.  Every transition climbs in \<open>rank\<close>: that is what makes
  a life cycle finite and never revisited.
\<close>

locale state_machine =
  fixes allowed :: "'s \<Rightarrow> 's list" and rank :: "'s \<Rightarrow> nat" and top :: nat
  assumes climbs: "t \<in> set (allowed s) \<Longrightarrow> rank s < rank t"
    and bounded: "rank s \<le> top"
begin

fun path :: "'s list \<Rightarrow> bool" where
  "path [] \<longleftrightarrow> True"
| "path [s] \<longleftrightarrow> True"
| "path (s # t # ss) \<longleftrightarrow> t \<in> set (allowed s) \<and> path (t # ss)"

definition terminal :: "'s \<Rightarrow> bool" where
  "terminal s \<longleftrightarrow> allowed s = []"

lemma path_climbs: "path (s # ss) \<Longrightarrow> t \<in> set ss \<Longrightarrow> rank s < rank t"
proof (induction ss arbitrary: s)
  case (Cons u ss)
  then have "rank s < rank u" "path (u # ss)" using climbs by auto
  then show ?case using Cons.IH [of u] Cons.prems(2) by auto
qed simp

lemma path_tl: "path (s # ss) \<Longrightarrow> path ss"
  by (cases ss) auto

lemma path_distinct: "path ss \<Longrightarrow> distinct ss"
proof (induction ss)
  case (Cons s ss)
  have "path ss" using Cons.prems by (rule path_tl)
  moreover have "s \<notin> set ss" using path_climbs [OF Cons.prems] by auto
  ultimately show ?case using Cons.IH by simp
qed simp

lemma path_length: "path (s # ss) \<Longrightarrow> rank s + length ss \<le> top"
proof (induction ss arbitrary: s)
  case Nil
  then show ?case using bounded [of s] by simp
next
  case (Cons u ss)
  then have "rank s < rank u" "rank u + length ss \<le> top" using climbs by auto
  then show ?case by simp
qed

lemma terminal_path: "path (s # ss) \<Longrightarrow> terminal s \<Longrightarrow> ss = []"
  by (cases ss) (auto simp: terminal_def)

lemma not_reflexive: "s \<notin> set (allowed s)"
  using climbs by blast

end


section \<open>Writers that can be retried\<close>

text \<open>
  \<open>post\<close> stores a row under the request's key.  A request whose key is taken answers with the row
  it was taken by when it \<open>matches\<close> that row and is refused otherwise; either way it writes
  nothing.  A request whose key is free stores the row it returns, or finds nothing left to do.
\<close>

locale checked_writer =
  fixes post :: "'req \<Rightarrow> 'db \<Rightarrow> error + 'row \<times> 'db"
    and req_key :: "'req \<Rightarrow> 'k option"
    and lookup :: "'k \<Rightarrow> 'db \<Rightarrow> 'row option"
    and permitted :: "'req \<Rightarrow> bool"
    and ok :: "'db \<Rightarrow> bool"
    and matches :: "'req \<Rightarrow> 'row \<Rightarrow> bool"
  assumes answers: "permitted q \<Longrightarrow> req_key q = Some k \<Longrightarrow> lookup k db = Some r \<Longrightarrow> matches q r \<Longrightarrow> post q db = Inr (r, db)"
    and refuses: "req_key q = Some k \<Longrightarrow> lookup k db = Some r \<Longrightarrow> \<not> matches q r \<Longrightarrow> post q db \<noteq> Inr x"
    and checks: "post q db = Inr x \<Longrightarrow> permitted q"
    and keeps: "ok db \<Longrightarrow> req_key q = Some k \<Longrightarrow> lookup k db = None \<Longrightarrow> post q db = Inr (r, db') \<Longrightarrow>
      (lookup k db' = Some r \<and> matches q r) \<or> db' = db"
begin

fun retry :: "nat \<Rightarrow> 'req \<Rightarrow> 'db \<Rightarrow> error + 'row \<times> 'db" where
  "retry 0 q db = post q db"
| "retry (Suc n) q db = andThen (post q db) (\<lambda>(r, db). retry n q db)"

lemma taken:
  assumes "post q db = Inr (r, db')" "req_key q = Some k" "lookup k db = Some r0"
  shows "r = r0" "db' = db" "matches q r0"
proof -
  show m: "matches q r0" using refuses [OF assms(2,3)] assms(1) by blast
  show "r = r0" "db' = db" using answers [OF checks [OF assms(1)] assms(2,3) m] assms(1) by simp_all
qed

lemma second_write:
  assumes "ok db" "post q db = Inr (r, db')" "req_key q = Some k"
  shows "post q db' = Inr (r, db')"
proof (cases "lookup k db")
  case None
  consider "lookup k db' = Some r" "matches q r" | "db' = db" using keeps [OF assms(1,3) None assms(2)] by blast
  then show ?thesis
    using answers [OF checks [OF assms(2)] assms(3)] assms(2) by cases auto
next
  case (Some r0)
  then show ?thesis using taken [OF assms(2,3) Some] assms(2) by simp
qed

lemma any_number_of_retries:
  assumes "ok db" "post q db = Inr (r, db')" "req_key q = Some k"
  shows "retry n q db = Inr (r, db')"
proof -
  have "retry n q db' = Inr (r, db')" for n
    using second_write [OF assms] by (induction n) simp_all
  then show ?thesis using assms(2) by (cases n) simp_all
qed

text \<open>Once a key is taken, another request under it gets the same row or nothing.\<close>

lemma same_key_same_row:
  assumes "ok db" "post q db = Inr (r, db')" "req_key q = Some k" "lookup k db' = Some r" "req_key q' = Some k"
    "post q' db' = Inr (r', db'')"
  shows "r' = r" "db'' = db'" "matches q' r"
  using taken [OF assms(6,5,4)] by simp_all

end

text \<open>An idempotent writer answers whatever the request says: the key alone decides.\<close>

locale idempotent_writer =
  fixes post :: "'req \<Rightarrow> 'db \<Rightarrow> error + 'row \<times> 'db"
    and req_key :: "'req \<Rightarrow> 'k option"
    and lookup :: "'k \<Rightarrow> 'db \<Rightarrow> 'row option"
    and permitted :: "'req \<Rightarrow> bool"
    and ok :: "'db \<Rightarrow> bool"
  assumes replays: "permitted q \<Longrightarrow> req_key q = Some k \<Longrightarrow> lookup k db = Some r \<Longrightarrow> post q db = Inr (r, db)"
    and needs_permission: "post q db = Inr x \<Longrightarrow> permitted q"
    and stores: "ok db \<Longrightarrow> req_key q = Some k \<Longrightarrow> lookup k db = None \<Longrightarrow> post q db = Inr (r, db') \<Longrightarrow>
      lookup k db' = Some r \<or> db' = db"
begin

sublocale checked_writer post req_key lookup permitted ok "\<lambda>_ _. True"
  using replays needs_permission stores by unfold_locales auto

end

end
