(* ===== verification/Orders.thy ===== *)
theory Orders
  imports Inventory Pricing Interfaces
begin

text \<open>
  Orders: \<^verbatim>\<open>orders/models.py\<close>, \<^verbatim>\<open>services.py\<close> and \<^verbatim>\<open>selectors.py\<close>.  Capture, amendment, manual
  discounts, the life cycle and credit exposure.

  A service receives an order instance, possibly older than its row.  \<open>save_order\<close> changes the
  columns of \<^verbatim>\<open>update_fields\<close> on both the instance and the row.
\<close>


section \<open>Tables\<close>

datatype order_status = PLACED | CONFIRMED | DISPATCHED | DELIVERED | CANCELLED

datatype order_source = SRC_WEB | SRC_PORTAL | SRC_APP

record sales_order =
  so_pk :: nat
  so_order_number :: string
  so_client_uuid :: "string option"
  so_customer :: nat
  so_status :: order_status
  so_source :: order_source
  so_order_date :: date
  so_expected_delivery_date :: "date option"
  so_assigned_user :: "nat option"
  so_subtotal_amount :: decimal
  so_discount_amount :: decimal
  so_tax_amount :: decimal
  so_total_amount :: decimal
  so_credit_warning_shown :: bool
  so_credit_override_by :: "nat option"
  so_credit_override_at :: "int option"
  so_cancelled_reason :: string
  so_cancelled_at :: "int option"
  so_cancelled_by :: "nat option"
  so_notes :: string
  so_created_by :: "nat option"
  so_updated_at :: int

record order_line =
  ol_pk :: nat
  ol_order :: nat
  ol_line_number :: nat
  ol_product :: nat
  ol_product_code :: string
  ol_product_name :: string
  ol_unit_name :: string
  ol_unit_price :: decimal
  ol_tax_rate_percent :: decimal
  ol_pack_size_snapshot :: int
  ol_quantity :: decimal
  ol_pack_quantity :: "decimal option"
  ol_discount_amount :: decimal
  ol_discount_by :: "nat option"
  ol_taxable_amount :: decimal
  ol_tax_amount :: decimal
  ol_line_total :: decimal

record orders_db = inventory_db +
  db_orders :: "sales_order table"
  db_order_lines :: "order_line table"

definition status_str :: "order_status \<Rightarrow> string" where
  "status_str s = (case s of PLACED \<Rightarrow> ''PLACED'' | CONFIRMED \<Rightarrow> ''CONFIRMED'' | DISPATCHED \<Rightarrow> ''DISPATCHED''
     | DELIVERED \<Rightarrow> ''DELIVERED'' | CANCELLED \<Rightarrow> ''CANCELLED'')"

definition is_editable :: "sales_order \<Rightarrow> bool" where
  "is_editable o' \<longleftrightarrow> so_status o' \<in> {PLACED, CONFIRMED}"

definition order_constraints :: "sales_order \<Rightarrow> bool" where
  "order_constraints r \<longleftrightarrow>
     0 \<le> so_subtotal_amount r \<and> 0 \<le> so_discount_amount r \<and> 0 \<le> so_tax_amount r \<and>
     0 \<le> so_total_amount r \<and> (so_status r = CANCELLED \<longrightarrow> so_cancelled_reason r \<noteq> '''') \<and>
     (so_credit_override_by r = None \<longleftrightarrow> so_credit_override_at r = None)"

definition line_constraints :: "order_line \<Rightarrow> bool" where
  "line_constraints l \<longleftrightarrow>
     0 < ol_quantity l \<and> 0 \<le> ol_unit_price l \<and> 0 \<le> ol_discount_amount l \<and>
     0 \<le> ol_taxable_amount l \<and> 0 \<le> ol_tax_amount l \<and> 1 \<le> ol_pack_size_snapshot l"

definition lines_of :: "nat \<Rightarrow> 'a orders_db_scheme \<Rightarrow> order_line list" where
  "lines_of order db =
     sort_key ol_line_number (filter (\<lambda>l. ol_order l = order) (tb_rows (db_order_lines db)))"

text \<open>
  \<^verbatim>\<open>save(update_fields)\<close>.  No service deletes an order, so the row of an instance that was read is there.
\<close>

definition save_order ::
  "(sales_order \<Rightarrow> sales_order) \<Rightarrow> sales_order \<Rightarrow> 'a orders_db_scheme \<Rightarrow>
   error + sales_order \<times> 'a orders_db_scheme" where
  "save_order f ord db =
     andThen (require (list_all (\<lambda>r. so_pk r = so_pk ord \<longrightarrow> order_constraints (f r)) (tb_rows (db_orders db)))
                (IntegrityError ''sales_order'')) (\<lambda>_.
     Inr (f ord, db\<lparr>db_orders := tb_update so_pk (so_pk ord) f (db_orders db)\<rparr>))"


section \<open>Exposure\<close>

definition LIVE_STATUSES :: "order_status list" where
  "LIVE_STATUSES = [PLACED, CONFIRMED, DISPATCHED, DELIVERED]"

definition open_order_value :: "nat \<Rightarrow> 'a orders_db_scheme \<Rightarrow> decimal" where
  "open_order_value customer db =
     (case tb_get cu_pk customer (db_customers db) of None \<Rightarrow> 0
      | Some c \<Rightarrow>
          sum_where (\<lambda>r. so_customer r = cu_pk c \<and> so_status r \<in> set LIVE_STATUSES \<and>
                         so_pk r \<notin> set (settled_order_ids customer db))
            so_total_amount (tb_rows (db_orders db)))"

definition credit_exposure :: "nat \<Rightarrow> 'a orders_db_scheme \<Rightarrow> decimal" where
  "credit_exposure customer db = settled_balance customer None db + open_order_value customer db"

definition available_credit :: "customer \<Rightarrow> 'a orders_db_scheme \<Rightarrow> decimal" where
  "available_credit customer db = cu_credit_limit_amount customer - credit_exposure (cu_pk customer) db"

record credit_check =
  cc_breached :: bool
  cc_mode :: credit_mode
  cc_credit_limit_amount :: decimal
  cc_exposure_amount :: decimal
  cc_available_amount :: decimal

definition evaluate_credit ::
  "customer \<Rightarrow> 'a orders_db_scheme \<Rightarrow> credit_check \<times> 'a orders_db_scheme" where
  "evaluate_credit customer db =
     (let (profile, db) = get_business_profile db;
          exposure = credit_exposure (cu_pk customer) db;
          limit = to_money (cu_credit_limit_amount customer)
      in (\<lparr>cc_breached = (limit > 0 \<and> exposure > limit),
           cc_mode = bp_credit_limit_mode profile, cc_credit_limit_amount = limit,
           cc_exposure_amount = to_money exposure,
           cc_available_amount = to_money (available_credit customer db)\<rparr>, db))"

definition apply_credit_policy ::
  "env \<Rightarrow> actor option \<Rightarrow> customer \<Rightarrow> sales_order \<Rightarrow> bool \<Rightarrow> 'a orders_db_scheme \<Rightarrow>
   error + sales_order \<times> 'a orders_db_scheme" where
  "apply_credit_policy env user customer ord override db =
     (let (check, db) = evaluate_credit customer db in
      if \<not> cc_breached check then Inr (ord, db)
      else if cc_mode check = BLOCK then Inl CreditLimitExceeded
      else
        let f = (if override \<and> has_role user [OWNER] then
                   (\<lambda>r. r\<lparr>so_credit_warning_shown := True, so_credit_override_by := actor_pk user,
                          so_credit_override_at := Some (now env), so_updated_at := now env\<rparr>)
                 else (\<lambda>r. r\<lparr>so_credit_warning_shown := True, so_updated_at := now env\<rparr>))
        in andThen (save_order f ord db) (\<lambda>(ord, db).
           Inr (ord,
             if so_credit_override_at ord \<noteq> None then
               record_audit env A_CREDIT_OVERRIDE ''sales_order'' (Some (so_pk ord)) user S_WEB None
                 (Some [(''order_number'', PStr (so_order_number ord)),
                        (''exposure_amount'', PDec 2 (cc_exposure_amount check)),
                        (''credit_limit_amount'', PDec 2 (cc_credit_limit_amount check))]) db
             else db)))"


section \<open>Lines\<close>

text \<open>One raw line of a request: the product instance, exactly one of the two quantities, a discount.\<close>

record line_input =
  li_product :: product
  li_quantity :: "decimal option"
  li_pack_quantity :: "decimal option"
  li_discount_amount :: decimal

definition entered_quantity :: "line_input \<Rightarrow> error + decimal \<times> decimal option" where
  "entered_quantity raw =
     (case (li_quantity raw, li_pack_quantity raw) of
        (Some _, Some _) \<Rightarrow> Inl (invalid ''quantity'' ''AMBIGUOUS_UNIT'')
      | (None, None) \<Rightarrow> Inl (invalid ''quantity'' ''REQUIRED'')
      | (None, Some packs) \<Rightarrow>
          let entered = to_quantity packs
          in Inr (to_base_units (li_product raw) entered True, Some entered)
      | (Some base, None) \<Rightarrow> Inr (to_base_units (li_product raw) base False, None))"

definition new_line ::
  "actor option \<Rightarrow> sales_order \<Rightarrow> nat \<Rightarrow> product \<Rightarrow> decimal \<Rightarrow> decimal option \<Rightarrow> line_amounts \<Rightarrow> nat \<Rightarrow> order_line" where
  "new_line user ord index p quantity pack_quantity a pk =
     \<lparr>ol_pk = pk, ol_order = so_pk ord, ol_line_number = index,
      ol_product = pr_pk p, ol_product_code = pr_code p, ol_product_name = pr_name p,
      ol_unit_name = pr_unit_name p, ol_unit_price = la_unit_price a,
      ol_tax_rate_percent = la_tax_rate_percent a, ol_pack_size_snapshot = pr_pack_size p,
      ol_quantity = quantity, ol_pack_quantity = pack_quantity,
      ol_discount_amount = la_discount_amount a,
      ol_discount_by = (if la_discount_amount a > 0 then actor_pk user else None),
      ol_taxable_amount = la_taxable_amount a, ol_tax_amount = la_tax_amount a,
      ol_line_total = la_line_total a\<rparr>"

definition insert_line ::
  "actor option \<Rightarrow> sales_order \<Rightarrow> nat \<times> line_input \<Rightarrow> 'a orders_db_scheme \<Rightarrow> error + 'a orders_db_scheme" where
  "insert_line user ord ir db =
     (let (index, raw) = ir; p = li_product raw in
     andThen (require (pr_is_active p) (invalid ''product'' ''INACTIVE'')) (\<lambda>_.
     andThen (entered_quantity raw) (\<lambda>(quantity, pack_quantity).
     andThen (require (\<not> quantity \<le> 0) (invalid ''quantity'' ''MIN_VALUE'')) (\<lambda>_.
     andThen (compute_line p quantity (Some (so_customer ord)) (li_discount_amount raw) db) (\<lambda>(a, db).
     let (l, order_lines) = tb_insert (new_line user ord index p quantity pack_quantity a) (db_order_lines db)
     in andThen (require (line_constraints l) (IntegrityError ''sales_order_line'')) (\<lambda>_.
        Inr (db\<lparr>db_order_lines := order_lines\<rparr>)))))))"

definition gross_of :: "order_line \<Rightarrow> decimal" where
  "gross_of l = to_money (ol_unit_price l * ol_quantity l)"

definition recalculate_totals ::
  "env \<Rightarrow> sales_order \<Rightarrow> 'a orders_db_scheme \<Rightarrow> error + sales_order \<times> 'a orders_db_scheme" where
  "recalculate_totals env ord db =
     (let ls = lines_of (so_pk ord) db;
          subtotal = to_money (sum_list (map gross_of ls));
          discount = to_money (sum_list (map ol_discount_amount ls));
          tax = to_money (sum_list (map ol_tax_amount ls));
          total = to_money (sum_list (map ol_line_total ls))
      in save_order (\<lambda>r. r\<lparr>so_subtotal_amount := subtotal, so_discount_amount := discount,
            so_tax_amount := tax, so_total_amount := total, so_updated_at := now env\<rparr>) ord db)"

definition replace_lines ::
  "env \<Rightarrow> actor option \<Rightarrow> sales_order \<Rightarrow> line_input list \<Rightarrow> 'a orders_db_scheme \<Rightarrow>
   error + sales_order \<times> 'a orders_db_scheme" where
  "replace_lines env user ord inputs db =
     andThen (for_each (enumerate 1 inputs) (insert_line user ord)
        (db\<lparr>db_order_lines := tb_delete (\<lambda>l. ol_order l = so_pk ord) (db_order_lines db)\<rparr>)) (\<lambda>db.
     recalculate_totals env ord db)"


section \<open>Capture\<close>

definition require_capture_permission :: "actor option \<Rightarrow> nat \<Rightarrow> error + unit" where
  "require_capture_permission user customer =
     (if has_role user [OWNER] then Inr ()
      else if has_role user [RETAILER] then
        require ((case user of None \<Rightarrow> None | Some u \<Rightarrow> ac_customer u) = Some customer) PermissionDenied
      else Inl PermissionDenied)"

definition order_number_for :: "nat \<Rightarrow> string" where
  "order_number_for pk = ''SO-'' @ zero_pad 8 pk"

record order_request =
  oq_customer :: customer
  oq_lines :: "line_input list"
  oq_source :: order_source
  oq_client_uuid :: "string option"
  oq_expected_delivery_date :: "date option"
  oq_notes :: string
  oq_override_credit :: bool

definition new_order :: "env \<Rightarrow> actor option \<Rightarrow> order_request \<Rightarrow> nat \<Rightarrow> sales_order" where
  "new_order env user q pk =
     \<lparr>so_pk = pk, so_order_number = '''', so_client_uuid = oq_client_uuid q,
      so_customer = cu_pk (oq_customer q), so_status = PLACED, so_source = oq_source q,
      so_order_date = today env, so_expected_delivery_date = oq_expected_delivery_date q,
      so_assigned_user = None, so_subtotal_amount = 0, so_discount_amount = 0, so_tax_amount = 0,
      so_total_amount = 0, so_credit_warning_shown = False, so_credit_override_by = None,
      so_credit_override_at = None, so_cancelled_reason = '''', so_cancelled_at = None,
      so_cancelled_by = None, so_notes = oq_notes q, so_created_by = actor_pk user,
      so_updated_at = now env\<rparr>"

text \<open>\<open>order.save()\<close> on a new instance: the unique columns, then the row.\<close>

definition insert_order ::
  "(nat \<Rightarrow> sales_order) \<Rightarrow> 'a orders_db_scheme \<Rightarrow> error + sales_order \<times> 'a orders_db_scheme" where
  "insert_order mk db =
     (let (r, orders) = tb_insert mk (db_orders db)
      in andThen (require (\<not> tb_exists (\<lambda>x. so_order_number x = so_order_number r) (db_orders db))
                    (IntegrityError ''sales_order_order_number'')) (\<lambda>_.
         andThen (require (so_client_uuid r = None \<or>
                           \<not> tb_exists (\<lambda>x. so_client_uuid x = so_client_uuid r) (db_orders db))
                    (IntegrityError ''sales_order_client_uuid'')) (\<lambda>_.
         Inr (r, db\<lparr>db_orders := orders\<rparr>))))"

definition find_order_by_uuid :: "string \<Rightarrow> 'a orders_db_scheme \<Rightarrow> sales_order option" where
  "find_order_by_uuid u db = tb_first (\<lambda>r. so_client_uuid r = Some u) (db_orders db)"

definition capture_order ::
  "env \<Rightarrow> actor option \<Rightarrow> order_request \<Rightarrow> 'a orders_db_scheme \<Rightarrow>
   error + sales_order \<times> 'a orders_db_scheme" where
  "capture_order env user q db =
     andThen (require (cu_is_active (oq_customer q)) (invalid ''customer'' ''INACTIVE'')) (\<lambda>_.
     andThen (require (oq_lines q \<noteq> []) (invalid ''lines'' ''REQUIRED'')) (\<lambda>_.
     andThen (insert_order (new_order env user q) db) (\<lambda>(ord, db).
     andThen (save_order (\<lambda>r. r\<lparr>so_order_number := order_number_for (so_pk ord), so_updated_at := now env\<rparr>) ord db)
       (\<lambda>(ord, db).
     andThen (replace_lines env user ord (oq_lines q) db) (\<lambda>(ord, db).
     andThen (apply_credit_policy env user (oq_customer q) ord (oq_override_credit q) db) (\<lambda>(ord, db).
     Inr (ord, record_audit env A_CREATE ''sales_order'' (Some (so_pk ord)) user S_WEB None
          (Some [(''order_number'', PStr (so_order_number ord)),
                 (''customer'', PStr (cu_code (oq_customer q))),
                 (''total_amount'', PDec 2 (so_total_amount ord)),
                 (''status'', PStr (status_str (so_status ord)))]) db)))))))"

definition place_order ::
  "env \<Rightarrow> actor option \<Rightarrow> order_request \<Rightarrow> 'a orders_db_scheme \<Rightarrow>
   error + sales_order \<times> 'a orders_db_scheme" where
  "place_order env user q db =
     andThen (require_capture_permission user (cu_pk (oq_customer q))) (\<lambda>_.
     case (case oq_client_uuid q of None \<Rightarrow> None | Some u \<Rightarrow> find_order_by_uuid u db) of
       Some existing \<Rightarrow> Inr (existing, db)
     | None \<Rightarrow> capture_order env user q db)"

definition totals_snapshot :: "sales_order \<Rightarrow> state" where
  "totals_snapshot ord =
     [(''subtotal_amount'', PDec 2 (so_subtotal_amount ord)),
      (''discount_amount'', PDec 2 (so_discount_amount ord)),
      (''tax_amount'', PDec 2 (so_tax_amount ord)), (''total_amount'', PDec 2 (so_total_amount ord))]"

text \<open>\<open>order.customer\<close>: the row the foreign key points at.\<close>

definition order_customer :: "sales_order \<Rightarrow> 'a orders_db_scheme \<Rightarrow> error + customer" where
  "order_customer ord db =
     (case tb_get cu_pk (so_customer ord) (db_customers db) of
        None \<Rightarrow> Inl (PyError ''Customer.DoesNotExist'') | Some c \<Rightarrow> Inr c)"

definition amend_order ::
  "env \<Rightarrow> actor option \<Rightarrow> sales_order \<Rightarrow> line_input list \<Rightarrow> 'a orders_db_scheme \<Rightarrow>
   error + sales_order \<times> 'a orders_db_scheme" where
  "amend_order env user ord inputs db =
     andThen (order_customer ord db) (\<lambda>customer.
     andThen (require_capture_permission user (cu_pk customer)) (\<lambda>_.
     andThen (require (is_editable ord) (invalid ''status'' ''NOT_EDITABLE'')) (\<lambda>_.
     let before = totals_snapshot ord in
     andThen (replace_lines env user ord inputs db) (\<lambda>(ord, db).
     andThen (apply_credit_policy env user customer ord False db) (\<lambda>(ord, db).
     Inr (ord, record_audit env A_UPDATE ''sales_order'' (Some (so_pk ord)) user S_WEB
            (Some before) (Some (totals_snapshot ord)) db))))))"

definition apply_line_discount ::
  "env \<Rightarrow> actor option \<Rightarrow> sales_order \<Rightarrow> order_line \<Rightarrow> decimal \<Rightarrow> 'a orders_db_scheme \<Rightarrow>
   error + sales_order \<times> 'a orders_db_scheme" where
  "apply_line_discount env user ord line discount_amount db =
     andThen (require_roles user [OWNER]) (\<lambda>_.
     andThen (require (is_editable ord) (invalid ''status'' ''NOT_EDITABLE'')) (\<lambda>_.
     case tb_get pr_pk (ol_product line) (db_products db) of
       None \<Rightarrow> Inl (PyError ''Product.DoesNotExist'')
     | Some p \<Rightarrow>
     andThen (compute_line p (ol_quantity line) (Some (so_customer ord)) discount_amount db) (\<lambda>(a, db).
     let upd = (\<lambda>l. l\<lparr>ol_discount_amount := la_discount_amount a, ol_taxable_amount := la_taxable_amount a,
                      ol_tax_amount := la_tax_amount a, ol_line_total := la_line_total a,
                      ol_discount_by := actor_pk user\<rparr>) in
     andThen (require (list_all (\<lambda>l. ol_pk l = ol_pk line \<longrightarrow> line_constraints (upd l)) (tb_rows (db_order_lines db)))
                (IntegrityError ''sales_order_line'')) (\<lambda>_.
     andThen (recalculate_totals env ord
                (db\<lparr>db_order_lines := tb_update ol_pk (ol_pk line) upd (db_order_lines db)\<rparr>)) (\<lambda>(ord, db).
     Inr (ord, record_audit env A_DISCOUNT_APPLIED ''sales_order_line'' (Some (ol_pk line)) user S_WEB
            (Some [(''discount_amount'', PDec 2 (ol_discount_amount line))])
            (Some [(''discount_amount'', PDec 2 (la_discount_amount a)),
                   (''order_number'', PStr (so_order_number ord))]) db))))))"


section \<open>Life cycle\<close>

fun ALLOWED_TRANSITIONS :: "order_status \<Rightarrow> order_status list" where
  "ALLOWED_TRANSITIONS PLACED = [CONFIRMED, CANCELLED]"
| "ALLOWED_TRANSITIONS CONFIRMED = [DISPATCHED, CANCELLED]"
| "ALLOWED_TRANSITIONS DISPATCHED = [DELIVERED]"
| "ALLOWED_TRANSITIONS DELIVERED = []"
| "ALLOWED_TRANSITIONS CANCELLED = []"

definition transition ::
  "env \<Rightarrow> actor option \<Rightarrow> sales_order \<Rightarrow> order_status \<Rightarrow> (sales_order \<Rightarrow> sales_order) \<Rightarrow> state \<Rightarrow>
   'a orders_db_scheme \<Rightarrow> error + sales_order \<times> 'a orders_db_scheme" where
  "transition env user ord to_status extra_fields audit_extra db =
     (let from_status = so_status ord in
     andThen (require (to_status \<in> set (ALLOWED_TRANSITIONS from_status)) (invalid ''status'' ''INVALID_TRANSITION'')) (\<lambda>_.
     andThen (save_order (\<lambda>r. (extra_fields r)\<lparr>so_status := to_status, so_updated_at := now env\<rparr>) ord db) (\<lambda>(ord, db).
     let action = (case to_status of CONFIRMED \<Rightarrow> A_CONFIRM | CANCELLED \<Rightarrow> A_CANCEL | _ \<Rightarrow> A_UPDATE)
     in Inr (ord, record_audit env action ''sales_order'' (Some (so_pk ord)) user S_WEB
          (Some [(''status'', PStr (status_str from_status))])
          (Some ((''status'', PStr (status_str to_status)) # audit_extra)) db))))"

definition confirm_order ::
  "env \<Rightarrow> actor option \<Rightarrow> sales_order \<Rightarrow> 'a orders_db_scheme \<Rightarrow> error + sales_order \<times> 'a orders_db_scheme" where
  "confirm_order env user ord db =
     andThen (require_roles user [OWNER]) (\<lambda>_. transition env user ord CONFIRMED id [] db)"

definition mark_dispatched ::
  "env \<Rightarrow> actor option \<Rightarrow> sales_order \<Rightarrow> 'a orders_db_scheme \<Rightarrow> error + sales_order \<times> 'a orders_db_scheme" where
  "mark_dispatched env user ord db =
     andThen (require_roles user [OWNER]) (\<lambda>_. transition env user ord DISPATCHED id [] db)"

definition mark_delivered ::
  "env \<Rightarrow> actor option \<Rightarrow> sales_order \<Rightarrow> 'a orders_db_scheme \<Rightarrow> error + sales_order \<times> 'a orders_db_scheme" where
  "mark_delivered env user ord db =
     andThen (require_roles user INTERNAL) (\<lambda>_. transition env user ord DELIVERED id [] db)"

definition cancel_order ::
  "env \<Rightarrow> actor option \<Rightarrow> sales_order \<Rightarrow> string \<Rightarrow> 'a orders_db_scheme \<Rightarrow>
   error + sales_order \<times> 'a orders_db_scheme" where
  "cancel_order env user ord reason db =
     (let reason = strip reason in
     andThen (require (reason \<noteq> '''') (invalid ''reason'' ''REQUIRED'')) (\<lambda>_.
     andThen (if has_role user [RETAILER] \<and> \<not> has_role user INTERNAL
              then require (Some (so_customer ord) = (case user of None \<Rightarrow> None | Some u \<Rightarrow> ac_customer u))
                     PermissionDenied
              else require_roles user [OWNER]) (\<lambda>_.
     transition env user ord CANCELLED
       (\<lambda>r. r\<lparr>so_cancelled_reason := reason, so_cancelled_at := Some (now env), so_cancelled_by := actor_pk user\<rparr>)
       [(''reason'', PStr reason)] db)))"


section \<open>Selectors\<close>

definition actor_customer :: "actor option \<Rightarrow> nat" where
  "actor_customer user =
     (case user of None \<Rightarrow> 0 | Some u \<Rightarrow> (case ac_customer u of None \<Rightarrow> 0 | Some pk \<Rightarrow> pk))"

definition zone_assigned :: "actor option \<Rightarrow> nat \<Rightarrow> 'a customers_db_scheme \<Rightarrow> bool" where
  "zone_assigned user customer db \<longleftrightarrow>
     actor_pk user \<noteq> None \<and>
     (case tb_get cu_pk customer (db_customers db) of None \<Rightarrow> False
      | Some c \<Rightarrow> (case cu_zone c of None \<Rightarrow> False
                  | Some z \<Rightarrow> tb_exists (\<lambda>zo. zo_pk zo = z \<and> zo_assigned_user zo = actor_pk user) (db_zones db)))"

definition visible_orders :: "actor option \<Rightarrow> 'a orders_db_scheme \<Rightarrow> sales_order list" where
  "visible_orders user db =
     (let base = tb_rows (db_orders db)
      in if has_role user [OWNER] then base
         else if has_role user [SALESMAN, DELIVERY] then
           filter (\<lambda>r. (actor_pk user \<noteq> None \<and> so_assigned_user r = actor_pk user) \<or>
                       zone_assigned user (so_customer r) db) base
         else if has_role user [RETAILER] then filter (\<lambda>r. so_customer r = actor_customer user) base
         else [])"

definition search_orders ::
  "actor option \<Rightarrow> order_status option \<Rightarrow> nat option \<Rightarrow> bool \<Rightarrow> 'a orders_db_scheme \<Rightarrow> sales_order list" where
  "search_orders user status customer assigned_to_me db =
     filter (\<lambda>r. (status = None \<or> status = Some (so_status r)) \<and>
                 (customer = None \<or> customer = Some (so_customer r)) \<and>
                 (assigned_to_me \<longrightarrow> actor_pk user \<noteq> None \<and> so_assigned_user r = actor_pk user))
       (visible_orders user db)"

definition get_order_for :: "actor option \<Rightarrow> nat \<Rightarrow> 'a orders_db_scheme \<Rightarrow> sales_order option" where
  "get_order_for user pk db = find (\<lambda>r. so_pk r = pk) (visible_orders user db)"

definition awaiting_dispatch :: "actor option \<Rightarrow> 'a orders_db_scheme \<Rightarrow> sales_order list" where
  "awaiting_dispatch user db = filter (\<lambda>r. so_status r = CONFIRMED) (visible_orders user db)"

section \<open>What the order services leave alone\<close>

text \<open>
  \<open>order_step ord db ord' db'\<close>: the instance \<open>ord\<close> became \<open>ord'\<close> and the database \<open>db'\<close>, with
  the same keys in the order table, nothing written below the orders but audit rows, and a row
  that still equals its instance if it did before.
\<close>

definition orders_ok :: "'a orders_db_scheme \<Rightarrow> bool" where
  "orders_ok db \<longleftrightarrow> table_wf so_pk (db_orders db) \<and> table_wf ol_pk (db_order_lines db)"

definition order_keys :: "'a orders_db_scheme \<Rightarrow> (nat \<times> string option \<times> nat) list" where
  "order_keys db = map (\<lambda>r. (so_pk r, so_client_uuid r, so_customer r)) (tb_rows (db_orders db))"

definition row_of :: "sales_order \<Rightarrow> 'a orders_db_scheme \<Rightarrow> bool" where
  "row_of ord db \<longleftrightarrow> tb_get so_pk (so_pk ord) (db_orders db) = Some ord"

definition same_below :: "'a orders_db_scheme \<Rightarrow> 'a orders_db_scheme \<Rightarrow> bool" where
  "same_below db db' \<longleftrightarrow>
     db_movements db' = db_movements db \<and> db_cle db' = db_cle db \<and> db_sle db' = db_sle db \<and>
     db_products db' = db_products db \<and> db_customers db' = db_customers db \<and>
     profile_of db' = profile_of db \<and> orders_db.more db' = orders_db.more db"

definition order_step ::
  "sales_order \<Rightarrow> 'a orders_db_scheme \<Rightarrow> sales_order \<Rightarrow> 'a orders_db_scheme \<Rightarrow> bool" where
  "order_step ord db ord' db' \<longleftrightarrow>
     so_pk ord' = so_pk ord \<and> so_client_uuid ord' = so_client_uuid ord \<and> so_customer ord' = so_customer ord \<and>
     (orders_ok db \<longrightarrow> orders_ok db') \<and> (row_of ord db \<longrightarrow> row_of ord' db') \<and>
     order_keys db' = order_keys db \<and> audit_extends db db' \<and> same_below db db'"

lemma order_step_refl: "order_step ord db ord db"
  by (simp add: order_step_def same_below_def)

lemma order_step_trans:
  "order_step o1 d1 o2 d2 \<Longrightarrow> order_step o2 d2 o3 d3 \<Longrightarrow> order_step o1 d1 o3 d3"
  unfolding order_step_def same_below_def by (auto intro: audit_extends_trans)

lemma record_audit_orders [simp, frame_simps]:
  "db_orders (record_audit env a et ei u s b c db) = db_orders db"
  "db_order_lines (record_audit env a et ei u s b c db) = db_order_lines db"
  "orders_db.more (record_audit env a et ei u s b c db) = orders_db.more db"
  by (simp_all add: record_audit_def record_audit_from_def)

lemma order_step_audit: "order_step ord db ord (record_audit env a et ei u s b c db)"
  by (simp add: order_step_def same_below_def orders_ok_def row_of_def order_keys_def)

lemma order_step_profile: "order_step ord db ord (db\<lparr>db_profile := Some (profile_of db)\<rparr>)"
  by (simp add: order_step_def same_below_def orders_ok_def row_of_def order_keys_def audit_extends_def)

text \<open>The credit check, and what asking for it does to the database.\<close>

lemma evaluate_credit_db: "snd (evaluate_credit customer db) = db\<lparr>db_profile := Some (profile_of db)\<rparr>"
  by (simp add: evaluate_credit_def get_business_profile_pair Let_def)

lemma evaluate_credit_check:
  "fst (evaluate_credit customer db) =
     \<lparr>cc_breached = (to_money (cu_credit_limit_amount customer) > 0 \<and>
        credit_exposure (cu_pk customer) db > to_money (cu_credit_limit_amount customer)),
      cc_mode = bp_credit_limit_mode (profile_of db),
      cc_credit_limit_amount = to_money (cu_credit_limit_amount customer),
      cc_exposure_amount = to_money (credit_exposure (cu_pk customer) db),
      cc_available_amount = to_money (available_credit customer db)\<rparr>"
  by (simp add: evaluate_credit_def get_business_profile_pair Let_def available_credit_def credit_exposure_def
      settled_balance_def open_order_value_def balance_expression_def settled_order_ids_def cong: option.case_cong)

lemma save_orderD:
  assumes "save_order f ord db = Inr (ord', db')"
  shows "ord' = f ord" "db' = db\<lparr>db_orders := tb_update so_pk (so_pk ord) f (db_orders db)\<rparr>"
  using assms by (auto simp: save_order_def split: if_splits)

lemma save_order_step:
  assumes "save_order f ord db = Inr (ord', db')"
    and keys: "\<And>r. so_pk (f r) = so_pk r \<and> so_client_uuid (f r) = so_client_uuid r \<and> so_customer (f r) = so_customer r"
  shows "order_step ord db ord' db'"
proof -
  note s = save_orderD [OF assms(1)]
  have "table_wf so_pk (tb_update so_pk (so_pk ord) f (db_orders db))" if "table_wf so_pk (db_orders db)"
    using that by (rule table_wf_update) (simp add: keys)
  moreover have "order_keys (db\<lparr>db_orders := tb_update so_pk (so_pk ord) f (db_orders db)\<rparr>) = order_keys db"
    by (auto simp: order_keys_def table_simps keys)
  moreover have "row_of (f ord) (db\<lparr>db_orders := tb_update so_pk (so_pk ord) f (db_orders db)\<rparr>)" if "row_of ord db"
    using that tb_get_update_same [of so_pk "so_pk ord" "db_orders db" ord f] by (simp add: row_of_def keys)
  ultimately show ?thesis
    by (simp add: s order_step_def orders_ok_def same_below_def profile_of_def keys audit_extends_def)
qed

lemma recalculate_totals_step:
  assumes "recalculate_totals env ord db = Inr (ord', db')"
  shows "order_step ord db ord' db'" "db_order_lines db' = db_order_lines db"
proof -
  show "order_step ord db ord' db'"
    using assms unfolding recalculate_totals_def Let_def by (rule save_order_step) simp
  show "db_order_lines db' = db_order_lines db"
    using save_orderD(2) [OF assms [unfolded recalculate_totals_def Let_def]] by simp
qed

text \<open>The line a raw input becomes.\<close>

definition line_for ::
  "'a core_db_scheme \<Rightarrow> sales_order \<Rightarrow> nat \<times> line_input \<Rightarrow> order_line \<Rightarrow> bool" where
  "line_for db ord ir l \<longleftrightarrow>
     (let p = li_product (snd ir) in
      ol_order l = so_pk ord \<and> ol_line_number l = fst ir \<and> ol_product l = pr_pk p \<and>
      ol_product_code l = pr_code p \<and> ol_product_name l = pr_name p \<and> pr_is_active p \<and>
      entered_quantity (snd ir) = Inr (ol_quantity l, ol_pack_quantity l) \<and> line_constraints l \<and>
      map_sum id fst (compute_line p (ol_quantity l) (Some (so_customer ord)) (li_discount_amount (snd ir)) db) =
        Inr \<lparr>la_unit_price = ol_unit_price l, la_gross_amount = gross_of l,
             la_discount_amount = ol_discount_amount l, la_taxable_amount = ol_taxable_amount l,
             la_tax_rate_percent = ol_tax_rate_percent l, la_tax_amount = ol_tax_amount l,
             la_line_total = ol_line_total l\<rparr>)"

lemma compute_line_gross:
  "compute_line p q c d db = Inr (a, db') \<Longrightarrow> la_gross_amount a = to_money (la_unit_price a * q)"
  by (auto dest: compute_line_line_ok(1) simp: line_ok_def)

lemma insert_lineD:
  assumes "insert_line user ord ir db = Inr db'"
  shows "\<exists>l. line_for db ord ir l \<and> ol_pk l = tb_seq (db_order_lines db) \<and>
    db' = db\<lparr>db_profile := Some (profile_of db), db_order_lines := db_order_lines db\<lparr>tb_seq := Suc (tb_seq (db_order_lines db)),
                tb_rows := tb_rows (db_order_lines db) @ [l]\<rparr>\<rparr>"
proof -
  obtain i raw where ir: "ir = (i, raw)" by (cases ir)
  obtain q pq a db1 where q: "entered_quantity raw = Inr (q, pq)"
    and a: "compute_line (li_product raw) q (Some (so_customer ord)) (li_discount_amount raw) db = Inr (a, db1)"
    using assms ir by (auto simp: insert_line_def Let_def result_simps split: if_splits)
  have g: "la_gross_amount a = to_money (la_unit_price a * q)" by (rule compute_line_gross [OF a])
  have db1: "db1 = db\<lparr>db_profile := Some (profile_of db)\<rparr>" by (rule compute_line_db [OF a])
  define l where "l = new_line user ord i (li_product raw) q pq a (tb_seq (db_order_lines db))"
  have "db' = db\<lparr>db_profile := Some (profile_of db), db_order_lines := db_order_lines db\<lparr>tb_seq := Suc (tb_seq (db_order_lines db)),
                tb_rows := tb_rows (db_order_lines db) @ [l]\<rparr>\<rparr>" "line_constraints l" "pr_is_active (li_product raw)"
    using assms q a ir by (auto simp: db1 insert_line_def Let_def tb_insert_def l_def split: if_splits)
  moreover have "line_for db ord ir l"
    using calculation(2,3) q a g ir by (simp add: line_for_def l_def new_line_def gross_of_def)
  ultimately show ?thesis by (auto simp: l_def new_line_def)
qed

lemma line_for_cong: "profile_of db = profile_of db' \<Longrightarrow> line_for db ord ir l = line_for db' ord ir l"
  using compute_line_cong [of db db'] by (simp add: line_for_def)

lemma insert_lines_loop:
  assumes "for_each irs (insert_line user ord) db = Inr db'"
  shows "\<exists>ls. list_all2 (line_for db ord) irs ls \<and>
    tb_rows (db_order_lines db') = tb_rows (db_order_lines db) @ ls \<and>
    db' = db\<lparr>db_profile := db_profile db', db_order_lines := db_order_lines db'\<rparr> \<and> profile_of db' = profile_of db \<and>
    (table_wf ol_pk (db_order_lines db) \<longrightarrow> table_wf ol_pk (db_order_lines db'))"
  using assms
proof (induction irs arbitrary: db)
  case Nil
  then show ?case by (intro exI [of _ "[]"]) simp
next
  case (Cons ir irs)
  then obtain db1 where s: "insert_line user ord ir db = Inr db1" "for_each irs (insert_line user ord) db1 = Inr db'"
    by (auto simp: result_simps)
  obtain l where l: "line_for db ord ir l" "ol_pk l = tb_seq (db_order_lines db)"
    "db1 = db\<lparr>db_profile := Some (profile_of db), db_order_lines := db_order_lines db\<lparr>tb_seq := Suc (tb_seq (db_order_lines db)),
                tb_rows := tb_rows (db_order_lines db) @ [l]\<rparr>\<rparr>"
    using insert_lineD [OF s(1)] by blast
  obtain ls where ls: "list_all2 (line_for db1 ord) irs ls"
    "tb_rows (db_order_lines db') = tb_rows (db_order_lines db1) @ ls"
    "db' = db1\<lparr>db_profile := db_profile db', db_order_lines := db_order_lines db'\<rparr>" "profile_of db' = profile_of db1"
    "table_wf ol_pk (db_order_lines db1) \<longrightarrow> table_wf ol_pk (db_order_lines db')"
    using Cons.IH [OF s(2)] by blast
  have same: "profile_of db1 = profile_of db" by (simp add: l(3) profile_of_def)
  then have "list_all2 (line_for db ord) irs ls" using ls(1) line_for_cong by (metis list.rel_mono_strong)
  moreover have "table_wf ol_pk (db_order_lines db1)" if "table_wf ol_pk (db_order_lines db)"
    by (rule table_wf_append [where key = ol_pk and r = l, OF that]) (simp_all add: l(2,3))
  moreover have "db' = db\<lparr>db_profile := db_profile db', db_order_lines := db_order_lines db'\<rparr>"
    by (subst ls(3)) (simp add: l(3))
  moreover have "tb_rows (db_order_lines db') = tb_rows (db_order_lines db) @ (l # ls)"
    using ls(2) by (simp add: l(3))
  ultimately show ?case using l(1) ls(4,5) same by (intro exI [of _ "l # ls"]) simp
qed

section \<open>Totals\<close>

text \<open>The order's totals are the sums of its lines, already rounded.\<close>

definition totals_ok :: "sales_order \<Rightarrow> 'a orders_db_scheme \<Rightarrow> bool" where
  "totals_ok ord db \<longleftrightarrow>
     (let ls = lines_of (so_pk ord) db in
      so_subtotal_amount ord = sum_list (map gross_of ls) \<and>
      so_discount_amount ord = sum_list (map ol_discount_amount ls) \<and>
      so_tax_amount ord = sum_list (map ol_tax_amount ls) \<and>
      so_total_amount ord = sum_list (map ol_line_total ls))"

definition line_wf :: "order_line \<Rightarrow> bool" where
  "line_wf l \<longleftrightarrow>
     is_money (ol_unit_price l) \<and> is_money (ol_discount_amount l) \<and> is_money (ol_taxable_amount l) \<and>
     is_money (ol_tax_amount l) \<and> is_money (ol_line_total l) \<and> is_quantity (ol_quantity l) \<and>
     0 < ol_quantity l \<and> 0 \<le> ol_discount_amount l \<and>
     ol_taxable_amount l = gross_of l - ol_discount_amount l \<and>
     ol_tax_amount l = to_money (ol_taxable_amount l * ol_tax_rate_percent l / 100) \<and>
     ol_line_total l = ol_taxable_amount l + ol_tax_amount l"

lemma entered_quantity_scale: "entered_quantity raw = Inr (q, pq) \<Longrightarrow> is_quantity q"
  by (auto simp: entered_quantity_def Let_def split: option.splits)

lemma line_for_wf: "line_for db ord ir l \<Longrightarrow> line_wf l"
proof -
  assume l: "line_for db ord ir l"
  have "is_quantity (ol_quantity l)" "0 < ol_quantity l"
    using l entered_quantity_scale by (auto simp: line_for_def Let_def line_constraints_def)
  moreover have "line_ok \<lparr>la_unit_price = ol_unit_price l, la_gross_amount = gross_of l,
             la_discount_amount = ol_discount_amount l, la_taxable_amount = ol_taxable_amount l,
             la_tax_rate_percent = ol_tax_rate_percent l, la_tax_amount = ol_tax_amount l,
             la_line_total = ol_line_total l\<rparr> (ol_quantity l)"
    using l compute_line_line_ok(1) by (auto simp: line_for_def Let_def map_sum_fst_Inr)
  ultimately show ?thesis by (auto simp: line_wf_def line_ok_def)
qed

lemma list_all2_line_for_wf: "list_all2 (line_for db ord) irs ls \<Longrightarrow> \<forall>l \<in> set ls. line_wf l"
  by (induction rule: list_all2_induct) (auto dest: line_for_wf)

lemma gross_is_money [simp]: "is_money (gross_of l)"
  by (simp add: gross_of_def)

lemma sorted_enumerate_numbers:
  "list_all2 (\<lambda>ir l. ol_line_number l = fst ir) (enumerate n xs) ls \<Longrightarrow>
   map ol_line_number ls = [n..<n + length xs]"
proof (induction xs arbitrary: n ls)
  case (Cons x xs)
  then obtain l ls' where "ls = l # ls'" "ol_line_number l = n"
    "list_all2 (\<lambda>ir l. ol_line_number l = fst ir) (enumerate (Suc n) xs) ls'"
    by (auto simp: list_all2_Cons1)
  then show ?case using Cons.IH [of "Suc n" ls'] by (simp add: upt_rec)
qed simp

lemma replace_linesD:
  assumes "replace_lines env user ord inputs db = Inr (ord', db')"
  shows "order_step ord db ord' db'"
    "list_all2 (line_for db ord) (enumerate 1 inputs) (lines_of (so_pk ord) db')"
    "map ol_line_number (lines_of (so_pk ord) db') = [1..<Suc (length inputs)]"
    "totals_ok ord' db'"
proof -
  let ?db = "db\<lparr>db_order_lines := tb_delete (\<lambda>l. ol_order l = so_pk ord) (db_order_lines db)\<rparr>"
  obtain db1 where loop: "for_each (enumerate 1 inputs) (insert_line user ord) ?db = Inr db1"
    and tot: "recalculate_totals env ord db1 = Inr (ord', db')"
    using assms by (auto simp: replace_lines_def result_simps)
  obtain ls where ls: "list_all2 (line_for ?db ord) (enumerate 1 inputs) ls"
    "tb_rows (db_order_lines db1) = tb_rows (db_order_lines ?db) @ ls"
    "db1 = ?db\<lparr>db_profile := db_profile db1, db_order_lines := db_order_lines db1\<rparr>" "profile_of db1 = profile_of ?db"
    "table_wf ol_pk (db_order_lines ?db) \<longrightarrow> table_wf ol_pk (db_order_lines db1)"
    using insert_lines_loop [OF loop] by blast
  have for_db: "list_all2 (line_for db ord) (enumerate 1 inputs) ls"
  proof -
    have "line_for ?db ord = line_for db ord"
      by (intro ext line_for_cong) (simp add: profile_of_def)
    then show ?thesis using ls(1) by simp
  qed
  have "table_wf ol_pk (db_order_lines ?db)" if "table_wf ol_pk (db_order_lines db)"
    using table_wf_delete [OF that] by simp
  moreover have "profile_of db1 = profile_of db" using ls(4) by (simp add: profile_of_def)
  then have "same_below db db1"
    unfolding same_below_def by (intro conjI; (assumption | subst ls(3), simp))
  moreover have "db_orders db1 = db_orders db" "db_audit db1 = db_audit db"
    by (subst ls(3), simp)+
  ultimately have step1: "order_step ord db ord db1"
    using ls(5) by (simp add: order_step_def orders_ok_def order_keys_def row_of_def audit_extends_def)
  note r = recalculate_totals_step [OF tot]
  show "order_step ord db ord' db'" by (rule order_step_trans [OF step1 r(1)])
  have nums: "map ol_line_number ls = [1..<1 + length inputs]"
    by (rule sorted_enumerate_numbers, rule list_all2_mono [OF for_db]) (simp add: line_for_def Let_def)
  have "filter (\<lambda>l. ol_order l = so_pk ord) ls = ls"
    using for_db by (intro filter_True) (auto simp: line_for_def Let_def list_all2_conv_all_nth in_set_conv_nth)
  then have lines: "lines_of (so_pk ord) db1 = sort_key ol_line_number ls"
    using ls(2) by (simp add: lines_of_def table_simps)
  also have "\<dots> = ls" by (rule sort_key_id_if_sorted) (simp add: nums del: upt_Suc)
  finally have lines': "lines_of (so_pk ord) db' = ls" using r(2) by (simp add: lines_of_def)
  show "list_all2 (line_for db ord) (enumerate 1 inputs) (lines_of (so_pk ord) db')"
    using for_db lines' by simp
  show "map ol_line_number (lines_of (so_pk ord) db') = [1..<Suc (length inputs)]"
    using nums lines' by simp
  have wf: "\<forall>l \<in> set ls. line_wf l"
    using list_all2_line_for_wf [OF for_db] .
  have ord': "ord' = ord\<lparr>so_subtotal_amount := to_money (sum_list (map gross_of ls)),
      so_discount_amount := to_money (sum_list (map ol_discount_amount ls)),
      so_tax_amount := to_money (sum_list (map ol_tax_amount ls)),
      so_total_amount := to_money (sum_list (map ol_line_total ls)), so_updated_at := now env\<rparr>"
    using save_orderD(1) [OF tot [unfolded recalculate_totals_def Let_def]] lines \<open>sort_key ol_line_number ls = ls\<close>
    by simp
  have "is_money (sum_list (map gross_of ls))" "is_money (sum_list (map ol_discount_amount ls))"
    "is_money (sum_list (map ol_tax_amount ls))" "is_money (sum_list (map ol_line_total ls))"
    using wf by (auto intro!: at_scale_sum_list simp: line_wf_def)
  then show "totals_ok ord' db'" using lines' by (simp add: totals_ok_def ord')
qed

lemma totals_balance:
  assumes "totals_ok ord db" "\<forall>l \<in> set (lines_of (so_pk ord) db). line_wf l"
  shows "so_total_amount ord = so_subtotal_amount ord - so_discount_amount ord + so_tax_amount ord"
proof -
  have "sum_list (map ol_line_total ls)
      = sum_list (map gross_of ls) - sum_list (map ol_discount_amount ls) + sum_list (map ol_tax_amount ls)"
    if "\<forall>l \<in> set ls. line_wf l" for ls
    using that by (induction ls) (auto simp: line_wf_def)
  then show ?thesis using assms by (simp add: totals_ok_def Let_def)
qed

lemma apply_credit_policyD:
  assumes "apply_credit_policy env user customer ord ov db = Inr (ord', db')"
  shows "order_step ord db ord' db'" "db_order_lines db' = db_order_lines db"
    "so_total_amount ord' = so_total_amount ord" "so_subtotal_amount ord' = so_subtotal_amount ord"
    "so_discount_amount ord' = so_discount_amount ord" "so_tax_amount ord' = so_tax_amount ord"
    "so_status ord' = so_status ord" "so_order_number ord' = so_order_number ord"
    "cc_breached (fst (evaluate_credit customer db)) \<Longrightarrow> cc_mode (fst (evaluate_credit customer db)) = WARN"
proof -
  let ?db = "db\<lparr>db_profile := Some (profile_of db)\<rparr>"
  obtain c where ev: "evaluate_credit customer db = (c, ?db)"
    using evaluate_credit_db by (metis surjective_pairing)
  note profiled = order_step_profile [of ord db]
  consider (no) "\<not> cc_breached c" "ord' = ord" "db' = ?db"
    | (warn) f db1 where "cc_breached c" "cc_mode c \<noteq> BLOCK"
        "f = (\<lambda>r. r\<lparr>so_credit_warning_shown := True, so_credit_override_by := actor_pk user,
                          so_credit_override_at := Some (now env), so_updated_at := now env\<rparr>) \<or>
         f = (\<lambda>r. r\<lparr>so_credit_warning_shown := True, so_updated_at := now env\<rparr>)"
        "save_order f ord ?db = Inr (ord', db1)"
        "db' = db1 \<or> (\<exists>ei st. db' = record_audit env A_CREDIT_OVERRIDE ''sales_order'' ei user S_WEB None st db1)"
    using assms unfolding apply_credit_policy_def ev Let_def prod.case
    by (auto simp: result_simps split: if_splits)
  then have "order_step ord db ord' db' \<and> db_order_lines db' = db_order_lines db \<and>
    so_total_amount ord' = so_total_amount ord \<and> so_subtotal_amount ord' = so_subtotal_amount ord \<and>
    so_discount_amount ord' = so_discount_amount ord \<and> so_tax_amount ord' = so_tax_amount ord \<and>
    so_status ord' = so_status ord \<and> so_order_number ord' = so_order_number ord \<and>
    (cc_breached c \<longrightarrow> cc_mode c = WARN)"
  proof cases
    case no
    then show ?thesis using profiled by simp
  next
    case warn
    have st: "order_step ord db ord' db1"
      using warn(3) by (intro order_step_trans [OF profiled] save_order_step [OF warn(4)]) auto
    have "order_step ord db ord' db'"
      using warn(5) st order_step_trans [OF st order_step_audit] by auto
    moreover have "db_order_lines db' = db_order_lines db"
      using warn(5) save_orderD(2) [OF warn(4)] by auto
    moreover have "cc_mode c = WARN" using warn(2) by (cases "cc_mode c") auto
    ultimately show ?thesis using save_orderD(1) [OF warn(4)] warn(3) by auto
  qed
  then show "order_step ord db ord' db'" "db_order_lines db' = db_order_lines db"
    "so_total_amount ord' = so_total_amount ord" "so_subtotal_amount ord' = so_subtotal_amount ord"
    "so_discount_amount ord' = so_discount_amount ord" "so_tax_amount ord' = so_tax_amount ord"
    "so_status ord' = so_status ord" "so_order_number ord' = so_order_number ord"
    "cc_breached (fst (evaluate_credit customer db)) \<Longrightarrow> cc_mode (fst (evaluate_credit customer db)) = WARN"
    unfolding ev fst_conv by blast+
qed

section \<open>Capturing an order\<close>

lemma insert_orderD:
  assumes "insert_order (new_order env user q) db = Inr (ord, db')"
  shows "ord = new_order env user q (tb_seq (db_orders db))"
    "order_keys db' = order_keys db @ [(so_pk ord, oq_client_uuid q, cu_pk (oq_customer q))]"
    "orders_ok db \<Longrightarrow> orders_ok db'" "orders_ok db \<Longrightarrow> row_of ord db'"
    "same_below db db'" "audit_extends db db'" "db_order_lines db' = db_order_lines db"
proof -
  have ord: "ord = new_order env user q (tb_seq (db_orders db))"
    and db': "db' = db\<lparr>db_orders := db_orders db\<lparr>tb_seq := Suc (tb_seq (db_orders db)),
       tb_rows := tb_rows (db_orders db) @ [ord]\<rparr>\<rparr>"
    using assms by (auto simp: insert_order_def tb_insert_def Let_def split: if_splits)
  have key: "so_pk ord = tb_seq (db_orders db)" "so_client_uuid ord = oq_client_uuid q"
    "so_customer ord = cu_pk (oq_customer q)"
    by (simp_all add: ord new_order_def)
  show "ord = new_order env user q (tb_seq (db_orders db))" by (rule ord)
  show "order_keys db' = order_keys db @ [(so_pk ord, oq_client_uuid q, cu_pk (oq_customer q))]"
    by (simp add: db' order_keys_def key)
  show "same_below db db'" "audit_extends db db'" "db_order_lines db' = db_order_lines db"
    by (simp_all add: db' same_below_def profile_of_def audit_extends_def)
  have wf: "table_wf so_pk (db_orders db')" if "orders_ok db"
    by (rule table_wf_append [where key = so_pk and r = ord and t = "db_orders db"])
      (use that in \<open>simp_all add: db' orders_ok_def key\<close>)
  then show "orders_ok db \<Longrightarrow> orders_ok db'"
    by (simp add: orders_ok_def db')
  show "row_of ord db'" if "orders_ok db"
    using tb_get_row [OF wf [OF that], of ord] by (simp add: row_of_def db')
qed

lemma capture_orderD:
  assumes "capture_order env user q db = Inr (ord, db')"
  shows "order_keys db' = order_keys db @ [(so_pk ord, oq_client_uuid q, cu_pk (oq_customer q))]"
    "orders_ok db \<Longrightarrow> orders_ok db'" "orders_ok db \<Longrightarrow> row_of ord db'" "same_below db db'"
    "audit_extends db db'" "so_pk ord = tb_seq (db_orders db)" "so_client_uuid ord = oq_client_uuid q"
    "so_customer ord = cu_pk (oq_customer q)" "so_status ord = PLACED"
    "so_order_number ord = order_number_for (so_pk ord)" "totals_ok ord db'"
    "list_all2 (line_for db ord) (enumerate 1 (oq_lines q)) (lines_of (so_pk ord) db')"
    "map ol_line_number (lines_of (so_pk ord) db') = [1..<Suc (length (oq_lines q))]"
    "oq_lines q \<noteq> []" "cu_is_active (oq_customer q)"
    "\<not> cc_breached (fst (evaluate_credit (oq_customer q) db')) \<or> bp_credit_limit_mode (profile_of db) = WARN"
proof -
  obtain o1 db1 o2 db2 o3 db3 db4 where
    active: "cu_is_active (oq_customer q)" "oq_lines q \<noteq> []"
    and i: "insert_order (new_order env user q) db = Inr (o1, db1)"
    and s: "save_order (\<lambda>r. r\<lparr>so_order_number := order_number_for (so_pk o1), so_updated_at := now env\<rparr>) o1 db1 = Inr (o2, db2)"
    and r: "replace_lines env user o2 (oq_lines q) db2 = Inr (o3, db3)"
    and c: "apply_credit_policy env user (oq_customer q) o3 (oq_override_credit q) db3 = Inr (ord, db4)"
    and db': "\<exists>ei st. db' = record_audit env A_CREATE ''sales_order'' ei user S_WEB None st db4"
    using assms by (simp add: capture_order_def result_simps split: if_splits) blast
  note I = insert_orderD [OF i] and R = replace_linesD [OF r] and C = apply_credit_policyD [OF c]
  have S: "order_step o1 db1 o2 db2" by (rule save_order_step [OF s]) simp
  have o2: "o2 = o1\<lparr>so_order_number := order_number_for (so_pk o1), so_updated_at := now env\<rparr>"
    by (rule save_orderD(1) [OF s])
  have step: "order_step o1 db1 ord db'"
    using db' order_step_trans [OF order_step_trans [OF order_step_trans [OF S R(1)] C(1)] order_step_audit] by blast
  have pk: "so_pk o2 = so_pk o1" "so_pk o3 = so_pk o1" "so_pk ord = so_pk o1"
    "so_customer o2 = so_customer ord"
    using S R(1) C(1) by (simp_all add: order_step_def)
  show "so_pk ord = tb_seq (db_orders db)" "so_client_uuid ord = oq_client_uuid q"
    "so_customer ord = cu_pk (oq_customer q)"
    using step I(1) by (simp_all add: order_step_def new_order_def)
  show "order_keys db' = order_keys db @ [(so_pk ord, oq_client_uuid q, cu_pk (oq_customer q))]"
    using step I(2) by (simp add: order_step_def)
  show "orders_ok db \<Longrightarrow> orders_ok db'" "orders_ok db \<Longrightarrow> row_of ord db'"
    using step I(3,4) by (simp_all add: order_step_def)
  show below: "same_below db db'" using step I(5) by (simp add: order_step_def same_below_def)
  show "audit_extends db db'" using step I(6) by (auto simp: order_step_def intro: audit_extends_trans)
  have R3: "so_status o3 = so_status o2 \<and> so_order_number o3 = so_order_number o2"
    using r save_orderD(1) by (force simp: replace_lines_def recalculate_totals_def Let_def result_simps)
  show "so_status ord = PLACED" "so_order_number ord = order_number_for (so_pk ord)"
    using C(7,8) R3 o2 I(1) pk by (simp_all add: new_order_def)
  have lines: "lines_of k db' = lines_of k db3" for k
    using db' C(2) by (auto simp: lines_of_def)
  have "line_for db2 o2 = line_for db ord"
  proof (intro ext)
    fix ir l
    have "profile_of db2 = profile_of db"
      using I(5) S by (simp add: order_step_def same_below_def)
    then show "line_for db2 o2 ir l = line_for db ord ir l"
      using line_for_cong [of db2 db o2 ir l] pk by (simp add: line_for_def)
  qed
  then show "list_all2 (line_for db ord) (enumerate 1 (oq_lines q)) (lines_of (so_pk ord) db')"
    using R(2) lines pk by simp
  show "map ol_line_number (lines_of (so_pk ord) db') = [1..<Suc (length (oq_lines q))]"
    using R(3) lines pk by simp
  show "totals_ok ord db'"
    using R(4) lines pk C(3-6) by (simp add: totals_ok_def)
  show "oq_lines q \<noteq> []" "cu_is_active (oq_customer q)" by (fact active)+
  show "\<not> cc_breached (fst (evaluate_credit (oq_customer q) db')) \<or> bp_credit_limit_mode (profile_of db) = WARN"
  proof -
    let ?check = "\<lambda>db. fst (evaluate_credit (oq_customer q) db)"
    have "cc_mode (?check db3) = bp_credit_limit_mode (profile_of db)"
      using I(5) S R(1) by (simp add: evaluate_credit_check order_step_def same_below_def)
    moreover have "cc_breached (?check db') = cc_breached (?check db3)" if "\<not> cc_breached (?check db3)"
    proof -
      have "db4 = db3\<lparr>db_profile := Some (profile_of db3)\<rparr>"
        using that c evaluate_credit_db [of "oq_customer q" db3]
        by (cases "evaluate_credit (oq_customer q) db3") (simp add: apply_credit_policy_def)
      then show ?thesis using db'
        by (auto simp: evaluate_credit_check credit_exposure_def settled_balance_def open_order_value_def
            balance_expression_def settled_order_ids_def split: option.splits)
    qed
    ultimately show ?thesis using C(9) by auto
  qed
qed

lemma find_order_by_uuid_last:
  assumes "orders_ok db" "row_of ord db" "order_keys db = ks @ [(so_pk ord, Some u, c)]"
    "\<And>pk c. (pk, Some u, c) \<notin> set ks" "so_client_uuid ord = Some u"
  shows "find_order_by_uuid u db = Some ord"
proof -
  obtain rs r where rows: "tb_rows (db_orders db) = rs @ [r]"
    "map (\<lambda>r. (so_pk r, so_client_uuid r, so_customer r)) rs = ks" "so_pk r = so_pk ord"
    using assms(3) by (auto simp: order_keys_def map_eq_append_conv)
  have "tb_get so_pk (so_pk r) (db_orders db) = Some r"
    using assms(1) rows(1) by (intro tb_get_row) (auto simp: orders_ok_def)
  then have r: "r = ord" using assms(2) rows(3) by (simp add: row_of_def)
  have "find (\<lambda>r. so_client_uuid r = Some u) rs = None"
    unfolding find_None_iff_list using assms(4) rows(2) by force
  then show ?thesis using rows(1) r assms(5) by (simp add: find_order_by_uuid_def tb_first_def find_append)
qed

lemma find_order_by_uuid_None:
  "find_order_by_uuid u db = None \<Longrightarrow> (pk, Some u, c) \<notin> set (order_keys db)"
  by (auto simp: find_order_by_uuid_def tb_first_None order_keys_def)

definition may_capture :: "actor option \<Rightarrow> nat \<Rightarrow> bool" where
  "may_capture user customer \<longleftrightarrow>
     has_role user [OWNER] \<or>
     (has_role user [RETAILER] \<and> (case user of None \<Rightarrow> None | Some u \<Rightarrow> ac_customer u) = Some customer)"

lemma require_capture_permission_eq:
  "require_capture_permission user customer = require (may_capture user customer) PermissionDenied"
  by (auto simp: require_capture_permission_def may_capture_def require_def)

lemma place_order_cases:
  "place_order env user q db = Inr (ord, db') \<longleftrightarrow>
     may_capture user (cu_pk (oq_customer q)) \<and>
     (case (case oq_client_uuid q of None \<Rightarrow> None | Some u \<Rightarrow> find_order_by_uuid u db) of
        Some existing \<Rightarrow> ord = existing \<and> db' = db
      | None \<Rightarrow> capture_order env user q db = Inr (ord, db'))"
  by (auto simp: place_order_def require_capture_permission_eq split: option.splits)

interpretation place: idempotent_writer
  "\<lambda>(env, user, q) (db :: 'a orders_db_scheme). place_order env user q db"
  "\<lambda>(env, user, q). oq_client_uuid q" find_order_by_uuid
  "\<lambda>(env, user, q). may_capture user (cu_pk (oq_customer q))" orders_ok
proof (unfold_locales, goal_cases)
  case (1 rq k db r)
  then show ?case by (auto simp: place_order_cases split: prod.splits)
next
  case (2 rq db x)
  then show ?case by (cases x) (auto simp: place_order_cases split: prod.splits)
next
  case (3 db rq k r db')
  obtain env user q where rq: "rq = (env, user, q)" by (cases rq)
  have c: "capture_order env user q db = Inr (r, db')" and k: "oq_client_uuid q = Some k"
    using 3 rq by (auto simp: place_order_cases)
  note C = capture_orderD [OF c]
  show ?case
    using C(1-3,7) 3(1) k find_order_by_uuid_None [OF 3(3)]
    by (intro disjI1 find_order_by_uuid_last [where ks = "order_keys db"]) auto
qed

section \<open>The life cycle as a state machine\<close>

fun status_rank :: "order_status \<Rightarrow> nat" where
  "status_rank PLACED = 0"
| "status_rank CONFIRMED = 1"
| "status_rank DISPATCHED = 2"
| "status_rank DELIVERED = 3"
| "status_rank CANCELLED = 3"

interpretation order_machine: state_machine ALLOWED_TRANSITIONS status_rank 3
proof
  show "status_rank s < status_rank t" if "t \<in> set (ALLOWED_TRANSITIONS s)" for s t
    using that by (cases s) auto
  show "status_rank s \<le> 3" for s by (cases s) auto
qed

lemma transitionD:
  assumes "transition env user ord to_status ext extra db = Inr (ord', db')"
    and "\<And>r. so_pk (ext r) = so_pk r \<and> so_client_uuid (ext r) = so_client_uuid r \<and> so_customer (ext r) = so_customer r"
  shows "order_step ord db ord' db'" "to_status \<in> set (ALLOWED_TRANSITIONS (so_status ord))"
    "so_status ord' = to_status" "db_order_lines db' = db_order_lines db"
    "tb_rows (db_audit db') = tb_rows (db_audit db) @ [last_audit db']"
    "ord' = (ext ord)\<lparr>so_status := to_status, so_updated_at := now env\<rparr>"
proof -
  let ?f = "\<lambda>r. (ext r)\<lparr>so_status := to_status, so_updated_at := now env\<rparr>"
  obtain db1 where s: "save_order ?f ord db = Inr (ord', db1)"
    and db': "\<exists>a ei b c. db' = record_audit env a ''sales_order'' ei user S_WEB b c db1"
    and al: "to_status \<in> set (ALLOWED_TRANSITIONS (so_status ord))"
    using assms(1) by (simp add: transition_def Let_def result_simps split: if_splits) blast
  note S = save_orderD [OF s]
  have "order_step ord db ord' db1" by (rule save_order_step [OF s]) (simp add: assms(2))
  then show "order_step ord db ord' db'" using db' order_step_trans order_step_audit by blast
  show "to_status \<in> set (ALLOWED_TRANSITIONS (so_status ord))" by (rule al)
  show "so_status ord' = to_status" "ord' = ?f ord" by (simp_all add: S)
  show "db_order_lines db' = db_order_lines db" using db' by (auto simp: S)
  show "tb_rows (db_audit db') = tb_rows (db_audit db) @ [last_audit db']"
    using db' by (auto simp: S record_audit_def record_audit_from_def table_simps last_audit_def)
qed

lemma transition_refused:
  "to_status \<notin> set (ALLOWED_TRANSITIONS (so_status ord)) \<Longrightarrow>
   transition env user ord to_status ext extra db = Inl (invalid ''status'' ''INVALID_TRANSITION'')"
  by (simp add: transition_def Let_def)

text \<open>The calls that change a status, and the status each asks for.\<close>

datatype life_op = Confirm | Dispatch | Deliver | Cancel string

fun life_target :: "life_op \<Rightarrow> order_status" where
  "life_target Confirm = CONFIRMED"
| "life_target Dispatch = DISPATCHED"
| "life_target Deliver = DELIVERED"
| "life_target (Cancel _) = CANCELLED"

fun life_call ::
  "env \<Rightarrow> actor option \<Rightarrow> life_op \<Rightarrow> sales_order \<Rightarrow> 'a orders_db_scheme \<Rightarrow>
   error + sales_order \<times> 'a orders_db_scheme" where
  "life_call env user Confirm ord db = confirm_order env user ord db"
| "life_call env user Dispatch ord db = mark_dispatched env user ord db"
| "life_call env user Deliver ord db = mark_delivered env user ord db"
| "life_call env user (Cancel reason) ord db = cancel_order env user ord reason db"

lemma life_callD:
  assumes "life_call env user op ord db = Inr (ord', db')"
  shows "order_step ord db ord' db'" "life_target op \<in> set (ALLOWED_TRANSITIONS (so_status ord))"
    "so_status ord' = life_target op" "db_order_lines db' = db_order_lines db"
proof -
  obtain ext extra where t: "transition env user ord (life_target op) ext extra db = Inr (ord', db')"
    "\<And>r. so_pk (ext r) = so_pk r \<and> so_client_uuid (ext r) = so_client_uuid r \<and> so_customer (ext r) = so_customer r"
  proof (cases op)
    case (Cancel reason)
    then show ?thesis using assms that
      by (auto simp: cancel_order_def Let_def result_simps split: if_splits)
  qed (use assms that [where ext = id] in
      \<open>auto simp: confirm_order_def mark_dispatched_def mark_delivered_def split: if_splits\<close>)
  from transitionD(1-4) [OF this]
  show "order_step ord db ord' db'" "life_target op \<in> set (ALLOWED_TRANSITIONS (so_status ord))"
    "so_status ord' = life_target op" "db_order_lines db' = db_order_lines db" by blast+
qed

text \<open>A life: successful calls, each on the instance the one before returned.\<close>

inductive life ::
  "sales_order \<Rightarrow> 'a orders_db_scheme \<Rightarrow> order_status list \<Rightarrow> sales_order \<Rightarrow> 'a orders_db_scheme \<Rightarrow> bool" where
  start: "life ord db [] ord db"
| call: "life_call env user op ord db = Inr (ord1, db1) \<Longrightarrow> life ord1 db1 ss ord' db' \<Longrightarrow>
    life ord db (so_status ord1 # ss) ord' db'"

inductive_cases life_NilE: "life ord db [] ord' db'"
inductive_cases life_ConsE: "life ord db (s # ss) ord' db'"

lemma life_path: "life ord db ss ord' db' \<Longrightarrow> order_machine.path (so_status ord # ss)"
proof (induction rule: life.induct)
  case (call env user op ord db ord1 db1 ss ord' db')
  then show ?case using life_callD(2,3) [OF call(1)] by simp
qed simp

lemma life_step: "life ord db ss ord' db' \<Longrightarrow> order_step ord db ord' db'"
proof (induction rule: life.induct)
  case (call env user op ord db ord1 db1 ss ord' db')
  then show ?case using life_callD(1) order_step_trans by blast
qed (rule order_step_refl)


section \<open>Amending and discounting\<close>

lemma amend_orderD:
  assumes "amend_order env user ord inputs db = Inr (ord', db')"
  shows "order_step ord db ord' db'" "is_editable ord" "totals_ok ord' db'"
    "\<forall>l \<in> set (lines_of (so_pk ord') db'). line_wf l"
    "map ol_line_number (lines_of (so_pk ord') db') = [1..<Suc (length inputs)]"
    "so_status ord' = so_status ord"
proof -
  obtain c o1 db1 db2 where r: "replace_lines env user ord inputs db = Inr (o1, db1)"
    and p: "apply_credit_policy env user c o1 False db1 = Inr (ord', db2)"
    and db': "\<exists>ei b st. db' = record_audit env A_UPDATE ''sales_order'' ei user S_WEB b st db2"
    and ed: "is_editable ord"
    using assms by (simp add: amend_order_def result_simps Let_def split: if_splits) blast
  note R = replace_linesD [OF r] and P = apply_credit_policyD [OF p]
  show "order_step ord db ord' db'"
    using db' order_step_trans [OF order_step_trans [OF R(1) P(1)] order_step_audit] by blast
  have pk: "so_pk o1 = so_pk ord" "so_pk ord' = so_pk ord" using R(1) P(1) by (simp_all add: order_step_def)
  have lines: "lines_of k db' = lines_of k db1" for k using db' P(2) by (auto simp: lines_of_def)
  show "totals_ok ord' db'" using R(4) P(3-6) lines pk by (simp add: totals_ok_def)
  show "\<forall>l \<in> set (lines_of (so_pk ord') db'). line_wf l"
    using list_all2_line_for_wf [OF R(2)] lines pk by simp
  show "map ol_line_number (lines_of (so_pk ord') db') = [1..<Suc (length inputs)]"
    using R(3) lines pk by simp
  show "is_editable ord" by (rule ed)
  show "so_status ord' = so_status ord"
    using P(7) r save_orderD(1) by (force simp: replace_lines_def recalculate_totals_def Let_def result_simps)
qed

lemma apply_line_discountD:
  assumes "apply_line_discount env user ord line d db = Inr (ord', db')"
  shows "order_step ord db ord' db'" "is_editable ord" "has_role user [OWNER]"
    "\<exists>p a. tb_get pr_pk (ol_product line) (db_products db) = Some p \<and>
       compute_line p (ol_quantity line) (Some (so_customer ord)) d db =
         Inr (a, db\<lparr>db_profile := Some (profile_of db)\<rparr>) \<and>
       tb_rows (db_order_lines db') = map (\<lambda>l. if ol_pk l = ol_pk line then
          l\<lparr>ol_discount_amount := la_discount_amount a, ol_taxable_amount := la_taxable_amount a,
            ol_tax_amount := la_tax_amount a, ol_line_total := la_line_total a,
            ol_discount_by := actor_pk user\<rparr> else l) (tb_rows (db_order_lines db))"
proof -
  obtain p a db1 db2 where p: "tb_get pr_pk (ol_product line) (db_products db) = Some p"
    and a: "compute_line p (ol_quantity line) (Some (so_customer ord)) d db = Inr (a, db1)"
    and t: "recalculate_totals env ord (db1\<lparr>db_order_lines := tb_update ol_pk (ol_pk line)
        (\<lambda>l. l\<lparr>ol_discount_amount := la_discount_amount a, ol_taxable_amount := la_taxable_amount a,
            ol_tax_amount := la_tax_amount a, ol_line_total := la_line_total a,
            ol_discount_by := actor_pk user\<rparr>) (db_order_lines db1)\<rparr>) = Inr (ord', db2)"
    and db': "\<exists>ei b st. db' = record_audit env A_DISCOUNT_APPLIED ''sales_order_line'' ei user S_WEB b st db2"
    and g: "is_editable ord" "has_role user [OWNER]"
    using assms by (simp add: apply_line_discount_def result_simps Let_def split: if_splits option.splits) blast
  note db1 = compute_line_db [OF a]
  let ?upd = "\<lambda>l. l\<lparr>ol_discount_amount := la_discount_amount a, ol_taxable_amount := la_taxable_amount a,
            ol_tax_amount := la_tax_amount a, ol_line_total := la_line_total a,
            ol_discount_by := actor_pk user\<rparr>"
  let ?db = "db1\<lparr>db_order_lines := tb_update ol_pk (ol_pk line) ?upd (db_order_lines db1)\<rparr>"
  have "table_wf ol_pk (db_order_lines ?db)" if "table_wf ol_pk (db_order_lines db)"
    using table_wf_update [OF that, of "ol_pk line" ?upd] by (simp add: db1)
  then have "order_step ord db ord ?db"
    by (simp add: db1 order_step_def orders_ok_def order_keys_def row_of_def audit_extends_def same_below_def profile_of_def)
  from order_step_trans [OF this recalculate_totals_step(1) [OF t]]
  show "order_step ord db ord' db'" using db' order_step_trans order_step_audit by blast
  show "is_editable ord" "has_role user [OWNER]" by (fact g)+
  have "tb_rows (db_order_lines db') = tb_rows (db_order_lines ?db)"
    using db' recalculate_totals_step(2) [OF t] by auto
  then show "\<exists>p a. tb_get pr_pk (ol_product line) (db_products db) = Some p \<and>
       compute_line p (ol_quantity line) (Some (so_customer ord)) d db =
         Inr (a, db\<lparr>db_profile := Some (profile_of db)\<rparr>) \<and>
       tb_rows (db_order_lines db') = map (\<lambda>l. if ol_pk l = ol_pk line then
          l\<lparr>ol_discount_amount := la_discount_amount a, ol_taxable_amount := la_taxable_amount a,
            ol_tax_amount := la_tax_amount a, ol_line_total := la_line_total a,
            ol_discount_by := actor_pk user\<rparr> else l) (tb_rows (db_order_lines db))"
    using p a by (intro exI [of _ p] exI [of _ a]) (simp add: db1 table_simps)
qed

text \<open>Whatever an order service does, it writes no stock movement and no ledger entry.\<close>

lemma place_order_below: "place_order env user q db = Inr (ord, db') \<Longrightarrow> same_below db db'"
  by (auto simp: place_order_cases same_below_def split: option.splits dest!: capture_orderD(4))

definition empty_orders_db :: orders_db where
  "empty_orders_db = inventory_db.extend empty_inventory_db (orders_db.fields empty_table empty_table)"

section \<open>Exposure and the ledger\<close>

text \<open>
  The open and the settled term partition: the moment an order's invoice reaches the ledger,
  its value leaves the one and enters the other.
\<close>

lemma invoicing_keeps_exposure:
  assumes "record_entry env user c ''INVOICE'' amount narr d doc (Some (so_pk ord)) db = Inr (e, db')"
    "orders_ok db" "ord \<in> set (tb_rows (db_orders db))" "so_customer ord = c"
    "so_status ord \<in> set LIVE_STATUSES" "so_pk ord \<notin> set (settled_order_ids c db)"
    "to_money amount = so_total_amount ord" "tb_get cu_pk c (db_customers db) = Some cust"
  shows "credit_exposure c db' = credit_exposure c db"
    "open_order_value c db' = open_order_value c db - so_total_amount ord"
proof -
  note E = record_entryD [OF assms(1)]
  have pk: "cu_pk cust = c" using tb_getD [OF assms(8)] by simp
  have same: "db_orders db' = db_orders db" "db_customers db' = db_customers db"
    by (subst E(2), simp)+
  have settled: "settled_balance c None db' = settled_balance c None db + so_total_amount ord"
    using E(1,5,7) assms(7,8) pk same(2)
    by (simp add: settled_balance_def balance_expression_def up_to_def)
  let ?open = "\<lambda>db r. so_customer r = c \<and> so_status r \<in> set LIVE_STATUSES \<and> so_pk r \<notin> set (settled_order_ids c db)"
  have iff: "?open db' r \<longleftrightarrow> ?open db r \<and> so_pk r \<noteq> so_pk ord" for r
    unfolding settled_order_ids_iff using E(1,5,6,8) assms(4) by auto
  have "sum_where (?open db) so_total_amount (tb_rows (db_orders db)) =
    so_total_amount ord + sum_where (\<lambda>r. ?open db r \<and> so_pk r \<noteq> so_pk ord) so_total_amount (tb_rows (db_orders db))"
    using assms(2-6) by (intro sum_where_remove_key) (auto simp: orders_ok_def table_wf_def)
  moreover have "sum_where (?open db') so_total_amount (tb_rows (db_orders db)) =
    sum_where (\<lambda>r. ?open db r \<and> so_pk r \<noteq> so_pk ord) so_total_amount (tb_rows (db_orders db))"
    using iff by (intro sum_where_cong) blast
  moreover have "open_order_value c db' = sum_where (?open db') so_total_amount (tb_rows (db_orders db))"
    "open_order_value c db = sum_where (?open db) so_total_amount (tb_rows (db_orders db))"
    using assms(8) pk same by (simp_all add: open_order_value_def)
  ultimately show op: "open_order_value c db' = open_order_value c db - so_total_amount ord"
    by simp
  show "credit_exposure c db' = credit_exposure c db"
    using op settled by (simp add: credit_exposure_def)
qed

section \<open>Stale copies\<close>

text \<open>
  The row is written without being read again: whatever became of it in the meantime, an order
  read as PLACED can be confirmed.
\<close>

lemma confirm_writes_blindly:
  assumes "has_role user [OWNER]" "so_status ord = PLACED" "\<forall>r \<in> set (tb_rows (db_orders db)). order_constraints r"
  shows "\<exists>ord' db'. confirm_order env user ord db = Inr (ord', db') \<and>
    (\<forall>r \<in> set (tb_rows (db_orders db')). so_pk r = so_pk ord \<longrightarrow> so_status r = CONFIRMED)"
proof -
  have "CONFIRMED \<in> set (ALLOWED_TRANSITIONS (so_status ord))" using assms(2) by simp
  then show ?thesis
    using assms(1,3)
    by (auto simp: confirm_order_def transition_def save_order_def Let_def order_constraints_def list_all_iff table_simps)
qed

end
