(* ===== verification/Fulfilment.thy ===== *)
theory Fulfilment
  imports Orders
begin

text \<open>
  Fulfilment: \<^verbatim>\<open>fulfilment/models.py\<close>, \<^verbatim>\<open>services.py\<close> and \<^verbatim>\<open>selectors.py\<close>.  Dispatch issues the
  stock of an order once, completion moves none, failure brings all of it back.

  The delivery row is locked before a decision is made on it, so the services read it again
  from the table; the order and its customer are reached through the foreign keys.
\<close>


section \<open>The delivery\<close>

datatype delivery_status = PENDING | HANDED_OVER | FAILED

record delivery =
  dl_pk :: nat
  dl_order :: nat
  dl_client_uuid :: "string option"
  dl_outcome_client_uuid :: "string option"
  dl_assigned_user :: nat
  dl_status :: delivery_status
  dl_dispatched_at :: "int option"
  dl_delivered_at :: "int option"
  dl_recipient_name :: string
  dl_photo_media :: "nat option"
  dl_latitude :: "decimal option"
  dl_longitude :: "decimal option"
  dl_failure_reason :: string
  dl_device_id :: string
  dl_synced_at :: "int option"
  dl_updated_at :: int

record fulfilment_db = orders_db +
  db_deliveries :: "delivery table"

definition delivery_constraints :: "delivery \<Rightarrow> bool" where
  "delivery_constraints d \<longleftrightarrow>
     (dl_status d = FAILED \<longrightarrow> dl_failure_reason d \<noteq> '''') \<and>
     (dl_status d = HANDED_OVER \<longrightarrow> dl_delivered_at d \<noteq> None) \<and>
     (dl_latitude d = None \<longleftrightarrow> dl_longitude d = None)"

definition delivery_status_str :: "delivery_status \<Rightarrow> string" where
  "delivery_status_str s =
     (case s of PENDING \<Rightarrow> ''PENDING'' | HANDED_OVER \<Rightarrow> ''DELIVERED'' | FAILED \<Rightarrow> ''FAILED'')"

lemma record_audit_deliveries [simp, frame_simps]:
  "db_deliveries (record_audit env a et ei u s b c db) = db_deliveries db"
  by (simp add: record_audit_def record_audit_from_def)

text \<open>\<^verbatim>\<open>SalesOrder.objects.get(pk)\<close>, and the product a line points at.\<close>

definition get_order :: "nat \<Rightarrow> 'a orders_db_scheme \<Rightarrow> error + sales_order" where
  "get_order pk db =
     (case tb_get so_pk pk (db_orders db) of
        None \<Rightarrow> Inl (PyError ''SalesOrder.DoesNotExist'') | Some r \<Rightarrow> Inr r)"

definition line_product :: "order_line \<Rightarrow> 'a catalogue_db_scheme \<Rightarrow> error + product" where
  "line_product l db =
     (case tb_get pr_pk (ol_product l) (db_products db) of
        None \<Rightarrow> Inl (PyError ''Product.DoesNotExist'') | Some p \<Rightarrow> Inr p)"


section \<open>Assignment\<close>

definition insert_delivery ::
  "(nat \<Rightarrow> delivery) \<Rightarrow> 'a fulfilment_db_scheme \<Rightarrow> error + delivery \<times> 'a fulfilment_db_scheme" where
  "insert_delivery mk db =
     (let (d, deliveries) = tb_insert mk (db_deliveries db)
      in andThen (require (\<not> tb_exists (\<lambda>x. dl_order x = dl_order d) (db_deliveries db))
                    (IntegrityError ''uq_delivery_sales_order'')) (\<lambda>_.
         andThen (require (dl_client_uuid d = None \<or> \<not> tb_exists (\<lambda>x. dl_client_uuid x = dl_client_uuid d) (db_deliveries db))
                    (IntegrityError ''delivery_client_uuid'')) (\<lambda>_.
         Inr (d, db\<lparr>db_deliveries := deliveries\<rparr>))))"

definition assign_delivery ::
  "env \<Rightarrow> actor option \<Rightarrow> nat \<Rightarrow> actor option \<Rightarrow> string option \<Rightarrow> 'a fulfilment_db_scheme \<Rightarrow>
   error + delivery \<times> 'a fulfilment_db_scheme" where
  "assign_delivery env user order_pk assigned client_uuid db =
     andThen (require_roles user [OWNER]) (\<lambda>_.
     case (case client_uuid of None \<Rightarrow> None
           | Some u \<Rightarrow> tb_first (\<lambda>d. dl_client_uuid d = Some u) (db_deliveries db)) of
       Some existing \<Rightarrow> Inr (existing, db)
     | None \<Rightarrow>
     andThen (get_order order_pk db) (\<lambda>ord.
     case tb_first (\<lambda>d. dl_order d = so_pk ord) (db_deliveries db) of
       Some existing \<Rightarrow> Inr (existing, db)
     | None \<Rightarrow>
     andThen (require (so_status ord = CONFIRMED) (invalid ''status'' ''NOT_CONFIRMED'')) (\<lambda>_.
     andThen (require (has_role assigned INTERNAL) (invalid ''assigned_user'' ''NOT_INTERNAL'')) (\<lambda>_.
     case actor_pk assigned of None \<Rightarrow> Inl (IntegrityError ''delivery_assigned_user'')
     | Some au \<Rightarrow>
     andThen (insert_delivery (\<lambda>pk. \<lparr>dl_pk = pk, dl_order = so_pk ord, dl_client_uuid = client_uuid,
        dl_outcome_client_uuid = None, dl_assigned_user = au, dl_status = PENDING,
        dl_dispatched_at = None, dl_delivered_at = None, dl_recipient_name = '''',
        dl_photo_media = None, dl_latitude = None, dl_longitude = None, dl_failure_reason = '''',
        dl_device_id = '''', dl_synced_at = None, dl_updated_at = now env\<rparr>) db) (\<lambda>(d, db).
     andThen (if so_assigned_user ord \<noteq> Some au
              then save_order (\<lambda>r. r\<lparr>so_assigned_user := Some au, so_updated_at := now env\<rparr>) ord db
              else Inr (ord, db)) (\<lambda>(ord, db).
     Inr (d, record_audit env A_UPDATE ''delivery'' (Some (dl_pk d)) user S_WEB None
          (Some [(''order_number'', PStr (so_order_number ord)),
                 (''assigned_user_id'', PInt (int au)),
                 (''status'', PStr (delivery_status_str (dl_status d)))]) db)))))))"


section \<open>Dispatch\<close>

definition dispatch_credit_policy ::
  "env \<Rightarrow> actor option \<Rightarrow> sales_order \<Rightarrow> string \<Rightarrow> 'a orders_db_scheme \<Rightarrow>
   error + sales_order \<times> 'a orders_db_scheme" where
  "dispatch_credit_policy env user ord override_reason db =
     andThen (order_customer ord db) (\<lambda>customer.
     let (check, db) = evaluate_credit customer db in
     if \<not> cc_breached check then Inr (ord, db)
     else
       let override_reason = strip override_reason in
       if cc_mode check = BLOCK \<and> override_reason = '''' then Inl CreditLimitExceeded
       else
         let f = (if override_reason \<noteq> '''' then
                    (\<lambda>r. r\<lparr>so_credit_warning_shown := True, so_credit_override_by := actor_pk user,
                           so_credit_override_at := Some (now env), so_updated_at := now env\<rparr>)
                  else (\<lambda>r. r\<lparr>so_credit_warning_shown := True, so_updated_at := now env\<rparr>))
         in andThen (save_order f ord db) (\<lambda>(ord, db).
            Inr (ord, record_audit env A_CREDIT_OVERRIDE ''sales_order'' (Some (so_pk ord)) user S_WEB None
                (Some [(''order_number'', PStr (so_order_number ord)), (''at'', PStr ''DISPATCH''),
                       (''exposure_amount'', PDec 2 (cc_exposure_amount check)),
                       (''credit_limit_amount'', PDec 2 (cc_credit_limit_amount check)),
                       (''reason'', PStr override_reason)]) db)))"

text \<open>One movement per line, against the delivery: out at dispatch, back on failure.\<close>

definition move_line ::
  "env \<Rightarrow> actor option \<Rightarrow> delivery \<Rightarrow> string \<Rightarrow> (decimal \<Rightarrow> decimal) \<Rightarrow> (order_line \<Rightarrow> string) \<Rightarrow> order_line \<Rightarrow>
   'a inventory_db_scheme \<Rightarrow> error + 'a inventory_db_scheme" where
  "move_line env user d mtype sgn_of notes l db =
     andThen (line_product l db) (\<lambda>p.
     andThen (record_movement env user p (sgn_of (ol_quantity l)) mtype None
        (no_kw\<lparr>kw_document := Some (''Delivery'', Some (dl_pk d)), kw_notes := notes l\<rparr>) db) (\<lambda>(m, db).
     Inr db))"

definition save_delivery :: "(delivery \<Rightarrow> delivery) \<Rightarrow> delivery \<Rightarrow> 'a fulfilment_db_scheme \<Rightarrow> delivery \<times> 'a fulfilment_db_scheme" where
  "save_delivery f d db = (f d, db\<lparr>db_deliveries := tb_update dl_pk (dl_pk d) f (db_deliveries db)\<rparr>)"

definition dispatch_delivery ::
  "env \<Rightarrow> actor option \<Rightarrow> nat \<Rightarrow> string \<Rightarrow> 'a fulfilment_db_scheme \<Rightarrow>
   error + delivery \<times> 'a fulfilment_db_scheme" where
  "dispatch_delivery env user delivery_pk override_reason db =
     andThen (require_roles user [OWNER]) (\<lambda>_.
     case tb_get dl_pk delivery_pk (db_deliveries db) of None \<Rightarrow> Inl ResourceNotFound
     | Some locked \<Rightarrow>
     if dl_dispatched_at locked \<noteq> None then Inr (locked, db)
     else
     andThen (get_order (dl_order locked) db) (\<lambda>ord.
     andThen (require (so_status ord = CONFIRMED) (invalid ''status'' ''NOT_CONFIRMED'')) (\<lambda>_.
     andThen (dispatch_credit_policy env user ord override_reason db) (\<lambda>(ord, db).
     let ls = lines_of (so_pk ord) db in
     andThen (require (ls \<noteq> []) (invalid ''lines'' ''REQUIRED'')) (\<lambda>_.
     andThen (for_each ls (move_line env user locked ''ISSUE'' (\<lambda>q. - \<bar>q\<bar>)
        (\<lambda>l. ''Dispatch of '' @ so_order_number ord @ '' line '' @ str_nat (ol_line_number l))) db) (\<lambda>db.
     let (locked, db) = save_delivery (\<lambda>d. d\<lparr>dl_dispatched_at := Some (now env), dl_updated_at := now env\<rparr>) locked db in
     andThen (mark_dispatched env user ord db) (\<lambda>(ord, db).
     Inr (locked, record_audit env A_ISSUE ''delivery'' (Some (dl_pk locked)) user S_WEB None
          (Some [(''order_number'', PStr (so_order_number ord)), (''line_count'', PInt (int (length ls))),
                 (''dispatched_at'', PInt (now env))]) db))))))))"


section \<open>Outcome\<close>

definition replay_of :: "string option \<Rightarrow> 'a fulfilment_db_scheme \<Rightarrow> delivery option" where
  "replay_of client_uuid db =
     (case client_uuid of None \<Rightarrow> None
      | Some u \<Rightarrow> tb_first (\<lambda>d. dl_outcome_client_uuid d = Some u) (db_deliveries db))"

definition lock_dispatched :: "nat \<Rightarrow> 'a fulfilment_db_scheme \<Rightarrow> error + delivery" where
  "lock_dispatched delivery_pk db =
     (case tb_get dl_pk delivery_pk (db_deliveries db) of None \<Rightarrow> Inl ResourceNotFound
      | Some locked \<Rightarrow> andThen (require (dl_dispatched_at locked \<noteq> None) (invalid ''status'' ''NOT_DISPATCHED''))
                         (\<lambda>_. Inr locked))"

text \<open>
  The outcome is saved in a savepoint of its own.  \<open>Replayed\<close>: the key's unique constraint
  refused the row because another attempt had claimed it, and that attempt's row is returned.
\<close>

datatype 'db outcome = Saved delivery 'db | Replayed delivery

definition save_outcome ::
  "string option \<Rightarrow> (delivery \<Rightarrow> delivery) \<Rightarrow> delivery \<Rightarrow> 'a fulfilment_db_scheme \<Rightarrow>
   error + 'a fulfilment_db_scheme outcome" where
  "save_outcome client_uuid f locked db =
     (let clash = (client_uuid \<noteq> None \<and>
            tb_exists (\<lambda>d. dl_pk d \<noteq> dl_pk locked \<and> dl_outcome_client_uuid d = client_uuid) (db_deliveries db))
      in if delivery_constraints (f locked) \<and> \<not> clash then
           (let (d, db) = save_delivery f locked db in Inr (Saved d db))
         else case replay_of client_uuid db of
                None \<Rightarrow> Inl (IntegrityError ''delivery'') | Some r \<Rightarrow> Inr (Replayed r))"

record outcome_args =
  oa_recipient_name :: string
  oa_delivered_at :: "int option"
  oa_latitude :: "decimal option"
  oa_longitude :: "decimal option"
  oa_photo_media :: "nat option"
  oa_device_id :: string

definition complete_locked ::
  "env \<Rightarrow> actor option \<Rightarrow> delivery \<Rightarrow> outcome_args \<Rightarrow> string option \<Rightarrow> 'a fulfilment_db_scheme \<Rightarrow>
   error + delivery \<times> 'a fulfilment_db_scheme" where
  "complete_locked env user locked a client_uuid db =
     andThen (save_outcome client_uuid (\<lambda>d. d\<lparr>dl_outcome_client_uuid := client_uuid, dl_status := HANDED_OVER,
          dl_delivered_at := Some (case oa_delivered_at a of None \<Rightarrow> now env | Some t \<Rightarrow> t),
          dl_recipient_name := take 200 (oa_recipient_name a), dl_latitude := oa_latitude a,
          dl_longitude := oa_longitude a, dl_photo_media := oa_photo_media a,
          dl_device_id := take 64 (oa_device_id a), dl_synced_at := Some (now env),
          dl_updated_at := now env\<rparr>) locked db) (\<lambda>outcome.
     case outcome of Replayed r \<Rightarrow> Inr (r, db)
     | Saved d db \<Rightarrow>
     andThen (get_order (dl_order d) db) (\<lambda>ord.
     andThen (mark_delivered env user ord db) (\<lambda>(ord, db).
     Inr (d, record_audit env A_UPDATE ''delivery'' (Some (dl_pk d)) user S_WEB
          (Some [(''status'', PStr ''PENDING'')])
          (Some [(''status'', PStr (delivery_status_str (dl_status d))),
                 (''recipient_name'', PStr (dl_recipient_name d)),
                 (''delivered_at'', case dl_delivered_at d of None \<Rightarrow> PNone | Some t \<Rightarrow> PInt t)]) db))))"

definition complete_delivery ::
  "env \<Rightarrow> actor option \<Rightarrow> nat \<Rightarrow> outcome_args \<Rightarrow> string option \<Rightarrow> 'a fulfilment_db_scheme \<Rightarrow>
   error + delivery \<times> 'a fulfilment_db_scheme" where
  "complete_delivery env user delivery_pk a client_uuid db =
     andThen (require_roles user INTERNAL) (\<lambda>_.
     case replay_of client_uuid db of Some r \<Rightarrow> Inr (r, db)
     | None \<Rightarrow>
     andThen (lock_dispatched delivery_pk db) (\<lambda>locked.
     if dl_status locked \<noteq> PENDING then Inr (locked, db)
     else complete_locked env user locked a client_uuid db))"

definition fail_locked ::
  "env \<Rightarrow> actor option \<Rightarrow> delivery \<Rightarrow> string \<Rightarrow> string \<Rightarrow> string option \<Rightarrow> 'a fulfilment_db_scheme \<Rightarrow>
   error + delivery \<times> 'a fulfilment_db_scheme" where
  "fail_locked env user locked reason device_id client_uuid db =
     andThen (save_outcome client_uuid (\<lambda>d. d\<lparr>dl_outcome_client_uuid := client_uuid, dl_status := FAILED,
          dl_failure_reason := reason, dl_device_id := take 64 device_id,
          dl_synced_at := Some (now env), dl_updated_at := now env\<rparr>) locked db) (\<lambda>outcome.
     case outcome of Replayed r \<Rightarrow> Inr (r, db)
     | Saved d db \<Rightarrow>
     andThen (get_order (dl_order d) db) (\<lambda>ord.
     andThen (for_each (lines_of (so_pk ord) db) (move_line env user d ''RETURN'' abs
        (\<lambda>_. take 500 (''Failed delivery of '' @ so_order_number ord @ '': '' @ reason))) db) (\<lambda>db.
     Inr (d, record_audit env A_UPDATE ''delivery'' (Some (dl_pk d)) user S_WEB
          (Some [(''status'', PStr ''PENDING'')])
          (Some [(''status'', PStr (delivery_status_str (dl_status d))),
                 (''failure_reason'', PStr reason)]) db))))"

definition fail_delivery ::
  "env \<Rightarrow> actor option \<Rightarrow> nat \<Rightarrow> string \<Rightarrow> string \<Rightarrow> string option \<Rightarrow> 'a fulfilment_db_scheme \<Rightarrow>
   error + delivery \<times> 'a fulfilment_db_scheme" where
  "fail_delivery env user delivery_pk reason device_id client_uuid db =
     andThen (require_roles user INTERNAL) (\<lambda>_.
     let reason = strip reason in
     andThen (require (reason \<noteq> '''') (invalid ''reason'' ''REQUIRED'')) (\<lambda>_.
     case replay_of client_uuid db of Some r \<Rightarrow> Inr (r, db)
     | None \<Rightarrow>
     andThen (lock_dispatched delivery_pk db) (\<lambda>locked.
     if dl_status locked \<noteq> PENDING then Inr (locked, db)
     else fail_locked env user locked reason device_id client_uuid db)))"


section \<open>Selectors\<close>

definition delivery_customer :: "delivery \<Rightarrow> 'a orders_db_scheme \<Rightarrow> nat option" where
  "delivery_customer d db = map_option so_customer (tb_get so_pk (dl_order d) (db_orders db))"

definition visible_deliveries :: "actor option \<Rightarrow> 'a fulfilment_db_scheme \<Rightarrow> delivery list" where
  "visible_deliveries user db =
     (let base = tb_rows (db_deliveries db)
      in if has_role user [OWNER] then base
         else if has_role user [SALESMAN, DELIVERY] then
           filter (\<lambda>d. actor_pk user = Some (dl_assigned_user d) \<or>
                       (case delivery_customer d db of None \<Rightarrow> False | Some c \<Rightarrow> zone_assigned user c db)) base
         else if has_role user [RETAILER] then
           filter (\<lambda>d. delivery_customer d db = Some (actor_customer user)) base
         else [])"

definition search_deliveries ::
  "actor option \<Rightarrow> delivery_status option \<Rightarrow> bool \<Rightarrow> 'a fulfilment_db_scheme \<Rightarrow> delivery list" where
  "search_deliveries user status assigned_to_me db =
     filter (\<lambda>d. (status = None \<or> status = Some (dl_status d)) \<and>
                 (assigned_to_me \<longrightarrow> actor_pk user = Some (dl_assigned_user d)))
       (visible_deliveries user db)"

definition get_delivery_for :: "actor option \<Rightarrow> nat \<Rightarrow> 'a fulfilment_db_scheme \<Rightarrow> delivery option" where
  "get_delivery_for user pk db = find (\<lambda>d. dl_pk d = pk) (visible_deliveries user db)"

definition pending_deliveries :: "actor option \<Rightarrow> 'a fulfilment_db_scheme \<Rightarrow> delivery list" where
  "pending_deliveries user db =
     filter (\<lambda>d. dl_status d = PENDING \<and> dl_dispatched_at d \<noteq> None) (visible_deliveries user db)"

section \<open>What moving the lines does\<close>

text \<open>The units of one product on a list of order lines.\<close>

definition units_of :: "nat \<Rightarrow> order_line list \<Rightarrow> decimal" where
  "units_of product ls = sum_where (\<lambda>l. ol_product l = product) ol_quantity ls"

definition quantities_ok :: "order_line list \<Rightarrow> bool" where
  "quantities_ok ls \<longleftrightarrow> (\<forall>l \<in> set ls. 0 < ol_quantity l \<and> is_quantity (ol_quantity l))"

lemma line_product_pk: "line_product l db = Inr p \<Longrightarrow> pr_pk p = ol_product l"
  by (auto simp: line_product_def dest: tb_getD split: option.splits)

lemma move_lineD:
  assumes "move_line env user d t sg notes l db = Inr db'" "t \<noteq> ''ADJUSTMENT''"
  shows "db' = db\<lparr>db_lots := db_lots db', db_movements := db_movements db'\<rparr>"
    "\<exists>m. tb_rows (db_movements db') = tb_rows (db_movements db) @ [m] \<and> mv_product m = ol_product l \<and>
       mv_quantity m = to_quantity (sg (ol_quantity l)) \<and> mv_movement_type m = t \<and>
       mv_source_type m = ''DELIVERY'' \<and> mv_source_id m = Some (dl_pk d)"
    "stock_ok db \<Longrightarrow> stock_ok db'"
proof -
  obtain p m where p: "line_product l db = Inr p"
    and m: "record_movement env user p (sg (ol_quantity l)) t None
        (no_kw\<lparr>kw_document := Some (''Delivery'', Some (dl_pk d)), kw_notes := notes l\<rparr>) db = Inr (m, db')"
    using assms(1) by (auto simp: move_line_def result_simps)
  show "db' = db\<lparr>db_lots := db_lots db', db_movements := db_movements db'\<rparr>"
    by (rule record_movement_frame [OF m assms(2)])
  show "stock_ok db \<Longrightarrow> stock_ok db'" by (rule record_movement_ok [OF m])
  have "mv_source_type m = ''DELIVERY''" "mv_source_id m = Some (dl_pk d)"
    using record_movementD(10) [OF m]
    by (auto simp: resolve_source_def STOCK_DOCUMENT_REGISTRY_def split: if_splits)
  then show "\<exists>m. tb_rows (db_movements db') = tb_rows (db_movements db) @ [m] \<and> mv_product m = ol_product l \<and>
       mv_quantity m = to_quantity (sg (ol_quantity l)) \<and> mv_movement_type m = t \<and>
       mv_source_type m = ''DELIVERY'' \<and> mv_source_id m = Some (dl_pk d)"
    using record_movementD(1,4-6) [OF m] line_product_pk [OF p] by (intro exI [of _ m]) simp
qed

lemma move_linesD:
  assumes "for_each ls (move_line env user d t sg notes) db = Inr db'" "t \<noteq> ''ADJUSTMENT''"
  shows "db' = db\<lparr>db_lots := db_lots db', db_movements := db_movements db'\<rparr> \<and>
    (\<exists>ms. tb_rows (db_movements db') = tb_rows (db_movements db) @ ms \<and>
       list_all2 (\<lambda>l m. mv_product m = ol_product l \<and> mv_quantity m = to_quantity (sg (ol_quantity l)) \<and>
         mv_movement_type m = t \<and> mv_source_type m = ''DELIVERY'' \<and> mv_source_id m = Some (dl_pk d)) ls ms) \<and>
    (stock_ok db \<longrightarrow> stock_ok db')"
  using assms(1)
proof (induction ls arbitrary: db)
  case Nil
  then show ?case by simp
next
  case (Cons l ls)
  then obtain db1 where s: "move_line env user d t sg notes l db = Inr db1"
    "for_each ls (move_line env user d t sg notes) db1 = Inr db'"
    by (auto simp: result_simps)
  note one = move_lineD [OF s(1) assms(2)] and rest = Cons.IH [OF s(2)]
  have "db' = db\<lparr>db_lots := db_lots db', db_movements := db_movements db'\<rparr>"
    by (subst rest [THEN conjunct1], subst one(1)) simp
  moreover obtain m ms where "tb_rows (db_movements db1) = tb_rows (db_movements db) @ [m]"
    "tb_rows (db_movements db') = tb_rows (db_movements db1) @ ms"
    "mv_product m = ol_product l \<and> mv_quantity m = to_quantity (sg (ol_quantity l)) \<and>
       mv_movement_type m = t \<and> mv_source_type m = ''DELIVERY'' \<and> mv_source_id m = Some (dl_pk d)"
    "list_all2 (\<lambda>l m. mv_product m = ol_product l \<and> mv_quantity m = to_quantity (sg (ol_quantity l)) \<and>
         mv_movement_type m = t \<and> mv_source_type m = ''DELIVERY'' \<and> mv_source_id m = Some (dl_pk d)) ls ms"
    using one(2) rest by blast
  ultimately show ?case using one(3) rest by (intro conjI exI [of _ "m # ms"]) auto
qed

lemma moved_units:
  "list_all2 (\<lambda>l m. mv_product m = ol_product l \<and> mv_quantity m = to_quantity (sg (ol_quantity l)) \<and> P m) ls ms \<Longrightarrow>
   quantities_ok ls \<Longrightarrow> (\<And>q. 0 < q \<Longrightarrow> is_quantity q \<Longrightarrow> to_quantity (sg q) = s * q) \<Longrightarrow>
   sum_where (\<lambda>m. mv_product m = k) mv_quantity ms = s * units_of k ls"
  by (induction rule: list_all2_induct) (auto simp: units_of_def quantities_ok_def distrib_left)

lemma quantity_signs:
  assumes "is_quantity q" "0 < q"
  shows "to_quantity (- \<bar>q\<bar>) = - 1 * q" "to_quantity \<bar>q\<bar> = 1 * q"
  using assms by (simp_all add: quantize_id at_scale_minus)

lemma issue_lines_on_hand:
  assumes "for_each ls (move_line env user d ''ISSUE'' (\<lambda>q. - \<bar>q\<bar>) notes) db = Inr db'" "quantities_ok ls"
  shows "on_hand_expression None k db' = on_hand_expression None k db - units_of k ls"
proof -
  obtain ms where "tb_rows (db_movements db') = tb_rows (db_movements db) @ ms"
    "list_all2 (\<lambda>l m. mv_product m = ol_product l \<and> mv_quantity m = to_quantity (- \<bar>ol_quantity l\<bar>) \<and>
         mv_movement_type m = ''ISSUE'' \<and> mv_source_type m = ''DELIVERY'' \<and> mv_source_id m = Some (dl_pk d)) ls ms"
    using move_linesD [OF assms(1)] by auto
  then show ?thesis
    using moved_units [where sg = "\<lambda>q. - \<bar>q\<bar>" and s = "- 1", OF _ assms(2) quantity_signs(1)]
    by (simp add: on_hand_expression_def occurred_by_def)
qed

lemma return_lines_on_hand:
  assumes "for_each ls (move_line env user d ''RETURN'' abs notes) db = Inr db'" "quantities_ok ls"
  shows "on_hand_expression None k db' = on_hand_expression None k db + units_of k ls"
proof -
  obtain ms where "tb_rows (db_movements db') = tb_rows (db_movements db) @ ms"
    "list_all2 (\<lambda>l m. mv_product m = ol_product l \<and> mv_quantity m = to_quantity \<bar>ol_quantity l\<bar> \<and>
         mv_movement_type m = ''RETURN'' \<and> mv_source_type m = ''DELIVERY'' \<and> mv_source_id m = Some (dl_pk d)) ls ms"
    using move_linesD [OF assms(1)] by auto
  then show ?thesis
    using moved_units [where sg = abs and s = 1, OF _ assms(2) quantity_signs(2)]
    by (simp add: on_hand_expression_def occurred_by_def)
qed

text \<open>The movements a list of order lines leaves: one for each, of its product, with its units signed.\<close>

definition moved_lines :: "string \<Rightarrow> decimal \<Rightarrow> nat \<Rightarrow> order_line list \<Rightarrow> movement list \<Rightarrow> bool" where
  "moved_lines t s delivery ls ms \<longleftrightarrow>
     list_all2 (\<lambda>l m. mv_product m = ol_product l \<and> mv_quantity m = s * ol_quantity l \<and>
       mv_movement_type m = t \<and> mv_source_type m = ''DELIVERY'' \<and> mv_source_id m = Some delivery) ls ms"

lemma move_lines_moved:
  assumes "for_each ls (move_line env user d t sg notes) db = Inr db'" "t \<noteq> ''ADJUSTMENT''" "quantities_ok ls"
    and "\<And>q. is_quantity q \<Longrightarrow> 0 < q \<Longrightarrow> to_quantity (sg q) = s * q"
  shows "\<exists>ms. tb_rows (db_movements db') = tb_rows (db_movements db) @ ms \<and> moved_lines t s (dl_pk d) ls ms"
proof -
  obtain ms where ms: "tb_rows (db_movements db') = tb_rows (db_movements db) @ ms"
    "list_all2 (\<lambda>l m. mv_product m = ol_product l \<and> mv_quantity m = to_quantity (sg (ol_quantity l)) \<and>
         mv_movement_type m = t \<and> mv_source_type m = ''DELIVERY'' \<and> mv_source_id m = Some (dl_pk d)) ls ms"
    using move_linesD [OF assms(1,2)] by blast
  have "moved_lines t s (dl_pk d) ls ms"
    using ms(2) assms(3,4) unfolding moved_lines_def quantities_ok_def
    by (auto elim!: list.rel_mono_strong)
  then show ?thesis using ms(1) by blast
qed

section \<open>What the delivery services do\<close>

definition deliveries_ok :: "'a fulfilment_db_scheme \<Rightarrow> bool" where
  "deliveries_ok db \<longleftrightarrow> table_wf dl_pk (db_deliveries db)"

lemma more_deliveries:
  "orders_db.more db' = orders_db.more db \<Longrightarrow>
   db_deliveries (db' :: 'a fulfilment_db_scheme) = db_deliveries db"
  by (cases db; cases db') simp

lemma order_step_deliveries:
  "order_step ord db ord' db' \<Longrightarrow> db_deliveries (db' :: 'a fulfilment_db_scheme) = db_deliveries db"
  by (rule more_deliveries) (simp add: order_step_def same_below_def)

lemma get_orderD: "get_order pk db = Inr ord \<Longrightarrow> so_pk ord = pk \<and> row_of ord db"
  by (auto simp: get_order_def row_of_def dest: tb_getD split: option.splits)

lemma dispatch_credit_policyD:
  assumes "dispatch_credit_policy env user ord reason db = Inr (ord', db')"
  shows "order_step ord db ord' db'" "db_order_lines db' = db_order_lines db" "so_status ord' = so_status ord"
    "\<exists>c. order_customer ord db = Inr c \<and> (cc_breached (fst (evaluate_credit c db)) \<longrightarrow>
       cc_mode (fst (evaluate_credit c db)) = WARN \<or> strip reason \<noteq> '''')"
proof -
  obtain c where c: "order_customer ord db = Inr c"
    using assms by (auto simp: dispatch_credit_policy_def result_simps)
  let ?db = "db\<lparr>db_profile := Some (profile_of db)\<rparr>"
  obtain k where ev: "evaluate_credit c db = (k, ?db)"
    using evaluate_credit_db by (metis surjective_pairing)
  note profiled = order_step_profile [of ord db]
  consider (no) "\<not> cc_breached k" "ord' = ord" "db' = ?db"
    | (saved) f db1 ei st where "cc_mode k \<noteq> BLOCK \<or> strip reason \<noteq> ''''"
        "f = (\<lambda>r. r\<lparr>so_credit_warning_shown := True, so_credit_override_by := actor_pk user,
                           so_credit_override_at := Some (now env), so_updated_at := now env\<rparr>) \<or>
         f = (\<lambda>r. r\<lparr>so_credit_warning_shown := True, so_updated_at := now env\<rparr>)"
        "save_order f ord ?db = Inr (ord', db1)"
        "db' = record_audit env A_CREDIT_OVERRIDE ''sales_order'' ei user S_WEB None st db1"
    using assms unfolding dispatch_credit_policy_def c andThen.simps ev Let_def prod.case
    by (auto simp: result_simps split: if_splits)
  then have "order_step ord db ord' db' \<and> db_order_lines db' = db_order_lines db \<and> so_status ord' = so_status ord \<and>
    (cc_breached k \<longrightarrow> cc_mode k = WARN \<or> strip reason \<noteq> '''')"
  proof cases
    case no
    then show ?thesis using profiled by simp
  next
    case saved
    have st: "order_step ord db ord' db1"
      using saved(2) by (intro order_step_trans [OF profiled] save_order_step [OF saved(3)]) auto
    have "order_step ord db ord' db'"
      using order_step_trans [OF st order_step_audit] saved(4) by simp
    moreover have "cc_mode k = WARN \<or> strip reason \<noteq> ''''"
      using saved(1) by (cases "cc_mode k") auto
    ultimately show ?thesis using save_orderD [OF saved(3)] saved(2,4) by auto
  qed
  then show "order_step ord db ord' db'" "db_order_lines db' = db_order_lines db" "so_status ord' = so_status ord"
    "\<exists>c. order_customer ord db = Inr c \<and> (cc_breached (fst (evaluate_credit c db)) \<longrightarrow>
       cc_mode (fst (evaluate_credit c db)) = WARN \<or> strip reason \<noteq> '''')"
    using c ev by auto
qed

text \<open>The row of a table after its update, and what an update leaves of the others.\<close>

lemma save_delivery_row:
  assumes "tb_get dl_pk pk (db_deliveries db) = Some d" "save_delivery f d db = (d', db')"
    "\<And>d. dl_pk (f d) = dl_pk d"
  shows "tb_get dl_pk pk (db_deliveries db') = Some d'" "d' = f d"
    "db' = db\<lparr>db_deliveries := db_deliveries db'\<rparr>" "deliveries_ok db \<Longrightarrow> deliveries_ok db'"
proof -
  have pk: "dl_pk d = pk" using tb_getD [OF assms(1)] by simp
  have e: "d' = f d" "db' = db\<lparr>db_deliveries := tb_update dl_pk (dl_pk d) f (db_deliveries db)\<rparr>"
    using assms(2) by (auto simp: save_delivery_def)
  show "d' = f d" "db' = db\<lparr>db_deliveries := db_deliveries db'\<rparr>" by (simp_all add: e)
  show "tb_get dl_pk pk (db_deliveries db') = Some d'"
    using tb_get_update_same [OF assms(1), of f] pk by (simp add: e assms(3))
  show "deliveries_ok db \<Longrightarrow> deliveries_ok db'"
    unfolding deliveries_ok_def e(2) by (simp add: table_wf_update assms(3))
qed

text \<open>
  \<open>shipping_frame\<close>: the order lines, the parties' ledgers and the catalogue are as they were and
  the audit trail only grew.
\<close>

definition shipping_frame :: "'a fulfilment_db_scheme \<Rightarrow> 'a fulfilment_db_scheme \<Rightarrow> bool" where
  "shipping_frame db db' \<longleftrightarrow>
     db_order_lines db' = db_order_lines db \<and> db_cle db' = db_cle db \<and> db_sle db' = db_sle db \<and>
     db_products db' = db_products db \<and> db_customers db' = db_customers db \<and>
     profile_of db' = profile_of db \<and> audit_extends db db' \<and>
     order_keys db' = order_keys db \<and> (orders_ok db \<longrightarrow> orders_ok db')"

lemma shipping_frame_refl: "shipping_frame db db"
  by (simp add: shipping_frame_def)

lemma shipping_frame_trans: "shipping_frame d1 d2 \<Longrightarrow> shipping_frame d2 d3 \<Longrightarrow> shipping_frame d1 d3"
  unfolding shipping_frame_def by (auto intro: audit_extends_trans)

lemma shipping_frame_step:
  "order_step ord db ord' db' \<Longrightarrow> db_order_lines db' = db_order_lines db \<Longrightarrow> shipping_frame db db'"
  by (simp add: shipping_frame_def order_step_def same_below_def)

lemma shipping_frame_stock:
  assumes "db' = db\<lparr>db_lots := ls, db_movements := ms\<rparr>"
  shows "shipping_frame db db'" "db_orders db' = db_orders db" "db_deliveries db' = db_deliveries db"
  by (simp_all add: assms shipping_frame_def profile_of_def order_keys_def orders_ok_def audit_extends_def)

lemma shipping_frame_delivery:
  assumes "db' = db\<lparr>db_deliveries := ds\<rparr>"
  shows "shipping_frame db db'" "db_orders db' = db_orders db" "db_movements db' = db_movements db"
  by (simp_all add: assms shipping_frame_def profile_of_def order_keys_def orders_ok_def audit_extends_def)

lemma shipping_frame_audit: "shipping_frame db (record_audit env a et ei u s b c db)"
  by (simp add: shipping_frame_def order_keys_def orders_ok_def)

lemma shipping_frame_lines: "shipping_frame db db' \<Longrightarrow> lines_of k db' = lines_of k db"
  by (simp add: shipping_frame_def lines_of_def)

lemma order_step_movements: "order_step ord db ord' db' \<Longrightarrow> db_movements db' = db_movements db"
  by (simp add: order_step_def same_below_def)

lemma on_hand_cong: "db_movements db' = db_movements db \<Longrightarrow> on_hand_expression a k db' = on_hand_expression a k db"
  by (simp add: on_hand_expression_def)

lemma row_of_cong: "db_orders db' = db_orders db \<Longrightarrow> row_of ord db' = row_of ord db"
  by (simp add: row_of_def)

lemma row_of_audit [simp]: "row_of ord (record_audit env a et ei u s b c db) = row_of ord db"
  by (simp add: row_of_def)

lemma order_step_row: "order_step ord db ord' db' \<Longrightarrow> row_of ord db \<Longrightarrow> row_of ord' db'"
  by (simp add: order_step_def)

lemma dispatch_deliveryD:
  assumes "dispatch_delivery env user pk reason db = Inr (d, db')"
    "tb_get dl_pk pk (db_deliveries db) = Some locked" "dl_dispatched_at locked = None"
  shows "has_role user [OWNER]" "shipping_frame db db'"
    "d = locked\<lparr>dl_dispatched_at := Some (now env), dl_updated_at := now env\<rparr>"
    "tb_get dl_pk pk (db_deliveries db') = Some d"
    "deliveries_ok db \<Longrightarrow> deliveries_ok db'" "stock_ok db \<Longrightarrow> stock_ok db'"
    "\<exists>ord. row_of ord db \<and> so_pk ord = dl_order locked \<and> so_status ord = CONFIRMED"
    "\<exists>ord. row_of ord db' \<and> so_pk ord = dl_order locked \<and> so_status ord = DISPATCHED"
    "lines_of (dl_order locked) db \<noteq> []"
    "quantities_ok (lines_of (dl_order locked) db) \<Longrightarrow>
       on_hand_expression None k db' = on_hand_expression None k db - units_of k (lines_of (dl_order locked) db)"
    "quantities_ok (lines_of (dl_order locked) db) \<Longrightarrow>
       \<exists>ms. tb_rows (db_movements db') = tb_rows (db_movements db) @ ms \<and>
         moved_lines ''ISSUE'' (- 1) pk (lines_of (dl_order locked) db) ms"
proof -
  have auth: "has_role user [OWNER]"
    using assms(1) by (auto simp: dispatch_delivery_def split: if_splits)
  obtain o0 o1 db1 db2 d3 db3 o4 db4 nts ei b st where
    o0: "get_order (dl_order locked) db = Inr o0" "so_status o0 = CONFIRMED"
    and c: "dispatch_credit_policy env user o0 reason db = Inr (o1, db1)"
    and ls: "lines_of (so_pk o1) db1 \<noteq> []"
    and m: "for_each (lines_of (so_pk o1) db1) (move_line env user locked ''ISSUE'' (\<lambda>q. - \<bar>q\<bar>) nts) db1 = Inr db2"
    and s: "save_delivery (\<lambda>d. d\<lparr>dl_dispatched_at := Some (now env), dl_updated_at := now env\<rparr>) locked db2 = (d3, db3)"
    and t: "mark_dispatched env user o1 db3 = Inr (o4, db4)" and d: "d = d3"
    and db': "db' = record_audit env A_ISSUE ''delivery'' ei user S_WEB b st db4"
    using assms by (simp add: dispatch_delivery_def result_simps Let_def case_prod_unfold split: if_splits) force
  note O = get_orderD [OF o0(1)] and C = dispatch_credit_policyD [OF c]
  note M = move_linesD [OF m, simplified, THEN conjunct1]
  have stock: "stock_ok db1 \<longrightarrow> stock_ok db2" using move_linesD [OF m] by simp
  have same12: "shipping_frame db1 db2" "db_orders db2 = db_orders db1" "db_deliveries db2 = db_deliveries db1"
    by (rule shipping_frame_stock [OF M])+
  have "db_deliveries db2 = db_deliveries db"
    using same12(3) order_step_deliveries [OF C(1)] by simp
  then have row2: "tb_get dl_pk pk (db_deliveries db2) = Some locked" using assms(2) by simp
  note S = save_delivery_row [OF row2 s, simplified]
  have same23: "shipping_frame db2 db3" "db_orders db3 = db_orders db2" "db_movements db3 = db_movements db2"
    by (rule shipping_frame_delivery [OF S(3)])+
  note T = life_callD [where op = Dispatch, simplified, OF t]
  have f01: "shipping_frame db db1" by (rule shipping_frame_step [OF C(1,2)])
  have f34: "shipping_frame db3 db4" by (rule shipping_frame_step [OF T(1,4)])
  show "has_role user [OWNER]" by (rule auth)
  show "shipping_frame db db'"
    using shipping_frame_trans [OF shipping_frame_trans [OF shipping_frame_trans
        [OF shipping_frame_trans [OF f01 same12(1)] same23(1)] f34] shipping_frame_audit] db' by blast
  show "d = locked\<lparr>dl_dispatched_at := Some (now env), dl_updated_at := now env\<rparr>" using S(2) d by simp
  have dl: "db_deliveries db' = db_deliveries db3" using order_step_deliveries [OF T(1)] db' by simp
  then show "tb_get dl_pk pk (db_deliveries db') = Some d" using S(1) d by simp
  show "deliveries_ok db \<Longrightarrow> deliveries_ok db'"
    using S(4) dl \<open>db_deliveries db2 = db_deliveries db\<close> by (simp add: deliveries_ok_def)
  have mv: "db_movements db' = db_movements db2"
    using order_step_movements [OF T(1)] same23(3) db' by simp
  show "stock_ok db \<Longrightarrow> stock_ok db'"
    using stock mv order_step_movements [OF C(1)] by (simp add: stock_ok_def)
  show "\<exists>ord. row_of ord db \<and> so_pk ord = dl_order locked \<and> so_status ord = CONFIRMED"
    using O o0(2) by blast
  have pk: "so_pk o1 = dl_order locked" using C(1) O by (simp add: order_step_def)
  have "row_of o1 db3"
    using C(1) O row_of_cong [OF same12(2)] row_of_cong [OF same23(2)] by (simp add: order_step_def)
  then have "row_of o4 db'" using order_step_row [OF T(1)] db' by simp
  moreover have "so_pk o4 = dl_order locked" using T(1) pk by (simp add: order_step_def)
  ultimately show "\<exists>ord. row_of ord db' \<and> so_pk ord = dl_order locked \<and> so_status ord = DISPATCHED"
    using T(3) by blast
  have lines: "lines_of k db1 = lines_of k db" for k by (rule shipping_frame_lines [OF f01])
  then show "lines_of (dl_order locked) db \<noteq> []" using ls pk by simp
  show "on_hand_expression None k db' = on_hand_expression None k db - units_of k (lines_of (dl_order locked) db)"
    if "quantities_ok (lines_of (dl_order locked) db)"
    using issue_lines_on_hand [OF m, of k] that lines pk on_hand_cong [OF mv, of None k]
      on_hand_cong [OF order_step_movements [OF C(1)], of None k] by simp
  have "dl_pk locked = pk" using tb_getD [OF assms(2)] by simp
  then show "\<exists>ms. tb_rows (db_movements db') = tb_rows (db_movements db) @ ms \<and>
         moved_lines ''ISSUE'' (- 1) pk (lines_of (dl_order locked) db) ms"
    if "quantities_ok (lines_of (dl_order locked) db)"
    using move_lines_moved [OF m _ _ quantity_signs(1)] that lines pk mv order_step_movements [OF C(1)] by simp
qed

section \<open>Outcomes\<close>

lemma replay_of_None: "replay_of (Some u) db = None \<Longrightarrow> \<not> tb_exists (\<lambda>d. dl_outcome_client_uuid d = Some u) (db_deliveries db)"
  by (auto simp: replay_of_def tb_first_None tb_exists_iff)

lemma save_outcomeD:
  assumes "save_outcome cu f locked db = Inr oc" "replay_of cu db = None"
  shows "\<exists>db'. save_delivery f locked db = (f locked, db') \<and> oc = Saved (f locked) db' \<and> delivery_constraints (f locked)"
  using assms by (auto simp: save_outcome_def save_delivery_def Let_def split: if_splits)

text \<open>The key of a saved outcome finds it again.\<close>

lemma replay_of_saved:
  assumes "deliveries_ok db" "tb_get dl_pk pk (db_deliveries db) = Some locked"
    "replay_of (Some u) db = None" "save_delivery f locked db = (d, db')"
    "\<And>d. dl_pk (f d) = dl_pk d" "\<And>d. dl_outcome_client_uuid (f d) = Some u"
  shows "replay_of (Some u) db' = Some d"
proof -
  have L: "locked \<in> set (tb_rows (db_deliveries db))" "dl_pk locked = pk"
    using tb_getD [OF assms(2)] by auto
  have dist: "distinct (map dl_pk (tb_rows (db_deliveries db)))"
    using assms(1) by (simp add: deliveries_ok_def table_wf_def)
  have old: "\<forall>x \<in> set (tb_rows (db_deliveries db)). dl_outcome_client_uuid x \<noteq> Some u"
    using replay_of_None [OF assms(3)] by (simp add: tb_exists_iff)
  have "find (\<lambda>x. dl_outcome_client_uuid x = Some u) (map (\<lambda>r. if dl_pk r = pk then f r else r) xs) = Some (f locked)"
    if "locked \<in> set xs" "distinct (map dl_pk xs)" "\<forall>x \<in> set xs. dl_outcome_client_uuid x \<noteq> Some u" for xs
    using that
  proof (induction xs)
    case (Cons x xs)
    show ?case
    proof (cases "dl_pk x = pk")
      case True
      then have "x = locked" using Cons.prems(1,2) L(2) by (auto simp: image_iff)
      then show ?thesis using True by (simp add: assms(6))
    next
      case False
      then show ?thesis using Cons L(2) by auto
    qed
  qed simp
  from this [OF L(1) dist old] show ?thesis
    using assms(4) L(2) by (auto simp: save_delivery_def replay_of_def tb_first_def table_simps)
qed

lemma complete_lockedD:
  assumes "complete_locked env user locked a cu db = Inr (d, db')" "replay_of cu db = None"
    "tb_get dl_pk pk (db_deliveries db) = Some locked"
  shows "shipping_frame db db'" "db_movements db' = db_movements db" "dl_status d = HANDED_OVER"
    "tb_get dl_pk pk (db_deliveries db') = Some d" "dl_order d = dl_order locked"
    "deliveries_ok db \<Longrightarrow> deliveries_ok db'"
    "deliveries_ok db \<Longrightarrow> cu = Some u \<Longrightarrow> replay_of cu db' = Some d"
    "\<exists>ord. row_of ord db \<and> so_pk ord = dl_order locked \<and> so_status ord = DISPATCHED"
    "\<exists>ord. row_of ord db' \<and> so_pk ord = dl_order locked \<and> so_status ord = DELIVERED"
proof -
  define f where "f = (\<lambda>d :: delivery. d\<lparr>dl_outcome_client_uuid := cu, dl_status := HANDED_OVER,
          dl_delivered_at := Some (case oa_delivered_at a of None \<Rightarrow> now env | Some t \<Rightarrow> t),
          dl_recipient_name := take 200 (oa_recipient_name a), dl_latitude := oa_latitude a,
          dl_longitude := oa_longitude a, dl_photo_media := oa_photo_media a,
          dl_device_id := take 64 (oa_device_id a), dl_synced_at := Some (now env),
          dl_updated_at := now env\<rparr>)"
  obtain oc where oc: "save_outcome cu f locked db = Inr oc"
    using assms(1) by (auto simp: complete_locked_def f_def [symmetric] result_simps)
  obtain db1 where s: "save_delivery f locked db = (f locked, db1)" and oc': "oc = Saved (f locked) db1"
    using save_outcomeD [OF oc assms(2)] by blast
  obtain o1 o2 db2 ei b st where o1: "get_order (dl_order (f locked)) db1 = Inr o1"
    and t: "mark_delivered env user o1 db1 = Inr (o2, db2)" and d: "d = f locked"
    and db': "db' = record_audit env A_UPDATE ''delivery'' ei user S_WEB b st db2"
    using assms(1) oc oc' by (auto simp: complete_locked_def f_def [symmetric] result_simps)
  have fd: "dl_pk (f x) = dl_pk x" "dl_order (f x) = dl_order x" "dl_outcome_client_uuid (f x) = cu"
    "dl_status (f x) = HANDED_OVER" for x by (simp_all add: f_def)
  note S = save_delivery_row [OF assms(3) s fd(1)] and O = get_orderD [OF o1]
  note F = shipping_frame_delivery [OF S(3)] and T = life_callD [where op = Deliver, simplified, OF t]
  have dl: "db_deliveries db' = db_deliveries db1" using order_step_deliveries [OF T(1)] db' by simp
  show "shipping_frame db db'"
    using shipping_frame_trans [OF shipping_frame_trans [OF F(1) shipping_frame_step [OF T(1,4)]] shipping_frame_audit] db'
    by blast
  show "db_movements db' = db_movements db" using F(3) order_step_movements [OF T(1)] db' by simp
  show "dl_status d = HANDED_OVER" "dl_order d = dl_order locked" by (simp_all add: d fd)
  show "tb_get dl_pk pk (db_deliveries db') = Some d" using S(1) dl d by simp
  show "deliveries_ok db \<Longrightarrow> deliveries_ok db'" using S(4) dl by (simp add: deliveries_ok_def)
  show "deliveries_ok db \<Longrightarrow> cu = Some u \<Longrightarrow> replay_of cu db' = Some d"
    using replay_of_saved [OF _ assms(3) _ s fd(1), of u] assms(2) dl d fd(3) by (simp add: replay_of_def)
  have r1: "row_of o1 db" "so_pk o1 = dl_order locked" using O row_of_cong [OF F(2)] fd(2) by auto
  moreover have "so_status o1 = DISPATCHED" using T(2) by (cases "so_status o1") auto
  ultimately show "\<exists>ord. row_of ord db \<and> so_pk ord = dl_order locked \<and> so_status ord = DISPATCHED" by blast
  have "row_of o2 db'" using order_step_row [OF T(1)] O db' by simp
  then show "\<exists>ord. row_of ord db' \<and> so_pk ord = dl_order locked \<and> so_status ord = DELIVERED"
    using T(1,3) r1 by (intro exI [of _ o2]) (simp add: order_step_def)
qed

lemma fail_lockedD:
  assumes "fail_locked env user locked reason dev cu db = Inr (d, db')" "replay_of cu db = None"
    "tb_get dl_pk pk (db_deliveries db) = Some locked"
  shows "shipping_frame db db'" "db_orders db' = db_orders db" "dl_status d = FAILED"
    "tb_get dl_pk pk (db_deliveries db') = Some d" "dl_order d = dl_order locked"
    "dl_dispatched_at d = dl_dispatched_at locked"
    "deliveries_ok db \<Longrightarrow> deliveries_ok db'" "stock_ok db \<Longrightarrow> stock_ok db'"
    "deliveries_ok db \<Longrightarrow> cu = Some u \<Longrightarrow> replay_of cu db' = Some d"
    "quantities_ok (lines_of (dl_order locked) db) \<Longrightarrow>
       on_hand_expression None k db' = on_hand_expression None k db + units_of k (lines_of (dl_order locked) db)"
    "quantities_ok (lines_of (dl_order locked) db) \<Longrightarrow>
       \<exists>ms. tb_rows (db_movements db') = tb_rows (db_movements db) @ ms \<and>
         moved_lines ''RETURN'' 1 pk (lines_of (dl_order locked) db) ms"
proof -
  define f where "f = (\<lambda>d :: delivery. d\<lparr>dl_outcome_client_uuid := cu, dl_status := FAILED,
          dl_failure_reason := reason, dl_device_id := take 64 dev,
          dl_synced_at := Some (now env), dl_updated_at := now env\<rparr>)"
  obtain oc where oc: "save_outcome cu f locked db = Inr oc"
    using assms(1) by (auto simp: fail_locked_def f_def [symmetric] result_simps)
  obtain db1 where s: "save_delivery f locked db = (f locked, db1)" and oc': "oc = Saved (f locked) db1"
    using save_outcomeD [OF oc assms(2)] by blast
  obtain o1 nts db2 ei b st where o1: "get_order (dl_order (f locked)) db1 = Inr o1"
    and m: "for_each (lines_of (so_pk o1) db1) (move_line env user (f locked) ''RETURN'' abs nts) db1 = Inr db2"
    and d: "d = f locked"
    and db': "db' = record_audit env A_UPDATE ''delivery'' ei user S_WEB b st db2"
    using assms(1) oc oc' by (auto simp: fail_locked_def f_def [symmetric] result_simps)
  have fd: "dl_pk (f x) = dl_pk x" "dl_order (f x) = dl_order x" "dl_outcome_client_uuid (f x) = cu"
    "dl_status (f x) = FAILED" "dl_dispatched_at (f x) = dl_dispatched_at x" for x by (simp_all add: f_def)
  note S = save_delivery_row [OF assms(3) s fd(1)] and O = get_orderD [OF o1]
  note M = move_linesD [OF m, simplified, THEN conjunct1]
  note F = shipping_frame_delivery [OF S(3)] and G = shipping_frame_stock [OF M]
  have stock: "stock_ok db1 \<longrightarrow> stock_ok db2" using move_linesD [OF m] by simp
  have dl: "db_deliveries db' = db_deliveries db1" using G(3) db' by simp
  show "shipping_frame db db'"
    using shipping_frame_trans [OF shipping_frame_trans [OF F(1) G(1)] shipping_frame_audit] db' by blast
  show "db_orders db' = db_orders db" using F(2) G(2) db' by simp
  show "dl_status d = FAILED" "dl_order d = dl_order locked" "dl_dispatched_at d = dl_dispatched_at locked"
    by (simp_all add: d fd)
  show "tb_get dl_pk pk (db_deliveries db') = Some d" using S(1) dl d by simp
  show "deliveries_ok db \<Longrightarrow> deliveries_ok db'" using S(4) dl by (simp add: deliveries_ok_def)
  show "stock_ok db \<Longrightarrow> stock_ok db'" using stock F(3) db' by (simp add: stock_ok_def)
  show "deliveries_ok db \<Longrightarrow> cu = Some u \<Longrightarrow> replay_of cu db' = Some d"
    using replay_of_saved [OF _ assms(3) _ s fd(1), of u] assms(2) dl d fd(3) by (simp add: replay_of_def)
  have ls: "lines_of (so_pk o1) db1 = lines_of (dl_order locked) db"
    using O fd(2) shipping_frame_lines [OF F(1)] by simp
  have "dl_pk (f locked) = pk" using tb_getD [OF assms(3)] fd(1) by simp
  then show "\<exists>ms. tb_rows (db_movements db') = tb_rows (db_movements db) @ ms \<and>
         moved_lines ''RETURN'' 1 pk (lines_of (dl_order locked) db) ms"
    if "quantities_ok (lines_of (dl_order locked) db)"
    using move_lines_moved [OF m _ _ quantity_signs(2)] that ls F(3) db' by simp
  from ls show "on_hand_expression None k db' = on_hand_expression None k db + units_of k (lines_of (dl_order locked) db)"
    if "quantities_ok (lines_of (dl_order locked) db)"
    using return_lines_on_hand [OF m, of k] that on_hand_cong [OF F(3), of None k] db'
    by (simp add: on_hand_expression_def)
qed

lemma complete_delivery_cases:
  "complete_delivery env user pk a cu db = Inr (d, db') \<longleftrightarrow>
     has_role user INTERNAL \<and>
     (case replay_of cu db of Some r \<Rightarrow> d = r \<and> db' = db
      | None \<Rightarrow> \<exists>locked. tb_get dl_pk pk (db_deliveries db) = Some locked \<and> dl_dispatched_at locked \<noteq> None \<and>
          (if dl_status locked \<noteq> PENDING then d = locked \<and> db' = db
           else complete_locked env user locked a cu db = Inr (d, db')))"
  by (auto simp: complete_delivery_def lock_dispatched_def result_simps split: option.splits if_splits)

lemma fail_delivery_cases:
  "fail_delivery env user pk reason dev cu db = Inr (d, db') \<longleftrightarrow>
     has_role user INTERNAL \<and> strip reason \<noteq> '''' \<and>
     (case replay_of cu db of Some r \<Rightarrow> d = r \<and> db' = db
      | None \<Rightarrow> \<exists>locked. tb_get dl_pk pk (db_deliveries db) = Some locked \<and> dl_dispatched_at locked \<noteq> None \<and>
          (if dl_status locked \<noteq> PENDING then d = locked \<and> db' = db
           else fail_locked env user locked (strip reason) dev cu db = Inr (d, db')))"
  by (auto simp: fail_delivery_def lock_dispatched_def result_simps Let_def split: option.splits if_splits)

lemma replay_of_Some_key: "replay_of cu db = Some r \<Longrightarrow> \<exists>u. cu = Some u"
  by (cases cu) (auto simp: replay_of_def)

interpretation complete: idempotent_writer
  "\<lambda>(env, user, pk, a, cu) (db :: 'a fulfilment_db_scheme). complete_delivery env user pk a cu db"
  "\<lambda>(env, user, pk, a, cu). cu" "\<lambda>u. replay_of (Some u)"
  "\<lambda>(env, user, pk, a, cu). has_role user INTERNAL" deliveries_ok
proof (unfold_locales, goal_cases)
  case (1 q k db r)
  then show ?case by (auto simp: complete_delivery_cases split: prod.splits)
next
  case (2 q db x)
  then show ?case by (cases x) (auto simp: complete_delivery_cases split: prod.splits)
next
  case (3 db q k r db')
  then show ?case
    by (auto simp: complete_delivery_cases split: prod.splits if_splits dest: complete_lockedD(7))
qed

interpretation fail: idempotent_writer
  "\<lambda>(env, user, pk, reason, dev, cu) (db :: 'a fulfilment_db_scheme). fail_delivery env user pk reason dev cu db"
  "\<lambda>(env, user, pk, reason, dev, cu). cu" "\<lambda>u. replay_of (Some u)"
  "\<lambda>(env, user, pk, reason, dev, cu). has_role user INTERNAL \<and> strip reason \<noteq> ''''" deliveries_ok
proof (unfold_locales, goal_cases)
  case (1 q k db r)
  then show ?case by (auto simp: fail_delivery_cases split: prod.splits)
next
  case (2 q db x)
  then show ?case by (cases x) (auto simp: fail_delivery_cases split: prod.splits)
next
  case (3 db q k r db')
  then show ?case
    by (auto simp: fail_delivery_cases split: prod.splits if_splits dest: fail_lockedD(9))
qed

text \<open>A delivery whose outcome is recorded: no service changes anything any more.\<close>

lemma closed_delivery:
  assumes "tb_get dl_pk pk (db_deliveries db) = Some d" "dl_dispatched_at d \<noteq> None" "dl_status d \<noteq> PENDING"
  shows "dispatch_delivery env user pk over db = Inr (x, db') \<Longrightarrow> x = d \<and> db' = db"
    "complete_delivery env user pk a cu db = Inr (x, db') \<Longrightarrow> db' = db"
    "fail_delivery env user pk reason dev cu db = Inr (x, db') \<Longrightarrow> db' = db"
    "row_of ord db \<Longrightarrow> so_pk ord = dl_order d \<Longrightarrow>
       assign_delivery env user (so_pk ord) assigned cu db = Inr (x, db') \<Longrightarrow> db' = db"
proof -
  show "dispatch_delivery env user pk over db = Inr (x, db') \<Longrightarrow> x = d \<and> db' = db"
    using assms by (auto simp: dispatch_delivery_def split: if_splits)
  show "complete_delivery env user pk a cu db = Inr (x, db') \<Longrightarrow> db' = db"
    using assms by (auto simp: complete_delivery_cases split: option.splits)
  show "fail_delivery env user pk reason dev cu db = Inr (x, db') \<Longrightarrow> db' = db"
    using assms by (auto simp: fail_delivery_cases split: option.splits)
  assume r: "row_of ord db" "so_pk ord = dl_order d"
    and e: "assign_delivery env user (so_pk ord) assigned cu db = Inr (x, db')"
  have "tb_first (\<lambda>y. dl_order y = so_pk ord) (db_deliveries db) \<noteq> None"
    using tb_getD [OF assms(1)] r(2) by (auto simp: tb_first_None)
  then obtain y where "tb_first (\<lambda>y. dl_order y = so_pk ord) (db_deliveries db) = Some y" by blast
  moreover have "get_order (so_pk ord) db = Inr ord" using r(1) by (simp add: get_order_def row_of_def)
  ultimately show "db' = db" using e
    by (simp add: assign_delivery_def split: if_splits option.splits)
qed

definition empty_fulfilment_db :: fulfilment_db where
  "empty_fulfilment_db = orders_db.extend empty_orders_db (fulfilment_db.fields empty_table)"

text \<open>Reporting an outcome any number of times is reporting it once.\<close>

lemma outcome_retries_are_harmless:
  assumes "deliveries_ok db"
  shows "(complete_delivery env user pk a (Some k) db = Inr (d, db') \<longrightarrow>
       complete.retry n (env, user, pk, a, Some k) db = Inr (d, db')) \<and>
    (fail_delivery env user pk reason dev (Some k) db = Inr (d, db') \<longrightarrow>
       fail.retry n (env, user, pk, reason, dev, Some k) db = Inr (d, db'))"
proof (intro conjI impI)
  assume c: "complete_delivery env user pk a (Some k) db = Inr (d, db')"
  show "complete.retry n (env, user, pk, a, Some k) db = Inr (d, db')"
    by (rule complete.any_number_of_retries [OF assms, where k = k]) (use c in simp_all)
next
  assume f: "fail_delivery env user pk reason dev (Some k) db = Inr (d, db')"
  show "fail.retry n (env, user, pk, reason, dev, Some k) db = Inr (d, db')"
    by (rule fail.any_number_of_retries [OF assms, where k = k]) (use f in simp_all)
qed

end
