(* ===== verification/Numbering.thy ===== *)
theory Numbering
  imports Fulfilment
begin

text \<open>
  Document numbers: \<^verbatim>\<open>NumberSeries\<close>, \<^verbatim>\<open>financial_year_for\<close> and the immutable documents of
  \<^verbatim>\<open>billing/models.py\<close>, and \<^verbatim>\<open>allocate_number\<close> of \<^verbatim>\<open>billing/services.py\<close>.

  A series is a counter row per kind of document and financial year.  \<open>gapless_for\<close> is its
  contract: the documents that name a series carry the numbers from one to the counter's value,
  in the order they were issued, each exactly once.
\<close>


section \<open>The financial year\<close>

definition financial_year_for :: "date \<Rightarrow> string" where
  "financial_year_for d =
     (let start = (if d_month d \<ge> 4 then d_year d else d_year d - 1)
      in str_int start @ ''-'' @ str_int (start + 1))"


section \<open>Series\<close>

record number_series =
  ns_pk :: nat
  ns_series_key :: string
  ns_financial_year :: string
  ns_prefix :: string
  ns_current_value :: nat
  ns_padding :: nat
  ns_is_active :: bool

record numbering_db = fulfilment_db +
  db_series :: "number_series table"

definition series_format :: "number_series \<Rightarrow> nat \<Rightarrow> string" where
  "series_format s n = ns_prefix s @ zero_pad (ns_padding s) n"

text \<open>The keys of a series and the prefix a new year's series starts with.\<close>

definition SERIES_DEFAULTS :: "(string \<times> string) list" where
  "SERIES_DEFAULTS = [(''INVOICE'', ''INV/''), (''CREDIT_NOTE'', ''CN/'')]"

definition short_year :: "string \<Rightarrow> string" where
  "short_year year = take 2 (drop 2 year) @ ''-'' @ drop (length year - 2) year"

definition series_of ::
  "string \<Rightarrow> string \<Rightarrow> string \<Rightarrow> 'a numbering_db_scheme \<Rightarrow> number_series \<times> 'a numbering_db_scheme" where
  "series_of series_key prefix year db =
     (case tb_first (\<lambda>s. ns_series_key s = series_key \<and> ns_financial_year s = year) (db_series db) of
        Some s \<Rightarrow> (s, db)
      | None \<Rightarrow>
          let (s, t) = tb_insert (\<lambda>pk. \<lparr>ns_pk = pk, ns_series_key = series_key, ns_financial_year = year,
                 ns_prefix = prefix @ short_year year @ ''/'', ns_current_value = 0, ns_padding = 5,
                 ns_is_active = True\<rparr>) (db_series db)
          in (s, db\<lparr>db_series := t\<rparr>))"

definition allocate_number ::
  "string \<Rightarrow> date \<Rightarrow> 'a numbering_db_scheme \<Rightarrow> error + (number_series \<times> string) \<times> 'a numbering_db_scheme" where
  "allocate_number series_key d db =
     (case map_of SERIES_DEFAULTS series_key of None \<Rightarrow> Inl (invalid ''series_key'' ''INVALID'')
      | Some prefix \<Rightarrow>
          let (series, db) = series_of series_key prefix (financial_year_for d) db
          in andThen (require (ns_is_active series) (invalid ''series_key'' ''INACTIVE'')) (\<lambda>_.
             let locked = series\<lparr>ns_current_value := ns_current_value series + 1\<rparr>
             in Inr ((locked, series_format locked (ns_current_value locked)),
                  db\<lparr>db_series := tb_update ns_pk (ns_pk series)
                       (\<lambda>s. s\<lparr>ns_current_value := ns_current_value locked\<rparr>) (db_series db)\<rparr>)))"


section \<open>Immutable documents\<close>

text \<open>
  \<open>save()\<close> and \<open>delete()\<close> of a document that has a primary key, and the bulk operations: only a
  \<open>save\<close> that names columns of the document's exception passes.
\<close>

definition INVOICE_MUTABLE :: "string list" where
  "INVOICE_MUTABLE = [''status'', ''cancelled_reason'', ''cancelled_at'', ''cancelled_by'', ''pdf_media'']"

definition document_save :: "string \<Rightarrow> string list \<Rightarrow> string list \<Rightarrow> error + unit" where
  "document_save name mutable update_fields =
     require (update_fields \<noteq> [] \<and> set update_fields \<subseteq> set mutable) (Immutable name)"

definition document_delete :: "string \<Rightarrow> error + unit" where
  "document_delete name = Inl (Immutable name)"

definition documents_bulk_update :: "string \<Rightarrow> error + unit" where
  "documents_bulk_update name = Inl (Immutable name)"

definition documents_bulk_delete :: "string \<Rightarrow> error + unit" where
  "documents_bulk_delete name = Inl (Immutable name)"


section \<open>Gapless numbers\<close>

definition gapless_for :: "string \<Rightarrow> (nat \<times> string) list \<Rightarrow> number_series table \<Rightarrow> bool" where
  "gapless_for key docs t \<longleftrightarrow>
     (\<forall>s \<in> set (tb_rows t). ns_series_key s = key \<longrightarrow>
        map snd (filter (\<lambda>d. fst d = ns_pk s) docs) = map (series_format s) [1..<Suc (ns_current_value s)]) \<and>
     (\<forall>d \<in> set docs. \<exists>s \<in> set (tb_rows t). ns_pk s = fst d \<and> ns_series_key s = key)"

definition series_ok :: "number_series table \<Rightarrow> bool" where
  "series_ok t \<longleftrightarrow> table_wf ns_pk t \<and>
     distinct (map (\<lambda>s. (ns_series_key s, ns_financial_year s)) (tb_rows t))"

lemma record_audit_series [simp, frame_simps]:
  "db_series (record_audit env a et ei u s b c db) = db_series db"
  by (simp add: record_audit_def record_audit_from_def)

lemma series_of_cases:
  assumes "series_of key prefix year db = (s, db')"
  obtains (found) "db' = db" "s \<in> set (tb_rows (db_series db))" "ns_series_key s = key"
      "ns_financial_year s = year"
    | (created) "\<forall>x \<in> set (tb_rows (db_series db)). ns_series_key x = key \<longrightarrow> ns_financial_year x \<noteq> year"
      "ns_pk s = tb_seq (db_series db)" "ns_series_key s = key" "ns_financial_year s = year"
      "ns_current_value s = 0" "db' = db\<lparr>db_series := db_series db'\<rparr>"
      "tb_rows (db_series db') = tb_rows (db_series db) @ [s]"
      "tb_seq (db_series db') = Suc (tb_seq (db_series db))"
proof (cases "tb_first (\<lambda>s. ns_series_key s = key \<and> ns_financial_year s = year) (db_series db)")
  case None
  then have "s = \<lparr>ns_pk = tb_seq (db_series db), ns_series_key = key, ns_financial_year = year,
        ns_prefix = prefix @ short_year year @ ''/'', ns_current_value = 0, ns_padding = 5,
        ns_is_active = True\<rparr>"
    "db' = db\<lparr>db_series := \<lparr>tb_seq = Suc (tb_seq (db_series db)), tb_rows = tb_rows (db_series db) @ [s]\<rparr>\<rparr>"
    using assms by (auto simp: series_of_def tb_insert_def Let_def)
  then show ?thesis using created None [unfolded tb_first_None] by simp
next
  case (Some x)
  then show ?thesis using assms found by (auto simp: series_of_def dest: tb_firstD)
qed

lemma series_ofD:
  assumes "series_of key prefix year db = (s, db')" "series_ok (db_series db)"
  shows "s \<in> set (tb_rows (db_series db'))" "ns_series_key s = key" "ns_financial_year s = year"
    "series_ok (db_series db')" "db' = db\<lparr>db_series := db_series db'\<rparr>"
proof -
  from assms(1) have "s \<in> set (tb_rows (db_series db')) \<and> ns_series_key s = key \<and> ns_financial_year s = year \<and>
    series_ok (db_series db') \<and> db' = db\<lparr>db_series := db_series db'\<rparr>"
  proof (cases rule: series_of_cases)
    case found
    then show ?thesis using assms(2) by simp
  next
    case created
    have "table_wf ns_pk (db_series db')"
      using assms(2) created(2,7,8)
      by (intro table_wf_append [where key = ns_pk, OF _ created(7,8,2)]) (simp add: series_ok_def)
    moreover have "distinct (map (\<lambda>s. (ns_series_key s, ns_financial_year s)) (tb_rows (db_series db')))"
      using assms(2) created(1,3,4,7) by (auto simp: series_ok_def)
    ultimately show ?thesis using created(3-7) by (simp add: series_ok_def)
  qed
  then show "s \<in> set (tb_rows (db_series db'))" "ns_series_key s = key" "ns_financial_year s = year"
    "series_ok (db_series db')" "db' = db\<lparr>db_series := db_series db'\<rparr>" by blast+
qed

lemma series_of_gapless:
  assumes "series_of key prefix year db = (s, db')" "series_ok (db_series db)" "gapless_for k docs (db_series db)"
  shows "gapless_for k docs (db_series db')"
  using assms(1)
proof (cases rule: series_of_cases)
  case found
  then show ?thesis using assms(3) by simp
next
  case created
  have "fst x \<noteq> ns_pk s" if "x \<in> set docs" for x
    using assms(2,3) that created(2)
    unfolding gapless_for_def series_ok_def table_wf_def list_all_iff by fastforce
  then have "filter (\<lambda>d. fst d = ns_pk s) docs = []" by (simp add: filter_empty_conv)
  then show ?thesis using assms(3) created(5) unfolding gapless_for_def created(7) by auto
qed

lemma allocate_number_unfold:
  assumes "allocate_number key d db = Inr ((s, number), db')"
  obtains prefix s0 db1 where "map_of SERIES_DEFAULTS key = Some prefix"
    "series_of key prefix (financial_year_for d) db = (s0, db1)"
    "s = s0\<lparr>ns_current_value := ns_current_value s0 + 1\<rparr>"
    "number = series_format s (ns_current_value s)"
    "db' = db1\<lparr>db_series := tb_update ns_pk (ns_pk s0)
       (\<lambda>x. x\<lparr>ns_current_value := ns_current_value s\<rparr>) (db_series db1)\<rparr>"
proof (cases "map_of SERIES_DEFAULTS key")
  case None
  then show ?thesis using assms by (simp add: allocate_number_def)
next
  case (Some prefix)
  obtain s0 db1 where s0: "series_of key prefix (financial_year_for d) db = (s0, db1)" by fastforce
  show ?thesis
  proof (rule that [OF Some s0])
    note e = assms [unfolded allocate_number_def Some option.case s0 Let_def prod.case andThen_require]
    have "ns_is_active s0" using e by (simp split: if_splits)
    note e' = e [unfolded if_P [OF this]]
    show "s = s0\<lparr>ns_current_value := ns_current_value s0 + 1\<rparr>"
      "number = series_format s (ns_current_value s)"
      "db' = db1\<lparr>db_series := tb_update ns_pk (ns_pk s0)
         (\<lambda>x. x\<lparr>ns_current_value := ns_current_value s\<rparr>) (db_series db1)\<rparr>"
      using e' by auto
  qed
qed

lemma allocate_numberD:
  assumes "allocate_number key d db = Inr ((s, number), db')" "series_ok (db_series db)"
  shows "db' = db\<lparr>db_series := db_series db'\<rparr>" "series_ok (db_series db')"
    "ns_series_key s = key" "ns_financial_year s = financial_year_for d"
    "s \<in> set (tb_rows (db_series db'))" "number = series_format s (ns_current_value s)"
    "gapless_for key docs (db_series db) \<Longrightarrow> gapless_for key (docs @ [(ns_pk s, number)]) (db_series db')"
    "k \<noteq> key \<Longrightarrow> gapless_for k docs (db_series db) \<Longrightarrow> gapless_for k docs (db_series db')"
proof -
  obtain prefix s0 db1 where p: "map_of SERIES_DEFAULTS key = Some prefix"
    "series_of key prefix (financial_year_for d) db = (s0, db1)"
    and s: "s = s0\<lparr>ns_current_value := ns_current_value s0 + 1\<rparr>"
    "number = series_format s (ns_current_value s)"
    "db' = db1\<lparr>db_series := tb_update ns_pk (ns_pk s0)
       (\<lambda>x. x\<lparr>ns_current_value := ns_current_value s\<rparr>) (db_series db1)\<rparr>"
    using assms(1) by (rule allocate_number_unfold)
  note S = series_ofD [OF p(2) assms(2)]
  have inj: "x = s0" if "x \<in> set (tb_rows (db_series db1))" "ns_pk x = ns_pk s0" for x
    by (rule table_wf_inj [OF S(4) [unfolded series_ok_def, THEN conjunct1] that(1) S(1) that(2)])
  have rows: "tb_rows (db_series db') = map (\<lambda>x. if x = s0 then s else x) (tb_rows (db_series db1))"
    unfolding s(3) by (auto simp: table_simps inj s(1) intro!: map_cong)
  have same: "ns_pk s = ns_pk s0" "ns_series_key s = key" "ns_financial_year s = financial_year_for d"
    "series_format s = series_format s0" "ns_current_value s = Suc (ns_current_value s0)"
    using S(2,3) by (simp_all add: s(1) series_format_def fun_eq_iff)
  show "ns_series_key s = key" "ns_financial_year s = financial_year_for d"
    "number = series_format s (ns_current_value s)"
    using same s(2) by simp_all
  show "s \<in> set (tb_rows (db_series db'))" using S(1) rows by force
  have "db1\<lparr>db_series := t\<rparr> = db\<lparr>db_series := t\<rparr>" for t
    using arg_cong [OF S(5), of "\<lambda>d. d\<lparr>db_series := t\<rparr>"] by simp
  then show "db' = db\<lparr>db_series := db_series db'\<rparr>" by (simp add: s(3))
  have keys: "map (\<lambda>s. (ns_series_key s, ns_financial_year s)) (tb_rows (db_series db'))
      = map (\<lambda>s. (ns_series_key s, ns_financial_year s)) (tb_rows (db_series db1))"
    using same S(2,3) unfolding rows by (simp add: comp_def)
  have "table_wf ns_pk (db_series db')"
    using S(4) unfolding s(3) series_ok_def by (auto intro!: table_wf_update)
  then show "series_ok (db_series db')" using S(4) keys by (simp add: series_ok_def)
  show "gapless_for key (docs @ [(ns_pk s, number)]) (db_series db')"
    if g: "gapless_for key docs (db_series db)"
  proof -
    have g1: "gapless_for key docs (db_series db1)" by (rule series_of_gapless [OF p(2) assms(2) g])
    have num: "map snd (filter (\<lambda>x. fst x = ns_pk s0) docs)
        = map (series_format s0) [1..<Suc (ns_current_value s0)]"
      using g1 S(1,2) unfolding gapless_for_def by blast
    have "map snd (filter (\<lambda>x. fst x = ns_pk r) (docs @ [(ns_pk s, number)]))
        = map (series_format r) [1..<Suc (ns_current_value r)]"
      if r: "r \<in> set (tb_rows (db_series db'))" "ns_series_key r = key" for r
    proof (cases "r = s")
      case True
      then show ?thesis using num same s(2) by simp
    next
      case False
      then have "r \<in> set (tb_rows (db_series db1))" "r \<noteq> s0" using r(1) rows by auto
      then have "ns_pk r \<noteq> ns_pk s0" using inj by blast
      then show ?thesis
        using g1 r(2) \<open>r \<in> set (tb_rows (db_series db1))\<close> same(1) unfolding gapless_for_def by simp
    qed
    moreover have "\<exists>r \<in> set (tb_rows (db_series db')). ns_pk r = fst x \<and> ns_series_key r = key"
      if x: "x \<in> set (docs @ [(ns_pk s, number)])" for x
    proof -
      obtain r where r: "r \<in> set (tb_rows (db_series db1))" "ns_pk r = fst x" "ns_series_key r = key"
        using x g1 S(1,2) same(1) unfolding gapless_for_def by auto
      then have "(if r = s0 then s else r) \<in> set (tb_rows (db_series db'))" by (simp add: rows)
      then show ?thesis using r same(1,2) by (metis (full_types))
    qed
    ultimately show ?thesis unfolding gapless_for_def by blast
  qed
  show "gapless_for k docs (db_series db')" if g: "k \<noteq> key" "gapless_for k docs (db_series db)"
  proof -
    have g1: "gapless_for k docs (db_series db1)" by (rule series_of_gapless [OF p(2) assms(2) g(2)])
    have "\<exists>r \<in> set (tb_rows (db_series db')). ns_pk r = fst x \<and> ns_series_key r = k"
      if x: "x \<in> set docs" for x
    proof -
      obtain r where r: "r \<in> set (tb_rows (db_series db1))" "ns_pk r = fst x" "ns_series_key r = k"
        using x g1 unfolding gapless_for_def by blast
      then have "r \<noteq> s0" using S(2) g(1) by auto
      then have "r \<in> set (tb_rows (db_series db'))" using r(1) by (force simp: rows)
      then show ?thesis using r by blast
    qed
    moreover have "r \<in> set (tb_rows (db_series db1))"
      if "r \<in> set (tb_rows (db_series db'))" "ns_series_key r = k" for r
      using that g(1) same(2) by (auto simp: rows split: if_splits)
    ultimately show ?thesis using g1 unfolding gapless_for_def by blast
  qed
qed

definition empty_numbering_db :: numbering_db where
  "empty_numbering_db = fulfilment_db.extend empty_fulfilment_db (numbering_db.fields empty_table)"

end
