(* ===== verification/Billing.thy ===== *)
theory Billing
  imports Numbering
begin

text \<open>
  Billing: \<^verbatim>\<open>billing/models.py\<close>, \<^verbatim>\<open>services.py\<close> and \<^verbatim>\<open>selectors.py\<close>.  The invoice is the moment money
  becomes owed; the credit note corrects it.  Both are written once, with their ledger entry in
  the same transaction.

  The seller and buyer snapshots, the tax split and the money columns that both documents and
  their lines share are records of their own, as they share one abstract model in the code.
\<close>


section \<open>Documents\<close>

record tax_split =
  tx_cgst :: decimal
  tx_sgst :: decimal
  tx_igst :: decimal

record seller_snapshot =
  sl_legal_name :: string
  sl_gstin :: string
  sl_address :: string
  sl_state_code :: string

record buyer_snapshot =
  by_name :: string
  by_gstin :: string
  by_address :: string
  by_state_code :: string
  by_state_assumed :: bool

record doc_amounts =
  da_subtotal :: decimal
  da_discount :: decimal
  da_taxable :: decimal
  da_tax :: tax_split
  da_round_off :: decimal
  da_total :: decimal

record money_document =
  md_financial_year :: string
  md_number_series :: nat
  md_customer :: nat
  md_seller :: seller_snapshot
  md_buyer :: buyer_snapshot
  md_amounts :: doc_amounts

datatype invoice_status = IV_ISSUED | IV_CANCELLED

record invoice = money_document +
  iv_pk :: nat
  iv_invoice_number :: string
  iv_sales_order :: "nat option"
  iv_client_uuid :: "string option"
  iv_invoice_date :: date
  iv_status :: invoice_status
  iv_cancelled_reason :: string
  iv_cancelled_at :: "int option"
  iv_cancelled_by :: "nat option"
  iv_pdf_media :: "nat option"
  iv_issued_by :: "nat option"

record credit_note = money_document +
  cn_pk :: nat
  cn_credit_note_number :: string
  cn_invoice :: nat
  cn_client_uuid :: "string option"
  cn_credit_note_date :: date
  cn_reason :: string
  cn_reason_code :: "nat option"
  cn_issued_by :: "nat option"

record doc_line =
  bl_line_number :: nat
  bl_product :: "nat option"
  bl_product_code :: string
  bl_product_name :: string
  bl_hsn_code :: string
  bl_quantity :: decimal
  bl_unit_name :: string
  bl_unit_price :: decimal
  bl_discount_amount :: decimal
  bl_taxable_amount :: decimal
  bl_tax_rate_percent :: decimal
  bl_tax :: tax_split
  bl_line_total :: decimal

record invoice_line = doc_line +
  il_pk :: nat
  il_invoice :: nat

record credit_note_line = doc_line +
  cl_pk :: nat
  cl_credit_note :: nat

record billing_db = numbering_db +
  db_invoices :: "invoice table"
  db_invoice_lines :: "invoice_line table"
  db_credit_notes :: "credit_note table"
  db_credit_note_lines :: "credit_note_line table"

text \<open>The CHECK constraints.\<close>

definition gst_split_ok :: "tax_split \<Rightarrow> bool" where
  "gst_split_ok t \<longleftrightarrow> tx_igst t = 0 \<or> (tx_cgst t = 0 \<and> tx_sgst t = 0)"

definition amounts_nonneg :: "doc_amounts \<Rightarrow> bool" where
  "amounts_nonneg a \<longleftrightarrow>
     0 \<le> da_subtotal a \<and> 0 \<le> da_discount a \<and> 0 \<le> da_taxable a \<and> 0 \<le> tx_cgst (da_tax a) \<and>
     0 \<le> tx_sgst (da_tax a) \<and> 0 \<le> tx_igst (da_tax a) \<and> 0 \<le> da_total a"

definition invoice_constraints :: "invoice \<Rightarrow> bool" where
  "invoice_constraints i \<longleftrightarrow> amounts_nonneg (md_amounts i) \<and> gst_split_ok (da_tax (md_amounts i)) \<and>
     (iv_status i = IV_CANCELLED \<longrightarrow> iv_cancelled_reason i \<noteq> '''')"

definition credit_note_constraints :: "credit_note \<Rightarrow> bool" where
  "credit_note_constraints n \<longleftrightarrow> amounts_nonneg (md_amounts n) \<and> 0 < da_total (md_amounts n) \<and>
     gst_split_ok (da_tax (md_amounts n)) \<and> cn_reason n \<noteq> ''''"

definition doc_line_constraints :: "'a doc_line_scheme \<Rightarrow> bool" where
  "doc_line_constraints l \<longleftrightarrow> 0 < bl_quantity l \<and> gst_split_ok (bl_tax l)"

definition insert_invoice ::
  "(nat \<Rightarrow> invoice) \<Rightarrow> 'a billing_db_scheme \<Rightarrow> error + invoice \<times> 'a billing_db_scheme" where
  "insert_invoice mk db =
     (let (i, t) = tb_insert mk (db_invoices db)
      in andThen (require (invoice_constraints i) (IntegrityError ''invoice'')) (\<lambda>_.
         andThen (require (\<not> tb_exists (\<lambda>x. iv_invoice_number x = iv_invoice_number i) (db_invoices db))
                    (IntegrityError ''invoice_invoice_number'')) (\<lambda>_.
         andThen (require (iv_client_uuid i = None \<or> \<not> tb_exists (\<lambda>x. iv_client_uuid x = iv_client_uuid i) (db_invoices db))
                    (IntegrityError ''invoice_client_uuid'')) (\<lambda>_.
         andThen (require (iv_sales_order i = None \<or> \<not> tb_exists (\<lambda>x. iv_sales_order x = iv_sales_order i) (db_invoices db))
                    (IntegrityError ''uq_invoice_sales_order'')) (\<lambda>_.
         Inr (i, db\<lparr>db_invoices := t\<rparr>))))))"

definition insert_credit_note ::
  "(nat \<Rightarrow> credit_note) \<Rightarrow> 'a billing_db_scheme \<Rightarrow> error + credit_note \<times> 'a billing_db_scheme" where
  "insert_credit_note mk db =
     (let (n, t) = tb_insert mk (db_credit_notes db)
      in andThen (require (credit_note_constraints n) (IntegrityError ''credit_note'')) (\<lambda>_.
         andThen (require (\<not> tb_exists (\<lambda>x. cn_credit_note_number x = cn_credit_note_number n) (db_credit_notes db))
                    (IntegrityError ''credit_note_credit_note_number'')) (\<lambda>_.
         andThen (require (cn_client_uuid n = None \<or> \<not> tb_exists (\<lambda>x. cn_client_uuid x = cn_client_uuid n) (db_credit_notes db))
                    (IntegrityError ''credit_note_client_uuid'')) (\<lambda>_.
         Inr (n, db\<lparr>db_credit_notes := t\<rparr>)))))"


section \<open>Snapshots and money\<close>

definition seller_snapshot_of :: "business_profile \<Rightarrow> seller_snapshot" where
  "seller_snapshot_of p =
     \<lparr>sl_legal_name = bp_legal_name p, sl_gstin = bp_gstin p,
      sl_address = join '', '' (filter (\<lambda>s. s \<noteq> '''')
        [bp_address_line1 p, bp_address_line2 p, bp_city p, bp_state p, bp_pin_code p]),
      sl_state_code = bp_state_code p\<rparr>"

definition buyer_snapshot_of :: "customer \<Rightarrow> string \<Rightarrow> buyer_snapshot" where
  "buyer_snapshot_of c seller_state_code =
     (let resolved = state_code_for c
      in \<lparr>by_name = cu_shop_name c, by_gstin = cu_gstin c, by_address = cu_billing_address c,
          by_state_code = (if resolved \<noteq> '''' then resolved else seller_state_code),
          by_state_assumed = (resolved = '''')\<rparr>)"

definition split_tax :: "decimal \<Rightarrow> bool \<Rightarrow> tax_split" where
  "split_tax tax_amount intra_state =
     (let tax_amount = to_money tax_amount
      in if \<not> intra_state then \<lparr>tx_cgst = 0, tx_sgst = 0, tx_igst = tax_amount\<rparr>
         else let cgst = to_money (tax_amount / 2)
              in \<lparr>tx_cgst = cgst, tx_sgst = to_money (tax_amount - cgst), tx_igst = 0\<rparr>)"

definition round_off :: "decimal \<Rightarrow> decimal \<times> decimal" where
  "round_off raw_total =
     (let raw_total = to_money raw_total; payable = quantize raw_total 1
      in (to_money (payable - raw_total), to_money payable))"

text \<open>The money columns of a document from its accumulated sums.\<close>

definition amounts_of :: "decimal \<Rightarrow> decimal \<Rightarrow> decimal \<Rightarrow> decimal \<Rightarrow> bool \<Rightarrow> doc_amounts" where
  "amounts_of subtotal discount taxable tax intra_state =
     (let (off, payable) = round_off (taxable + tax)
      in \<lparr>da_subtotal = to_money subtotal, da_discount = to_money discount, da_taxable = to_money taxable,
          da_tax = split_tax tax intra_state, da_round_off = off, da_total = payable\<rparr>)"

definition tax_total :: "tax_split \<Rightarrow> decimal" where
  "tax_total t = tx_cgst t + tx_sgst t + tx_igst t"


section \<open>Issuing an invoice\<close>

definition invoice_line_of :: "invoice \<Rightarrow> bool \<Rightarrow> nat \<Rightarrow> order_line \<Rightarrow> product \<Rightarrow> nat \<Rightarrow> invoice_line" where
  "invoice_line_of i intra_state index l p pk =
     \<lparr>bl_line_number = index, bl_product = Some (ol_product l), bl_product_code = ol_product_code l,
      bl_product_name = ol_product_name l, bl_hsn_code = pr_hsn_code p, bl_quantity = ol_quantity l,
      bl_unit_name = ol_unit_name l, bl_unit_price = ol_unit_price l,
      bl_discount_amount = ol_discount_amount l, bl_taxable_amount = ol_taxable_amount l,
      bl_tax_rate_percent = ol_tax_rate_percent l, bl_tax = split_tax (ol_tax_amount l) intra_state,
      bl_line_total = ol_line_total l, il_pk = pk, il_invoice = iv_pk i\<rparr>"

definition insert_invoice_line ::
  "invoice \<Rightarrow> bool \<Rightarrow> nat \<times> order_line \<Rightarrow> 'a billing_db_scheme \<Rightarrow> error + 'a billing_db_scheme" where
  "insert_invoice_line i intra_state il db =
     andThen (line_product (snd il) db) (\<lambda>p.
     let (l, t) = tb_insert (invoice_line_of i intra_state (fst il) (snd il) p) (db_invoice_lines db)
     in andThen (require (doc_line_constraints l) (IntegrityError ''invoice_line'')) (\<lambda>_.
        Inr (db\<lparr>db_invoice_lines := t\<rparr>)))"

definition order_amounts :: "order_line list \<Rightarrow> bool \<Rightarrow> doc_amounts" where
  "order_amounts lines intra_state =
     amounts_of (sum_list (map gross_of lines)) (sum_list (map ol_discount_amount lines))
       (sum_list (map ol_taxable_amount lines)) (sum_list (map ol_tax_amount lines)) intra_state"

definition new_invoice ::
  "actor option \<Rightarrow> sales_order \<Rightarrow> number_series \<times> string \<Rightarrow> seller_snapshot \<Rightarrow> buyer_snapshot \<Rightarrow>
   doc_amounts \<Rightarrow> date \<Rightarrow> string option \<Rightarrow> nat \<Rightarrow> invoice" where
  "new_invoice user ord sn seller buyer amounts d client_uuid pk =
     \<lparr>md_financial_year = ns_financial_year (fst sn), md_number_series = ns_pk (fst sn),
      md_customer = so_customer ord, md_seller = seller, md_buyer = buyer, md_amounts = amounts,
      iv_pk = pk, iv_invoice_number = snd sn, iv_sales_order = Some (so_pk ord),
      iv_client_uuid = client_uuid, iv_invoice_date = d, iv_status = IV_ISSUED,
      iv_cancelled_reason = '''', iv_cancelled_at = None, iv_cancelled_by = None,
      iv_pdf_media = None, iv_issued_by = actor_pk user\<rparr>"

definition bill_order ::
  "env \<Rightarrow> actor option \<Rightarrow> sales_order \<Rightarrow> order_line list \<Rightarrow> date \<Rightarrow> string option \<Rightarrow>
   'a billing_db_scheme \<Rightarrow> error + invoice \<times> 'a billing_db_scheme" where
  "bill_order env user ord lines d client_uuid db =
     (let (profile, db) = get_business_profile db; seller = seller_snapshot_of profile
      in andThen (order_customer ord db) (\<lambda>customer.
     let buyer = buyer_snapshot_of customer (sl_state_code seller);
         intra_state = (by_state_code buyer = sl_state_code seller);
         amounts = order_amounts lines intra_state
      in andThen (allocate_number ''INVOICE'' d db) (\<lambda>(sn, db).
     andThen (insert_invoice (new_invoice user ord sn seller buyer amounts d client_uuid) db) (\<lambda>(i, db).
     andThen (for_each (enumerate 1 lines) (insert_invoice_line i intra_state) db) (\<lambda>db.
     andThen (record_entry env user (so_customer ord) ''INVOICE'' (da_total (md_amounts i))
                (''Invoice '' @ iv_invoice_number i) (Some d) (Some (''Invoice'', Some (iv_pk i)))
                (Some (so_pk ord)) db) (\<lambda>(_, db).
     Inr (i, db)))))))"

definition find_invoice_by_uuid :: "string \<Rightarrow> 'a billing_db_scheme \<Rightarrow> invoice option" where
  "find_invoice_by_uuid u db = tb_first (\<lambda>i. iv_client_uuid i = Some u) (db_invoices db)"

definition issue_invoice ::
  "env \<Rightarrow> actor option \<Rightarrow> nat \<Rightarrow> date option \<Rightarrow> string option \<Rightarrow> 'a billing_db_scheme \<Rightarrow>
   error + invoice \<times> 'a billing_db_scheme" where
  "issue_invoice env user order_pk invoice_date client_uuid db =
     andThen (require_roles user [OWNER]) (\<lambda>_.
     case (case client_uuid of None \<Rightarrow> None | Some u \<Rightarrow> find_invoice_by_uuid u db) of
       Some existing \<Rightarrow> Inr (existing, db)
     | None \<Rightarrow>
     andThen (get_order order_pk db) (\<lambda>ord.
     case tb_first (\<lambda>i. iv_sales_order i = Some (so_pk ord)) (db_invoices db) of
       Some existing \<Rightarrow> Inr (existing, db)
     | None \<Rightarrow>
     andThen (require (so_status ord \<in> {DISPATCHED, DELIVERED}) (invalid ''status'' ''NOT_DISPATCHED'')) (\<lambda>_.
     let lines = lines_of (so_pk ord) db
     in andThen (require (lines \<noteq> []) (invalid ''lines'' ''REQUIRED'')) (\<lambda>_.
     bill_order env user ord lines (case invoice_date of None \<Rightarrow> today env | Some d \<Rightarrow> d) client_uuid db))))"


section \<open>Cancelling an invoice\<close>

definition get_invoice :: "nat \<Rightarrow> 'a billing_db_scheme \<Rightarrow> error + invoice" where
  "get_invoice pk db =
     (case tb_get iv_pk pk (db_invoices db) of
        None \<Rightarrow> Inl (PyError ''Invoice.DoesNotExist'') | Some i \<Rightarrow> Inr i)"

definition invoice_status_str :: "invoice_status \<Rightarrow> string" where
  "invoice_status_str s = (case s of IV_ISSUED \<Rightarrow> ''ISSUED'' | IV_CANCELLED \<Rightarrow> ''CANCELLED'')"

definition save_invoice ::
  "string list \<Rightarrow> (invoice \<Rightarrow> invoice) \<Rightarrow> invoice \<Rightarrow> 'a billing_db_scheme \<Rightarrow>
   error + invoice \<times> 'a billing_db_scheme" where
  "save_invoice update_fields f i db =
     andThen (document_save ''invoice'' INVOICE_MUTABLE update_fields) (\<lambda>_.
     andThen (require (invoice_constraints (f i)) (IntegrityError ''invoice'')) (\<lambda>_.
     Inr (f i, db\<lparr>db_invoices := tb_update iv_pk (iv_pk i) f (db_invoices db)\<rparr>)))"

definition cancel_invoice ::
  "env \<Rightarrow> actor option \<Rightarrow> nat \<Rightarrow> string \<Rightarrow> 'a billing_db_scheme \<Rightarrow>
   error + invoice \<times> 'a billing_db_scheme" where
  "cancel_invoice env user invoice_pk reason db =
     andThen (require_roles user [OWNER]) (\<lambda>_.
     let reason = strip reason in
     andThen (require (reason \<noteq> '''') (invalid ''reason'' ''REQUIRED'')) (\<lambda>_.
     andThen (get_invoice invoice_pk db) (\<lambda>locked.
     if iv_status locked = IV_CANCELLED then Inr (locked, db)
     else
     andThen (require (\<not> tb_exists (\<lambda>n. cn_invoice n = iv_pk locked) (db_credit_notes db))
                (invalid ''status'' ''HAS_CREDIT_NOTES'')) (\<lambda>_.
     andThen (save_invoice [''status'', ''cancelled_reason'', ''cancelled_at'', ''cancelled_by'']
                (\<lambda>i. i\<lparr>iv_status := IV_CANCELLED, iv_cancelled_reason := reason,
                       iv_cancelled_at := Some (now env), iv_cancelled_by := actor_pk user\<rparr>) locked db) (\<lambda>(locked, db).
     andThen (record_entry env user (md_customer locked) ''ADJUSTMENT'' (- da_total (md_amounts locked))
                (''Cancellation of invoice '' @ iv_invoice_number locked) (Some (today env))
                (Some (''Invoice'', Some (iv_pk locked))) (iv_sales_order locked) db) (\<lambda>(_, db).
     Inr (locked, record_audit env A_CANCEL ''invoice'' (Some (iv_pk locked)) user S_WEB
            (Some [(''status'', PStr ''ISSUED'')])
            (Some [(''status'', PStr (invoice_status_str (iv_status locked))), (''reason'', PStr reason)]) db)))))))"


section \<open>Credit notes\<close>

definition credited_total :: "nat \<Rightarrow> 'a billing_db_scheme \<Rightarrow> decimal" where
  "credited_total invoice_pk db =
     to_money (sum_where (\<lambda>n. cn_invoice n = invoice_pk) (\<lambda>n. da_total (md_amounts n)) (tb_rows (db_credit_notes db)))"

text \<open>One raw line of a request: the invoice line and the quantity, absent for all of it.\<close>

record credit_input =
  ci_invoice_line :: invoice_line
  ci_quantity :: "decimal option"

text \<open>
  A prepared line of the note and its share of the sums.  \<open>share\<close> is a quotient, so it and the
  products with it are rounded to the context's 28 digits.
\<close>

record prepared_line =
  pp_line :: doc_line
  pp_subtotal :: decimal
  pp_tax :: decimal

definition prepare_line :: "invoice \<Rightarrow> bool \<Rightarrow> nat \<times> credit_input \<Rightarrow> error + prepared_line" where
  "prepare_line bill intra_state ir =
     (let (index, raw) = ir; source = ci_invoice_line raw in
     andThen (require (il_invoice source = iv_pk bill) (invalid ''lines'' ''WRONG_INVOICE'')) (\<lambda>_.
     let quantity = to_quantity (case ci_quantity raw of None \<Rightarrow> bl_quantity source | Some q \<Rightarrow> q) in
     andThen (require (\<not> quantity \<le> 0) (invalid ''quantity'' ''MIN_VALUE'')) (\<lambda>_.
     andThen (require (\<not> quantity > bl_quantity source) (invalid ''quantity'' ''EXCEEDS_INVOICED'')) (\<lambda>_.
     let share = dec_div quantity (bl_quantity source);
         line_taxable = to_money (ctx28 (bl_taxable_amount source * share));
         line_tax = to_money (ctx28 (tax_total (bl_tax source) * share));
         line_discount = to_money (ctx28 (bl_discount_amount source * share));
         line_total = to_money (line_taxable + line_tax)
     in Inr \<lparr>pp_line = \<lparr>bl_line_number = index, bl_product = bl_product source,
              bl_product_code = bl_product_code source, bl_product_name = bl_product_name source,
              bl_hsn_code = bl_hsn_code source, bl_quantity = quantity,
              bl_unit_name = bl_unit_name source, bl_unit_price = bl_unit_price source,
              bl_discount_amount = line_discount, bl_taxable_amount = line_taxable,
              bl_tax_rate_percent = bl_tax_rate_percent source,
              bl_tax = split_tax line_tax intra_state, bl_line_total = line_total\<rparr>,
            pp_subtotal = to_money (bl_unit_price source * quantity), pp_tax = line_tax\<rparr>))))"

definition credit_amounts :: "prepared_line list \<Rightarrow> bool \<Rightarrow> doc_amounts" where
  "credit_amounts prepared intra_state =
     amounts_of (sum_list (map pp_subtotal prepared)) (sum_list (map (\<lambda>p. bl_discount_amount (pp_line p)) prepared))
       (sum_list (map (\<lambda>p. bl_taxable_amount (pp_line p)) prepared)) (sum_list (map pp_tax prepared)) intra_state"

record credit_request =
  cq_invoice :: nat
  cq_lines :: "credit_input list"
  cq_reason :: string
  cq_reason_code :: "nat option"
  cq_credit_note_date :: "date option"
  cq_client_uuid :: "string option"

definition new_credit_note ::
  "actor option \<Rightarrow> credit_request \<Rightarrow> invoice \<Rightarrow> number_series \<times> string \<Rightarrow> doc_amounts \<Rightarrow> date \<Rightarrow> string \<Rightarrow> nat \<Rightarrow>
   credit_note" where
  "new_credit_note user q bill sn amounts d reason pk =
     \<lparr>md_financial_year = ns_financial_year (fst sn), md_number_series = ns_pk (fst sn),
      md_customer = md_customer bill, md_seller = md_seller bill, md_buyer = md_buyer bill,
      md_amounts = amounts, cn_pk = pk, cn_credit_note_number = snd sn, cn_invoice = iv_pk bill,
      cn_client_uuid = cq_client_uuid q, cn_credit_note_date = d, cn_reason = reason,
      cn_reason_code = cq_reason_code q, cn_issued_by = actor_pk user\<rparr>"

definition insert_credit_note_line ::
  "credit_note \<Rightarrow> prepared_line \<Rightarrow> 'a billing_db_scheme \<Rightarrow> error + 'a billing_db_scheme" where
  "insert_credit_note_line n p db =
     (let (l, t) = tb_insert (\<lambda>pk. doc_line.extend (pp_line p) (credit_note_line.fields pk (cn_pk n)))
                     (db_credit_note_lines db)
      in andThen (require (doc_line_constraints l) (IntegrityError ''credit_note_line'')) (\<lambda>_.
         Inr (db\<lparr>db_credit_note_lines := t\<rparr>)))"

definition credit_locked ::
  "env \<Rightarrow> actor option \<Rightarrow> credit_request \<Rightarrow> string \<Rightarrow> invoice \<Rightarrow> 'a billing_db_scheme \<Rightarrow>
   error + credit_note \<times> 'a billing_db_scheme" where
  "credit_locked env user q reason bill db =
     (let intra_state = (tx_igst (da_tax (md_amounts bill)) = 0);
          d = (case cq_credit_note_date q of None \<Rightarrow> today env | Some d \<Rightarrow> d)
      in andThen (map_result (prepare_line bill intra_state) (enumerate 1 (cq_lines q))) (\<lambda>prepared.
     let amounts = credit_amounts prepared intra_state; already = credited_total (iv_pk bill) db in
     andThen (require (\<not> already + da_total amounts > da_total (md_amounts bill)) (invalid ''lines'' ''EXCEEDS_INVOICE'')) (\<lambda>_.
     andThen (allocate_number ''CREDIT_NOTE'' d db) (\<lambda>(sn, db).
     andThen (insert_credit_note (new_credit_note user q bill sn amounts d reason) db) (\<lambda>(n, db).
     andThen (for_each prepared (insert_credit_note_line n) db) (\<lambda>db.
     andThen (record_entry env user (md_customer n) ''CREDIT_NOTE'' (- da_total (md_amounts n))
                (''Credit note '' @ cn_credit_note_number n @ '' against '' @ iv_invoice_number bill) (Some d)
                (Some (''CreditNote'', Some (cn_pk n))) (iv_sales_order bill) db) (\<lambda>(_, db).
     Inr (n, record_audit env A_CREATE ''credit_note'' (Some (cn_pk n)) user S_WEB None
            (Some [(''credit_note_number'', PStr (cn_credit_note_number n)),
                   (''invoice_number'', PStr (iv_invoice_number bill)),
                   (''total_amount'', PDec 2 (da_total (md_amounts n))),
                   (''reason'', PStr reason)]) db))))))))"

definition find_credit_note_by_uuid :: "string \<Rightarrow> 'a billing_db_scheme \<Rightarrow> credit_note option" where
  "find_credit_note_by_uuid u db = tb_first (\<lambda>n. cn_client_uuid n = Some u) (db_credit_notes db)"

definition issue_credit_note ::
  "env \<Rightarrow> actor option \<Rightarrow> credit_request \<Rightarrow> 'a billing_db_scheme \<Rightarrow>
   error + credit_note \<times> 'a billing_db_scheme" where
  "issue_credit_note env user q db =
     andThen (require_roles user [OWNER]) (\<lambda>_.
     let reason = strip (cq_reason q) in
     andThen (require (reason \<noteq> '''') (invalid ''reason'' ''REQUIRED'')) (\<lambda>_.
     andThen (require (cq_lines q \<noteq> []) (invalid ''lines'' ''REQUIRED'')) (\<lambda>_.
     case (case cq_client_uuid q of None \<Rightarrow> None | Some u \<Rightarrow> find_credit_note_by_uuid u db) of
       Some existing \<Rightarrow> Inr (existing, db)
     | None \<Rightarrow>
     andThen (get_invoice (cq_invoice q) db) (\<lambda>bill.
     andThen (require (iv_status bill \<noteq> IV_CANCELLED) (invalid ''invoice'' ''CANCELLED'')) (\<lambda>_.
     credit_locked env user q reason bill db)))))"


section \<open>Selectors\<close>

definition visible_document ::
  "actor option \<Rightarrow> 'a money_document_scheme \<Rightarrow> 'b billing_db_scheme \<Rightarrow> bool" where
  "visible_document user d db =
     (if has_role user [OWNER] then True
      else if has_role user [SALESMAN, DELIVERY] then zone_assigned user (md_customer d) db
      else if has_role user [RETAILER] then md_customer d = actor_customer user
      else False)"

text \<open>Newest date first, and within a date the newest document: the models' ordering.\<close>

definition visible_invoices :: "actor option \<Rightarrow> 'a billing_db_scheme \<Rightarrow> invoice list" where
  "visible_invoices user db =
     rev (sort_key (\<lambda>i. (iv_invoice_date i, iv_pk i))
       (filter (\<lambda>i. visible_document user i db) (tb_rows (db_invoices db))))"

definition search_invoices ::
  "actor option \<Rightarrow> nat option \<Rightarrow> invoice_status option \<Rightarrow> date option \<Rightarrow> date option \<Rightarrow> string option \<Rightarrow>
   'a billing_db_scheme \<Rightarrow> invoice list" where
  "search_invoices user customer status date_from date_to year db =
     filter (\<lambda>i. (case customer of None \<Rightarrow> True | Some c \<Rightarrow> md_customer i = c) \<and>
                 (case status of None \<Rightarrow> True | Some s \<Rightarrow> iv_status i = s) \<and>
                 since date_from (iv_invoice_date i) \<and> up_to date_to (iv_invoice_date i) \<and>
                 (case year of None \<Rightarrow> True | Some y \<Rightarrow> y = '''' \<or> md_financial_year i = y))
       (visible_invoices user db)"

definition issued_invoices :: "actor option \<Rightarrow> 'a billing_db_scheme \<Rightarrow> invoice list" where
  "issued_invoices user db = filter (\<lambda>i. iv_status i \<noteq> IV_CANCELLED) (visible_invoices user db)"

definition get_invoice_for :: "actor option \<Rightarrow> nat \<Rightarrow> 'a billing_db_scheme \<Rightarrow> invoice option" where
  "get_invoice_for user pk db = find (\<lambda>i. iv_pk i = pk) (visible_invoices user db)"

definition invoice_lines :: "nat \<Rightarrow> 'a billing_db_scheme \<Rightarrow> invoice_line list" where
  "invoice_lines invoice_pk db =
     sort_key bl_line_number (filter (\<lambda>l. il_invoice l = invoice_pk) (tb_rows (db_invoice_lines db)))"

definition get_invoice_line :: "nat \<Rightarrow> nat \<Rightarrow> 'a billing_db_scheme \<Rightarrow> invoice_line option" where
  "get_invoice_line invoice_pk line_pk db =
     tb_first (\<lambda>l. il_invoice l = invoice_pk \<and> il_pk l = line_pk) (db_invoice_lines db)"

definition visible_credit_notes :: "actor option \<Rightarrow> 'a billing_db_scheme \<Rightarrow> credit_note list" where
  "visible_credit_notes user db =
     rev (sort_key (\<lambda>n. (cn_credit_note_date n, cn_pk n))
       (filter (\<lambda>n. visible_document user n db) (tb_rows (db_credit_notes db))))"

definition get_credit_note_for :: "actor option \<Rightarrow> nat \<Rightarrow> 'a billing_db_scheme \<Rightarrow> credit_note option" where
  "get_credit_note_for user pk db = find (\<lambda>n. cn_pk n = pk) (visible_credit_notes user db)"

end
