(* ===== verification/Books.thy ===== *)
theory Books
  imports Billing
begin

text \<open>
  What billing guarantees: exact tax splits and rounding, one ledger entry per document, gapless
  numbers, credits within the invoice's value, and books that agree with the customer ledger.
\<close>


section \<open>Exact money\<close>

lemma tax_total_split_tax [simp]: "tax_total (split_tax t b) = to_money t"
  by (simp add: tax_total_def split_tax_def Let_def)

lemma gst_split_ok_split_tax [simp]: "gst_split_ok (split_tax t b)"
  by (simp add: gst_split_ok_def split_tax_def Let_def)

lemma split_tax_nonneg:
  assumes "0 \<le> t"
  shows "0 \<le> tx_cgst (split_tax t b)" "0 \<le> tx_sgst (split_tax t b)" "0 \<le> tx_igst (split_tax t b)"
proof -
  define m where "m = to_money t"
  have m: "0 \<le> m" "is_money m" using assms by (simp_all add: m_def to_money_nonneg)
  then have "0 \<le> to_money (m / 2)" by (simp add: to_money_nonneg)
  moreover have "to_money (m / 2) \<le> m" using m by (intro to_money_le_money) simp_all
  ultimately show "0 \<le> tx_cgst (split_tax t b)" "0 \<le> tx_sgst (split_tax t b)" "0 \<le> tx_igst (split_tax t b)"
    using m by (simp_all add: split_tax_def Let_def m_def [symmetric])
qed

text \<open>CGST is the half rounded up: it exceeds SGST by at most one paisa.\<close>

lemma split_tax_halves:
  "0 \<le> tx_cgst (split_tax t True) - tx_sgst (split_tax t True) \<or> t < 0"
  "\<bar>tx_cgst (split_tax t True) - tx_sgst (split_tax t True)\<bar> \<le> 1/100"
proof -
  define m where "m = to_money t"
  have s: "tx_cgst (split_tax t True) - tx_sgst (split_tax t True) = 2 * to_money (m / 2) - m"
    by (simp add: split_tax_def Let_def m_def [symmetric]) (simp add: m_def)
  have e: "\<bar>to_money (m / 2) - m / 2\<bar> \<le> 1/200" by (rule to_money_error)
  then show "\<bar>tx_cgst (split_tax t True) - tx_sgst (split_tax t True)\<bar> \<le> 1/100"
    unfolding s by linarith
  show "0 \<le> tx_cgst (split_tax t True) - tx_sgst (split_tax t True) \<or> t < 0"
  proof (cases "t < 0")
    case False
    then have "0 \<le> m" by (simp add: m_def to_money_nonneg)
    have "m / 2 \<le> to_money (m / 2)"
    proof -
      obtain k where k: "m = of_int k / 100" using to_money_is_money [of t]
        unfolding m_def at_scale_iff by auto
      have "0 \<le> k" using \<open>0 \<le> m\<close> k by simp
      have "of_int k \<le> (2::rat) * of_int (round_half_up (of_int k / 2))"
      proof (cases "even k")
        case True
        then obtain j where "k = 2 * j" by (rule evenE)
        then show ?thesis by simp
      next
        case False
        then obtain j where j: "k = 2 * j + 1" by (rule oddE)
        have "0 \<le> j" using j \<open>0 \<le> k\<close> by linarith
        then have "round_half_up (of_int j + 1/2) = j + 1" by (rule round_half_up_tie)
        moreover have "of_int k / (2::rat) = of_int j + 1/2" using j by simp
        ultimately have "round_half_up (of_int k / 2) = j + 1" by (simp only:)
        then have "of_int (round_half_up (of_int k / 2)) = (of_int j + 1 :: rat)" by (simp only: of_int_add of_int_1)
        then show ?thesis unfolding j by (simp only: of_int_add of_int_mult) simp
      qed
      then show ?thesis
        by (simp add: to_money_def MONEY_SCALE_def quantize_def k)
    qed
    then show ?thesis unfolding s by simp
  qed simp
qed

lemma at_scale_zero_two: "at_scale 0 x \<Longrightarrow> at_scale 2 x"
  by (auto simp: at_scale_iff [of 0])

lemma round_offD:
  assumes "round_off raw = (off, payable)"
  shows "at_scale 0 payable" "is_money payable" "is_money off" "payable = to_money raw + off" "\<bar>off\<bar> \<le> 1/2"
    "0 \<le> raw \<Longrightarrow> 0 \<le> payable"
proof -
  let ?m = "to_money raw"
  have q: "at_scale 0 (quantize ?m 1)" using quantize_at_scale [of 0 ?m] by simp
  then have p: "payable = quantize ?m 1" and o: "off = quantize ?m 1 - ?m"
    using assms at_scale_zero_two [OF q] by (auto simp: round_off_def Let_def)
  show "at_scale 0 payable" "is_money payable" "is_money off" "payable = ?m + off"
    using q p o at_scale_zero_two by simp_all
  show "\<bar>off\<bar> \<le> 1/2" using quantize_error [of ?m 0] by (simp add: o)
  show "0 \<le> payable" if "0 \<le> raw"
    using round_half_up_nonneg [OF to_money_nonneg [OF that]] by (simp add: p quantize_def)
qed

lemma amounts_ofD:
  assumes "a = amounts_of sub dis taxable tax intra" "is_money taxable" "is_money tax"
  shows "da_total a = da_taxable a + tax_total (da_tax a) + da_round_off a" "\<bar>da_round_off a\<bar> \<le> 1/2"
    "at_scale 0 (da_total a)" "is_money (da_total a)" "da_taxable a = taxable" "tax_total (da_tax a) = tax"
    "gst_split_ok (da_tax a)" "is_money (da_round_off a)"
proof -
  obtain off payable where r: "round_off (taxable + tax) = (off, payable)" by fastforce
  note R = round_offD [OF r]
  show "da_total a = da_taxable a + tax_total (da_tax a) + da_round_off a" "\<bar>da_round_off a\<bar> \<le> 1/2"
    "at_scale 0 (da_total a)" "is_money (da_total a)" "da_taxable a = taxable" "tax_total (da_tax a) = tax"
    "gst_split_ok (da_tax a)" "is_money (da_round_off a)"
    using R assms(2,3) by (simp_all add: assms(1) amounts_of_def r)
qed

lemma amounts_of_total_money [simp]: "is_money (da_total (amounts_of sub dis taxable tax intra))"
proof -
  obtain off payable where r: "round_off (taxable + tax) = (off, payable)" by fastforce
  show ?thesis using round_offD(2) [OF r] by (simp add: amounts_of_def r)
qed

section \<open>What the services write\<close>

text \<open>\<open>billing_frame\<close>: no stock, no order, no party, no supplier entry; the trail only grows.\<close>

definition billing_frame :: "'a billing_db_scheme \<Rightarrow> 'a billing_db_scheme \<Rightarrow> bool" where
  "billing_frame db db' \<longleftrightarrow>
     db_movements db' = db_movements db \<and> db_lots db' = db_lots db \<and> db_orders db' = db_orders db \<and>
     db_order_lines db' = db_order_lines db \<and> db_deliveries db' = db_deliveries db \<and>
     db_customers db' = db_customers db \<and> db_products db' = db_products db \<and> db_sle db' = db_sle db \<and>
     profile_of db' = profile_of db \<and> audit_extends db db'"

lemma billing_frame_refl [simp]: "billing_frame db db"
  by (simp add: billing_frame_def)

lemma billing_frame_trans: "billing_frame a b \<Longrightarrow> billing_frame b c \<Longrightarrow> billing_frame a c"
  unfolding billing_frame_def by (auto intro: audit_extends_trans)

lemma get_business_profile_record:
  "\<exists>p. snd (get_business_profile db) = db\<lparr>db_profile := p\<rparr>"
proof (cases "db_profile db")
  case None
  then show ?thesis by (auto simp: get_business_profile_def)
next
  case (Some p)
  then show ?thesis by (auto simp: get_business_profile_def intro!: exI [of _ "db_profile db"])
qed

lemma insert_invoiceD:
  assumes "insert_invoice mk db = Inr (i, db')"
  shows "i = mk (tb_seq (db_invoices db))" "invoice_constraints i"
    "\<forall>x \<in> set (tb_rows (db_invoices db)). iv_invoice_number x \<noteq> iv_invoice_number i"
    "\<forall>x \<in> set (tb_rows (db_invoices db)). iv_client_uuid i \<noteq> None \<longrightarrow> iv_client_uuid x \<noteq> iv_client_uuid i"
    "\<forall>x \<in> set (tb_rows (db_invoices db)). iv_sales_order i \<noteq> None \<longrightarrow> iv_sales_order x \<noteq> iv_sales_order i"
    "db' = db\<lparr>db_invoices := snd (tb_insert mk (db_invoices db))\<rparr>"
  using assms by (auto simp: insert_invoice_def tb_insert_def Let_def tb_exists_iff split: if_splits)

lemma insert_credit_noteD:
  assumes "insert_credit_note mk db = Inr (n, db')"
  shows "n = mk (tb_seq (db_credit_notes db))" "credit_note_constraints n"
    "\<forall>x \<in> set (tb_rows (db_credit_notes db)). cn_credit_note_number x \<noteq> cn_credit_note_number n"
    "\<forall>x \<in> set (tb_rows (db_credit_notes db)). cn_client_uuid n \<noteq> None \<longrightarrow> cn_client_uuid x \<noteq> cn_client_uuid n"
    "db' = db\<lparr>db_credit_notes := snd (tb_insert mk (db_credit_notes db))\<rparr>"
  using assms by (auto simp: insert_credit_note_def tb_insert_def Let_def tb_exists_iff split: if_splits)

lemma insert_invoice_lineD:
  assumes "insert_invoice_line i intra kl db = Inr db'"
  shows "\<exists>p. db' = db\<lparr>db_invoice_lines := snd (tb_insert (invoice_line_of i intra (fst kl) (snd kl) p) (db_invoice_lines db))\<rparr> \<and>
    line_product (snd kl) db = Inr p"
  using assms
  by (auto simp: insert_invoice_line_def result_simps tb_insert_def Let_def split: if_splits)

definition line_matches :: "invoice \<Rightarrow> bool \<Rightarrow> 'a catalogue_db_scheme \<Rightarrow> nat \<times> order_line \<Rightarrow> invoice_line \<Rightarrow> bool" where
  "line_matches i intra db kl b \<longleftrightarrow>
     (\<exists>p. line_product (snd kl) db = Inr p \<and> b = invoice_line_of i intra (fst kl) (snd kl) p (il_pk b))"

lemma invoice_lines_loop:
  assumes "for_each kls (insert_invoice_line i intra) db = Inr db'"
  shows "\<exists>t new. db' = db\<lparr>db_invoice_lines := t\<rparr> \<and> tb_rows t = tb_rows (db_invoice_lines db) @ new \<and>
    list_all2 (line_matches i intra db) kls new"
  using assms
proof (induction kls arbitrary: db)
  case Nil
  then show ?case by (auto intro!: exI [of _ "db_invoice_lines db"])
next
  case (Cons kl kls)
  then obtain db1 where s: "insert_invoice_line i intra kl db = Inr db1"
    "for_each kls (insert_invoice_line i intra) db1 = Inr db'"
    by (auto simp: result_simps)
  obtain p pk t where l: "db1 = db\<lparr>db_invoice_lines := t\<rparr>" "line_product (snd kl) db = Inr p"
    "tb_rows t = tb_rows (db_invoice_lines db) @ [invoice_line_of i intra (fst kl) (snd kl) p pk]"
    using insert_invoice_lineD [OF s(1)] tb_insert_rows by blast
  obtain t' new where m: "db' = db1\<lparr>db_invoice_lines := t'\<rparr>"
    "tb_rows t' = tb_rows (db_invoice_lines db1) @ new" "list_all2 (line_matches i intra db1) kls new"
    using Cons.IH [OF s(2)] by blast
  have "line_matches i intra db1 = line_matches i intra db"
    by (simp add: l(1) line_matches_def line_product_def fun_eq_iff)
  moreover have "line_matches i intra db kl (invoice_line_of i intra (fst kl) (snd kl) p pk)"
    using l(2) by (simp add: line_matches_def invoice_line_of_def)
  ultimately have "list_all2 (line_matches i intra db) (kl # kls)
      (invoice_line_of i intra (fst kl) (snd kl) p pk # new)"
    using m(3) by simp
  then show ?case using l m
    by (intro exI [of _ t'] exI [of _ "invoice_line_of i intra (fst kl) (snd kl) p pk # new"]) simp
qed

lemma bill_orderD:
  assumes "bill_order env user ord lines d cu db = Inr (i, db')" "series_ok (db_series db)"
  obtains s cust intra e new where
    "order_customer ord db = Inr cust" "ns_series_key s = ''INVOICE''"
    "intra = (by_state_code (md_buyer i) = sl_state_code (md_seller i))"
    "md_seller i = seller_snapshot_of (profile_of db)"
    "md_buyer i = buyer_snapshot_of cust (sl_state_code (md_seller i))"
    "i = new_invoice user ord (s, iv_invoice_number i) (md_seller i) (md_buyer i) (order_amounts lines intra) d cu
       (tb_seq (db_invoices db))"
    "invoice_constraints i" "ns_financial_year s = financial_year_for d"
    "tb_rows (db_invoices db') = tb_rows (db_invoices db) @ [i]"
    "tb_seq (db_invoices db') = Suc (tb_seq (db_invoices db))"
    "\<forall>x \<in> set (tb_rows (db_invoices db)). iv_sales_order x \<noteq> Some (so_pk ord)"
    "\<forall>x \<in> set (tb_rows (db_invoices db)). cu \<noteq> None \<longrightarrow> iv_client_uuid x \<noteq> cu"
    "tb_rows (db_cle db') = tb_rows (db_cle db) @ [e]"
    "ce_customer e = so_customer ord" "ce_entry_type e = ''INVOICE''" "ce_amount e = da_total (md_amounts i)"
    "ce_source_type e = ''INVOICE''" "ce_source_id e = Some (iv_pk i)" "ce_entry_date e = d"
    "ce_sales_order e = Some (so_pk ord)"
    "tb_rows (db_invoice_lines db') = tb_rows (db_invoice_lines db) @ new"
    "list_all2 (line_matches i intra db) (enumerate 1 lines) new"
    "billing_frame db db'" "db_credit_notes db' = db_credit_notes db"
    "series_ok (db_series db')"
    "\<And>docs. gapless_for ''INVOICE'' docs (db_series db) \<Longrightarrow>
       gapless_for ''INVOICE'' (docs @ [(md_number_series i, iv_invoice_number i)]) (db_series db')"
    "\<And>docs. gapless_for ''CREDIT_NOTE'' docs (db_series db) \<Longrightarrow> gapless_for ''CREDIT_NOTE'' docs (db_series db')"
    "ledger_ok db \<Longrightarrow> ledger_ok db'"
proof -
  obtain pr where pr: "snd (get_business_profile db) = db\<lparr>db_profile := pr\<rparr>"
    using get_business_profile_record by blast
  define db1 where "db1 = db\<lparr>db_profile := pr\<rparr>"
  have prof: "profile_of db1 = profile_of db" unfolding db1_def pr [symmetric] by simp
  have gp: "get_business_profile db = (profile_of db, db1)"
    using pr by (simp add: db1_def prod_eq_iff)
  define seller where "seller = seller_snapshot_of (profile_of db)"
  obtain cust where cust: "order_customer ord db1 = Inr cust"
    using assms(1) by (auto simp: bill_order_def gp result_simps Let_def)
  define buyer where "buyer = buyer_snapshot_of cust (sl_state_code seller)"
  define intra where "intra = (by_state_code buyer = sl_state_code seller)"
  obtain s number db2 where a: "allocate_number ''INVOICE'' d db1 = Inr ((s, number), db2)"
    and r1: "andThen (insert_invoice (new_invoice user ord (s, number) seller buyer (order_amounts lines intra) d cu) db2) (\<lambda>(i, db).
     andThen (for_each (enumerate 1 lines) (insert_invoice_line i intra) db) (\<lambda>db.
     andThen (record_entry env user (so_customer ord) ''INVOICE'' (da_total (md_amounts i))
                (''Invoice '' @ iv_invoice_number i) (Some d) (Some (''Invoice'', Some (iv_pk i)))
                (Some (so_pk ord)) db) (\<lambda>(_, db). Inr (i, db)))) = Inr (i, db')"
    using assms(1) cust by (auto simp: bill_order_def gp Let_def seller_def buyer_def intra_def
        andThen_Inr_iff [of "allocate_number _ _ _"])
  then obtain db3 db4 e where ii: "insert_invoice (new_invoice user ord (s, number) seller buyer (order_amounts lines intra) d cu) db2 = Inr (i, db3)"
    and ll: "for_each (enumerate 1 lines) (insert_invoice_line i intra) db3 = Inr db4"
    and ee: "record_entry env user (so_customer ord) ''INVOICE'' (da_total (md_amounts i))
                (''Invoice '' @ iv_invoice_number i) (Some d) (Some (''Invoice'', Some (iv_pk i)))
                (Some (so_pk ord)) db4 = Inr (e, db')"
    by (auto simp: result_simps)
  have "series_ok (db_series db1)" using assms(2) by (simp add: db1_def)
  note A = allocate_numberD [OF a this]
  note I = insert_invoiceD [OF ii]
  obtain t new where L: "db4 = db3\<lparr>db_invoice_lines := t\<rparr>" "tb_rows t = tb_rows (db_invoice_lines db3) @ new"
    "list_all2 (line_matches i intra db3) (enumerate 1 lines) new"
    using invoice_lines_loop [OF ll] by blast
  note E = record_entryD [OF ee]
  obtain t2 where t2: "db2 = db1\<lparr>db_series := t2\<rparr>" using A(1) by blast
  obtain t3 where t3: "db3 = db2\<lparr>db_invoices := t3\<rparr>" "t3 = snd (tb_insert
      (new_invoice user ord (s, number) seller buyer (order_amounts lines intra) d cu) (db_invoices db2))"
    using I(6) by blast
  obtain t5 where t5: "db' = db4\<lparr>db_cle := t5\<rparr>" using E(2) by blast
  have inv: "db_invoices db2 = db_invoices db" "db_series db' = db_series db2" "db_cle db4 = db_cle db"
    "db_invoice_lines db3 = db_invoice_lines db"
    by (simp_all add: t5 L(1) t3(1) t2 db1_def)
  have i: "i = new_invoice user ord (s, number) seller buyer (order_amounts lines intra) d cu (tb_seq (db_invoices db))"
    using I(1) inv(1) by simp
  show thesis
  proof (rule that)
    show "order_customer ord db = Inr cust" using cust by (simp add: db1_def order_customer_def)
    show "intra = (by_state_code (md_buyer i) = sl_state_code (md_seller i))"
      "md_seller i = seller_snapshot_of (profile_of db)"
      "md_buyer i = buyer_snapshot_of cust (sl_state_code (md_seller i))"
      "i = new_invoice user ord (s, iv_invoice_number i) (md_seller i) (md_buyer i) (order_amounts lines intra) d cu
         (tb_seq (db_invoices db))"
      by (simp_all add: i new_invoice_def intra_def seller_def buyer_def)
    show "tb_rows (db_invoices db') = tb_rows (db_invoices db) @ [i]"
      "tb_seq (db_invoices db') = Suc (tb_seq (db_invoices db))"
      using I(1) inv(1) by (simp_all add: t5 L(1) t3 table_simps)
    show "\<forall>x \<in> set (tb_rows (db_invoices db)). iv_sales_order x \<noteq> Some (so_pk ord)"
      using I(5) inv(1) i by (simp add: new_invoice_def)
    show "\<forall>x \<in> set (tb_rows (db_invoices db)). cu \<noteq> None \<longrightarrow> iv_client_uuid x \<noteq> cu"
      using I(4) inv(1) i by (simp add: new_invoice_def)
    show "tb_rows (db_cle db') = tb_rows (db_cle db) @ [e]" using E(1) inv(3) by simp
    show "ce_amount e = da_total (md_amounts i)"
      using E(7) by (simp add: i new_invoice_def order_amounts_def)
    show "ce_source_type e = ''INVOICE''" "ce_source_id e = Some (iv_pk i)"
      using E(12) by (simp_all add: resolve_source_def SOURCE_DOCUMENT_REGISTRY_def)
    show "ce_entry_date e = d" using E(9) by simp
    show "tb_rows (db_invoice_lines db') = tb_rows (db_invoice_lines db) @ new"
      using L(2) inv(4) by (simp add: t5 L(1))
    have "line_matches i intra db3 = line_matches i intra db"
      by (simp add: t3(1) t2 db1_def line_matches_def line_product_def fun_eq_iff)
    then show "list_all2 (line_matches i intra db) (enumerate 1 lines) new" using L(3) by simp
    have "profile_of db' = profile_of db1" "profile_of db1 = profile_of db"
      using prof by (simp_all add: t5 L(1) t3(1) t2 profile_of_def)
    then show "billing_frame db db'"
      by (simp add: billing_frame_def t5 L(1) t3(1) t2 audit_extends_def) (simp add: db1_def)
    show "db_credit_notes db' = db_credit_notes db"
      by (simp add: t5 L(1) t3(1) t2 db1_def)
    show "series_ok (db_series db')" using A(2) inv(2) by simp
    show "gapless_for ''INVOICE'' (docs @ [(md_number_series i, iv_invoice_number i)]) (db_series db')"
      if "gapless_for ''INVOICE'' docs (db_series db)" for docs
      using A(7) [of docs] that inv(2) by (simp add: i new_invoice_def db1_def)
    show "gapless_for ''CREDIT_NOTE'' docs (db_series db')"
      if "gapless_for ''CREDIT_NOTE'' docs (db_series db)" for docs
      using A(8) [of "''CREDIT_NOTE''" docs] that inv(2) by (simp add: db1_def)
    show "ledger_ok db'" if "ledger_ok db"
    proof -
      have "ledger_ok db4" using that by (simp add: ledger_ok_def L(1) t3(1) t2 db1_def)
      then show ?thesis by (rule record_entry_ok [OF ee])
    qed
  qed (fact A(3) A(4) I(2) E(5) E(6) E(8))+
qed

lemma get_invoiceD: "get_invoice pk db = Inr i \<Longrightarrow> tb_get iv_pk pk (db_invoices db) = Some i"
  by (auto simp: get_invoice_def split: option.splits)

lemma record_audit_billing [simp, frame_simps]:
  "db_invoices (record_audit env a et ei u s b c db) = db_invoices db"
  "db_invoice_lines (record_audit env a et ei u s b c db) = db_invoice_lines db"
  "db_credit_notes (record_audit env a et ei u s b c db) = db_credit_notes db"
  "db_credit_note_lines (record_audit env a et ei u s b c db) = db_credit_note_lines db"
  by (simp_all add: record_audit_def record_audit_from_def)

definition cancelled_form :: "env \<Rightarrow> actor option \<Rightarrow> string \<Rightarrow> invoice \<Rightarrow> invoice" where
  "cancelled_form env user reason i = i\<lparr>iv_status := IV_CANCELLED, iv_cancelled_reason := reason,
     iv_cancelled_at := Some (now env), iv_cancelled_by := actor_pk user\<rparr>"

lemma cancelled_form_eta:
  "(\<lambda>i. i\<lparr>iv_status := IV_CANCELLED, iv_cancelled_reason := reason,
     iv_cancelled_at := Some (now env), iv_cancelled_by := actor_pk user\<rparr>) = cancelled_form env user reason"
  by (simp add: cancelled_form_def fun_eq_iff)

lemma cancel_invoiceD:
  assumes "cancel_invoice env user pk reason db = Inr (i, db')"
  obtains (already) "tb_get iv_pk pk (db_invoices db) = Some i" "iv_status i = IV_CANCELLED" "db' = db"
    | (cancelled) locked e where "tb_get iv_pk pk (db_invoices db) = Some locked" "iv_status locked \<noteq> IV_CANCELLED"
      "\<forall>n \<in> set (tb_rows (db_credit_notes db)). cn_invoice n \<noteq> pk" "strip reason \<noteq> ''''"
      "i = cancelled_form env user (strip reason) locked" "invoice_constraints i"
      "db_invoices db' = tb_update iv_pk pk (cancelled_form env user (strip reason)) (db_invoices db)"
      "tb_rows (db_cle db') = tb_rows (db_cle db) @ [e]" "ce_customer e = md_customer locked"
      "ce_amount e = - to_money (da_total (md_amounts locked))" "ce_entry_type e = ''ADJUSTMENT''"
      "ce_source_type e = ''INVOICE''" "ce_source_id e = Some pk" "ce_entry_date e = today env"
      "db_credit_notes db' = db_credit_notes db" "db_series db' = db_series db"
      "db_invoice_lines db' = db_invoice_lines db"
      "billing_frame db db'" "ledger_ok db \<Longrightarrow> ledger_ok db'"
proof -
  let ?f = "cancelled_form env user (strip reason)"
  obtain locked where l: "get_invoice pk db = Inr locked"
    using assms by (auto simp: cancel_invoice_def Let_def result_simps split: if_splits)
  note g = get_invoiceD [OF l]
  have pk: "iv_pk locked = pk" using tb_getD [OF g] by simp
  show thesis
  proof (cases "iv_status locked = IV_CANCELLED")
    case True
    then show ?thesis
      using assms l g already by (auto simp: cancel_invoice_def Let_def split: if_splits)
  next
    case False
    obtain db1 e db2 where
      s: "save_invoice [''status'', ''cancelled_reason'', ''cancelled_at'', ''cancelled_by''] ?f locked db = Inr (i, db1)"
      and e: "record_entry env user (md_customer i) ''ADJUSTMENT'' (- da_total (md_amounts i))
                (''Cancellation of invoice '' @ iv_invoice_number i) (Some (today env))
                (Some (''Invoice'', Some (iv_pk i))) (iv_sales_order i) db1 = Inr (e, db2)"
      and d: "db' = record_audit env A_CANCEL ''invoice'' (Some (iv_pk i)) user S_WEB
            (Some [(''status'', PStr ''ISSUED'')])
            (Some [(''status'', PStr (invoice_status_str (iv_status i))), (''reason'', PStr (strip reason))]) db2"
      and n: "\<not> tb_exists (\<lambda>n. cn_invoice n = pk) (db_credit_notes db)" "strip reason \<noteq> ''''"
      using assms False l pk unfolding cancel_invoice_def Let_def cancelled_form_eta
      by (auto simp: result_simps split: if_splits)
    have i: "i = ?f locked" "invoice_constraints i"
      and db1: "db1 = db\<lparr>db_invoices := tb_update iv_pk pk ?f (db_invoices db)\<rparr>"
      using s pk by (auto simp: save_invoice_def result_simps split: if_splits)
    note E = record_entryD [OF e]
    obtain t where t: "db2 = db1\<lparr>db_cle := t\<rparr>" using E(2) by blast
    show ?thesis
    proof (rule cancelled)
      show "ledger_ok db'" if "ledger_ok db"
      proof -
        have "ledger_ok db1" using that by (simp add: ledger_ok_def db1)
        then have "ledger_ok db2" by (rule record_entry_ok [OF e])
        then show ?thesis by (simp add: ledger_ok_def d)
      qed
      have "audit_extends db db'" using t db1 by (auto simp: audit_extends_iff d record_audit_def
            record_audit_from_def table_simps)
      then show "billing_frame db db'" by (simp add: d t db1 billing_frame_def profile_of_def)
      show "\<forall>n \<in> set (tb_rows (db_credit_notes db)). cn_invoice n \<noteq> pk" using n by (auto simp: tb_exists_iff)
      show "tb_rows (db_cle db') = tb_rows (db_cle db) @ [e]" using E(1) by (simp add: d db1)
      show "ce_amount e = - to_money (da_total (md_amounts locked))"
        using E(7) i by (simp add: cancelled_form_def to_money_minus)
      show "ce_source_type e = ''INVOICE''" "ce_source_id e = Some pk"
        using E(12) i pk by (simp_all add: resolve_source_def SOURCE_DOCUMENT_REGISTRY_def cancelled_form_def)
      show "ce_customer e = md_customer locked" using E(5) i by (simp add: cancelled_form_def)
      show "ce_entry_date e = today env" using E(9) by simp
    qed (use g False n i E in \<open>simp_all add: d t db1\<close>)
  qed
qed

lemma prepare_line_money:
  assumes "prepare_line bill intra ir = Inr p"
  shows "is_money (pp_subtotal p)" "is_money (pp_tax p)" "is_money (bl_taxable_amount (pp_line p))"
    "is_money (bl_discount_amount (pp_line p))" "0 < bl_quantity (pp_line p)"
    "il_invoice (ci_invoice_line (snd ir)) = iv_pk bill"
    "bl_quantity (pp_line p) \<le> bl_quantity (ci_invoice_line (snd ir))"
  using assms by (auto simp: prepare_line_def Let_def result_simps split: prod.splits if_splits)

lemma credit_lines_loop:
  assumes "for_each ps (insert_credit_note_line n) db = Inr db'"
  shows "\<exists>t. db' = db\<lparr>db_credit_note_lines := t\<rparr>"
  using assms
proof (induction ps arbitrary: db)
  case Nil
  then show ?case by (auto intro!: exI [of _ "db_credit_note_lines db"])
next
  case (Cons p ps)
  then obtain db1 where "insert_credit_note_line n p db = Inr db1" "for_each ps (insert_credit_note_line n) db1 = Inr db'"
    by (auto simp: result_simps)
  moreover from this(1) obtain t where "db1 = db\<lparr>db_credit_note_lines := t\<rparr>"
    by (auto simp: insert_credit_note_line_def tb_insert_def Let_def split: if_splits)
  ultimately show ?case using Cons.IH [of db1] by auto
qed

lemma credit_lockedD:
  assumes "credit_locked env user q reason bill db = Inr (n, db')" "series_ok (db_series db)"
  obtains s e prepared where
    "map_result (prepare_line bill (tx_igst (da_tax (md_amounts bill)) = 0)) (enumerate 1 (cq_lines q)) = Inr prepared"
    "n = new_credit_note user q bill (s, cn_credit_note_number n)
       (credit_amounts prepared (tx_igst (da_tax (md_amounts bill)) = 0))
       (case cq_credit_note_date q of None \<Rightarrow> today env | Some d \<Rightarrow> d) reason (tb_seq (db_credit_notes db))"
    "credit_note_constraints n" "ns_series_key s = ''CREDIT_NOTE''"
    "credited_total (iv_pk bill) db + da_total (md_amounts n) \<le> da_total (md_amounts bill)"
    "tb_rows (db_credit_notes db') = tb_rows (db_credit_notes db) @ [n]"
    "tb_seq (db_credit_notes db') = Suc (tb_seq (db_credit_notes db))"
    "\<forall>x \<in> set (tb_rows (db_credit_notes db)). cq_client_uuid q \<noteq> None \<longrightarrow> cn_client_uuid x \<noteq> cq_client_uuid q"
    "tb_rows (db_cle db') = tb_rows (db_cle db) @ [e]" "ce_customer e = md_customer bill"
    "ce_amount e = - da_total (md_amounts n)" "ce_entry_type e = ''CREDIT_NOTE''"
    "ce_source_type e = ''CREDIT_NOTE''" "ce_source_id e = Some (cn_pk n)"
    "db_invoices db' = db_invoices db" "db_invoice_lines db' = db_invoice_lines db"
    "billing_frame db db'" "series_ok (db_series db')"
    "\<And>docs. gapless_for ''CREDIT_NOTE'' docs (db_series db) \<Longrightarrow>
       gapless_for ''CREDIT_NOTE'' (docs @ [(md_number_series n, cn_credit_note_number n)]) (db_series db')"
    "\<And>docs. gapless_for ''INVOICE'' docs (db_series db) \<Longrightarrow> gapless_for ''INVOICE'' docs (db_series db')"
    "ledger_ok db \<Longrightarrow> ledger_ok db'"
proof -
  define intra where "intra = (tx_igst (da_tax (md_amounts bill)) = 0)"
  define d where "d = (case cq_credit_note_date q of None \<Rightarrow> today env | Some d \<Rightarrow> d)"
  obtain prepared where p: "map_result (prepare_line bill intra) (enumerate 1 (cq_lines q)) = Inr prepared"
    using assms(1) by (auto simp: credit_locked_def Let_def intra_def andThen_Inr_iff [of "map_result _ _"])
  define amounts where "amounts = credit_amounts prepared intra"
  have cap: "\<not> credited_total (iv_pk bill) db + da_total amounts > da_total (md_amounts bill)"
    using assms(1) p by (auto simp: credit_locked_def Let_def intra_def amounts_def split: if_splits)
  obtain s number db1 where a: "allocate_number ''CREDIT_NOTE'' d db = Inr ((s, number), db1)"
    using assms(1) p cap
    by (auto simp: credit_locked_def Let_def intra_def [symmetric] amounts_def [symmetric] d_def [symmetric]
        andThen_Inr_iff [of "allocate_number _ _ _"])
  obtain db2 db3 db4 e where
    nn: "insert_credit_note (new_credit_note user q bill (s, number) amounts d reason) db1 = Inr (n, db2)"
    and ll: "for_each prepared (insert_credit_note_line n) db2 = Inr db3"
    and ee: "record_entry env user (md_customer n) ''CREDIT_NOTE'' (- da_total (md_amounts n))
                (''Credit note '' @ cn_credit_note_number n @ '' against '' @ iv_invoice_number bill) (Some d)
                (Some (''CreditNote'', Some (cn_pk n))) (iv_sales_order bill) db3 = Inr (e, db4)"
    and dd: "db' = record_audit env A_CREATE ''credit_note'' (Some (cn_pk n)) user S_WEB None
            (Some [(''credit_note_number'', PStr (cn_credit_note_number n)),
                   (''invoice_number'', PStr (iv_invoice_number bill)),
                   (''total_amount'', PDec 2 (da_total (md_amounts n))),
                   (''reason'', PStr reason)]) db4"
    using assms(1) p cap a
    by (auto simp: credit_locked_def Let_def intra_def [symmetric] amounts_def [symmetric] d_def [symmetric]
        result_simps)
  note A = allocate_numberD [OF a assms(2)]
  note N = insert_credit_noteD [OF nn]
  note E = record_entryD [OF ee]
  obtain t1 where t1: "db1 = db\<lparr>db_series := t1\<rparr>" using A(1) by blast
  obtain t2 where t2: "db2 = db1\<lparr>db_credit_notes := t2\<rparr>" "t2 = snd (tb_insert
      (new_credit_note user q bill (s, number) amounts d reason) (db_credit_notes db1))"
    using N(5) by blast
  obtain t3 where t3: "db3 = db2\<lparr>db_credit_note_lines := t3\<rparr>" using credit_lines_loop [OF ll] by blast
  obtain t4 where t4: "db4 = db3\<lparr>db_cle := t4\<rparr>" using E(2) by blast
  have n: "n = new_credit_note user q bill (s, number) amounts d reason (tb_seq (db_credit_notes db))"
    using N(1) by (simp add: t1)
  show thesis
  proof (rule that)
    show "map_result (prepare_line bill (tx_igst (da_tax (md_amounts bill)) = 0)) (enumerate 1 (cq_lines q)) = Inr prepared"
      using p by (simp add: intra_def)
    show "n = new_credit_note user q bill (s, cn_credit_note_number n)
       (credit_amounts prepared (tx_igst (da_tax (md_amounts bill)) = 0))
       (case cq_credit_note_date q of None \<Rightarrow> today env | Some d \<Rightarrow> d) reason (tb_seq (db_credit_notes db))"
      by (simp add: n new_credit_note_def amounts_def intra_def d_def)
    show "credited_total (iv_pk bill) db + da_total (md_amounts n) \<le> da_total (md_amounts bill)"
      using cap by (simp add: n new_credit_note_def)
    show "tb_rows (db_credit_notes db') = tb_rows (db_credit_notes db) @ [n]"
      "tb_seq (db_credit_notes db') = Suc (tb_seq (db_credit_notes db))"
      using N(1) by (simp_all add: dd t4 t3 t2 t1 table_simps)
    show "\<forall>x \<in> set (tb_rows (db_credit_notes db)). cq_client_uuid q \<noteq> None \<longrightarrow> cn_client_uuid x \<noteq> cq_client_uuid q"
      using N(4) by (simp add: n new_credit_note_def t1)
    show "tb_rows (db_cle db') = tb_rows (db_cle db) @ [e]" using E(1) by (simp add: dd t3 t2 t1)
    show "ce_customer e = md_customer bill" using E(5) by (simp add: n new_credit_note_def)
    show "ce_amount e = - da_total (md_amounts n)"
      using E(7) by (simp add: n new_credit_note_def amounts_def credit_amounts_def)
    show "ce_source_type e = ''CREDIT_NOTE''" "ce_source_id e = Some (cn_pk n)"
      using E(12) by (simp_all add: resolve_source_def SOURCE_DOCUMENT_REGISTRY_def)
    have "audit_extends db db'" by (auto simp: audit_extends_iff dd t4 t3 t2 t1 record_audit_def
          record_audit_from_def table_simps)
    then show "billing_frame db db'" by (simp add: dd t4 t3 t2 t1 billing_frame_def profile_of_def)
    show "series_ok (db_series db')" using A(2) by (simp add: dd t4 t3 t2)
    show "gapless_for ''CREDIT_NOTE'' (docs @ [(md_number_series n, cn_credit_note_number n)]) (db_series db')"
      if "gapless_for ''CREDIT_NOTE'' docs (db_series db)" for docs
      using A(7) [of docs] that by (simp add: n new_credit_note_def dd t4 t3 t2)
    show "gapless_for ''INVOICE'' docs (db_series db')" if "gapless_for ''INVOICE'' docs (db_series db)" for docs
      using A(8) [of "''INVOICE''" docs] that by (simp add: dd t4 t3 t2)
    show "ledger_ok db'" if "ledger_ok db"
    proof -
      have "ledger_ok db3" using that by (simp add: ledger_ok_def t3 t2 t1)
      then have "ledger_ok db4" by (rule record_entry_ok [OF ee])
      then show ?thesis by (simp add: ledger_ok_def dd)
    qed
  qed (use N(2) A(3) E(6) in \<open>simp_all add: dd t4 t3 t2 t1\<close>)
qed

lemma issue_invoiceD:
  assumes "issue_invoice env user pk idate cu db = Inr (i, db')"
  shows "has_role user [OWNER]"
    "(db' = db \<and> i \<in> set (tb_rows (db_invoices db)) \<and>
        ((cu \<noteq> None \<and> iv_client_uuid i = cu) \<or> iv_sales_order i = Some pk)) \<or>
     (\<exists>ord. get_order pk db = Inr ord \<and> so_status ord \<in> {DISPATCHED, DELIVERED} \<and> lines_of pk db \<noteq> [] \<and>
        bill_order env user ord (lines_of pk db) (case idate of None \<Rightarrow> today env | Some d \<Rightarrow> d) cu db = Inr (i, db'))"
proof -
  show "has_role user [OWNER]" using assms by (simp add: issue_invoice_def split: if_splits)
  define old where "old = (case cu of None \<Rightarrow> None | Some u \<Rightarrow> find_invoice_by_uuid u db)"
  show "(db' = db \<and> i \<in> set (tb_rows (db_invoices db)) \<and>
        ((cu \<noteq> None \<and> iv_client_uuid i = cu) \<or> iv_sales_order i = Some pk)) \<or>
     (\<exists>ord. get_order pk db = Inr ord \<and> so_status ord \<in> {DISPATCHED, DELIVERED} \<and> lines_of pk db \<noteq> [] \<and>
        bill_order env user ord (lines_of pk db) (case idate of None \<Rightarrow> today env | Some d \<Rightarrow> d) cu db = Inr (i, db'))"
  proof (cases old)
    case (Some x)
    then have "i = x" "db' = db"
      using assms by (simp_all add: issue_invoice_def old_def [symmetric] split: if_splits)
    then show ?thesis using Some by (auto simp: old_def find_invoice_by_uuid_def dest: tb_firstD split: option.splits)
  next
    case None
    obtain ord where o: "get_order pk db = Inr ord"
      using assms None by (auto simp: issue_invoice_def old_def [symmetric] result_simps split: if_splits)
    have k: "so_pk ord = pk" using get_orderD [OF o] by simp
    show ?thesis
    proof (cases "tb_first (\<lambda>i. iv_sales_order i = Some pk) (db_invoices db)")
      case (Some x)
      then have "i = x" "db' = db"
        using assms None o k by (simp_all add: issue_invoice_def old_def [symmetric] split: if_splits)
      then show ?thesis using tb_firstD [OF Some] by simp
    next
      case new: None
      show ?thesis using assms None o k new
        by (simp add: issue_invoice_def old_def [symmetric] Let_def split: if_splits)
    qed
  qed
qed

lemma issue_credit_noteD:
  assumes "issue_credit_note env user q db = Inr (n, db')"
  shows "has_role user [OWNER]" "strip (cq_reason q) \<noteq> ''''" "cq_lines q \<noteq> []"
    "(db' = db \<and> n \<in> set (tb_rows (db_credit_notes db)) \<and> cq_client_uuid q \<noteq> None \<and> cn_client_uuid n = cq_client_uuid q) \<or>
     (\<exists>bill. tb_get iv_pk (cq_invoice q) (db_invoices db) = Some bill \<and> iv_status bill \<noteq> IV_CANCELLED \<and>
        credit_locked env user q (strip (cq_reason q)) bill db = Inr (n, db'))"
proof -
  show r: "has_role user [OWNER]" "strip (cq_reason q) \<noteq> ''''" "cq_lines q \<noteq> []"
    using assms by (simp_all add: issue_credit_note_def Let_def split: if_splits)
  define old where "old = (case cq_client_uuid q of None \<Rightarrow> None | Some u \<Rightarrow> find_credit_note_by_uuid u db)"
  show "(db' = db \<and> n \<in> set (tb_rows (db_credit_notes db)) \<and> cq_client_uuid q \<noteq> None \<and> cn_client_uuid n = cq_client_uuid q) \<or>
     (\<exists>bill. tb_get iv_pk (cq_invoice q) (db_invoices db) = Some bill \<and> iv_status bill \<noteq> IV_CANCELLED \<and>
        credit_locked env user q (strip (cq_reason q)) bill db = Inr (n, db'))"
  proof (cases old)
    case (Some x)
    then have "n = x" "db' = db"
      using assms r by (simp_all add: issue_credit_note_def Let_def old_def [symmetric])
    then show ?thesis using Some
      by (auto simp: old_def find_credit_note_by_uuid_def dest: tb_firstD split: option.splits)
  next
    case None
    then obtain bill where b: "get_invoice (cq_invoice q) db = Inr bill" "iv_status bill \<noteq> IV_CANCELLED"
      "credit_locked env user q (strip (cq_reason q)) bill db = Inr (n, db')"
      using assms r by (auto simp: issue_credit_note_def Let_def old_def [symmetric]
          andThen_Inr_iff [of "get_invoice _ _"] split: if_splits)
    show ?thesis using b(2,3) get_invoiceD [OF b(1)] by blast
  qed
qed


section \<open>The books\<close>

definition doc_total :: "'a money_document_scheme \<Rightarrow> decimal" where
  "doc_total d = da_total (md_amounts d)"

definition invoice_numbers :: "'a billing_db_scheme \<Rightarrow> (nat \<times> string) list" where
  "invoice_numbers db = map (\<lambda>i. (md_number_series i, iv_invoice_number i)) (tb_rows (db_invoices db))"

definition credit_note_numbers :: "'a billing_db_scheme \<Rightarrow> (nat \<times> string) list" where
  "credit_note_numbers db = map (\<lambda>n. (md_number_series n, cn_credit_note_number n)) (tb_rows (db_credit_notes db))"

definition numbers_ok :: "'a billing_db_scheme \<Rightarrow> bool" where
  "numbers_ok db \<longleftrightarrow> series_ok (db_series db) \<and>
     gapless_for ''INVOICE'' (invoice_numbers db) (db_series db) \<and>
     gapless_for ''CREDIT_NOTE'' (credit_note_numbers db) (db_series db)"

definition credited :: "nat \<Rightarrow> 'a billing_db_scheme \<Rightarrow> decimal" where
  "credited invoice_pk db = sum_where (\<lambda>n. cn_invoice n = invoice_pk) doc_total (tb_rows (db_credit_notes db))"

text \<open>No invoice is credited beyond its value, and every note corrects a live invoice of its customer.\<close>

definition credits_ok :: "'a billing_db_scheme \<Rightarrow> bool" where
  "credits_ok db \<longleftrightarrow>
     (\<forall>i \<in> set (tb_rows (db_invoices db)). credited (iv_pk i) db \<le> doc_total i) \<and>
     (\<forall>n \<in> set (tb_rows (db_credit_notes db)). \<exists>i \<in> set (tb_rows (db_invoices db)).
        iv_pk i = cn_invoice n \<and> iv_status i \<noteq> IV_CANCELLED \<and> md_customer i = md_customer n)"

text \<open>The entries that carry a billing document, and the documents' own account of a customer.\<close>

definition billing_entry :: "cle \<Rightarrow> bool" where
  "billing_entry e \<longleftrightarrow> ce_source_type e = ''INVOICE'' \<or> ce_source_type e = ''CREDIT_NOTE''"

definition billing_balance :: "nat \<Rightarrow> 'a ledger_db_scheme \<Rightarrow> decimal" where
  "billing_balance c db = sum_where (\<lambda>e. billing_entry e \<and> ce_customer e = c) ce_amount (tb_rows (db_cle db))"

definition live_invoices_total :: "nat \<Rightarrow> 'a billing_db_scheme \<Rightarrow> decimal" where
  "live_invoices_total c db =
     sum_where (\<lambda>i. iv_status i \<noteq> IV_CANCELLED \<and> md_customer i = c) doc_total (tb_rows (db_invoices db))"

definition credit_notes_total :: "nat \<Rightarrow> 'a billing_db_scheme \<Rightarrow> decimal" where
  "credit_notes_total c db = sum_where (\<lambda>n. md_customer n = c) doc_total (tb_rows (db_credit_notes db))"

definition books_agree :: "'a billing_db_scheme \<Rightarrow> bool" where
  "books_agree db \<longleftrightarrow> (\<forall>c. billing_balance c db = live_invoices_total c db - credit_notes_total c db)"

definition orders_billed_once :: "'a billing_db_scheme \<Rightarrow> bool" where
  "orders_billed_once db \<longleftrightarrow>
     distinct (filter (\<lambda>k. k \<noteq> None) (map iv_sales_order (tb_rows (db_invoices db))))"

definition documents_wf :: "'a billing_db_scheme \<Rightarrow> bool" where
  "documents_wf db \<longleftrightarrow> table_wf iv_pk (db_invoices db) \<and> table_wf cn_pk (db_credit_notes db) \<and>
     list_all (\<lambda>i. invoice_constraints i \<and> is_money (doc_total i)) (tb_rows (db_invoices db)) \<and>
     list_all (\<lambda>n. is_money (doc_total n)) (tb_rows (db_credit_notes db))"

definition billing_ok :: "'a billing_db_scheme \<Rightarrow> bool" where
  "billing_ok db \<longleftrightarrow> documents_wf db \<and> numbers_ok db \<and> credits_ok db \<and> books_agree db \<and> orders_billed_once db"

text \<open>What the rest of the system may do between two billing calls.\<close>

definition billing_untouched :: "'a billing_db_scheme \<Rightarrow> 'a billing_db_scheme \<Rightarrow> bool" where
  "billing_untouched db db' \<longleftrightarrow>
     db_series db' = db_series db \<and> db_invoices db' = db_invoices db \<and> db_credit_notes db' = db_credit_notes db \<and>
     filter billing_entry (tb_rows (db_cle db')) = filter billing_entry (tb_rows (db_cle db))"

inductive billing_step :: "'a billing_db_scheme \<Rightarrow> 'a billing_db_scheme \<Rightarrow> bool" where
  issue: "issue_invoice env user pk idate cu db = Inr (i, db') \<Longrightarrow> billing_step db db'"
| cancel: "cancel_invoice env user pk reason db = Inr (i, db') \<Longrightarrow> billing_step db db'"
| credit: "issue_credit_note env user q db = Inr (n, db') \<Longrightarrow> billing_step db db'"
| elsewhere: "billing_untouched db db' \<Longrightarrow> billing_step db db'"

lemma billing_balance_append:
  "tb_rows (db_cle db') = tb_rows (db_cle db) @ [e] \<Longrightarrow>
   billing_balance c db' = billing_balance c db + (if billing_entry e \<and> ce_customer e = c then ce_amount e else 0)"
  by (simp add: billing_balance_def)

lemma bill_order_ok:
  assumes "bill_order env user ord lines d cu db = Inr (i, db')" "billing_ok db"
  shows "billing_ok db'"
proof -
  have so: "series_ok (db_series db)" using assms(2) by (simp add: billing_ok_def numbers_ok_def)
  from bill_orderD [OF assms(1) so] show ?thesis
  proof cases
    case (1 s cust intra e new)
    have i: "iv_pk i = tb_seq (db_invoices db)" "iv_status i \<noteq> IV_CANCELLED" "md_customer i = so_customer ord"
      "iv_sales_order i = Some (so_pk ord)" "is_money (doc_total i)"
      by (subst 1(6), simp add: new_invoice_def doc_total_def order_amounts_def)+
    have nonneg: "0 \<le> doc_total i" using 1(7) by (simp add: invoice_constraints_def amounts_nonneg_def doc_total_def)
    note ok = assms(2) [unfolded billing_ok_def documents_wf_def]
    have wf: "table_wf iv_pk (db_invoices db')"
      by (rule table_wf_append [where key = iv_pk, OF _ 1(9,10) i(1)]) (use ok in blast)
    have "documents_wf db'" using ok wf 1(7,9,24) i(5) by (simp add: documents_wf_def)
    moreover have "numbers_ok db'"
      using assms(2) 1(25) 1(26) [of "invoice_numbers db"] 1(27) [of "credit_note_numbers db"] 1(9,24)
      by (simp add: billing_ok_def numbers_ok_def invoice_numbers_def credit_note_numbers_def)
    moreover have "credits_ok db'"
    proof -
      have "cn_invoice n \<noteq> iv_pk i" if "n \<in> set (tb_rows (db_credit_notes db))" for n
        using that assms(2) i(1) unfolding billing_ok_def credits_ok_def documents_wf_def table_wf_def list_all_iff
        by fastforce
      then have "credited (iv_pk i) db = sum_where (\<lambda>n. False) doc_total (tb_rows (db_credit_notes db))"
        unfolding credited_def by (intro sum_where_cong) simp
      then have "credited (iv_pk i) db = 0" by (simp add: sum_where_def)
      then show ?thesis using assms(2) 1(9,24) nonneg by (auto simp: billing_ok_def credits_ok_def credited_def)
    qed
    moreover have "books_agree db'"
    proof -
      have "live_invoices_total c db' = live_invoices_total c db + (if so_customer ord = c then doc_total i else 0)" for c
        using i(2,3) by (simp add: live_invoices_total_def 1(9))
      moreover have "billing_balance c db' = billing_balance c db + (if so_customer ord = c then doc_total i else 0)" for c
        using billing_balance_append [OF 1(13), of c] 1(14,16,17) by (simp add: billing_entry_def doc_total_def)
      moreover have "credit_notes_total c db' = credit_notes_total c db" for c
        by (simp add: credit_notes_total_def 1(24))
      ultimately show ?thesis using assms(2) by (simp add: billing_ok_def books_agree_def)
    qed
    moreover have "orders_billed_once db'"
      using assms(2) 1(9,11) i(4) by (auto simp: billing_ok_def orders_billed_once_def)
    ultimately show ?thesis by (simp add: billing_ok_def)
  qed
qed

lemma cancelled_form_fields [simp]:
  "iv_pk (cancelled_form env user r i) = iv_pk i" "iv_sales_order (cancelled_form env user r i) = iv_sales_order i"
  "md_number_series (cancelled_form env user r i) = md_number_series i"
  "iv_invoice_number (cancelled_form env user r i) = iv_invoice_number i"
  "md_customer (cancelled_form env user r i) = md_customer i" "doc_total (cancelled_form env user r i) = doc_total i"
  "iv_status (cancelled_form env user r i) = IV_CANCELLED" "md_amounts (cancelled_form env user r i) = md_amounts i"
  "iv_client_uuid (cancelled_form env user r i) = iv_client_uuid i"
  by (simp_all add: cancelled_form_def doc_total_def)

lemma cancel_invoice_ok:
  assumes "cancel_invoice env user pk reason db = Inr (i, db')" "billing_ok db"
  shows "billing_ok db'"
  using assms(1)
proof (cases rule: cancel_invoiceD)
  case already
  then show ?thesis using assms(2) by simp
next
  case (cancelled locked e)
  let ?f = "cancelled_form env user (strip reason)"
  let ?g = "\<lambda>x. if iv_pk x = pk then ?f x else x"
  note ok = assms(2) [unfolded billing_ok_def documents_wf_def]
  have l: "locked \<in> set (tb_rows (db_invoices db))" "iv_pk locked = pk"
    using tb_getD [OF cancelled(1)] by blast+
  have rows: "tb_rows (db_invoices db') = map ?g (tb_rows (db_invoices db))"
    by (simp add: cancelled(7) table_simps)
  have inj: "x = locked" if "x \<in> set (tb_rows (db_invoices db))" "iv_pk x = pk" for x
    using table_wf_inj [of iv_pk "db_invoices db" x locked] that ok l by simp
  have same: "iv_pk (?g x) = iv_pk x" "iv_sales_order (?g x) = iv_sales_order x"
    "md_number_series (?g x) = md_number_series x" "iv_invoice_number (?g x) = iv_invoice_number x"
    "md_customer (?g x) = md_customer x" "doc_total (?g x) = doc_total x" for x
    by simp_all
  have wf: "table_wf iv_pk (db_invoices db')"
    using ok unfolding cancelled(7) by (intro table_wf_update) simp_all
  have "invoice_constraints (?g x)" if "x \<in> set (tb_rows (db_invoices db))" for x
  proof (cases "iv_pk x = pk")
    case True
    then show ?thesis using inj [OF that] cancelled(5,6) by simp
  next
    case False
    then show ?thesis using ok that by (simp add: list_all_iff)
  qed
  then have "list_all (\<lambda>i. invoice_constraints i \<and> is_money (doc_total i)) (map ?g (tb_rows (db_invoices db)))"
    using ok same(6) unfolding list.pred_map comp_def by (simp add: list_all_iff)
  then have "documents_wf db'"
    using ok wf by (simp add: documents_wf_def rows cancelled(15))
  moreover have "numbers_ok db'"
    using assms(2)
    by (simp add: billing_ok_def numbers_ok_def invoice_numbers_def credit_note_numbers_def rows comp_def same cancelled(15,16))
  moreover have "credits_ok db'"
  proof -
    have "\<exists>i \<in> set (tb_rows (db_invoices db')). iv_pk i = cn_invoice n \<and> iv_status i \<noteq> IV_CANCELLED \<and> md_customer i = md_customer n"
      if n: "n \<in> set (tb_rows (db_credit_notes db))" for n
    proof -
      obtain i where i: "i \<in> set (tb_rows (db_invoices db))" "iv_pk i = cn_invoice n" "iv_status i \<noteq> IV_CANCELLED"
        "md_customer i = md_customer n"
        using n assms(2) unfolding billing_ok_def credits_ok_def by blast
      then have "iv_pk i \<noteq> pk" using cancelled(3) n by auto
      then have "i \<in> set (tb_rows (db_invoices db'))" using i(1) by (force simp: rows)
      then show ?thesis using i by blast
    qed
    then show ?thesis
      using assms(2) by (auto simp: billing_ok_def credits_ok_def credited_def cancelled(15) rows)
  qed
  moreover have "books_agree db'"
  proof -
    have "live_invoices_total c db' = live_invoices_total c db - (if md_customer locked = c then doc_total locked else 0)" for c
    proof (cases "md_customer locked = c")
      case True
      then show ?thesis
        using sum_where_update [of iv_pk "tb_rows (db_invoices db)" locked
            "\<lambda>i. iv_status i \<noteq> IV_CANCELLED \<and> md_customer i = c" ?f doc_total]
          ok l cancelled(2) by (simp add: live_invoices_total_def rows table_wf_def)
    next
      case False
      then have ne: "\<not> (iv_status (?g x) \<noteq> IV_CANCELLED \<and> md_customer (?g x) = c) \<longleftrightarrow> \<not> (iv_status x \<noteq> IV_CANCELLED \<and> md_customer x = c)"
        if "x \<in> set (tb_rows (db_invoices db))" for x
        using inj [OF that] by auto
      have "sum_where P doc_total (map ?g xs) = sum_where (\<lambda>x. P (?g x)) doc_total xs" for P xs
        by (induction xs) simp_all
      then have "live_invoices_total c db' = sum_where (\<lambda>x. iv_status (?g x) \<noteq> IV_CANCELLED \<and> md_customer (?g x) = c)
          doc_total (tb_rows (db_invoices db))"
        by (simp add: live_invoices_total_def rows)
      also have "\<dots> = live_invoices_total c db"
        unfolding live_invoices_total_def using ne by (intro sum_where_cong) blast
      finally show ?thesis using False by simp
    qed
    moreover have "billing_balance c db' = billing_balance c db - (if md_customer locked = c then doc_total locked else 0)" for c
    proof -
      have "is_money (doc_total locked)" using ok l(1) by (auto simp: list_all_iff)
      then show ?thesis
        using billing_balance_append [OF cancelled(8), of c] cancelled(9,10,12)
        by (auto simp: billing_entry_def doc_total_def)
    qed
    moreover have "credit_notes_total c db' = credit_notes_total c db" for c
      by (simp add: credit_notes_total_def cancelled(15))
    ultimately show ?thesis using assms(2) by (simp add: billing_ok_def books_agree_def)
  qed
  moreover have "orders_billed_once db'"
    using assms(2) by (simp add: billing_ok_def orders_billed_once_def rows comp_def same)
  ultimately show ?thesis by (simp add: billing_ok_def)
qed

lemma credited_total_eq: "documents_wf db \<Longrightarrow> credited_total pk db = credited pk db"
  unfolding credited_total_def credited_def doc_total_def documents_wf_def list_all_iff
  by (intro to_money_id at_scale_sum_where) auto

lemma credit_locked_ok:
  assumes "credit_locked env user q reason bill db = Inr (n, db')" "billing_ok db"
    "tb_get iv_pk pk (db_invoices db) = Some bill" "iv_status bill \<noteq> IV_CANCELLED"
  shows "billing_ok db'"
proof -
  have so: "series_ok (db_series db)" and wf: "documents_wf db"
    using assms(2) by (simp_all add: billing_ok_def numbers_ok_def)
  have b: "bill \<in> set (tb_rows (db_invoices db))" using tb_getD [OF assms(3)] by blast
  from credit_lockedD [OF assms(1) so] show ?thesis
  proof cases
    case (1 s e prepared)
    have n: "cn_pk n = tb_seq (db_credit_notes db)" "md_customer n = md_customer bill"
      "cn_invoice n = iv_pk bill" "is_money (doc_total n)"
      by (subst 1(2), simp add: new_credit_note_def doc_total_def credit_amounts_def)+
    note ok = assms(2) [unfolded billing_ok_def documents_wf_def]
    have wfn: "table_wf cn_pk (db_credit_notes db')"
      by (rule table_wf_append [where key = cn_pk, OF _ 1(6,7) n(1)]) (use ok in blast)
    have "documents_wf db'" using ok wfn 1(6,15) n(4) by (simp add: documents_wf_def)
    moreover have "numbers_ok db'"
      using assms(2) 1(18) 1(19) [of "credit_note_numbers db"] 1(20) [of "invoice_numbers db"] 1(6,15)
      by (simp add: billing_ok_def numbers_ok_def invoice_numbers_def credit_note_numbers_def)
    moreover have "credits_ok db'"
    proof -
      have c: "credited k db' = credited k db + (if iv_pk bill = k then doc_total n else 0)" for k
        by (simp add: credited_def 1(6) n(3))
      have cap: "credited (iv_pk bill) db + doc_total n \<le> doc_total bill"
        using 1(5) credited_total_eq [OF wf] by (simp add: doc_total_def)
      have "x = bill" if "x \<in> set (tb_rows (db_invoices db))" "iv_pk x = iv_pk bill" for x
        using table_wf_inj [of iv_pk "db_invoices db" x bill] that ok b by simp
      then have "credited (iv_pk x) db' \<le> doc_total x" if "x \<in> set (tb_rows (db_invoices db))" for x
        using that c [of "iv_pk x"] cap assms(2) by (auto simp: billing_ok_def credits_ok_def)
      moreover have "\<exists>i \<in> set (tb_rows (db_invoices db)). iv_pk i = cn_invoice n \<and> iv_status i \<noteq> IV_CANCELLED \<and> md_customer i = md_customer n"
        using b n assms(4) by auto
      ultimately show ?thesis
        using assms(2) by (auto simp: billing_ok_def credits_ok_def 1(6,15))
    qed
    moreover have "books_agree db'"
    proof -
      have "live_invoices_total c db' = live_invoices_total c db" for c
        by (simp add: live_invoices_total_def 1(15))
      moreover have "billing_balance c db' = billing_balance c db - (if md_customer bill = c then doc_total n else 0)" for c
        using billing_balance_append [OF 1(9), of c] 1(10,11,13) by (simp add: billing_entry_def doc_total_def)
      moreover have "credit_notes_total c db' = credit_notes_total c db + (if md_customer bill = c then doc_total n else 0)" for c
        by (simp add: credit_notes_total_def 1(6) n(2))
      ultimately show ?thesis using assms(2) by (simp add: billing_ok_def books_agree_def)
    qed
    moreover have "orders_billed_once db'"
      using assms(2) 1(15) by (simp add: billing_ok_def orders_billed_once_def)
    ultimately show ?thesis by (simp add: billing_ok_def)
  qed
qed

lemma billing_untouched_ok: "billing_untouched db db' \<Longrightarrow> billing_ok db \<Longrightarrow> billing_ok db'"
  by (simp add: billing_untouched_def billing_ok_def documents_wf_def numbers_ok_def invoice_numbers_def
      credit_note_numbers_def credits_ok_def credited_def books_agree_def billing_balance_def sum_where_filter
      live_invoices_total_def credit_notes_total_def orders_billed_once_def)

lemma billing_step_ok: "billing_step db db' \<Longrightarrow> billing_ok db \<Longrightarrow> billing_ok db'"
proof (induction rule: billing_step.induct)
  case (issue env user pk idate cu db i db')
  then show ?case using issue_invoiceD(2) [OF issue(1)] bill_order_ok by blast
next
  case (cancel env user pk reason db i db')
  then show ?case by (rule cancel_invoice_ok)
next
  case (credit env user q db n db')
  then show ?case using issue_credit_noteD(4) [OF credit(1)] credit_locked_ok by blast
next
  case (elsewhere db db')
  then show ?case by (rule billing_untouched_ok)
qed

lemma billing_reachable_ok: "billing_step\<^sup>*\<^sup>* db db' \<Longrightarrow> billing_ok db \<Longrightarrow> billing_ok db'"
  by (induction rule: rtranclp_induct) (auto intro: billing_step_ok)

inductive_cases billing_stepE: "billing_step db db'"


section \<open>Retries\<close>

lemma uuid_lookup_new:
  assumes "tb_rows t' = tb_rows t @ [x]" "\<forall>y \<in> set (tb_rows t). key y \<noteq> Some u" "key x = Some u"
  shows "tb_first (\<lambda>y. key y = Some u) t' = Some x"
  using assms by (auto simp: tb_first_def find_append find_None_iff_list split: option.splits dest!: find_SomeD)

interpretation issue: idempotent_writer
  "\<lambda>(env, user, pk, idate, cu) (db :: 'a billing_db_scheme). issue_invoice env user pk idate cu db"
  "\<lambda>(env, user, pk, idate, cu). cu" find_invoice_by_uuid
  "\<lambda>(env, user, pk, idate, cu). has_role user [OWNER]" "\<lambda>db. series_ok (db_series db)"
proof (unfold_locales, goal_cases)
  case (1 q k db r)
  then show ?case by (auto simp: issue_invoice_def split: prod.splits)
next
  case (2 q db x)
  then show ?case by (cases x) (auto dest: issue_invoiceD(1) split: prod.splits)
next
  case (3 db q k r db')
  obtain env user pk idate where q: "q = (env, user, pk, idate, Some k)" using 3(2) by (cases q) auto
  from 3(4) have "issue_invoice env user pk idate (Some k) db = Inr (r, db')" by (simp add: q)
  then consider "db' = db"
    | ord d where "bill_order env user ord (lines_of pk db) d (Some k) db = Inr (r, db')"
    using issue_invoiceD(2) by blast
  then show ?case
  proof cases
    case 2
    from bill_orderD [OF this 3(1)] show ?thesis
    proof cases
      case inner: (1 s cust intra e new)
      have "iv_client_uuid r = Some k" by (subst inner(6)) (simp add: new_invoice_def)
      then show ?thesis
        using uuid_lookup_new [where key = iv_client_uuid, OF inner(9)] inner(12)
        by (simp add: find_invoice_by_uuid_def)
    qed
  qed simp
qed

interpretation credit: idempotent_writer
  "\<lambda>(env, user, q) (db :: 'a billing_db_scheme). issue_credit_note env user q db"
  "\<lambda>(env, user, q). cq_client_uuid q" find_credit_note_by_uuid
  "\<lambda>(env, user, q). has_role user [OWNER] \<and> strip (cq_reason q) \<noteq> '''' \<and> cq_lines q \<noteq> []"
  "\<lambda>db. series_ok (db_series db)"
proof (unfold_locales, goal_cases)
  case (1 q k db r)
  then show ?case by (auto simp: issue_credit_note_def Let_def split: prod.splits)
next
  case (2 q db x)
  then show ?case by (cases x) (auto dest: issue_credit_noteD split: prod.splits)
next
  case (3 db q k r db')
  obtain env user c where q: "q = (env, user, c)" by (cases q) auto
  have k: "cq_client_uuid c = Some k" using 3(2) by (simp add: q)
  from 3(4) have "issue_credit_note env user c db = Inr (r, db')" by (simp add: q)
  then consider "db' = db"
    | bill where "credit_locked env user c (strip (cq_reason c)) bill db = Inr (r, db')"
    using issue_credit_noteD(4) by blast
  then show ?case
  proof cases
    case 2
    from credit_lockedD [OF this 3(1)] show ?thesis
    proof cases
      case inner: (1 s e prepared)
      have "cn_client_uuid r = Some k" by (subst inner(2)) (simp add: new_credit_note_def k)
      then show ?thesis
        using uuid_lookup_new [where key = cn_client_uuid, OF inner(6)] inner(8) k
        by (simp add: find_credit_note_by_uuid_def)
    qed
  qed simp
qed

section \<open>The invoice and its order\<close>

lemma order_amounts_exact:
  assumes "\<forall>l \<in> set ls. line_wf l" "a = order_amounts ls intra"
  shows "da_subtotal a = sum_list (map gross_of ls)" "da_discount a = sum_list (map ol_discount_amount ls)"
    "da_taxable a = da_subtotal a - da_discount a" "tax_total (da_tax a) = sum_list (map ol_tax_amount ls)"
    "da_total a = sum_list (map ol_line_total ls) + da_round_off a" "\<bar>da_round_off a\<bar> \<le> 1/2"
    "at_scale 0 (da_total a)" "gst_split_ok (da_tax a)"
    "da_total a = da_taxable a + tax_total (da_tax a) + da_round_off a"
proof -
  have m: "is_money (sum_list (map gross_of ls))" "is_money (sum_list (map ol_discount_amount ls))"
    "is_money (sum_list (map ol_taxable_amount ls))" "is_money (sum_list (map ol_tax_amount ls))"
    using assms(1) by (auto intro!: at_scale_sum_list simp: line_wf_def)
  have s: "sum_list (map ol_taxable_amount ls) = sum_list (map gross_of ls) - sum_list (map ol_discount_amount ls)"
    "sum_list (map ol_line_total ls) = sum_list (map ol_taxable_amount ls) + sum_list (map ol_tax_amount ls)"
    using assms(1) by (induction ls) (auto simp: line_wf_def)
  note A = amounts_ofD [OF assms(2) [unfolded order_amounts_def] m(3,4)]
  show "da_subtotal a = sum_list (map gross_of ls)" "da_discount a = sum_list (map ol_discount_amount ls)"
    using m by (simp_all add: assms(2) order_amounts_def amounts_of_def split: prod.splits)
  then show "da_taxable a = da_subtotal a - da_discount a" using A(5) s(1) by simp
  show "tax_total (da_tax a) = sum_list (map ol_tax_amount ls)"
    "da_total a = sum_list (map ol_line_total ls) + da_round_off a" "\<bar>da_round_off a\<bar> \<le> 1/2"
    "at_scale 0 (da_total a)" "gst_split_ok (da_tax a)"
    "da_total a = da_taxable a + tax_total (da_tax a) + da_round_off a"
    using A s(2) by simp_all
qed

lemma issue_new_invoice:
  assumes "issue_invoice env user pk idate cu db = Inr (i, db')" "i \<notin> set (tb_rows (db_invoices db))"
  obtains ord where "get_order pk db = Inr ord" "so_status ord \<in> {DISPATCHED, DELIVERED}"
    "bill_order env user ord (lines_of pk db) (case idate of None \<Rightarrow> today env | Some d \<Rightarrow> d) cu db = Inr (i, db')"
  using issue_invoiceD(2) [OF assms(1)] assms(2) by blast

lemma settled_balance_append:
  assumes "tb_rows (db_cle db') = tb_rows (db_cle db) @ [e]" "db_customers db' = db_customers db"
    "tb_get cu_pk (ce_customer e) (db_customers db) = Some cust"
  shows "settled_balance c None db' = settled_balance c None db + (if ce_customer e = c then ce_amount e else 0)"
proof -
  have "cu_pk cust = ce_customer e" using tb_getD [OF assms(3)] by simp
  then show ?thesis using assms
    by (cases "tb_get cu_pk c (db_customers db)")
      (auto simp: settled_balance_def balance_expression_def up_to_def dest: tb_getD)
qed

text \<open>Issuing moves the order's value from the open to the settled term, up to the rounding.\<close>

lemma invoice_moves_exposure:
  assumes b: "bill_order env user ord lines d cu db = Inr (i, db')" and so: "series_ok (db_series db)"
    and o: "orders_ok db" "ord \<in> set (tb_rows (db_orders db))" "so_status ord \<in> set LIVE_STATUSES"
      "so_pk ord \<notin> set (settled_order_ids (so_customer ord) db)"
  shows "credit_exposure (so_customer ord) db' = credit_exposure (so_customer ord) db + doc_total i - so_total_amount ord"
proof -
  let ?c = "so_customer ord"
  from bill_orderD [OF b so] show ?thesis
  proof cases
    case (1 s cust intra e new)
    have cust: "tb_get cu_pk ?c (db_customers db) = Some cust"
      using 1(1) by (simp add: order_customer_def split: option.splits)
    have pk: "cu_pk cust = ?c" using tb_getD [OF cust] by simp
    have same: "db_orders db' = db_orders db" "db_customers db' = db_customers db"
      using 1(23) by (simp_all add: billing_frame_def)
    let ?open = "\<lambda>db r. so_customer r = ?c \<and> so_status r \<in> set LIVE_STATUSES \<and> so_pk r \<notin> set (settled_order_ids ?c db)"
    have iff: "?open db' r \<longleftrightarrow> ?open db r \<and> so_pk r \<noteq> so_pk ord" for r
      unfolding settled_order_ids_iff using 1(13-15,20) by auto
    have "sum_where (?open db) so_total_amount (tb_rows (db_orders db)) =
      so_total_amount ord + sum_where (\<lambda>r. ?open db r \<and> so_pk r \<noteq> so_pk ord) so_total_amount (tb_rows (db_orders db))"
      using o by (intro sum_where_remove_key) (auto simp: orders_ok_def table_wf_def)
    moreover have "sum_where (?open db') so_total_amount (tb_rows (db_orders db)) =
      sum_where (\<lambda>r. ?open db r \<and> so_pk r \<noteq> so_pk ord) so_total_amount (tb_rows (db_orders db))"
      using iff by (intro sum_where_cong) blast
    moreover have "open_order_value ?c db' = sum_where (?open db') so_total_amount (tb_rows (db_orders db))"
      "open_order_value ?c db = sum_where (?open db) so_total_amount (tb_rows (db_orders db))"
      using cust pk same by (simp_all add: open_order_value_def)
    moreover have "settled_balance ?c None db' = settled_balance ?c None db + doc_total i"
      using settled_balance_append [OF 1(13) same(2), of cust ?c] 1(14,16) cust by (simp add: doc_total_def)
    ultimately show ?thesis by (simp add: credit_exposure_def)
  qed
qed

text \<open>Before the first document.\<close>

lemma fresh_billing_ok:
  assumes "tb_rows (db_series db) = []" "tb_rows (db_invoices db) = []" "tb_rows (db_credit_notes db) = []"
    "filter billing_entry (tb_rows (db_cle db)) = []"
  shows "billing_ok db"
  using assms
  by (simp add: billing_ok_def documents_wf_def numbers_ok_def series_ok_def gapless_for_def invoice_numbers_def
      credit_note_numbers_def credits_ok_def books_agree_def billing_balance_def sum_where_filter
      live_invoices_total_def credit_notes_total_def orders_billed_once_def table_wf_def)

definition empty_billing_db :: billing_db where
  "empty_billing_db = numbering_db.extend empty_numbering_db
     (billing_db.fields empty_table empty_table empty_table empty_table)"

lemma empty_billing_ok: "billing_ok empty_billing_db"
  by (rule fresh_billing_ok) (simp_all add: empty_billing_db_def billing_db.defs numbering_db.defs
      empty_numbering_db_def fulfilment_db.defs empty_fulfilment_db_def orders_db.defs empty_orders_db_def
      inventory_db.defs empty_inventory_db_def ledger_db.defs empty_ledger_db_def catalogue_db.defs
      empty_catalogue_db_def)

end
