(* ===== verification/Words.thy ===== *)
theory Words
  imports Decimals Dates "HOL-Library.Code_Target_Nat"
begin

text \<open>
  Amounts in words: \<^verbatim>\<open>billing/templatetags/humanize_money.py\<close>, the Indian grouping into crore,
  lakh and thousand.  \<open>read_words\<close> reads the words back; \<open>in_words_read\<close> is the round trip.
\<close>

definition ONES :: "string list" where
  "ONES = [''zero'', ''one'', ''two'', ''three'', ''four'', ''five'', ''six'', ''seven'', ''eight'', ''nine'',
     ''ten'', ''eleven'', ''twelve'', ''thirteen'', ''fourteen'', ''fifteen'', ''sixteen'', ''seventeen'',
     ''eighteen'', ''nineteen'']"

definition TENS :: "string list" where
  "TENS = ['''', '''', ''twenty'', ''thirty'', ''forty'', ''fifty'', ''sixty'', ''seventy'', ''eighty'', ''ninety'']"

definition under_thousand :: "nat \<Rightarrow> string" where
  "under_thousand value =
     (let hundreds = (if value \<ge> 100 then [ONES ! (value div 100) @ '' hundred''] else []);
          rest = (if value \<ge> 100 then value mod 100 else value);
          link = (if value \<ge> 100 \<and> rest \<noteq> 0 then [''and''] else []);
          tail = (if rest \<ge> 20 then
                    [if rest mod 10 \<noteq> 0 then TENS ! (rest div 10) @ ''-'' @ ONES ! (rest mod 10) else TENS ! (rest div 10)]
                  else if rest \<noteq> 0 then [ONES ! rest] else [])
      in join '' '' (hundreds @ link @ tail))"

text \<open>The loop over \<^verbatim>\<open>_SCALES\<close>, unrolled over its three entries: what is left goes to the next.\<close>

fun in_words :: "nat \<Rightarrow> string" where
  "in_words value =
     (if value = 0 then ''zero''
      else
        let crores = (if value \<ge> 10000000 then [in_words (value div 10000000) @ '' crore''] else []);
            v1 = (if value \<ge> 10000000 then value mod 10000000 else value);
            lakhs = (if v1 \<ge> 100000 then [in_words (v1 div 100000) @ '' lakh''] else []);
            v2 = (if v1 \<ge> 100000 then v1 mod 100000 else v1);
            thousands = (if v2 \<ge> 1000 then [in_words (v2 div 1000) @ '' thousand''] else []);
            v3 = (if v2 \<ge> 1000 then v2 mod 1000 else v2)
        in join '' '' (crores @ lakhs @ thousands @ (if v3 \<noteq> 0 then [under_thousand v3] else [])))"

declare in_words.simps [simp del]

fun squeeze :: "string \<Rightarrow> string" where
  "squeeze (a # b # s) =
     (if a = CHR '' '' \<and> b = CHR '' '' then CHR '' '' # squeeze s else a # squeeze (b # s))"
| "squeeze s = s"

definition capitalize :: "string \<Rightarrow> string" where
  "capitalize s = upper (take 1 s) @ lower (drop 1 s)"

definition rupees_in_words :: "decimal option \<Rightarrow> string" where
  "rupees_in_words amount =
     (case amount of None \<Rightarrow> ''''
      | Some amount \<Rightarrow>
          let negative = (amount < 0); amount = \<bar>amount\<bar>;
              rupees = nat \<lfloor>amount\<rfloor>; paise = nat \<lfloor>(amount - of_nat rupees) * 100\<rfloor>;
              words = ''Rupees '' @ in_words rupees;
              words = (if paise \<noteq> 0 then words @ '' and '' @ in_words paise @ '' paise'' else words);
              words = (if negative then ''Minus '' @ lower (take 1 words) @ drop 1 words else words)
          in capitalize (squeeze (words @ '' only'')))"


section \<open>Reading the words back\<close>

definition under_hundred :: "nat \<Rightarrow> string" where
  "under_hundred n =
     (if n < 20 then ONES ! n
      else if n mod 10 \<noteq> 0 then TENS ! (n div 10) @ ''-'' @ ONES ! (n mod 10) else TENS ! (n div 10))"

fun index_of :: "string list \<Rightarrow> string \<Rightarrow> nat option" where
  "index_of [] w = None"
| "index_of (x # xs) w = (if x = w then Some 0 else map_option Suc (index_of xs w))"

text \<open>A number word: a one, a ten, or a ten and a one around a hyphen.\<close>

definition read_word :: "string \<Rightarrow> nat" where
  "read_word w =
     (let a = takeWhile (\<lambda>c. c \<noteq> CHR ''-'') w; b = drop (Suc (length a)) w
      in (if b = '''' then (case index_of ONES a of Some n \<Rightarrow> n
             | None \<Rightarrow> (case index_of TENS a of Some k \<Rightarrow> 10 * k | None \<Rightarrow> 0))
          else (case index_of TENS a of Some k \<Rightarrow> 10 * k | None \<Rightarrow> 0)
             + (case index_of ONES b of Some n \<Rightarrow> n | None \<Rightarrow> 0)))"

fun split_words :: "string \<Rightarrow> string \<Rightarrow> string list" where
  "split_words acc [] = [acc]"
| "split_words acc (c # s) = (if c = CHR '' '' then acc # split_words '''' s else split_words (acc @ [c]) s)"

fun read_tokens :: "nat \<Rightarrow> nat \<Rightarrow> string list \<Rightarrow> nat" where
  "read_tokens tot cur [] = tot + cur"
| "read_tokens tot cur (w # ws) =
     (if w = ''and'' then read_tokens tot cur ws
      else if w = ''hundred'' then read_tokens tot (cur * 100) ws
      else if w = ''thousand'' then read_tokens (tot + cur * 1000) 0 ws
      else if w = ''lakh'' then read_tokens (tot + cur * 100000) 0 ws
      else if w = ''crore'' then read_tokens ((tot + cur) * 10000000) 0 ws
      else read_tokens tot (cur + read_word w) ws)"

definition read_words :: "string \<Rightarrow> nat" where
  "read_words s = read_tokens 0 0 (split_words '''' s)"

text \<open>The words as a token list.\<close>

definition hundred_tokens :: "nat \<Rightarrow> string list" where
  "hundred_tokens n =
     (if n \<ge> 100 then [under_hundred (n div 100), ''hundred''] @ (if n mod 100 \<noteq> 0 then [''and'', under_hundred (n mod 100)] else [])
      else [under_hundred n])"

fun tokens :: "nat \<Rightarrow> string list" where
  "tokens n =
     (if n = 0 then [''zero'']
      else
        (if n \<ge> 10000000 then tokens (n div 10000000) @ [''crore''] else []) @
        (if n mod 10000000 \<ge> 100000 then [under_hundred (n mod 10000000 div 100000), ''lakh''] else []) @
        (if n mod 100000 \<ge> 1000 then [under_hundred (n mod 100000 div 1000), ''thousand''] else []) @
        (if n mod 1000 \<noteq> 0 then hundred_tokens (n mod 1000) else []))"

declare tokens.simps [simp del]

definition plain :: "string \<Rightarrow> bool" where
  "plain w \<longleftrightarrow> CHR '' '' \<notin> set w"

definition keyword :: "string \<Rightarrow> bool" where
  "keyword w \<longleftrightarrow> w = ''and'' \<or> w = ''hundred'' \<or> w = ''thousand'' \<or> w = ''lakh'' \<or> w = ''crore''"

definition word_check :: "string \<Rightarrow> bool" where
  "word_check w \<longleftrightarrow> plain w \<and> CHR ''-'' \<notin> set w \<and> \<not> keyword w \<and> w \<noteq> ''''"

lemma ones_check: "list_all (\<lambda>k. word_check (ONES ! k) \<and> index_of ONES (ONES ! k) = Some k) [0..<20]"
  by code_simp

lemma tens_check:
  "list_all (\<lambda>k. word_check (TENS ! k) \<and> index_of TENS (TENS ! k) = Some k \<and> index_of ONES (TENS ! k) = None) [2..<10]"
  by code_simp

lemma ones_facts:
  "k < 20 \<Longrightarrow> word_check (ONES ! k)" "k < 20 \<Longrightarrow> index_of ONES (ONES ! k) = Some k"
  using ones_check [unfolded list_all_iff set_upt] by auto

lemma tens_facts:
  "2 \<le> k \<Longrightarrow> k < 10 \<Longrightarrow> word_check (TENS ! k)" "2 \<le> k \<Longrightarrow> k < 10 \<Longrightarrow> index_of TENS (TENS ! k) = Some k"
  "2 \<le> k \<Longrightarrow> k < 10 \<Longrightarrow> index_of ONES (TENS ! k) = None"
  using tens_check [unfolded list_all_iff set_upt] by auto

lemma takeWhile_no_hyphen: "CHR ''-'' \<notin> set a \<Longrightarrow> takeWhile (\<lambda>c. c \<noteq> CHR ''-'') a = a"
  by (auto simp: takeWhile_eq_all_conv)

lemma takeWhile_hyphen: "CHR ''-'' \<notin> set a \<Longrightarrow> takeWhile (\<lambda>c. c \<noteq> CHR ''-'') (a @ CHR ''-'' # b) = a"
  by (subst takeWhile_append2) auto

lemma keyword_no_hyphen: "keyword w \<Longrightarrow> CHR ''-'' \<notin> set w"
  by (auto simp: keyword_def)

lemma under_hundred_facts:
  assumes "n < 100"
  shows "plain (under_hundred n)" "read_word (under_hundred n) = n" "\<not> keyword (under_hundred n)"
    "under_hundred n \<noteq> ''''"
proof -
  consider (one) "n < 20" | (ten) "20 \<le> n" "n mod 10 = 0" | (both) "20 \<le> n" "n mod 10 \<noteq> 0" by linarith
  then have "plain (under_hundred n) \<and> read_word (under_hundred n) = n \<and> \<not> keyword (under_hundred n) \<and> under_hundred n \<noteq> ''''"
  proof cases
    case one
    then show ?thesis using ones_facts [OF one]
      by (simp add: under_hundred_def word_check_def read_word_def takeWhile_no_hyphen)
  next
    case ten
    then have k: "2 \<le> n div 10" "n div 10 < 10" using assms by auto
    show ?thesis using ten tens_facts [OF k] div_mult_mod_eq [of n 10]
      by (simp add: under_hundred_def word_check_def read_word_def takeWhile_no_hyphen)
  next
    case both
    then have k: "2 \<le> n div 10" "n div 10 < 10" "n mod 10 < 20" using assms by auto
    have w: "under_hundred n = TENS ! (n div 10) @ CHR ''-'' # ONES ! (n mod 10)"
      using both by (simp add: under_hundred_def)
    note T = tens_facts [OF k(1,2)] and N = ones_facts [OF k(3)]
    have "read_word (under_hundred n) = n"
      using T N div_mult_mod_eq [of n 10] unfolding w
      by (simp add: word_check_def read_word_def takeWhile_hyphen)
    moreover have "\<not> keyword (under_hundred n)" using keyword_no_hyphen [of "under_hundred n"] unfolding w by auto
    ultimately show ?thesis using T(1) N(1) unfolding w by (simp add: word_check_def plain_def)
  qed
  then show "plain (under_hundred n)" "read_word (under_hundred n) = n" "\<not> keyword (under_hundred n)"
    "under_hundred n \<noteq> ''''" by blast+
qed

lemma read_under_hundred [simp]:
  "n < 100 \<Longrightarrow> read_tokens t c (under_hundred n # ws) = read_tokens t (c + n) ws"
  using under_hundred_facts [of n] by (simp add: keyword_def)

lemma read_hundred_tokens:
  "n < 1000 \<Longrightarrow> read_tokens t 0 (hundred_tokens n @ ws) = read_tokens t n ws"
proof -
  assume n: "n < 1000"
  have h: "read_tokens t c (''hundred'' # ws) = read_tokens t (c * 100) ws" "read_tokens t c (''and'' # ws) = read_tokens t c ws"
    for t c ws by simp_all
  have "n div 100 < 100" using n by (simp add: less_mult_imp_div_less)
  note u = read_under_hundred [OF this]
  have "n mod 100 < 100" by simp
  note v = read_under_hundred [OF this]
  show ?thesis
  proof (cases "n \<ge> 100")
    case True
    have "n mod 100 = 0 \<Longrightarrow> n div 100 * 100 = n" by auto
    then show ?thesis
      using True by (simp add: hundred_tokens_def u h v del: read_tokens.simps)
  next
    case False
    then show ?thesis by (simp add: hundred_tokens_def del: read_tokens.simps)
  qed
qed

lemma read_unit:
  "n < 100 \<Longrightarrow> read_tokens t 0 (under_hundred n # ''lakh'' # ws) = read_tokens (t + n * 100000) 0 ws"
  "n < 100 \<Longrightarrow> read_tokens t 0 (under_hundred n # ''thousand'' # ws) = read_tokens (t + n * 1000) 0 ws"
  by (simp_all only: read_under_hundred) simp_all

lemma read_tokens_split:
  "\<exists>t c. (\<forall>ws. read_tokens 0 0 (tokens n @ ws) = read_tokens t c ws) \<and> t + c = n"
proof (induction n rule: tokens.induct)
  case (1 n)
  show ?case
  proof (cases "n = 0")
    case True
    have "read_tokens 0 0 (''zero'' # ws) = read_tokens 0 0 ws" for ws
      using read_under_hundred [of 0 0 0 ws] by (simp add: under_hundred_def ONES_def)
    then show ?thesis using True by (intro exI [of _ 0]) (simp add: tokens.simps [of 0])
  next
    case False
    let ?c = "n div 10000000" and ?l = "n mod 10000000 div 100000" and ?t = "n mod 100000 div 1000"
    have crore: "read_tokens 0 0 ((if n \<ge> 10000000 then tokens ?c @ [''crore''] else []) @ ws)
        = read_tokens (?c * 10000000) 0 ws" for ws
    proof (cases "n \<ge> 10000000")
      case True
      then obtain t c where "\<forall>ws. read_tokens 0 0 (tokens ?c @ ws) = read_tokens t c ws" "t + c = ?c"
        using 1 False by auto
      then show ?thesis using True by simp
    qed simp
    have lakh: "read_tokens t 0 ((if n mod 10000000 \<ge> 100000 then [under_hundred ?l, ''lakh''] else []) @ ws)
        = read_tokens (t + ?l * 100000) 0 ws" for t ws
      using read_unit(1) [of ?l t ws] by (simp add: less_mult_imp_div_less)
    have thousand: "read_tokens t 0 ((if n mod 100000 \<ge> 1000 then [under_hundred ?t, ''thousand''] else []) @ ws)
        = read_tokens (t + ?t * 1000) 0 ws" for t ws
      using read_unit(2) [of ?t t ws] by (simp add: less_mult_imp_div_less)
    have rest: "read_tokens t 0 ((if n mod 1000 \<noteq> 0 then hundred_tokens (n mod 1000) else []) @ ws)
        = read_tokens t (n mod 1000) ws" for t ws
      using read_hundred_tokens [of "n mod 1000" t ws] by simp
    have "read_tokens 0 0 (tokens n @ ws) = read_tokens (?c * 10000000 + ?l * 100000 + ?t * 1000) (n mod 1000) ws" for ws
      by (subst tokens.simps) (simp only: False if_False append_assoc crore lakh thousand rest add.assoc)
    moreover have "?c * 10000000 + ?l * 100000 + ?t * 1000 + n mod 1000 = n"
    proof -
      have "n mod 10000000 = ?l * 100000 + n mod 100000"
        using div_mult_mod_eq [of "n mod 10000000" 100000] mod_mod_cancel [of 100000 10000000 n] by simp
      moreover have "n mod 100000 = ?t * 1000 + n mod 1000"
        using div_mult_mod_eq [of "n mod 100000" 1000] mod_mod_cancel [of 1000 100000 n] by simp
      ultimately show ?thesis using div_mult_mod_eq [of n 10000000] by linarith
    qed
    ultimately show ?thesis by blast
  qed
qed

lemma read_tokens_tokens: "read_tokens 0 0 (tokens n) = n"
  using read_tokens_split [of n] by (metis append_Nil2 read_tokens.simps(1))

section \<open>From the string to its words\<close>

lemma join_append:
  "xs \<noteq> [] \<Longrightarrow> ys \<noteq> [] \<Longrightarrow> join sep (xs @ ys) = join sep xs @ sep @ join sep ys"
proof (induction sep xs rule: join.induct)
  case (2 sep s)
  then show ?case by (cases ys) auto
qed auto

lemma join_Cons: "ys \<noteq> [] \<Longrightarrow> join sep (x # ys) = x @ sep @ join sep ys"
  by (cases ys) auto

lemma join_parts:
  "list_all (\<lambda>ts. ts \<noteq> []) tss \<Longrightarrow> join sep (map (join sep) tss) = join sep (concat tss)"
proof (induction tss)
  case (Cons ts tss)
  show ?case
  proof (cases "tss = []")
    case False
    then have "map (join sep) tss \<noteq> []" "concat tss \<noteq> []" using Cons.prems by (auto simp: list_all_iff neq_Nil_conv)
    then show ?thesis using Cons by (simp add: join_Cons join_append)
  qed simp
qed simp

lemma split_plain: "plain w \<Longrightarrow> split_words acc (w @ s) = split_words (acc @ w) s"
  by (induction w arbitrary: acc) (auto simp: plain_def)

lemma split_join:
  "list_all plain ws \<Longrightarrow> ws \<noteq> [] \<Longrightarrow> split_words acc (join '' '' ws) = (acc @ hd ws) # tl ws"
proof (induction ws arbitrary: acc)
  case (Cons w ws)
  show ?case
  proof (cases "ws = []")
    case True
    then show ?thesis using Cons.prems split_plain [of w acc "''''"] by simp
  next
    case False
    then show ?thesis using Cons split_plain [of w acc] by (simp add: join_Cons)
  qed
qed simp

lemma hundred_tokens_nonempty [simp]: "hundred_tokens n \<noteq> []"
  by (simp add: hundred_tokens_def)

lemma tokens_nonempty [simp]: "tokens n \<noteq> []"
proof (cases "n = 0")
  case False
  consider "n \<ge> 10000000" | "n < 10000000" "n \<ge> 100000" | "n < 100000" "n \<ge> 1000" | "n < 1000" by linarith
  then show ?thesis using False by cases (simp_all add: tokens.simps [of n])
qed (simp add: tokens.simps)

lemma plain_units [simp]: "plain ''crore''" "plain ''lakh''" "plain ''thousand''" "plain ''hundred''" "plain ''and''"
  "plain ''zero''"
  by (simp_all add: plain_def)

lemma hundred_tokens_plain: "n < 1000 \<Longrightarrow> list_all plain (hundred_tokens n)"
proof -
  assume n: "n < 1000"
  then have "n div 100 < 100" by (simp add: less_mult_imp_div_less)
  then show ?thesis
    using under_hundred_facts(1) [of "n div 100"] under_hundred_facts(1) [of "n mod 100"]
      under_hundred_facts(1) [of n] by (auto simp: hundred_tokens_def)
qed

lemma tokens_plain: "list_all plain (tokens n)"
proof (induction n rule: tokens.induct)
  case (1 n)
  show ?case
  proof (cases "n = 0")
    case False
    have "n mod 10000000 div 100000 < 100" "n mod 100000 div 1000 < 100" by (simp_all add: less_mult_imp_div_less)
    then have u: "plain (under_hundred (n mod 10000000 div 100000))" "plain (under_hundred (n mod 100000 div 1000))"
      using under_hundred_facts(1) by blast+
    have h: "list_all plain (hundred_tokens (n mod 1000))" by (rule hundred_tokens_plain) simp
    have c: "n \<ge> 10000000 \<Longrightarrow> list_all plain (tokens (n div 10000000))" using 1 False by blast
    show ?thesis using False u h c by (subst tokens.simps) (auto simp: list_all_append)
  qed (simp add: tokens.simps)
qed

lemma under_thousand_tokens:
  assumes "0 < n" "n < 1000"
  shows "under_thousand n = join '' '' (hundred_tokens n)"
proof -
  have small: "(if r \<ge> 20 then [if r mod 10 \<noteq> 0 then TENS ! (r div 10) @ ''-'' @ ONES ! (r mod 10) else TENS ! (r div 10)]
      else if r \<noteq> 0 then [ONES ! r] else []) = (if r = 0 then [] else [under_hundred r])" for r
    by (simp add: under_hundred_def)
  show ?thesis
  proof (cases "n \<ge> 100")
    case True
    have "n div 100 < 10" using assms by (simp add: less_mult_imp_div_less)
    then have "under_hundred (n div 100) = ONES ! (n div 100)" by (simp add: under_hundred_def)
    then show ?thesis using True unfolding under_thousand_def Let_def small by (simp add: hundred_tokens_def)
  next
    case False
    then show ?thesis using assms unfolding under_thousand_def Let_def small by (simp add: hundred_tokens_def)
  qed
qed

lemma in_words_small: "0 < n \<Longrightarrow> n < 100 \<Longrightarrow> in_words n = under_hundred n"
  by (simp add: in_words.simps [of n] under_thousand_tokens hundred_tokens_def)

lemma in_words_tokens: "in_words n = join '' '' (tokens n)"
proof (induction n rule: tokens.induct)
  case (1 n)
  show ?case
  proof (cases "n = 0")
    case True
    then show ?thesis by (simp add: in_words.simps tokens.simps)
  next
    case False
    let ?l = "n mod 10000000 div 100000" and ?t = "n mod 100000 div 1000"
    define C where "C = (if n \<ge> 10000000 then [tokens (n div 10000000) @ [''crore'']] else [])"
    define L where "L = (if n mod 10000000 \<ge> 100000 then [[under_hundred ?l, ''lakh'']] else [])"
    define T where "T = (if n mod 100000 \<ge> 1000 then [[under_hundred ?t, ''thousand'']] else [])"
    define H where "H = (if n mod 1000 \<noteq> 0 then [hundred_tokens (n mod 1000)] else [])"
    have v1: "(if n \<ge> 10000000 then n mod 10000000 else n) = n mod 10000000" by simp
    have v2: "(if n mod 10000000 \<ge> 100000 then n mod 10000000 mod 100000 else n mod 10000000) = n mod 100000"
      using mod_mod_cancel [of 100000 10000000 n] by (auto simp: not_le dest: mod_less)
    have v3: "(if n mod 100000 \<ge> 1000 then n mod 100000 mod 1000 else n mod 100000) = n mod 1000"
      using mod_mod_cancel [of 1000 100000 n] by (auto simp: not_le dest: mod_less)
    have c: "(if n \<ge> 10000000 then [in_words (n div 10000000) @ '' crore''] else []) = map (join '' '') C"
      using 1 False by (simp add: C_def join_append)
    have l: "(if n mod 10000000 \<ge> 100000 then [in_words ?l @ '' lakh''] else []) = map (join '' '') L"
      using in_words_small [of ?l] by (simp add: L_def less_mult_imp_div_less div_greater_zero_iff)
    have t: "(if n mod 100000 \<ge> 1000 then [in_words ?t @ '' thousand''] else []) = map (join '' '') T"
      using in_words_small [of ?t] by (simp add: T_def less_mult_imp_div_less div_greater_zero_iff)
    have h: "(if n mod 1000 \<noteq> 0 then [under_thousand (n mod 1000)] else []) = map (join '' '') H"
      using under_thousand_tokens [of "n mod 1000"] by (simp add: H_def)
    have "in_words n = join '' '' (map (join '' '') (C @ L @ T @ H))"
      by (subst in_words.simps)
        (simp only: False if_False Let_def v1 v2 v3 c l t h map_append)
    also have "\<dots> = join '' '' (concat (C @ L @ T @ H))"
      by (rule join_parts) (simp add: C_def L_def T_def H_def)
    also have "concat (C @ L @ T @ H) = tokens n"
      using False by (subst tokens.simps) (simp add: C_def L_def T_def H_def)
    finally show ?thesis .
  qed
qed

lemma in_words_read: "read_words (in_words n) = n"
  using split_join [OF tokens_plain [of n] tokens_nonempty, of "''''"]
  by (simp add: read_words_def in_words_tokens read_tokens_tokens)

end
