(* ===== verification/Receivables.thy ===== *)
theory Receivables
  imports Books Walk
begin

text \<open>
  Receivables: \<^verbatim>\<open>receivables/models.py\<close>, \<^verbatim>\<open>services.py\<close> and \<^verbatim>\<open>selectors.py\<close>.  A payment reduces
  what a customer owes and names no invoice; which invoices are open is derived by the walk of
  theory \<open>Walk\<close> whenever someone asks.

  \<open>nextval\<close> reads a sequence that is part of the state.  PostgreSQL does not give a value back
  when the transaction fails; a failed call returns no state here, so a later call may draw the
  value a failed one drew.  Nothing rests on the numbers but that two payments never share one.
\<close>


section \<open>Payments\<close>

record payment =
  py_pk :: nat
  py_payment_number :: string
  py_client_uuid :: "string option"
  py_customer :: nat
  py_amount :: decimal
  py_method :: string
  py_reference_number :: string
  py_payment_date :: date
  py_received_by :: "nat option"
  py_device_id :: string
  py_notes :: string
  py_is_reversed :: bool
  py_reversed_reason :: string
  py_reversed_at :: "int option"
  py_reversed_by :: "nat option"

record receivables_db = billing_db +
  db_payments :: "payment table"
  db_payment_number_seq :: nat

definition PAYMENT_METHODS :: "(string \<times> string) list" where
  "PAYMENT_METHODS = [(''CASH'', ''Cash''), (''UPI'', ''UPI''), (''BANK'', ''Bank transfer''), (''CHEQUE'', ''Cheque'')]"

definition PAYMENT_MUTABLE :: "string list" where
  "PAYMENT_MUTABLE = [''is_reversed'', ''reversed_reason'', ''reversed_at'', ''reversed_by'']"

definition payment_constraints :: "payment \<Rightarrow> bool" where
  "payment_constraints p \<longleftrightarrow>
     0 < py_amount p \<and> (py_is_reversed p \<longrightarrow> py_reversed_reason p \<noteq> '''') \<and>
     (py_is_reversed p \<longleftrightarrow> py_reversed_at p \<noteq> None)"

definition next_payment_number :: "'a receivables_db_scheme \<Rightarrow> string \<times> 'a receivables_db_scheme" where
  "next_payment_number db =
     (''PAY-'' @ zero_pad 8 (db_payment_number_seq db),
      db\<lparr>db_payment_number_seq := Suc (db_payment_number_seq db)\<rparr>)"

definition insert_payment ::
  "(nat \<Rightarrow> payment) \<Rightarrow> 'a receivables_db_scheme \<Rightarrow> error + payment \<times> 'a receivables_db_scheme" where
  "insert_payment mk db =
     (let (p, t) = tb_insert mk (db_payments db)
      in andThen (require (payment_constraints p) (IntegrityError ''payment'')) (\<lambda>_.
         andThen (require (\<not> tb_exists (\<lambda>x. py_payment_number x = py_payment_number p) (db_payments db))
                    (IntegrityError ''payment_payment_number'')) (\<lambda>_.
         andThen (require (py_client_uuid p = None \<or> \<not> tb_exists (\<lambda>x. py_client_uuid x = py_client_uuid p) (db_payments db))
                    (IntegrityError ''payment_client_uuid'')) (\<lambda>_.
         Inr (p, db\<lparr>db_payments := t\<rparr>)))))"

record payment_request =
  pq_customer :: customer
  pq_amount :: decimal
  pq_method :: string
  pq_payment_date :: "date option"
  pq_reference_number :: string
  pq_notes :: string
  pq_device_id :: string
  pq_client_uuid :: "string option"

definition new_payment ::
  "actor option \<Rightarrow> payment_request \<Rightarrow> decimal \<Rightarrow> date \<Rightarrow> string \<Rightarrow> nat \<Rightarrow> payment" where
  "new_payment user q amount d number pk =
     \<lparr>py_pk = pk, py_payment_number = number, py_client_uuid = pq_client_uuid q,
      py_customer = cu_pk (pq_customer q), py_amount = amount, py_method = pq_method q,
      py_reference_number = take 100 (pq_reference_number q), py_payment_date = d,
      py_received_by = actor_pk user, py_device_id = take 64 (pq_device_id q), py_notes = pq_notes q,
      py_is_reversed = False, py_reversed_reason = '''', py_reversed_at = None, py_reversed_by = None\<rparr>"

definition find_payment_by_uuid :: "string \<Rightarrow> 'a receivables_db_scheme \<Rightarrow> payment option" where
  "find_payment_by_uuid u db = tb_first (\<lambda>p. py_client_uuid p = Some u) (db_payments db)"

definition existing_payment :: "string option \<Rightarrow> 'a receivables_db_scheme \<Rightarrow> payment option" where
  "existing_payment cu db = (case cu of None \<Rightarrow> None | Some u \<Rightarrow> find_payment_by_uuid u db)"

definition method_display :: "string \<Rightarrow> string" where
  "method_display m = (case map_of PAYMENT_METHODS m of None \<Rightarrow> m | Some label \<Rightarrow> label)"

text \<open>
  A constraint that refuses the row is caught: the payment the key names is the answer, and the
  savepoint leaves the state as it was.
\<close>

definition record_payment ::
  "env \<Rightarrow> actor option \<Rightarrow> payment_request \<Rightarrow> 'a receivables_db_scheme \<Rightarrow>
   error + payment \<times> 'a receivables_db_scheme" where
  "record_payment env user q db =
     andThen (require_roles user [OWNER, SALESMAN, DELIVERY]) (\<lambda>_.
     case existing_payment (pq_client_uuid q) db of
       Some existing \<Rightarrow> Inr (existing, db)
     | None \<Rightarrow>
     let amount = to_money (pq_amount q); customer = pq_customer q in
     andThen (require (\<not> amount \<le> 0) (invalid ''amount'' ''MIN_VALUE'')) (\<lambda>_.
     andThen (require (map_of PAYMENT_METHODS (pq_method q) \<noteq> None) (invalid ''method'' ''INVALID'')) (\<lambda>_.
     andThen (require (cu_is_active customer) (invalid ''customer'' ''INACTIVE'')) (\<lambda>_.
     let d = (case pq_payment_date q of None \<Rightarrow> today env | Some d \<Rightarrow> d);
         (number, db1) = next_payment_number db in
     case insert_payment (new_payment user q amount d number) db1 of
       Inl e \<Rightarrow>
         (case existing_payment (pq_client_uuid q) db of None \<Rightarrow> Inl e | Some existing \<Rightarrow> Inr (existing, db))
     | Inr (p, db2) \<Rightarrow>
         andThen (record_entry env user (cu_pk customer) ''PAYMENT'' (- amount)
                    (''Payment '' @ py_payment_number p @ '' ('' @ method_display (py_method p) @ '')'') (Some d)
                    (Some (''Payment'', Some (py_pk p))) None db2) (\<lambda>(_, db3).
         Inr (p, db3))))))"

definition reversed_form :: "env \<Rightarrow> actor option \<Rightarrow> string \<Rightarrow> payment \<Rightarrow> payment" where
  "reversed_form env user reason p = p\<lparr>py_is_reversed := True, py_reversed_reason := reason,
     py_reversed_at := Some (now env), py_reversed_by := actor_pk user\<rparr>"

definition save_payment ::
  "string list \<Rightarrow> (payment \<Rightarrow> payment) \<Rightarrow> payment \<Rightarrow> 'a receivables_db_scheme \<Rightarrow>
   error + payment \<times> 'a receivables_db_scheme" where
  "save_payment update_fields f p db =
     andThen (document_save ''payment'' PAYMENT_MUTABLE update_fields) (\<lambda>_.
     andThen (require (payment_constraints (f p)) (IntegrityError ''payment'')) (\<lambda>_.
     Inr (f p, db\<lparr>db_payments := tb_update py_pk (py_pk p) f (db_payments db)\<rparr>)))"

definition reverse_payment ::
  "env \<Rightarrow> actor option \<Rightarrow> nat \<Rightarrow> string \<Rightarrow> 'a receivables_db_scheme \<Rightarrow>
   error + payment \<times> 'a receivables_db_scheme" where
  "reverse_payment env user pk reason db =
     andThen (require_roles user [OWNER]) (\<lambda>_.
     let reason = strip reason in
     andThen (require (reason \<noteq> '''') (invalid ''reason'' ''REQUIRED'')) (\<lambda>_.
     case tb_get py_pk pk (db_payments db) of
       None \<Rightarrow> Inl ResourceNotFound
     | Some locked \<Rightarrow>
     if py_is_reversed locked then Inr (locked, db)
     else
     andThen (record_entry env user (py_customer locked) ''ADJUSTMENT'' (py_amount locked)
                (''Reversal of payment '' @ py_payment_number locked) (Some (today env))
                (Some (''Payment'', Some (py_pk locked))) None db) (\<lambda>(_, db).
     andThen (save_payment [''is_reversed'', ''reversed_reason'', ''reversed_at'', ''reversed_by'']
                (reversed_form env user reason) locked db) (\<lambda>(locked, db).
     Inr (locked, record_audit env A_PAYMENT_REVERSE ''payment'' (Some (py_pk locked)) user S_WEB
            (Some [(''is_reversed'', PBool False)])
            (Some [(''payment_number'', PStr (py_payment_number locked)),
                   (''amount'', PDec 2 (py_amount locked)), (''reason'', PStr reason)]) db)))))"


section \<open>Ledger acts\<close>

definition write_off ::
  "env \<Rightarrow> actor option \<Rightarrow> customer \<Rightarrow> decimal \<Rightarrow> string \<Rightarrow> date option \<Rightarrow> 'a ledger_db_scheme \<Rightarrow>
   error + cle \<times> 'a ledger_db_scheme" where
  "write_off env user customer amount reason entry_date db =
     andThen (require_roles user [OWNER]) (\<lambda>_.
     let reason = strip reason in
     andThen (require (reason \<noteq> '''') (invalid ''reason'' ''REQUIRED'')) (\<lambda>_.
     let amount = to_money amount in
     andThen (require (\<not> amount \<le> 0) (invalid ''amount'' ''MIN_VALUE'')) (\<lambda>_.
     let d = (case entry_date of None \<Rightarrow> today env | Some d \<Rightarrow> d) in
     andThen (record_entry env user (cu_pk customer) ''WRITE_OFF'' (- amount)
                (take 255 (''Write-off: '' @ reason)) (Some d) None None db) (\<lambda>(e, db).
     Inr (e, record_audit env A_UPDATE ''customer_ledger_entry'' (Some (ce_pk e)) user S_WEB None
            (Some [(''customer'', PStr (cu_code customer)), (''entry_type'', PStr (ce_entry_type e)),
                   (''amount'', PDec 2 (ce_amount e)), (''reason'', PStr reason)]) db)))))"

definition opening_entry :: "nat \<Rightarrow> 'a ledger_db_scheme \<Rightarrow> cle option" where
  "opening_entry c db = tb_first (\<lambda>e. ce_customer e = c \<and> ce_entry_type e = ''OPENING'') (db_cle db)"

definition load_opening_balance ::
  "env \<Rightarrow> actor option \<Rightarrow> customer \<Rightarrow> decimal \<Rightarrow> date option \<Rightarrow> 'a ledger_db_scheme \<Rightarrow>
   error + cle \<times> 'a ledger_db_scheme" where
  "load_opening_balance env user customer amount entry_date db =
     andThen (require_roles user [OWNER]) (\<lambda>_.
     let amount = to_money amount in
     andThen (require (quantizable amount) (PyError ''InvalidOperation'')) (\<lambda>_.
     andThen (require (\<not> amount \<le> 0) (invalid ''amount'' ''MIN_VALUE'')) (\<lambda>_.
     case opening_entry (cu_pk customer) db of
       Some existing \<Rightarrow> Inr (existing, db)
     | None \<Rightarrow>
     let d = (case entry_date of None \<Rightarrow> today env | Some d \<Rightarrow> d) in
     case record_entry env user (cu_pk customer) ''OPENING'' amount ''Opening balance carried at go-live'' (Some d) None None db of
       Inl (IntegrityError c) \<Rightarrow>
         (case opening_entry (cu_pk customer) db of None \<Rightarrow> Inl (IntegrityError c) | Some already \<Rightarrow> Inr (already, db))
     | Inl e \<Rightarrow> Inl e
     | Inr (e, db) \<Rightarrow>
         Inr (e, record_audit env A_CREATE ''customer_ledger_entry'' (Some (ce_pk e)) user S_WEB None
            (Some [(''customer'', PStr (cu_code customer)), (''opening_balance'', PDec 2 (ce_amount e))]) db))))"

definition balance_after :: "customer \<Rightarrow> 'a ledger_db_scheme \<Rightarrow> decimal" where
  "balance_after customer db = settled_balance (cu_pk customer) None db"


section \<open>The derived position\<close>

definition customer_policy :: walk_policy where
  "customer_policy = \<lparr>wp_adjustment_type = ''ADJUSTMENT'', wp_annullable_source_types = [''INVOICE'', ''PAYMENT''],
     wp_reducing_type = ''CREDIT_NOTE'', wp_target_type = ''INVOICE''\<rparr>"

definition AGING_BUCKET_DAYS :: "int \<times> int \<times> int" where
  "AGING_BUCKET_DAYS = (30, 60, 90)"

definition bucket :: "open_item \<Rightarrow> string" where
  "bucket i =
     (let (first, second, third) = AGING_BUCKET_DAYS; age = oi_age_days i
      in if age \<le> first then ''0-'' @ str_int first
         else if age \<le> second then str_int (first + 1) @ ''-'' @ str_int second
         else if age \<le> third then str_int (second + 1) @ ''-'' @ str_int third
         else str_int third @ ''+'')"

definition oldest :: "position \<Rightarrow> open_item option" where
  "oldest p = (case po_open_items p of [] \<Rightarrow> None | i # _ \<Rightarrow> Some i)"

text \<open>The customer's view of the shared walk; the position is the record of theory \<open>Walk\<close>.\<close>

definition customer_walk :: "nat \<Rightarrow> date \<Rightarrow> ledger_row list \<Rightarrow> (nat \<times> nat) list \<Rightarrow> position" where
  "customer_walk customer as_of entries targets = walk customer as_of entries targets customer_policy"

text \<open>What the walk reads of an entry.\<close>

definition cle_row :: "cle \<Rightarrow> ledger_row" where
  "cle_row e = \<lparr>lr_pk = ce_pk e, lr_entry_date = ce_entry_date e, lr_entry_type = ce_entry_type e,
     lr_amount = ce_amount e, lr_narration = ce_narration e, lr_source_type = ce_source_type e,
     lr_source_id = ce_source_id e\<rparr>"

definition credit_note_targets :: "ledger_row list \<Rightarrow> 'a billing_db_scheme \<Rightarrow> (nat \<times> nat) list" where
  "credit_note_targets entries db =
     (let ids = List.map_filter lr_source_id (filter (\<lambda>e. lr_entry_type e = ''CREDIT_NOTE'') entries)
      in map (\<lambda>n. (cn_pk n, cn_invoice n)) (filter (\<lambda>n. cn_pk n \<in> set ids) (tb_rows (db_credit_notes db))))"

text \<open>The rows of a customer up to a date, by entry date and key.\<close>

definition entries_as_of :: "nat \<Rightarrow> date \<Rightarrow> 'a ledger_db_scheme \<Rightarrow> cle list" where
  "entries_as_of c as_of db =
     sort_key (\<lambda>e. (ce_entry_date e, ce_pk e))
       (filter (\<lambda>e. ce_customer e = c \<and> ce_entry_date e \<le> as_of) (tb_rows (db_cle db)))"

definition outstanding_for :: "env \<Rightarrow> nat \<Rightarrow> date option \<Rightarrow> 'a billing_db_scheme \<Rightarrow> position" where
  "outstanding_for env c as_of db =
     (let as_of = (case as_of of None \<Rightarrow> today env | Some d \<Rightarrow> d);
          entries = map cle_row (entries_as_of c as_of db)
      in customer_walk c as_of entries (credit_note_targets entries db))"

definition visible_customers_for_receivables :: "actor option \<Rightarrow> 'a customers_db_scheme \<Rightarrow> customer list" where
  "visible_customers_for_receivables user db =
     (let base = filter cu_is_active (tb_rows (db_customers db))
      in if has_role user [OWNER] then sort_key cu_shop_name base
         else if has_role user [SALESMAN, DELIVERY] then
           sort_key cu_shop_name (filter (\<lambda>c. zone_assigned user (cu_pk c) db) base)
         else if has_role user [RETAILER] then filter (\<lambda>c. cu_pk c = actor_customer user) base
         else [])"

definition visible_customer_labels :: "actor option \<Rightarrow> 'a customers_db_scheme \<Rightarrow> (nat \<times> string \<times> string) list" where
  "visible_customer_labels user db =
     map (\<lambda>c. (cu_pk c, cu_code c, cu_shop_name c)) (visible_customers_for_receivables user db)"

text \<open>
  One query for all customers' entries, ordered by customer, date and key, then grouped; one
  mapping of the credit notes of all of them.
\<close>

definition receivables_position ::
  "env \<Rightarrow> actor option \<Rightarrow> date option \<Rightarrow> bool \<Rightarrow> 'a billing_db_scheme \<Rightarrow> position list" where
  "receivables_position env user as_of include_settled db =
     (let as_of = (case as_of of None \<Rightarrow> today env | Some d \<Rightarrow> d);
          ids = map cu_pk (visible_customers_for_receivables user db);
          rows = sort_key (\<lambda>e. (ce_customer e, ce_entry_date e, ce_pk e))
            (filter (\<lambda>e. ce_customer e \<in> set ids \<and> ce_entry_date e \<le> as_of) (tb_rows (db_cle db)));
          targets = credit_note_targets (map cle_row rows) db;
          positions = map (\<lambda>c. customer_walk c as_of (map cle_row (filter (\<lambda>e. ce_customer e = c) rows)) targets) ids
      in if include_settled then positions
         else filter (\<lambda>p. po_open_items p \<noteq> [] \<or> po_credit_on_account p \<noteq> 0) positions)"


section \<open>Statements\<close>

text \<open>\<^verbatim>\<open>d - timedelta(days=1)\<close>; before the first date of the calendar Python raises.\<close>

definition prev_day :: "date \<Rightarrow> error + date" where
  "prev_day d =
     (if d_day d > 1 then Inr (Date (d_year d) (d_month d) (d_day d - 1))
      else if d_month d > 1 then Inr (Date (d_year d) (d_month d - 1) (days_in_month (d_year d) (d_month d - 1)))
      else if d_year d > 1 then Inr (Date (d_year d - 1) 12 31)
      else Inl (PyError ''OverflowError''))"

record statement =
  st_customer :: nat
  st_date_from :: "date option"
  st_date_to :: date
  st_opening_balance :: decimal
  st_entries :: "cle list"
  st_closing_balance :: decimal

definition customer_statement ::
  "env \<Rightarrow> nat \<Rightarrow> date option \<Rightarrow> date option \<Rightarrow> 'a ledger_db_scheme \<Rightarrow> error + statement" where
  "customer_statement env c date_from date_to db =
     (let date_to = (case date_to of None \<Rightarrow> today env | Some d \<Rightarrow> d) in
      andThen (case date_from of None \<Rightarrow> Inr 0
               | Some f \<Rightarrow> andThen (prev_day f) (\<lambda>b. Inr (settled_balance c (Some b) db))) (\<lambda>opening.
      Inr \<lparr>st_customer = c, st_date_from = date_from, st_date_to = date_to, st_opening_balance = opening,
           st_entries = sort_key (\<lambda>e. (ce_entry_date e, ce_pk e))
             (filter (\<lambda>e. ce_customer e = c \<and> ce_entry_date e \<le> date_to \<and> since date_from (ce_entry_date e))
               (tb_rows (db_cle db))),
           st_closing_balance = settled_balance c (Some date_to) db\<rparr>))"


section \<open>Payment selectors\<close>

definition visible_payments :: "actor option \<Rightarrow> 'a receivables_db_scheme \<Rightarrow> payment list" where
  "visible_payments user db =
     (let base = rev (sort_key (\<lambda>p. (py_payment_date p, py_pk p)) (tb_rows (db_payments db)))
      in if has_role user [OWNER] then base
         else if has_role user [SALESMAN, DELIVERY] then
           filter (\<lambda>p. actor_pk user \<noteq> None \<and> py_received_by p = actor_pk user) base
         else if has_role user [RETAILER] then filter (\<lambda>p. py_customer p = actor_customer user) base
         else [])"

definition search_payments ::
  "actor option \<Rightarrow> nat option \<Rightarrow> string \<Rightarrow> date option \<Rightarrow> date option \<Rightarrow> bool \<Rightarrow> 'a receivables_db_scheme \<Rightarrow> payment list" where
  "search_payments user customer met date_from date_to include_reversed db =
     filter (\<lambda>p. (case customer of None \<Rightarrow> True | Some c \<Rightarrow> py_customer p = c) \<and>
                 (met = '''' \<or> py_method p = met) \<and>
                 since date_from (py_payment_date p) \<and> up_to date_to (py_payment_date p) \<and>
                 (include_reversed \<or> \<not> py_is_reversed p))
       (visible_payments user db)"

definition get_payment_for :: "actor option \<Rightarrow> nat \<Rightarrow> 'a receivables_db_scheme \<Rightarrow> payment option" where
  "get_payment_for user pk db = find (\<lambda>p. py_pk p = pk) (visible_payments user db)"

definition user_name :: "nat option \<Rightarrow> 'a identity_db_scheme \<Rightarrow> string option" where
  "user_name pk db =
     (case pk of None \<Rightarrow> None
      | Some k \<Rightarrow> map_option us_full_name (tb_get us_pk k (db_users db)))"

text \<open>One row per collector and method; a collector without a name (none recorded) comes last.\<close>

definition collections_by_user ::
  "date option \<Rightarrow> date option \<Rightarrow> 'a receivables_db_scheme \<Rightarrow> ((nat option \<times> string option \<times> string) \<times> decimal) list" where
  "collections_by_user date_from date_to db =
     (let ps = filter (\<lambda>p. \<not> py_is_reversed p \<and> since date_from (py_payment_date p) \<and> up_to date_to (py_payment_date p))
                 (tb_rows (db_payments db));
          key = (\<lambda>p. (py_received_by p, user_name (py_received_by p) db, py_method p));
          groups = remdups (map key ps)
      in map (\<lambda>k. (k, sum_where (\<lambda>p. key p = k) py_amount ps))
           (sort_key (\<lambda>(i, n, m). (n = None, case n of None \<Rightarrow> '''' | Some s \<Rightarrow> s, m)) groups))"

definition collected_total :: "nat \<Rightarrow> 'a receivables_db_scheme \<Rightarrow> decimal" where
  "collected_total c db =
     (if tb_exists (\<lambda>x. cu_pk x = c) (db_customers db)
      then sum_where (\<lambda>p. py_customer p = c \<and> \<not> py_is_reversed p) py_amount (tb_rows (db_payments db))
      else 0)"

end
