(* ===== verification/Walked.thy ===== *)
theory Walked
  imports Walk Ledger
begin

text \<open>
  The contract between the shared walk and a ledger that is read through it: a party's entries up
  to a date, ordered by date and key.  What holds of every such ledger is proved here once; the
  customer ledger (theory \<open>Positions\<close>) and the supplier ledger (theory \<open>Payables\<close>) are its
  two instances.
\<close>

locale walked_ledger =
  fixes rows :: "'db \<Rightarrow> 'e list"
    and party :: "'e \<Rightarrow> nat"
    and row :: "'e \<Rightarrow> ledger_row"
    and pol :: walk_policy
    and ok :: "'db \<Rightarrow> bool"
  assumes keys: "ok db \<Longrightarrow> distinct (map (\<lambda>e. lr_pk (row e)) (rows db))"
    and reducing: "ok db \<Longrightarrow> e \<in> set (rows db) \<Longrightarrow> lr_entry_type (row e) = wp_reducing_type pol \<Longrightarrow> lr_amount (row e) \<le> 0"
begin

definition as_of :: "nat \<Rightarrow> date \<Rightarrow> 'db \<Rightarrow> ledger_row list" where
  "as_of c d db = map row (sort_key (\<lambda>e. (lr_entry_date (row e), lr_pk (row e)))
     (filter (\<lambda>e. party e = c \<and> lr_entry_date (row e) \<le> d) (rows db)))"

definition total :: "nat \<Rightarrow> date \<Rightarrow> 'db \<Rightarrow> decimal" where
  "total c d db = sum_where (\<lambda>e. party e = c \<and> lr_entry_date (row e) \<le> d) (\<lambda>e. lr_amount (row e)) (rows db)"

lemma set_as_of: "set (as_of c d db) = row ` {e \<in> set (rows db). party e = c \<and> lr_entry_date (row e) \<le> d}"
  by (auto simp: as_of_def)

lemma as_of_distinct: "ok db \<Longrightarrow> distinct (map lr_pk (as_of c d db))"
  using keys by (simp add: as_of_def distinct_map inj_on_def)

lemma as_of_reducing: "ok db \<Longrightarrow> reducing_negative pol (as_of c d db)"
  using reducing by (auto simp: reducing_negative_def list_all_iff set_as_of)

lemma as_of_sum: "sum_list (map lr_amount (as_of c d db)) = total c d db"
  by (simp add: as_of_def comp_def sum_list_map_sort_key total_def sum_where_def)

lemma position:
  assumes "ok db"
  shows "po_balance (walk p on (as_of c d db) ts pol) = total c d db"
    "po_total_outstanding (walk p on (as_of c d db) ts pol) = max 0 (total c d db)"
    "po_credit_on_account (walk p on (as_of c d db) ts pol) = max 0 (- total c d db)"
  using walk_position [OF as_of_distinct [OF assms, of c d] as_of_reducing [OF assms, of c d], unfolded as_of_sum]
  by simp_all

text \<open>Two entries appended to a ledger are two entries to take out of the later view.\<close>

lemma as_of_two:
  assumes "rows db' = rows db @ [t, a]" "ok db'"
  shows "filter (\<lambda>e. e \<noteq> row t \<and> e \<noteq> row a) (as_of c d db') = as_of c d db"
proof -
  let ?P = "\<lambda>e. party e = c \<and> lr_entry_date (row e) \<le> d"
  have ne: "row e \<noteq> row t \<and> row e \<noteq> row a" if "e \<in> set (rows db)" for e
  proof -
    have "lr_pk (row e) \<noteq> lr_pk (row t)" "lr_pk (row e) \<noteq> lr_pk (row a)"
      using keys [OF assms(2)] that by (auto simp: assms(1) image_iff)
    then show ?thesis by metis
  qed
  have "filter (\<lambda>e. row e \<noteq> row t \<and> row e \<noteq> row a) (filter ?P (rows db @ [t, a])) = filter ?P (rows db)"
    using ne by (auto simp: filter_filter intro: filter_cong)
  then show ?thesis by (simp add: as_of_def assms(1) filter_map comp_def filter_sort)
qed

text \<open>
  A document's entry and the adjustment that reverses it, alone on their document, leave the
  party's walk as it was before either.
\<close>

lemma reversal:
  assumes rows: "rows db' = rows db @ [t, a]" and ok: "ok db'"
    and t: "lr_entry_type (row t) = st" "lr_source_type (row t) = st" "lr_source_id (row t) = Some k" "lr_entry_date (row t) \<le> d"
    and a: "lr_entry_type (row a) = wp_adjustment_type pol" "lr_source_type (row a) = st" "lr_source_id (row a) = Some k"
      "lr_entry_date (row a) \<le> d"
    and st: "st \<in> set (wp_annullable_source_types pol)" "st \<noteq> ''''" "st \<noteq> wp_adjustment_type pol"
    and amt: "party a = party t" "lr_amount (row a) = - lr_amount (row t)"
    and fresh: "\<forall>e \<in> set (rows db). lr_source_type (row e) = st \<longrightarrow> lr_source_id (row e) \<noteq> Some k"
  shows "walk p on (as_of c d db') ts pol = walk p on (as_of c d db) ts pol"
proof (cases "party t = c")
  case False
  then have "as_of c d db' = as_of c d db" using amt(1) by (simp add: as_of_def rows)
  then show ?thesis by simp
next
  case True
  let ?new = "as_of c d db'"
  have mem: "row t \<in> set ?new" "row a \<in> set ?new"
    using True amt(1) t(4) a(4) by (auto simp: set_as_of rows)
  have only: "(is_target e \<longrightarrow> e = row t) \<and> (is_annuller pol e \<longrightarrow> e = row a)"
    if e: "e \<in> set ?new" "row_key e = row_key (row t)" for e
  proof -
    obtain x where x: "e = row x" "x \<in> set (rows db')" using e(1) by (auto simp: set_as_of)
    have "lr_source_type (row x) = st" "lr_source_id (row x) = Some k"
      using e(2) t(2,3) x(1) by (auto simp: row_key_def split: option.splits)
    then have "x = t \<or> x = a" using fresh x(2) by (auto simp: rows)
    then show ?thesis using x(1) t(1,2) a(1,2) st(3) by (auto simp: is_target_def is_annuller_def)
  qed
  have "is_target (row t)" using st(2) by (simp add: is_target_def t(1-3))
  moreover have "is_annuller pol (row a)" using st(1,2) by (simp add: is_annuller_def a(1-3))
  moreover have "row_key (row a) = row_key (row t)" by (simp add: row_key_def t(2,3) a(2,3))
  moreover have "lr_amount (row a) + lr_amount (row t) = 0" by (simp add: amt(2))
  ultimately have "reversal_pair pol ?new (row t) (row a)"
    unfolding reversal_pair_def list_all_iff using mem only by blast
  from walk_reversal [OF this as_of_distinct [OF ok]] show ?thesis
    by (simp add: as_of_two [OF rows ok])
qed

end

end
