(* ===== verification/Positions.thy ===== *)
theory Positions
  imports Receivables Walked
begin

text \<open>
  What receivables guarantees: the derived position is the ledger's balance, the bulk report is
  the per-customer answer, statements chain, payments and their entries match one to one, and a
  reversal leaves the position as if the payment had never been made.
\<close>


section \<open>The position is the balance\<close>

declare customer_walk_def [simp]

lemma cle_row_sel [simp]:
  "lr_pk (cle_row e) = ce_pk e" "lr_entry_date (cle_row e) = ce_entry_date e"
  "lr_entry_type (cle_row e) = ce_entry_type e" "lr_amount (cle_row e) = ce_amount e"
  "lr_source_type (cle_row e) = ce_source_type e" "lr_source_id (cle_row e) = ce_source_id e"
  by (simp_all add: cle_row_def)

lemma set_entries_as_of:
  "set (entries_as_of c d db) = {e \<in> set (tb_rows (db_cle db)). ce_customer e = c \<and> ce_entry_date e \<le> d}"
  by (auto simp: entries_as_of_def)

lemma credit_note_negative:
  assumes "ledger_ok db" "e \<in> set (tb_rows (db_cle db))" "ce_entry_type e = ''CREDIT_NOTE''"
  shows "ce_amount e \<le> 0"
proof -
  have "cle_check e = Inr ()" using assms(1,2) by (simp add: ledger_ok_def list_all_iff)
  then have "cle_sign_ok ''CREDIT_NOTE'' (ce_amount e)" using assms(3) by (auto simp: cle_check_def split: if_splits)
  then show ?thesis by (simp add: cle_sign_ok_def)
qed

interpretation owed: walked_ledger
  "\<lambda>db :: 'a ledger_db_scheme. tb_rows (db_cle db)" ce_customer cle_row customer_policy ledger_ok
  by unfold_locales (auto simp: ledger_ok_def table_wf_def customer_policy_def intro: credit_note_negative)

lemma owed_as_of: "map cle_row (entries_as_of c d db) = owed.as_of c d db"
  by (simp add: entries_as_of_def owed.as_of_def)

lemma owed_total: "owed.total c d db = balance_expression (Some d) c db"
  by (simp add: owed.total_def balance_expression_def up_to_def)

lemma outstanding_position:
  assumes "ledger_ok db"
  shows "po_balance (outstanding_for env c (Some d) db) = balance_expression (Some d) c db"
    "po_total_outstanding (outstanding_for env c (Some d) db) = max 0 (balance_expression (Some d) c db)"
    "po_credit_on_account (outstanding_for env c (Some d) db) = max 0 (- balance_expression (Some d) c db)"
  using owed.position [OF assms] by (simp_all add: outstanding_for_def Let_def owed_as_of owed_total)


section \<open>The bulk report\<close>

lemma map_of_filtered_keys:
  "map_of (map (\<lambda>n. (key n, v n)) (filter (\<lambda>n. key n \<in> S) rs)) k
     = (if k \<in> S then map_of (map (\<lambda>n. (key n, v n)) rs) k else None)"
  by (induction rs) auto

lemma reduce_loop_cong:
  "(\<And>e. e \<in> set es \<Longrightarrow> lr_entry_type e = wp_reducing_type pol \<Longrightarrow> t e = t' e) \<Longrightarrow>
   reduce_loop t pol es s = reduce_loop t' pol es s"
proof (induction t pol es s rule: reduce_loop.induct)
  case (2 target pol e es debits pool)
  then show ?case
    by (cases "lr_entry_type e = wp_reducing_type pol")
      (auto simp: Let_def split: option.splits)
qed simp

lemma walk_targets_cong:
  assumes "\<And>e. e \<in> set es \<Longrightarrow> lr_entry_type e = wp_reducing_type pol \<Longrightarrow>
      map_of ts (case lr_source_id e of None \<Rightarrow> 0 | Some i \<Rightarrow> i) = map_of ts' (case lr_source_id e of None \<Rightarrow> 0 | Some i \<Rightarrow> i)"
  shows "walk c d es ts pol = walk c d es ts' pol"
proof -
  have "reduce_loop (resolve_target pol (debits_of (live_entries es pol)) ts) pol (live_entries es pol) s
      = reduce_loop (resolve_target pol (debits_of (live_entries es pol)) ts') pol (live_entries es pol) s" for s
    by (rule reduce_loop_cong) (use assms in \<open>auto simp: live_entries_def Let_def resolve_target_def\<close>)
  then show ?thesis by (simp add: walk_def walk_debits_def Let_def)
qed

lemma credit_note_targets_lookup:
  assumes "list_all (\<lambda>n. 0 < cn_pk n) (tb_rows (db_credit_notes db))" "e \<in> set es" "lr_entry_type e = ''CREDIT_NOTE''"
  shows "map_of (credit_note_targets es db) (case lr_source_id e of None \<Rightarrow> 0 | Some i \<Rightarrow> i)
    = (case lr_source_id e of None \<Rightarrow> None | Some i \<Rightarrow> map_of (map (\<lambda>n. (cn_pk n, cn_invoice n)) (tb_rows (db_credit_notes db))) i)"
proof (cases "lr_source_id e")
  case None
  have "map_of (map (\<lambda>n. (cn_pk n, cn_invoice n)) (tb_rows (db_credit_notes db))) 0 = None"
    using assms(1) by (auto simp: map_of_eq_None_iff list_all_iff)
  then show ?thesis using None by (simp add: credit_note_targets_def Let_def map_of_filtered_keys)
next
  case (Some i)
  then have "i \<in> set (List.map_filter lr_source_id (filter (\<lambda>e. lr_entry_type e = ''CREDIT_NOTE'') es))"
    using assms(2,3) by (force simp: List.map_filter_def)
  then show ?thesis using Some by (simp add: credit_note_targets_def Let_def map_of_filtered_keys)
qed

text \<open>The report in three queries gives every customer the answer of \<open>outstanding_for\<close>.\<close>

lemma bulk_position:
  assumes "list_all (\<lambda>n. 0 < cn_pk n) (tb_rows (db_credit_notes db))"
  shows "receivables_position env user as_of True db
    = map (\<lambda>k. outstanding_for env (cu_pk k) as_of db) (visible_customers_for_receivables user db)"
proof -
  let ?d = "case as_of of None \<Rightarrow> today env | Some d \<Rightarrow> d"
  let ?ids = "map cu_pk (visible_customers_for_receivables user db)"
  define rows where "rows = sort_key (\<lambda>e. (ce_customer e, ce_entry_date e, ce_pk e))
      (filter (\<lambda>e. ce_customer e \<in> set ?ids \<and> ce_entry_date e \<le> ?d) (tb_rows (db_cle db)))"
  have "walk c ?d (map cle_row (filter (\<lambda>e. ce_customer e = c) rows)) (credit_note_targets (map cle_row rows) db) customer_policy
      = outstanding_for env c as_of db" if c: "c \<in> set ?ids" for c
  proof -
    have f: "filter (\<lambda>e. ce_customer e = c) (filter (\<lambda>e. ce_customer e \<in> set ?ids \<and> ce_entry_date e \<le> ?d) xs)
        = filter (\<lambda>e. ce_customer e = c \<and> ce_entry_date e \<le> ?d) xs" for xs
      unfolding filter_filter using c by (intro filter_cong) auto
    have own: "filter (\<lambda>e. ce_customer e = c) rows = entries_as_of c ?d db"
      unfolding rows_def entries_as_of_def filter_sort f by (rule sort_key_cong_le) auto
    have sub: "set (map cle_row (entries_as_of c ?d db)) \<subseteq> set (map cle_row rows)"
      unfolding own [symmetric] by auto
    have "walk c ?d (map cle_row (entries_as_of c ?d db)) (credit_note_targets (map cle_row rows) db) customer_policy
        = walk c ?d (map cle_row (entries_as_of c ?d db)) (credit_note_targets (map cle_row (entries_as_of c ?d db)) db) customer_policy"
    proof (rule walk_targets_cong)
      fix e assume e: "e \<in> set (map cle_row (entries_as_of c ?d db))" "lr_entry_type e = wp_reducing_type customer_policy"
      then have t: "lr_entry_type e = ''CREDIT_NOTE''" by (simp add: customer_policy_def)
      show "map_of (credit_note_targets (map cle_row rows) db) (case lr_source_id e of None \<Rightarrow> 0 | Some i \<Rightarrow> i)
        = map_of (credit_note_targets (map cle_row (entries_as_of c ?d db)) db) (case lr_source_id e of None \<Rightarrow> 0 | Some i \<Rightarrow> i)"
        using credit_note_targets_lookup [OF assms _ t] e(1) sub by (metis (no_types, lifting) subsetD)
    qed
    then show ?thesis by (simp add: own outstanding_for_def Let_def)
  qed
  then show ?thesis by (simp add: receivables_position_def Let_def rows_def comp_def)
qed


section \<open>Statements chain\<close>

lemma int_step: "\<not> a < b - 1 \<Longrightarrow> \<not> b < a \<Longrightarrow> b \<noteq> a \<Longrightarrow> (a :: int) = b - 1"
  by arith

lemma days_in_december [simp]: "days_in_month y 12 = 31"
  by (simp add: days_in_month_def)

lemma prev_day_upper:
  assumes "prev_day f = Inr b" "valid_date f" "valid_date x"
  shows "x \<le> b \<longleftrightarrow> \<not> f \<le> x"
  using assms
  by (cases f; cases x)
    (auto simp: prev_day_def less_eq_date_def valid_date_def dest: int_step split: if_splits)

text \<open>Opening, entries and closing of a period add up.\<close>

lemma customer_statement_adds_up:
  assumes "customer_statement env c (Some f) (Some d) db = Inr s" "valid_date f"
    and "list_all (\<lambda>e. valid_date (ce_entry_date e)) (tb_rows (db_cle db))"
    and "tb_exists (\<lambda>x. cu_pk x = c) (db_customers db)" "f \<le> d"
  shows "st_opening_balance s + sum_list (map ce_amount (st_entries s)) = st_closing_balance s"
    "st_closing_balance s = settled_balance c (Some d) db"
    "\<exists>b. prev_day f = Inr b \<and> st_opening_balance s = settled_balance c (Some b) db"
proof -
  obtain b where b: "prev_day f = Inr b"
    and s: "st_opening_balance s = settled_balance c (Some b) db" "st_closing_balance s = settled_balance c (Some d) db"
      "st_entries s = sort_key (\<lambda>e. (ce_entry_date e, ce_pk e))
         (filter (\<lambda>e. ce_customer e = c \<and> ce_entry_date e \<le> d \<and> f \<le> ce_entry_date e) (tb_rows (db_cle db)))"
    using assms(1) by (auto simp: customer_statement_def Let_def result_simps since_def)
  then show "st_closing_balance s = settled_balance c (Some d) db"
    "\<exists>b. prev_day f = Inr b \<and> st_opening_balance s = settled_balance c (Some b) db" by auto
  have u: "ce_entry_date e \<le> b \<longleftrightarrow> \<not> f \<le> ce_entry_date e" if "e \<in> set (tb_rows (db_cle db))" for e
    using prev_day_upper [OF b assms(2)] assms(3) that by (simp add: list_all_iff)
  have e: "settled_balance c (Some x) db = balance_expression (Some x) c db" for x
    by (rule settled_balance_eq) (use assms(4) in \<open>simp add: tb_exists_iff\<close>)
  let ?es = "tb_rows (db_cle db)"
  have "balance_expression (Some d) c db
      = sum_where (\<lambda>e. (ce_customer e = c \<and> ce_entry_date e \<le> d) \<and> f \<le> ce_entry_date e) ce_amount ?es
        + sum_where (\<lambda>e. (ce_customer e = c \<and> ce_entry_date e \<le> d) \<and> \<not> f \<le> ce_entry_date e) ce_amount ?es"
    unfolding balance_expression_def by (subst sum_where_split [where q = "\<lambda>e. f \<le> ce_entry_date e"]) (simp add: up_to_def)
  also have "sum_where (\<lambda>e. (ce_customer e = c \<and> ce_entry_date e \<le> d) \<and> \<not> f \<le> ce_entry_date e) ce_amount ?es
      = balance_expression (Some b) c db"
    unfolding balance_expression_def
    by (rule sum_where_cong) (use u assms(5) in \<open>auto simp: up_to_def\<close>)
  also have "sum_where (\<lambda>e. (ce_customer e = c \<and> ce_entry_date e \<le> d) \<and> f \<le> ce_entry_date e) ce_amount ?es
      = sum_list (map ce_amount (st_entries s))"
    by (simp add: s(3) sum_where_def sum_list_map_sort_key)
  finally show "st_opening_balance s + sum_list (map ce_amount (st_entries s)) = st_closing_balance s"
    by (simp add: s(1,2) e)
qed

section \<open>What the payment services write\<close>

lemma insert_paymentD:
  assumes "insert_payment mk db = Inr (p, db')"
  shows "p = mk (tb_seq (db_payments db))" "payment_constraints p"
    "\<forall>x \<in> set (tb_rows (db_payments db)). py_client_uuid p \<noteq> None \<longrightarrow> py_client_uuid x \<noteq> py_client_uuid p"
    "db' = db\<lparr>db_payments := snd (tb_insert mk (db_payments db))\<rparr>"
  using assms by (auto simp: insert_payment_def tb_insert_def Let_def tb_exists_iff split: if_splits)

lemma existing_payment_row:
  "existing_payment cu db = Some p \<Longrightarrow> p \<in> set (tb_rows (db_payments db)) \<and> cu \<noteq> None \<and> py_client_uuid p = cu"
  by (auto simp: existing_payment_def find_payment_by_uuid_def dest: tb_firstD split: option.splits)

lemma record_audit_receivables [simp, frame_simps]:
  "db_payments (record_audit env a et ei u s b c db) = db_payments db"
  "db_payment_number_seq (record_audit env a et ei u s b c db) = db_payment_number_seq db"
  by (simp_all add: record_audit_def record_audit_from_def)

lemma record_paymentD:
  assumes "record_payment env user q db = Inr (p, db')"
  obtains (replayed) "existing_payment (pq_client_uuid q) db = Some p" "db' = db"
      "has_role user [OWNER, SALESMAN, DELIVERY]"
    | (recorded) number e where "existing_payment (pq_client_uuid q) db = None"
      "has_role user [OWNER, SALESMAN, DELIVERY]" "0 < to_money (pq_amount q)" "cu_is_active (pq_customer q)"
      "p = new_payment user q (to_money (pq_amount q)) (py_payment_date p) number (tb_seq (db_payments db))"
      "number = ''PAY-'' @ zero_pad 8 (db_payment_number_seq db)"
      "py_payment_date p = (case pq_payment_date q of None \<Rightarrow> today env | Some d \<Rightarrow> d)"
      "payment_constraints p" "tb_rows (db_payments db') = tb_rows (db_payments db) @ [p]"
      "tb_seq (db_payments db') = Suc (tb_seq (db_payments db))"
      "db_payment_number_seq db' = Suc (db_payment_number_seq db)"
      "tb_rows (db_cle db') = tb_rows (db_cle db) @ [e]" "ce_pk e = tb_seq (db_cle db)"
      "ce_customer e = cu_pk (pq_customer q)" "ce_entry_type e = ''PAYMENT''"
      "ce_amount e = - py_amount p" "ce_source_type e = ''PAYMENT''" "ce_source_id e = Some (py_pk p)"
      "ce_entry_date e = py_payment_date p" "db_credit_notes db' = db_credit_notes db"
      "db_invoices db' = db_invoices db" "db_series db' = db_series db" "db_customers db' = db_customers db"
      "ledger_ok db \<Longrightarrow> ledger_ok db'"
proof (cases "existing_payment (pq_client_uuid q) db")
  case (Some x)
  then show ?thesis using assms replayed by (auto simp: record_payment_def split: if_splits)
next
  case None
  define d where "d = (case pq_payment_date q of None \<Rightarrow> today env | Some d \<Rightarrow> d)"
  define number where "number = ''PAY-'' @ zero_pad 8 (db_payment_number_seq db)"
  define db1 where "db1 = db\<lparr>db_payment_number_seq := Suc (db_payment_number_seq db)\<rparr>"
  have np: "next_payment_number db = (number, db1)" by (simp add: next_payment_number_def number_def db1_def)
  have r: "has_role user [OWNER, SALESMAN, DELIVERY]" "0 < to_money (pq_amount q)" "cu_is_active (pq_customer q)"
    using assms None by (auto simp: record_payment_def Let_def np split: if_splits)
  obtain db2 e where i: "insert_payment (new_payment user q (to_money (pq_amount q)) d number) db1 = Inr (p, db2)"
    and e: "record_entry env user (cu_pk (pq_customer q)) ''PAYMENT'' (- to_money (pq_amount q))
       (''Payment '' @ py_payment_number p @ '' ('' @ method_display (py_method p) @ '')'') (Some d)
       (Some (''Payment'', Some (py_pk p))) None db2 = Inr (e, db')"
    using assms None r
    by (auto simp: record_payment_def Let_def np d_def [symmetric] result_simps split: if_splits sum.splits)
  note I = insert_paymentD [OF i] and E = record_entryD [OF e]
  obtain t where t: "db2 = db1\<lparr>db_payments := t\<rparr>" "t = snd (tb_insert (new_payment user q (to_money (pq_amount q)) d number) (db_payments db1))"
    using I(4) by blast
  obtain t' where t': "db' = db2\<lparr>db_cle := t'\<rparr>" using E(2) by blast
  have p: "p = new_payment user q (to_money (pq_amount q)) d number (tb_seq (db_payments db))"
    using I(1) by (simp add: db1_def)
  show ?thesis
  proof (rule recorded)
    show "p = new_payment user q (to_money (pq_amount q)) (py_payment_date p) number (tb_seq (db_payments db))"
      "py_payment_date p = (case pq_payment_date q of None \<Rightarrow> today env | Some d \<Rightarrow> d)"
      by (simp_all add: p new_payment_def d_def)
    show "number = ''PAY-'' @ zero_pad 8 (db_payment_number_seq db)" by (rule number_def)
    show "tb_rows (db_payments db') = tb_rows (db_payments db) @ [p]"
      "tb_seq (db_payments db') = Suc (tb_seq (db_payments db))"
      "db_payment_number_seq db' = Suc (db_payment_number_seq db)"
      using I(1) by (simp_all add: t' t db1_def table_simps)
    show "tb_rows (db_cle db') = tb_rows (db_cle db) @ [e]" "ce_pk e = tb_seq (db_cle db)"
      using E(1,4) by (simp_all add: t(1) db1_def)
    show "ce_amount e = - py_amount p" using E(7) by (simp add: p new_payment_def)
    show "ce_source_type e = ''PAYMENT''" "ce_source_id e = Some (py_pk p)"
      using E(12) by (simp_all add: resolve_source_def SOURCE_DOCUMENT_REGISTRY_def)
    show "ce_entry_date e = py_payment_date p" using E(9) by (simp add: p new_payment_def)
    show "ledger_ok db'" if "ledger_ok db"
    proof -
      have "ledger_ok db2" using that by (simp add: ledger_ok_def t(1) db1_def)
      then show ?thesis by (rule record_entry_ok [OF e])
    qed
  qed (use None r I(2) E(5,6) in \<open>simp_all add: t' t(1) db1_def\<close>)
qed

lemma reversed_form_fields [simp]:
  "py_pk (reversed_form env user r p) = py_pk p" "py_amount (reversed_form env user r p) = py_amount p"
  "py_customer (reversed_form env user r p) = py_customer p" "py_is_reversed (reversed_form env user r p) = True"
  "py_payment_number (reversed_form env user r p) = py_payment_number p"
  "py_client_uuid (reversed_form env user r p) = py_client_uuid p"
  by (simp_all add: reversed_form_def)

lemma reverse_paymentD:
  assumes "reverse_payment env user pk reason db = Inr (p, db')"
  obtains (already) "tb_get py_pk pk (db_payments db) = Some p" "py_is_reversed p" "db' = db"
    | (reversed) old e where "tb_get py_pk pk (db_payments db) = Some old" "\<not> py_is_reversed old"
      "p = reversed_form env user (strip reason) old" "payment_constraints p" "has_role user [OWNER]"
      "db_payments db' = tb_update py_pk pk (reversed_form env user (strip reason)) (db_payments db)"
      "db_payment_number_seq db' = db_payment_number_seq db"
      "tb_rows (db_cle db') = tb_rows (db_cle db) @ [e]" "ce_pk e = tb_seq (db_cle db)"
      "ce_customer e = py_customer old" "ce_entry_type e = ''ADJUSTMENT''" "ce_amount e = to_money (py_amount old)"
      "ce_source_type e = ''PAYMENT''" "ce_source_id e = Some pk" "ce_entry_date e = today env"
      "db_credit_notes db' = db_credit_notes db" "db_customers db' = db_customers db"
      "ledger_ok db \<Longrightarrow> ledger_ok db'"
proof -
  obtain old where o: "tb_get py_pk pk (db_payments db) = Some old"
    using assms by (auto simp: reverse_payment_def Let_def split: if_splits option.splits)
  have k: "py_pk old = pk" using tb_getD [OF o] by simp
  show thesis
  proof (cases "py_is_reversed old")
    case True
    then show ?thesis using assms o already by (auto simp: reverse_payment_def Let_def split: if_splits)
  next
    case False
    have r: "has_role user [OWNER]" "strip reason \<noteq> ''''"
      using assms by (auto simp: reverse_payment_def Let_def split: if_splits)
    obtain e db1 db2 where
      e: "record_entry env user (py_customer old) ''ADJUSTMENT'' (py_amount old)
            (''Reversal of payment '' @ py_payment_number old) (Some (today env))
            (Some (''Payment'', Some (py_pk old))) None db = Inr (e, db1)"
      and s: "save_payment [''is_reversed'', ''reversed_reason'', ''reversed_at'', ''reversed_by'']
            (reversed_form env user (strip reason)) old db1 = Inr (p, db2)"
      and d: "db' = record_audit env A_PAYMENT_REVERSE ''payment'' (Some (py_pk p)) user S_WEB
            (Some [(''is_reversed'', PBool False)])
            (Some [(''payment_number'', PStr (py_payment_number p)),
                   (''amount'', PDec 2 (py_amount p)), (''reason'', PStr (strip reason))]) db2"
      using assms o False r by (auto simp: reverse_payment_def Let_def result_simps)
    note E = record_entryD [OF e]
    obtain t where t: "db1 = db\<lparr>db_cle := t\<rparr>" using E(2) by blast
    have p: "p = reversed_form env user (strip reason) old" "payment_constraints p"
      and db2: "db2 = db1\<lparr>db_payments := tb_update py_pk pk (reversed_form env user (strip reason)) (db_payments db1)\<rparr>"
      using s k by (auto simp: save_payment_def result_simps split: if_splits)
    show ?thesis
    proof (rule reversed)
      show "ledger_ok db'" if "ledger_ok db"
        using record_entry_ok [OF e that] by (simp add: ledger_ok_def d db2)
      show "ce_source_type e = ''PAYMENT''" "ce_source_id e = Some pk"
        using E(12) k by (simp_all add: resolve_source_def SOURCE_DOCUMENT_REGISTRY_def)
      show "ce_entry_date e = today env" using E(9) by simp
      show "tb_rows (db_cle db') = tb_rows (db_cle db) @ [e]" using E(1) by (simp add: d db2)
    qed (use o False p r E in \<open>simp_all add: d db2 t\<close>)
  qed
qed


section \<open>Payments and their entries\<close>

definition payment_entry :: "cle \<Rightarrow> bool" where
  "payment_entry e \<longleftrightarrow> ce_source_type e = ''PAYMENT''"

definition entries_of_payment :: "nat \<Rightarrow> 'a ledger_db_scheme \<Rightarrow> cle list" where
  "entries_of_payment pk db = filter (\<lambda>e. ce_source_id e = Some pk) (filter payment_entry (tb_rows (db_cle db)))"

text \<open>
  A payment has one entry that takes its amount off the customer's balance and, once it is
  reversed, one that puts it back; no entry names a payment that does not exist.
\<close>

definition payment_booked :: "payment \<Rightarrow> 'a ledger_db_scheme \<Rightarrow> bool" where
  "payment_booked p db \<longleftrightarrow>
     map (\<lambda>e. (ce_entry_type e, ce_customer e, ce_amount e)) (entries_of_payment (py_pk p) db) =
     (''PAYMENT'', py_customer p, - py_amount p) #
     (if py_is_reversed p then [(''ADJUSTMENT'', py_customer p, py_amount p)] else [])"

definition payments_ok :: "'a receivables_db_scheme \<Rightarrow> bool" where
  "payments_ok db \<longleftrightarrow>
     table_wf py_pk (db_payments db) \<and>
     (\<forall>p \<in> set (tb_rows (db_payments db)). payment_booked p db \<and> is_money (py_amount p)) \<and>
     (\<forall>e \<in> set (tb_rows (db_cle db)). payment_entry e \<longrightarrow>
        (\<exists>p \<in> set (tb_rows (db_payments db)). ce_source_id e = Some (py_pk p)))"

definition payments_untouched :: "'a receivables_db_scheme \<Rightarrow> 'a receivables_db_scheme \<Rightarrow> bool" where
  "payments_untouched db db' \<longleftrightarrow> db_payments db' = db_payments db \<and>
     filter payment_entry (tb_rows (db_cle db')) = filter payment_entry (tb_rows (db_cle db))"

inductive receipt_step :: "'a receivables_db_scheme \<Rightarrow> 'a receivables_db_scheme \<Rightarrow> bool" where
  record_it: "record_payment env user q db = Inr (p, db') \<Longrightarrow> receipt_step db db'"
| reverse_it: "reverse_payment env user pk reason db = Inr (p, db') \<Longrightarrow> receipt_step db db'"
| elsewhere: "payments_untouched db db' \<Longrightarrow> receipt_step db db'"

inductive_cases receipt_stepE: "receipt_step db db'"

lemma no_entries_yet:
  assumes "payments_ok db" "tb_seq (db_payments db) \<le> k"
  shows "entries_of_payment k db = []"
proof -
  have "ce_source_id e \<noteq> Some k" if "e \<in> set (filter payment_entry (tb_rows (db_cle db)))" for e
  proof
    assume k: "ce_source_id e = Some k"
    have "e \<in> set (tb_rows (db_cle db))" "payment_entry e" using that by simp_all
    then have "\<exists>p \<in> set (tb_rows (db_payments db)). ce_source_id e = Some (py_pk p)"
      using assms(1) by (simp add: payments_ok_def)
    then obtain p where "p \<in> set (tb_rows (db_payments db))" "py_pk p = k" using k by auto
    then show False using assms by (auto simp: payments_ok_def table_wf_def list_all_iff)
  qed
  then show ?thesis by (auto simp: entries_of_payment_def filter_empty_conv)
qed

lemma entries_of_payment_append:
  "tb_rows (db_cle db') = tb_rows (db_cle db) @ [e] \<Longrightarrow>
   entries_of_payment k db' = entries_of_payment k db @ (if payment_entry e \<and> ce_source_id e = Some k then [e] else [])"
  by (simp add: entries_of_payment_def)

lemma record_payment_ok:
  assumes "record_payment env user q db = Inr (p, db')" "payments_ok db"
  shows "payments_ok db'"
  using assms(1)
proof (cases rule: record_paymentD)
  case replayed
  then show ?thesis using assms(2) by simp
next
  case (recorded number e)
  have p: "py_pk p = tb_seq (db_payments db)" "py_customer p = cu_pk (pq_customer q)" "\<not> py_is_reversed p"
    "is_money (py_amount p)"
    by (subst recorded(5), simp add: new_payment_def)+
  have wf: "table_wf py_pk (db_payments db')"
    by (rule table_wf_append [where key = py_pk, OF _ recorded(9,10) p(1)]) (use assms(2) in \<open>simp add: payments_ok_def\<close>)
  have pe: "payment_entry e" using recorded(17) by (simp add: payment_entry_def)
  have "entries_of_payment (py_pk p) db = []" by (rule no_entries_yet [OF assms(2)]) (simp add: p(1))
  then have new: "payment_booked p db'"
    using entries_of_payment_append [OF recorded(12), of "py_pk p"] pe recorded(14-18) p
    by (simp add: payment_booked_def)
  have old: "payment_booked x db'" if x: "x \<in> set (tb_rows (db_payments db))" for x
  proof -
    have "py_pk x \<noteq> py_pk p" using x assms(2) p(1) by (auto simp: payments_ok_def table_wf_def list_all_iff)
    then show ?thesis
      using entries_of_payment_append [OF recorded(12), of "py_pk x"] recorded(18) assms(2) x
      by (simp add: payments_ok_def payment_booked_def)
  qed
  have "\<exists>x \<in> set (tb_rows (db_payments db')). ce_source_id y = Some (py_pk x)"
    if y: "y \<in> set (tb_rows (db_cle db'))" "payment_entry y" for y
    using y assms(2) recorded(9,12,18) by (auto simp: payments_ok_def)
  then show ?thesis
    using wf new old p(4) assms(2) recorded(9) by (auto simp: payments_ok_def)
qed

lemma reverse_payment_ok:
  assumes "reverse_payment env user pk reason db = Inr (p, db')" "payments_ok db"
  shows "payments_ok db'"
  using assms(1)
proof (cases rule: reverse_paymentD)
  case already
  then show ?thesis using assms(2) by simp
next
  case (reversed old e)
  let ?f = "reversed_form env user (strip reason)"
  let ?g = "\<lambda>x. if py_pk x = pk then ?f x else x"
  have o: "old \<in> set (tb_rows (db_payments db))" "py_pk old = pk" using tb_getD [OF reversed(1)] by blast+
  have wf0: "table_wf py_pk (db_payments db)" using assms(2) by (simp add: payments_ok_def)
  have rows: "tb_rows (db_payments db') = map ?g (tb_rows (db_payments db))"
    by (simp add: reversed(6) table_simps)
  have wf: "table_wf py_pk (db_payments db')"
    unfolding reversed(6) by (rule table_wf_update [OF wf0]) simp
  have pe: "payment_entry e" using reversed(13) by (simp add: payment_entry_def)
  have booked: "payment_booked (?g x) db' \<and> is_money (py_amount (?g x))"
    if x: "x \<in> set (tb_rows (db_payments db))" for x
  proof (cases "py_pk x = pk")
    case True
    then have "x = old" using table_wf_inj [OF wf0 x o(1)] o(2) by simp
    moreover have "payment_booked old db" "is_money (py_amount old)" using assms(2) o(1) by (auto simp: payments_ok_def)
    ultimately show ?thesis
      using entries_of_payment_append [OF reversed(8), of pk] pe reversed(2,10-14) o(2)
      by (simp add: payment_booked_def)
  next
    case False
    then show ?thesis
      using entries_of_payment_append [OF reversed(8), of "py_pk x"] reversed(14) assms(2) x
      by (simp add: payments_ok_def payment_booked_def)
  qed
  have "\<exists>x \<in> set (tb_rows (db_payments db')). ce_source_id y = Some (py_pk x)"
    if y: "y \<in> set (tb_rows (db_cle db'))" "payment_entry y" for y
  proof -
    have "\<exists>x \<in> set (tb_rows (db_payments db)). ce_source_id y = Some (py_pk x)"
    proof (cases "y = e")
      case True
      then show ?thesis using reversed(14) o by blast
    next
      case False
      then have "y \<in> set (tb_rows (db_cle db))" using y(1) reversed(8) by simp
      then show ?thesis using y(2) assms(2) by (simp add: payments_ok_def)
    qed
    then obtain x where x: "x \<in> set (tb_rows (db_payments db))" "ce_source_id y = Some (py_pk x)" by blast
    have "?g x \<in> set (tb_rows (db_payments db'))" unfolding rows by (simp add: x(1))
    moreover have "py_pk (?g x) = py_pk x" by simp
    ultimately show ?thesis using x(2) by metis
  qed
  moreover have "\<forall>x \<in> set (tb_rows (db_payments db')). payment_booked x db' \<and> is_money (py_amount x)"
    unfolding rows set_map using booked by blast
  ultimately show ?thesis using wf unfolding payments_ok_def by blast
qed

lemma receipt_step_ok: "receipt_step db db' \<Longrightarrow> payments_ok db \<Longrightarrow> payments_ok db'"
proof (induction rule: receipt_step.induct)
  case (record_it env user q db p db')
  then show ?case by (rule record_payment_ok)
next
  case (reverse_it env user pk reason db p db')
  then show ?case by (rule reverse_payment_ok)
next
  case (elsewhere db db')
  have same: "filter payment_entry (tb_rows (db_cle db')) = filter payment_entry (tb_rows (db_cle db))"
    "db_payments db' = db_payments db" using elsewhere(1) by (simp_all add: payments_untouched_def)
  have "e \<in> set (tb_rows (db_cle db))" if "e \<in> set (tb_rows (db_cle db'))" "payment_entry e" for e
  proof -
    have "e \<in> set (filter payment_entry (tb_rows (db_cle db')))" using that by simp
    then show ?thesis unfolding same(1) by simp
  qed
  then show ?case using elsewhere(2) same
    by (auto simp: payments_ok_def payment_booked_def entries_of_payment_def)
qed

lemma receipts_reachable_ok: "receipt_step\<^sup>*\<^sup>* db db' \<Longrightarrow> payments_ok db \<Longrightarrow> payments_ok db'"
  by (induction rule: rtranclp_induct) (auto intro: receipt_step_ok)

text \<open>What the ledger holds under payments is what was collected and not given back.\<close>

lemma payments_ledger_total:
  assumes "payments_ok db"
  shows "sum_where (\<lambda>e. payment_entry e \<and> ce_customer e = c) ce_amount (tb_rows (db_cle db))
    = - sum_where (\<lambda>p. py_customer p = c \<and> \<not> py_is_reversed p) py_amount (tb_rows (db_payments db))"
proof -
  let ?ps = "tb_rows (db_payments db)" and ?es = "tb_rows (db_cle db)"
  let ?v = "\<lambda>p. if py_customer p = c \<and> \<not> py_is_reversed p then - py_amount p else 0"
  have d: "distinct (map (\<lambda>p. Some (py_pk p)) ?ps)"
    using assms by (auto simp: payments_ok_def table_wf_def distinct_map inj_on_def)
  have one: "sum_where (\<lambda>e. (payment_entry e \<and> ce_customer e = c) \<and> ce_source_id e = Some (py_pk p)) ce_amount ?es = ?v p"
    if p: "p \<in> set ?ps" for p
  proof -
    have "sum_where (\<lambda>e. (payment_entry e \<and> ce_customer e = c) \<and> ce_source_id e = Some (py_pk p)) ce_amount ?es
        = sum_where (\<lambda>e. ce_customer e = c) ce_amount (entries_of_payment (py_pk p) db)"
      by (simp add: sum_where_def entries_of_payment_def conj_ac)
    also have "\<dots> = sum_where (\<lambda>(t, k, a). k = c) (\<lambda>(t, k, a). a)
        (map (\<lambda>e. (ce_entry_type e, ce_customer e, ce_amount e)) (entries_of_payment (py_pk p) db))"
      by (simp add: sum_where_def filter_map comp_def)
    also have "\<dots> = ?v p" using assms p by (simp add: payments_ok_def payment_booked_def)
    finally show ?thesis .
  qed
  have "sum_where (\<lambda>e. payment_entry e \<and> ce_customer e = c) ce_amount ?es
      = sum_list (map (\<lambda>k. sum_where (\<lambda>e. (payment_entry e \<and> ce_customer e = c) \<and> ce_source_id e = k) ce_amount ?es)
          (map (\<lambda>p. Some (py_pk p)) ?ps))"
    by (rule sum_where_group [OF d]) (use assms in \<open>auto simp: payments_ok_def\<close>)
  also have "\<dots> = sum_list (map ?v ?ps)"
    unfolding map_map comp_def using one by (intro arg_cong [of _ _ sum_list] map_cong) auto
  also have "\<dots> = - sum_where (\<lambda>p. py_customer p = c \<and> \<not> py_is_reversed p) py_amount ?ps"
  proof -
    have "sum_list (map ?v xs) = - sum_where (\<lambda>p. py_customer p = c \<and> \<not> py_is_reversed p) py_amount xs" for xs
      by (induction xs) auto
    then show ?thesis .
  qed
  finally show ?thesis .
qed


section \<open>A reversal leaves no trace\<close>

lemma reversal_position:
  fixes db db' :: "'a billing_db_scheme"
  assumes rows: "tb_rows (db_cle db') = tb_rows (db_cle db) @ [t, a]" "db_credit_notes db' = db_credit_notes db"
    and ok: "ledger_ok db'"
    and t: "ce_entry_type t = st" "ce_source_type t = st" "ce_source_id t = Some k" "ce_entry_date t \<le> d"
    and a: "ce_entry_type a = ''ADJUSTMENT''" "ce_source_type a = st" "ce_source_id a = Some k" "ce_entry_date a \<le> d"
    and st: "st = ''INVOICE'' \<or> st = ''PAYMENT''"
    and amt: "ce_customer a = ce_customer t" "ce_amount a = - ce_amount t"
    and fresh: "\<forall>e \<in> set (tb_rows (db_cle db)). ce_source_type e = st \<longrightarrow> ce_source_id e \<noteq> Some k"
  shows "outstanding_for env c (Some d) db' = outstanding_for env c (Some d) db"
proof -
  have walks: "walk c d (owed.as_of c d db') ts customer_policy = walk c d (owed.as_of c d db) ts customer_policy" for ts
    by (rule owed.reversal [where t = t and a = a and st = st and k = k]) (use assms in \<open>auto simp: customer_policy_def\<close>)
  have nc: "ce_entry_type t \<noteq> ''CREDIT_NOTE''" "ce_entry_type a \<noteq> ''CREDIT_NOTE''" using t(1) a(1) st by auto
  have "filter (\<lambda>e. lr_entry_type e = ''CREDIT_NOTE'') (owed.as_of c d db')
      = filter (\<lambda>e. lr_entry_type e = ''CREDIT_NOTE'') (owed.as_of c d db)"
    unfolding owed.as_of_two [OF rows(1) ok, of c d, symmetric] filter_filter using nc by (intro filter_cong) auto
  then have "credit_note_targets (owed.as_of c d db') db' = credit_note_targets (owed.as_of c d db) db"
    by (simp add: credit_note_targets_def Let_def rows(2))
  then show ?thesis by (simp add: outstanding_for_def Let_def owed_as_of walks)
qed

lemma payment_reversal_position:
  assumes "record_payment env user q db = Inr (p, db1)" "p \<notin> set (tb_rows (db_payments db))"
    and "reverse_payment env' user' (py_pk p) reason db1 = Inr (p', db2)"
    and "payments_ok db" "ledger_ok db" "py_payment_date p \<le> d" "today env' \<le> d"
  shows "outstanding_for env'' c (Some d) db2 = outstanding_for env'' c (Some d) db"
    "balance_expression None c db2 = balance_expression None c db"
proof -
  from assms(1) obtain number t where R:
    "p = new_payment user q (to_money (pq_amount q)) (py_payment_date p) number (tb_seq (db_payments db))"
    "tb_rows (db_payments db1) = tb_rows (db_payments db) @ [p]"
    "tb_rows (db_cle db1) = tb_rows (db_cle db) @ [t]"
    "ce_customer t = cu_pk (pq_customer q)" "ce_entry_type t = ''PAYMENT''"
    "ce_amount t = - py_amount p" "ce_source_type t = ''PAYMENT''" "ce_source_id t = Some (py_pk p)"
    "ce_entry_date t = py_payment_date p" "db_credit_notes db1 = db_credit_notes db" "ledger_ok db1"
    using assms(2,5) by (cases rule: record_paymentD) (auto dest: existing_payment_row)
  have p: "py_pk p = tb_seq (db_payments db)" "py_customer p = cu_pk (pq_customer q)" "\<not> py_is_reversed p"
    "is_money (py_amount p)"
    by (subst R(1), simp add: new_payment_def)+
  have get: "tb_get py_pk (py_pk p) (db_payments db1) = Some p"
    using tb_get_row [of py_pk "db_payments db1" p] record_payment_ok [OF assms(1,4)] R(2) by (simp add: payments_ok_def)
  from assms(3) obtain a where A:
    "tb_rows (db_cle db2) = tb_rows (db_cle db1) @ [a]" "ce_customer a = py_customer p" "ce_entry_type a = ''ADJUSTMENT''"
    "ce_amount a = to_money (py_amount p)" "ce_source_type a = ''PAYMENT''" "ce_source_id a = Some (py_pk p)"
    "ce_entry_date a = today env'" "db_credit_notes db2 = db_credit_notes db1" "ledger_ok db2"
    using get p(3) R(11) by (cases rule: reverse_paymentD) auto
  have rows: "tb_rows (db_cle db2) = tb_rows (db_cle db) @ [t, a]" using R(3) A(1) by simp
  have fresh: "\<forall>e \<in> set (tb_rows (db_cle db)). ce_source_type e = ''PAYMENT'' \<longrightarrow> ce_source_id e \<noteq> Some (py_pk p)"
    using no_entries_yet [OF assms(4), of "py_pk p"] p(1)
    by (auto simp: entries_of_payment_def filter_empty_conv payment_entry_def)
  show "outstanding_for env'' c (Some d) db2 = outstanding_for env'' c (Some d) db"
    by (rule reversal_position [OF rows _ A(9) R(5,7,8) _ A(3,5,6) _ _ _ _ fresh])
      (use R A p assms(6,7) in simp_all)
  show "balance_expression None c db2 = balance_expression None c db"
    using rows R A p by (simp add: balance_expression_def up_to_def)
qed


section \<open>Retries\<close>

interpretation collect: idempotent_writer
  "\<lambda>(env, user, q) (db :: 'a receivables_db_scheme). record_payment env user q db"
  "\<lambda>(env, user, q). pq_client_uuid q" find_payment_by_uuid
  "\<lambda>(env, user, q). has_role user [OWNER, SALESMAN, DELIVERY]" "\<lambda>db. True"
proof (unfold_locales, goal_cases)
  case (1 q k db r)
  then show ?case by (auto simp: record_payment_def existing_payment_def split: prod.splits)
next
  case (2 q db x)
  then show ?case by (cases x) (auto simp: record_payment_def split: prod.splits if_splits)
next
  case (3 db q k r db')
  obtain env user c where q: "q = (env, user, c)" by (cases q) auto
  have k: "pq_client_uuid c = Some k" using 3(2) by (simp add: q)
  from 3(4) have "record_payment env user c db = Inr (r, db')" by (simp add: q)
  then show ?case
  proof (cases rule: record_paymentD)
    case (recorded number e)
    have "py_client_uuid r = Some k" by (subst recorded(5)) (simp add: new_payment_def k)
    moreover have "\<forall>y \<in> set (tb_rows (db_payments db)). py_client_uuid y \<noteq> Some k"
      using 3(3) by (simp add: find_payment_by_uuid_def tb_first_None)
    ultimately show ?thesis
      using uuid_lookup_new [where key = py_client_uuid, OF recorded(9)] by (simp add: find_payment_by_uuid_def)
  qed simp
qed

text \<open>The opening balance is idempotent on the customer itself.\<close>

interpretation carried: idempotent_writer
  "\<lambda>(env, user, customer, amount, d) (db :: 'a ledger_db_scheme). load_opening_balance env user customer amount d db"
  "\<lambda>(env, user, customer, amount, d). Some (cu_pk customer)" opening_entry
  "\<lambda>(env, user, customer, amount, d). has_role user [OWNER] \<and> quantizable (to_money amount) \<and> 0 < to_money amount" "\<lambda>db. True"
proof (unfold_locales, goal_cases)
  case (1 q k db r)
  then show ?case by (auto simp: load_opening_balance_def Let_def split: prod.splits)
next
  case (2 q db x)
  then show ?case by (cases x) (auto simp: load_opening_balance_def Let_def split: prod.splits if_splits)
next
  case (3 db q k r db')
  obtain env user c am d where q: "q = (env, user, c, am, d)" by (cases q) auto
  have k: "cu_pk c = k" using 3(2) by (simp add: q)
  have none: "opening_entry (cu_pk c) db = None" using 3(3) by (simp add: k)
  define on where "on = (case d of None \<Rightarrow> today env | Some d \<Rightarrow> d)"
  define res where "res = record_entry env user (cu_pk c) ''OPENING'' (to_money am) ''Opening balance carried at go-live'' (Some on) None None db"
  from 3(4) have l: "load_opening_balance env user c am d db = Inr (r, db')" by (simp add: q)
  show ?case
  proof (cases res)
    case (Inl e)
    then show ?thesis using l none
      by (cases e) (auto simp: load_opening_balance_def Let_def on_def [symmetric] res_def [symmetric] split: if_splits)
  next
    case (Inr x)
    then obtain db1 where x: "record_entry env user (cu_pk c) ''OPENING'' (to_money am) ''Opening balance carried at go-live'' (Some on) None None db = Inr (r, db1)"
      "db_cle db' = db_cle db1"
      using l none
      by (cases x) (auto simp: load_opening_balance_def Let_def on_def [symmetric] res_def [symmetric] split: if_splits)
    have "tb_first (\<lambda>e. ce_customer e = k \<and> ce_entry_type e = ''OPENING'') (db_cle db1) = Some r"
      using record_entryD(1,5,6) [OF x(1)] none k
      by (auto simp: opening_entry_def tb_first_def find_append find_None_iff_list split: option.splits dest!: find_SomeD)
    then show ?thesis by (simp add: opening_entry_def x(2))
  qed
qed

definition empty_receivables_db :: receivables_db where
  "empty_receivables_db = billing_db.extend empty_billing_db (receivables_db.fields empty_table 1)"

end
