(* ===== verification/Samples.thy ===== *)
theory Samples
  imports Positions "HOL-Library.Code_Target_Nat"
begin

text \<open>
  A small business the concrete instances of the properties run on: one owner, one retailer
  whose credit limit is 1000, one product at 100 with 18 percent tax sold in boxes of ten, and
  an order of five pieces as it stands when it is confirmed and assigned.
\<close>

definition sample_env :: env where
  "sample_env = \<lparr>now = 1000, today = Date 2025 4 1, request_id = ''r1''\<rparr>"

definition sample_owner :: "actor option" where
  "sample_owner = Some \<lparr>ac_pk = Some 1, ac_authenticated = True, ac_active = True,
     ac_roles = [OWNER], ac_customer = None\<rparr>"

definition sample_salesman :: "actor option" where
  "sample_salesman = Some \<lparr>ac_pk = Some 3, ac_authenticated = True, ac_active = True,
     ac_roles = [SALESMAN], ac_customer = None\<rparr>"

definition sample_retailer :: "actor option" where
  "sample_retailer = Some \<lparr>ac_pk = Some 2, ac_authenticated = True, ac_active = True,
     ac_roles = [RETAILER], ac_customer = Some 1\<rparr>"

definition sample_customer :: customer where
  "sample_customer = \<lparr>cu_pk = 1, cu_code = ''C1'', cu_shop_name = ''Shop'', cu_owner_name = ''A'',
     cu_phone = ''+919999999999'', cu_alt_phone = '''', cu_gstin = '''', cu_state_code = ''32'',
     cu_zone = None, cu_billing_address = ''Road'', cu_delivery_address = '''',
     cu_credit_limit_amount = 1000, cu_credit_days = 0, cu_opening_balance_amount = 0,
     cu_latitude = None, cu_longitude = None, cu_is_active = True, cu_created_by = Some 1,
     cu_updated_at = 0\<rparr>"

definition sample_product :: product where
  "sample_product = \<lparr>pr_pk = 1, pr_code = ''P1'', pr_name = ''Soap'', pr_description = '''',
     pr_hsn_code = ''3401'', pr_tax_rate_percent = 18, pr_selling_price = 100, pr_unit_name = ''pc'',
     pr_pack_size = 10, pr_pack_name = ''box'', pr_image_media = None, pr_is_active = True,
     pr_updated_at = 0\<rparr>"

definition sample_profile :: business_profile where
  "sample_profile = default_profile\<lparr>bp_state_code := ''32'', bp_credit_limit_mode := BLOCK\<rparr>"

definition sample_db :: fulfilment_db where
  "sample_db = empty_fulfilment_db\<lparr>
     db_profile := Some sample_profile,
     db_customers := \<lparr>tb_seq = 2, tb_rows = [sample_customer]\<rparr>,
     db_products := \<lparr>tb_seq = 2, tb_rows = [sample_product]\<rparr>\<rparr>"

text \<open>The state a successful call leaves.\<close>

definition after :: "error + 'r \<times> 'db \<Rightarrow> 'db \<Rightarrow> 'db" where
  "after m db = (case m of Inl _ \<Rightarrow> db | Inr (_, db') \<Rightarrow> db')"

definition succeeds :: "error + 'r \<Rightarrow> bool" where
  "succeeds m = (case m of Inl _ \<Rightarrow> False | Inr _ \<Rightarrow> True)"

lemma succeedsE:
  assumes "succeeds m" obtains r where "m = Inr (r, after m db)"
  using assms by (cases m) (auto simp: succeeds_def after_def)


section \<open>Capturing an order\<close>

definition sample_line :: line_input where
  "sample_line = \<lparr>li_product = sample_product, li_quantity = Some 5, li_pack_quantity = None,
     li_discount_amount = 20\<rparr>"

definition sample_request :: order_request where
  "sample_request = \<lparr>oq_customer = sample_customer, oq_lines = [sample_line], oq_source = SRC_WEB,
     oq_client_uuid = Some ''u1'', oq_expected_delivery_date = None, oq_notes = '''', oq_override_credit = False\<rparr>"

definition placed_db :: fulfilment_db where
  "placed_db = after (place_order sample_env sample_owner sample_request sample_db) empty_fulfilment_db"

lemma sample_place: "succeeds (place_order sample_env sample_owner sample_request sample_db)"
  by code_simp

lemma sample_place_obtain:
  obtains ord where "place_order sample_env sample_owner sample_request sample_db = Inr (ord, placed_db)"
  using succeedsE [OF sample_place] unfolding placed_db_def .

lemma sample_orders_ok: "orders_ok sample_db"
  by code_simp


section \<open>A confirmed order and its delivery\<close>

definition confirmed_order :: sales_order where
  "confirmed_order = \<lparr>so_pk = 1, so_order_number = ''SO-00000001'', so_client_uuid = Some ''u1'',
     so_customer = 1, so_status = CONFIRMED, so_source = SRC_WEB, so_order_date = Date 2025 4 1,
     so_expected_delivery_date = None, so_assigned_user = Some 1, so_subtotal_amount = 500,
     so_discount_amount = 20, so_tax_amount = 432/5, so_total_amount = 2832/5,
     so_credit_warning_shown = False, so_credit_override_by = None, so_credit_override_at = None,
     so_cancelled_reason = '''', so_cancelled_at = None, so_cancelled_by = None, so_notes = '''',
     so_created_by = Some 1, so_updated_at = 0\<rparr>"

definition confirmed_line :: order_line where
  "confirmed_line = \<lparr>ol_pk = 1, ol_order = 1, ol_line_number = 1, ol_product = 1, ol_product_code = ''P1'',
     ol_product_name = ''Soap'', ol_unit_name = ''pc'', ol_unit_price = 100, ol_tax_rate_percent = 18,
     ol_pack_size_snapshot = 10, ol_quantity = 5, ol_pack_quantity = None, ol_discount_amount = 20,
     ol_discount_by = Some 1, ol_taxable_amount = 480, ol_tax_amount = 432/5, ol_line_total = 2832/5\<rparr>"

definition confirmed_db :: fulfilment_db where
  "confirmed_db = sample_db\<lparr>
     db_orders := \<lparr>tb_seq = 2, tb_rows = [confirmed_order]\<rparr>,
     db_order_lines := \<lparr>tb_seq = 2, tb_rows = [confirmed_line]\<rparr>\<rparr>"

definition assigned_delivery :: delivery where
  "assigned_delivery = \<lparr>dl_pk = 1, dl_order = 1, dl_client_uuid = None, dl_outcome_client_uuid = None,
     dl_assigned_user = 1, dl_status = PENDING, dl_dispatched_at = None, dl_delivered_at = None,
     dl_recipient_name = '''', dl_photo_media = None, dl_latitude = None, dl_longitude = None,
     dl_failure_reason = '''', dl_device_id = '''', dl_synced_at = None, dl_updated_at = 0\<rparr>"

definition assigned_db :: fulfilment_db where
  "assigned_db = confirmed_db\<lparr>db_deliveries := \<lparr>tb_seq = 2, tb_rows = [assigned_delivery]\<rparr>\<rparr>"

definition dispatched_db :: fulfilment_db where
  "dispatched_db = after (dispatch_delivery sample_env sample_owner 1 '''' assigned_db) empty_fulfilment_db"

definition failed_db :: fulfilment_db where
  "failed_db = after (fail_delivery sample_env sample_owner 1 ''shop shut'' '''' (Some ''k1'') dispatched_db) empty_fulfilment_db"

definition sample_outcome :: outcome_args where
  "sample_outcome = \<lparr>oa_recipient_name = ''Mani'', oa_delivered_at = None, oa_latitude = None,
     oa_longitude = None, oa_photo_media = None, oa_device_id = ''d1''\<rparr>"

definition delivered_db :: fulfilment_db where
  "delivered_db = after (complete_delivery sample_env sample_owner 1 sample_outcome (Some ''k1'') dispatched_db) empty_fulfilment_db"

lemma sample_dispatch: "succeeds (dispatch_delivery sample_env sample_owner 1 '''' assigned_db)"
  by code_simp

lemma sample_fail: "succeeds (fail_delivery sample_env sample_owner 1 ''shop shut'' '''' (Some ''k1'') dispatched_db)"
  by code_simp

lemma sample_complete: "succeeds (complete_delivery sample_env sample_owner 1 sample_outcome (Some ''k1'') dispatched_db)"
  by code_simp

section \<open>Billing the order\<close>

definition shipped_db :: billing_db where
  "shipped_db = numbering_db.extend (fulfilment_db.extend dispatched_db (numbering_db.fields empty_table))
     (billing_db.fields empty_table empty_table empty_table empty_table)"

definition billed_db :: billing_db where
  "billed_db = after (issue_invoice sample_env sample_owner 1 None (Some ''b1'') shipped_db) empty_billing_db"

definition sample_invoice_line :: invoice_line where
  "sample_invoice_line = \<lparr>bl_line_number = 1, bl_product = Some 1, bl_product_code = ''P1'', bl_product_name = ''Soap'',
     bl_hsn_code = ''3401'', bl_quantity = 5, bl_unit_name = ''pc'', bl_unit_price = 100, bl_discount_amount = 20,
     bl_taxable_amount = 480, bl_tax_rate_percent = 18,
     bl_tax = \<lparr>tx_cgst = 216/5, tx_sgst = 216/5, tx_igst = 0\<rparr>, bl_line_total = 2832/5, il_pk = 1, il_invoice = 1\<rparr>"

definition sample_credit :: credit_request where
  "sample_credit = \<lparr>cq_invoice = 1,
     cq_lines = [\<lparr>ci_invoice_line = sample_invoice_line, ci_quantity = Some 2\<rparr>],
     cq_reason = ''damaged'', cq_reason_code = None, cq_credit_note_date = None, cq_client_uuid = Some ''c1''\<rparr>"

definition credited_db :: billing_db where
  "credited_db = after (issue_credit_note sample_env sample_owner sample_credit billed_db) empty_billing_db"

lemma sample_issue: "succeeds (issue_invoice sample_env sample_owner 1 None (Some ''b1'') shipped_db)"
  by code_simp

lemma sample_cancel: "succeeds (cancel_invoice sample_env sample_owner 1 ''wrong shop'' billed_db)"
  by code_simp

lemma sample_invoice_line_row: "tb_rows (db_invoice_lines billed_db) = [sample_invoice_line]"
  by code_simp

lemma sample_credit_note: "succeeds (issue_credit_note sample_env sample_owner sample_credit billed_db)"
  by code_simp

lemma shipped_empty:
  "tb_rows (db_series shipped_db) = []" "tb_rows (db_invoices shipped_db) = []" "tb_rows (db_credit_notes shipped_db) = []"
  by (simp_all add: shipped_db_def numbering_db.defs billing_db.defs fulfilment_db.defs)

lemma shipped_ledger: "tb_rows (db_cle shipped_db) = []"
  by code_simp

lemma sample_billing_ok: "billing_ok shipped_db"
  by (rule fresh_billing_ok) (simp_all add: shipped_empty shipped_ledger)

lemma sample_issue_obtain:
  obtains i where "issue_invoice sample_env sample_owner 1 None (Some ''b1'') shipped_db = Inr (i, billed_db)"
  using succeedsE [OF sample_issue] unfolding billed_db_def .

lemma sample_credit_obtain:
  obtains n where "issue_credit_note sample_env sample_owner sample_credit billed_db = Inr (n, credited_db)"
  using succeedsE [OF sample_credit_note] unfolding credited_db_def .

lemma sample_billing_steps: "billing_step\<^sup>*\<^sup>* shipped_db credited_db"
proof -
  obtain i n where "issue_invoice sample_env sample_owner 1 None (Some ''b1'') shipped_db = Inr (i, billed_db)"
    "issue_credit_note sample_env sample_owner sample_credit billed_db = Inr (n, credited_db)"
    using sample_issue_obtain sample_credit_obtain by metis
  then show ?thesis by (meson billing_step.issue billing_step.credit r_into_rtranclp rtranclp_trans)
qed

text \<open>The invoice series after the two documents.\<close>

definition first_series :: number_series where
  "first_series = \<lparr>ns_pk = 1, ns_series_key = ''INVOICE'', ns_financial_year = ''2025-2026'',
     ns_prefix = ''INV/25-26/'', ns_current_value = 1, ns_padding = 5, ns_is_active = True\<rparr>"

lemma first_series_rows: "take 1 (tb_rows (db_series credited_db)) = [first_series]"
  by code_simp

lemma first_series_row: "first_series \<in> set (tb_rows (db_series credited_db))"
  by (rule in_set_takeD [where n = 1]) (simp only: first_series_rows list.set_intros)

lemma first_series_format: "series_format first_series 1 = ''INV/25-26/00001''"
  by code_simp

section \<open>Collecting\<close>

definition owing_db :: receivables_db where
  "owing_db = billing_db.extend billed_db (receivables_db.fields empty_table 1)"

definition sample_payment :: payment_request where
  "sample_payment = \<lparr>pq_customer = sample_customer, pq_amount = 300, pq_method = ''CASH'', pq_payment_date = None,
     pq_reference_number = '''', pq_notes = '''', pq_device_id = ''d1'', pq_client_uuid = Some ''p1''\<rparr>"

definition paid_db :: receivables_db where
  "paid_db = after (record_payment sample_env sample_salesman sample_payment owing_db) empty_receivables_db"

definition bounced_db :: receivables_db where
  "bounced_db = after (reverse_payment sample_env sample_owner 1 ''bounced'' paid_db) empty_receivables_db"

lemma sample_collect: "succeeds (record_payment sample_env sample_salesman sample_payment owing_db)"
  by code_simp

lemma sample_reverse: "succeeds (reverse_payment sample_env sample_owner 1 ''bounced'' paid_db)"
  by code_simp

lemma sample_collect_obtain:
  obtains p where "record_payment sample_env sample_salesman sample_payment owing_db = Inr (p, paid_db)"
  using succeedsE [OF sample_collect] unfolding paid_db_def .

lemma sample_reverse_obtain:
  obtains p where "reverse_payment sample_env sample_owner 1 ''bounced'' paid_db = Inr (p, bounced_db)"
  using succeedsE [OF sample_reverse] unfolding bounced_db_def .

lemma no_payments_ok:
  assumes "tb_rows (db_payments db) = []" "filter payment_entry (tb_rows (db_cle db)) = []"
  shows "payments_ok db"
  using assms by (auto simp: payments_ok_def table_wf_def filter_empty_conv)

lemma owing_payments_ok: "payments_ok owing_db"
proof (rule no_payments_ok)
  show "tb_rows (db_payments owing_db) = []"
    by (simp add: owing_db_def receivables_db.defs billing_db.defs)
  show "filter payment_entry (tb_rows (db_cle owing_db)) = []" by code_simp
qed

lemma ledger_ok_code [code]:
  "ledger_ok db \<longleftrightarrow>
     table_wf ce_pk (db_cle db) \<and> table_wf se_pk (db_sle db) \<and>
     list_all (\<lambda>e. cle_check e = Inr () \<and> is_money (ce_amount e)) (tb_rows (db_cle db)) \<and>
     list_all (\<lambda>e. sle_check e = Inr () \<and> is_money (se_amount e)) (tb_rows (db_sle db)) \<and>
     distinct (openings (tb_rows (db_cle db))) \<and> distinct (supplier_openings (tb_rows (db_sle db)))"
  by (rule ledger_ok_def)

lemma owing_ledger_ok: "ledger_ok owing_db"
  by code_simp

lemma paid_ledger_ok: "ledger_ok paid_db"
  by (rule sample_collect_obtain) (auto elim!: record_paymentD simp: owing_ledger_ok)

lemma sample_receipt_steps: "receipt_step\<^sup>*\<^sup>* owing_db bounced_db"
proof -
  obtain p p' where "record_payment sample_env sample_salesman sample_payment owing_db = Inr (p, paid_db)"
    "reverse_payment sample_env sample_owner 1 ''bounced'' paid_db = Inr (p', bounced_db)"
    using sample_collect_obtain sample_reverse_obtain by metis
  then show ?thesis by (meson receipt_step.record_it receipt_step.reverse_it r_into_rtranclp rtranclp_trans)
qed

end
