(* ===== verification/Purchasing.thy ===== *)
theory Purchasing
  imports Receivables
begin

text \<open>
  Purchasing: \<^verbatim>\<open>purchasing/models.py\<close>, \<^verbatim>\<open>services.py\<close>, \<^verbatim>\<open>selectors.py\<close> and \<^verbatim>\<open>registry.py\<close>.  Suppliers and
  what they supply, purchase orders and their life cycle, goods receipts (which move stock and
  raise what is owed in one act), payments to suppliers, and the payables position over the
  shared walk.

  As in theory \<open>Orders\<close>, a service receives instances, possibly older than their rows.  A
  sequence number drawn by a call that fails is not lost here, as it would be in PostgreSQL.
\<close>


section \<open>Suppliers\<close>

record supplier =
  sp_pk :: nat
  sp_code :: string
  sp_name :: string
  sp_contact_name :: string
  sp_phone :: string
  sp_alt_phone :: string
  sp_email :: string
  sp_billing_address :: string
  sp_dispatch_address :: string
  sp_gstin :: string
  sp_state_code :: string
  sp_payment_terms_days :: int
  sp_is_active :: bool
  sp_created_by :: "nat option"
  sp_updated_at :: int

record product_supplier =
  ps_pk :: nat
  ps_product :: nat
  ps_supplier :: nat
  ps_supplier_sku :: string
  ps_is_preferred :: bool

datatype purchase_status = PO_DRAFT | PO_ISSUED | PO_PARTIALLY_RECEIVED | PO_RECEIVED | PO_CLOSED | PO_CANCELLED

record purchase_order =
  pu_pk :: nat
  pu_po_number :: string
  pu_supplier :: nat
  pu_status :: purchase_status
  pu_order_date :: date
  pu_expected_date :: "date option"
  pu_subtotal_amount :: decimal
  pu_tax_amount :: decimal
  pu_total_amount :: decimal
  pu_notes :: string
  pu_issued_at :: "int option"
  pu_issued_by :: "nat option"
  pu_cancelled_reason :: string
  pu_cancelled_at :: "int option"
  pu_cancelled_by :: "nat option"
  pu_created_by :: "nat option"
  pu_updated_at :: int

record purchase_line =
  ul_pk :: nat
  ul_purchase_order :: nat
  ul_line_number :: nat
  ul_product :: nat
  ul_product_code :: string
  ul_product_name :: string
  ul_unit_name :: string
  ul_pack_size_snapshot :: int
  ul_quantity_ordered :: decimal
  ul_unit_cost :: decimal
  ul_tax_rate_percent :: decimal
  ul_taxable_amount :: decimal
  ul_tax_amount :: decimal
  ul_line_total :: decimal

record goods_receipt =
  gr_pk :: nat
  gr_grn_number :: string
  gr_purchase_order :: nat
  gr_receipt_date :: date
  gr_supplier_reference :: string
  gr_subtotal_amount :: decimal
  gr_tax_amount :: decimal
  gr_total_amount :: decimal
  gr_notes :: string
  gr_received_by :: "nat option"
  gr_created_at :: int

record receipt_line =
  gl_pk :: nat
  gl_goods_receipt :: nat
  gl_purchase_order_line :: nat
  gl_quantity_received :: decimal
  gl_unit_cost :: decimal
  gl_tax_rate_percent :: decimal
  gl_taxable_amount :: decimal
  gl_tax_amount :: decimal
  gl_line_total :: decimal
  gl_stock_movement :: nat

record supplier_payment =
  sy_pk :: nat
  sy_submission_id :: string
  sy_payment_number :: string
  sy_supplier :: nat
  sy_amount :: decimal
  sy_method :: string
  sy_reference_number :: string
  sy_payment_date :: date
  sy_notes :: string
  sy_paid_by :: "nat option"
  sy_created_at :: int
  sy_is_reversed :: bool
  sy_reversed_reason :: string
  sy_reversed_at :: "int option"
  sy_reversed_by :: "nat option"

record purchasing_db = receivables_db +
  db_suppliers :: "supplier table"
  db_product_suppliers :: "product_supplier table"
  db_purchase_orders :: "purchase_order table"
  db_purchase_lines :: "purchase_line table"
  db_goods_receipts :: "goods_receipt table"
  db_receipt_lines :: "receipt_line table"
  db_supplier_payments :: "supplier_payment table"
  db_po_number_seq :: nat
  db_grn_number_seq :: nat
  db_spy_number_seq :: nat

lemma record_audit_purchasing [simp, frame_simps]:
  "db_suppliers (record_audit env a et ei u s b c db) = db_suppliers db"
  "db_product_suppliers (record_audit env a et ei u s b c db) = db_product_suppliers db"
  "db_purchase_orders (record_audit env a et ei u s b c db) = db_purchase_orders db"
  "db_purchase_lines (record_audit env a et ei u s b c db) = db_purchase_lines db"
  "db_goods_receipts (record_audit env a et ei u s b c db) = db_goods_receipts db"
  "db_receipt_lines (record_audit env a et ei u s b c db) = db_receipt_lines db"
  "db_supplier_payments (record_audit env a et ei u s b c db) = db_supplier_payments db"
  "db_po_number_seq (record_audit env a et ei u s b c db) = db_po_number_seq db"
  "db_grn_number_seq (record_audit env a et ei u s b c db) = db_grn_number_seq db"
  "db_spy_number_seq (record_audit env a et ei u s b c db) = db_spy_number_seq db"
  by (simp_all add: record_audit_def record_audit_from_def)

text \<open>
  One keyword of \<^verbatim>\<open>**fields\<close>.  Terms that do not read as a number are \<open>None\<close>; \<open>SF_other\<close> is any
  key that is not in \<^verbatim>\<open>_SUPPLIER_FIELDS\<close>.
\<close>

datatype supplier_field =
    SF_name string | SF_contact_name string | SF_phone string | SF_alt_phone string | SF_email string
  | SF_billing_address string | SF_dispatch_address string | SF_gstin string | SF_state_code string
  | SF_payment_terms_days "int option" | SF_is_active bool | SF_other string

definition SUPPLIER_FIELDS :: "string list" where
  "SUPPLIER_FIELDS = [''name'', ''contact_name'', ''phone'', ''alt_phone'', ''email'', ''billing_address'',
     ''dispatch_address'', ''gstin'', ''state_code'', ''payment_terms_days'', ''is_active'']"

fun supplier_field_name :: "supplier_field \<Rightarrow> string" where
  "supplier_field_name (SF_name _) = ''name''"
| "supplier_field_name (SF_contact_name _) = ''contact_name''"
| "supplier_field_name (SF_phone _) = ''phone''"
| "supplier_field_name (SF_alt_phone _) = ''alt_phone''"
| "supplier_field_name (SF_email _) = ''email''"
| "supplier_field_name (SF_billing_address _) = ''billing_address''"
| "supplier_field_name (SF_dispatch_address _) = ''dispatch_address''"
| "supplier_field_name (SF_gstin _) = ''gstin''"
| "supplier_field_name (SF_state_code _) = ''state_code''"
| "supplier_field_name (SF_payment_terms_days _) = ''payment_terms_days''"
| "supplier_field_name (SF_is_active _) = ''is_active''"
| "supplier_field_name (SF_other k) = k"

definition payment_terms :: "int option \<Rightarrow> error + int" where
  "payment_terms raw =
     (case raw of None \<Rightarrow> Inl (ValidationFailed [])
      | Some days \<Rightarrow> andThen (require (\<not> days < 0) (ValidationFailed [])) (\<lambda>_. Inr days))"

fun clean_field :: "supplier_field \<Rightarrow> error + supplier_field" where
  "clean_field (SF_payment_terms_days v) = andThen (payment_terms v) (\<lambda>d. Inr (SF_payment_terms_days (Some d)))"
| "clean_field (SF_is_active v) = Inr (SF_is_active v)"
| "clean_field (SF_name v) = Inr (SF_name (strip v))"
| "clean_field (SF_contact_name v) = Inr (SF_contact_name (strip v))"
| "clean_field (SF_phone v) = Inr (SF_phone (strip v))"
| "clean_field (SF_alt_phone v) = Inr (SF_alt_phone (strip v))"
| "clean_field (SF_email v) = Inr (SF_email (strip v))"
| "clean_field (SF_billing_address v) = Inr (SF_billing_address (strip v))"
| "clean_field (SF_dispatch_address v) = Inr (SF_dispatch_address (strip v))"
| "clean_field (SF_gstin v) = Inr (SF_gstin (strip v))"
| "clean_field (SF_state_code v) = Inr (SF_state_code (strip v))"
| "clean_field (SF_other k) = Inr (SF_other k)"

definition clean_supplier_fields :: "supplier_field list \<Rightarrow> error + supplier_field list" where
  "clean_supplier_fields kwargs =
     map_result clean_field (filter (\<lambda>f. supplier_field_name f \<in> set SUPPLIER_FIELDS) kwargs)"

fun supplier_set :: "supplier_field \<Rightarrow> supplier \<Rightarrow> supplier" where
  "supplier_set (SF_name v) s = s\<lparr>sp_name := v\<rparr>"
| "supplier_set (SF_contact_name v) s = s\<lparr>sp_contact_name := v\<rparr>"
| "supplier_set (SF_phone v) s = s\<lparr>sp_phone := v\<rparr>"
| "supplier_set (SF_alt_phone v) s = s\<lparr>sp_alt_phone := v\<rparr>"
| "supplier_set (SF_email v) s = s\<lparr>sp_email := v\<rparr>"
| "supplier_set (SF_billing_address v) s = s\<lparr>sp_billing_address := v\<rparr>"
| "supplier_set (SF_dispatch_address v) s = s\<lparr>sp_dispatch_address := v\<rparr>"
| "supplier_set (SF_gstin v) s = s\<lparr>sp_gstin := v\<rparr>"
| "supplier_set (SF_state_code v) s = s\<lparr>sp_state_code := v\<rparr>"
| "supplier_set (SF_payment_terms_days v) s = (case v of None \<Rightarrow> s | Some d \<Rightarrow> s\<lparr>sp_payment_terms_days := d\<rparr>)"
| "supplier_set (SF_is_active v) s = s\<lparr>sp_is_active := v\<rparr>"
| "supplier_set (SF_other k) s = s"

definition supplier_audit_state :: "supplier \<Rightarrow> state" where
  "supplier_audit_state s =
     [(''supplier_code'', PStr (sp_code s)), (''name'', PStr (sp_name s)), (''phone'', PStr (sp_phone s)),
      (''gstin'', PStr (sp_gstin s)), (''payment_terms_days'', PInt (sp_payment_terms_days s)),
      (''is_active'', PBool (sp_is_active s))]"

text \<open>The CHECK on the terms, and the range of the \<^verbatim>\<open>smallint\<close> column that holds them.\<close>

definition supplier_constraints :: "supplier \<Rightarrow> error + unit" where
  "supplier_constraints s =
     andThen (require (sp_payment_terms_days s \<le> 32767) (PyError ''DataError'')) (\<lambda>_.
     require (0 \<le> sp_payment_terms_days s) (IntegrityError ''ck_supplier_payment_terms''))"

definition create_supplier ::
  "env \<Rightarrow> actor option \<Rightarrow> string \<Rightarrow> string \<Rightarrow> string \<Rightarrow> string \<Rightarrow> supplier_field list \<Rightarrow>
   'a purchasing_db_scheme \<Rightarrow> error + supplier \<times> 'a purchasing_db_scheme" where
  "create_supplier env user code name phone billing_address kwargs db =
     andThen (require_roles user [OWNER]) (\<lambda>_.
     let code = upper (strip code); name = strip name; phone = strip phone; billing_address = strip billing_address in
     andThen (require (code \<noteq> '''') (ValidationFailed [])) (\<lambda>_.
     andThen (require (name \<noteq> '''') (ValidationFailed [])) (\<lambda>_.
     andThen (require (phone \<noteq> '''') (ValidationFailed [])) (\<lambda>_.
     andThen (require (billing_address \<noteq> '''') (ValidationFailed [])) (\<lambda>_.
     andThen (require (\<not> tb_exists (\<lambda>s. sp_code s = code) (db_suppliers db)) (invalid ''code'' ''DUPLICATE'')) (\<lambda>_.
     andThen (clean_supplier_fields kwargs) (\<lambda>cleaned.
     let (s, suppliers) = tb_insert (\<lambda>pk. fold supplier_set cleaned
           \<lparr>sp_pk = pk, sp_code = code, sp_name = name, sp_contact_name = '''', sp_phone = phone,
            sp_alt_phone = '''', sp_email = '''', sp_billing_address = billing_address,
            sp_dispatch_address = '''', sp_gstin = '''', sp_state_code = '''', sp_payment_terms_days = 0,
            sp_is_active = True, sp_created_by = actor_pk user, sp_updated_at = now env\<rparr>) (db_suppliers db)
     in andThen (supplier_constraints s) (\<lambda>_.
        Inr (s, record_audit env A_CREATE ''supplier'' (Some (sp_pk s)) user S_WEB None
               (Some (supplier_audit_state s)) (db\<lparr>db_suppliers := suppliers\<rparr>))))))))))"

definition update_supplier ::
  "env \<Rightarrow> actor option \<Rightarrow> supplier \<Rightarrow> supplier_field list \<Rightarrow> 'a purchasing_db_scheme \<Rightarrow>
   error + supplier \<times> 'a purchasing_db_scheme" where
  "update_supplier env user s kwargs db =
     andThen (require_roles user [OWNER]) (\<lambda>_.
     andThen (clean_supplier_fields kwargs) (\<lambda>cleaned.
     let given = (\<lambda>k. k \<in> set (map supplier_field_name cleaned)); s' = fold supplier_set cleaned s in
     andThen (require (\<not> (given ''name'' \<and> sp_name s' = '''')) (ValidationFailed [])) (\<lambda>_.
     andThen (require (\<not> (given ''phone'' \<and> sp_phone s' = '''')) (ValidationFailed [])) (\<lambda>_.
     andThen (require (\<not> (given ''billing_address'' \<and> sp_billing_address s' = '''')) (ValidationFailed [])) (\<lambda>_.
     let s' = s'\<lparr>sp_updated_at := now env\<rparr> in
     andThen (supplier_constraints s') (\<lambda>_.
     Inr (s', record_audit env A_UPDATE ''supplier'' (Some (sp_pk s)) user S_WEB
            (Some (supplier_audit_state s)) (Some (supplier_audit_state s'))
            (db\<lparr>db_suppliers := tb_update sp_pk (sp_pk s) (\<lambda>_. s') (db_suppliers db)\<rparr>))))))))"

definition deactivate_supplier ::
  "env \<Rightarrow> actor option \<Rightarrow> supplier \<Rightarrow> 'a purchasing_db_scheme \<Rightarrow>
   error + supplier \<times> 'a purchasing_db_scheme" where
  "deactivate_supplier env user s db =
     andThen (require_roles user [OWNER]) (\<lambda>_.
     let f = (\<lambda>r. r\<lparr>sp_is_active := False, sp_updated_at := now env\<rparr>)
     in Inr (f s, record_audit env A_DEACTIVATE ''supplier'' (Some (sp_pk s)) user S_WEB
          (Some (supplier_audit_state s)) (Some (supplier_audit_state (f s)))
          (db\<lparr>db_suppliers := tb_update sp_pk (sp_pk s) f (db_suppliers db)\<rparr>)))"


section \<open>Products and their suppliers\<close>

definition find_link :: "nat \<Rightarrow> nat \<Rightarrow> 'a purchasing_db_scheme \<Rightarrow> product_supplier option" where
  "find_link product supplier db =
     tb_first (\<lambda>l. ps_product l = product \<and> ps_supplier l = supplier) (db_product_suppliers db)"

text \<open>
  The demotion is one \<^verbatim>\<open>update\<close> over the other links of the product; the promotion is refused by
  the partial unique index if another preferred link is left.
\<close>

definition set_preferred_supplier ::
  "env \<Rightarrow> actor option \<Rightarrow> nat \<Rightarrow> nat \<Rightarrow> 'a purchasing_db_scheme \<Rightarrow>
   error + product_supplier \<times> 'a purchasing_db_scheme" where
  "set_preferred_supplier env user product supplier db =
     andThen (require_roles user [OWNER]) (\<lambda>_.
     case find_link product supplier db of
       None \<Rightarrow> Inl (ValidationFailed [])
     | Some link \<Rightarrow>
     let demoted = map (\<lambda>l. if ps_product l = product \<and> ps_is_preferred l \<and> ps_pk l \<noteq> ps_pk link
                            then l\<lparr>ps_is_preferred := False\<rparr> else l) (tb_rows (db_product_suppliers db));
         db = db\<lparr>db_product_suppliers := (db_product_suppliers db)\<lparr>tb_rows := demoted\<rparr>\<rparr> in
     andThen (if ps_is_preferred link then Inr (link, db)
              else andThen (require (\<not> tb_exists (\<lambda>l. ps_product l = ps_product link \<and> ps_is_preferred l) (db_product_suppliers db))
                              (IntegrityError ''uq_product_supplier_one_preferred'')) (\<lambda>_.
                   Inr (link\<lparr>ps_is_preferred := True\<rparr>,
                        db\<lparr>db_product_suppliers := tb_update ps_pk (ps_pk link) (\<lambda>l. l\<lparr>ps_is_preferred := True\<rparr>)
                             (db_product_suppliers db)\<rparr>))) (\<lambda>(link, db).
     Inr (link, record_audit env A_UPDATE ''product_supplier'' (Some (ps_pk link)) user S_WEB None
            (Some [(''product_id'', PInt (int (ps_product link))), (''supplier_id'', PInt (int (ps_supplier link))),
                   (''is_preferred'', PBool True)]) db)))"

text \<open>\<^verbatim>\<open>update_or_create\<close>: the row, whether it is new, and the table.\<close>

definition upsert_link ::
  "nat \<Rightarrow> nat \<Rightarrow> string \<Rightarrow> 'a purchasing_db_scheme \<Rightarrow> product_supplier \<times> bool \<times> product_supplier table" where
  "upsert_link supplier product sku db =
     (case find_link product supplier db of
        Some l \<Rightarrow> (l\<lparr>ps_supplier_sku := sku\<rparr>, False,
                   tb_update ps_pk (ps_pk l) (\<lambda>r. r\<lparr>ps_supplier_sku := sku\<rparr>) (db_product_suppliers db))
      | None \<Rightarrow>
          let (l, links) = tb_insert (\<lambda>pk. \<lparr>ps_pk = pk, ps_product = product, ps_supplier = supplier,
                ps_supplier_sku = sku, ps_is_preferred = False\<rparr>) (db_product_suppliers db)
          in (l, True, links))"

definition link_product_supplier ::
  "env \<Rightarrow> actor option \<Rightarrow> nat \<Rightarrow> nat \<Rightarrow> string \<Rightarrow> bool \<Rightarrow> 'a purchasing_db_scheme \<Rightarrow>
   error + product_supplier \<times> 'a purchasing_db_scheme" where
  "link_product_supplier env user supplier product supplier_sku is_preferred db =
     andThen (require_roles user [OWNER]) (\<lambda>_.
     let (link, created, links) = upsert_link supplier product (strip supplier_sku) db;
         db = record_audit env (if created then A_CREATE else A_UPDATE) ''product_supplier'' (Some (ps_pk link)) user S_WEB None
            (Some [(''product_id'', PInt (int (ps_product link))), (''supplier_id'', PInt (int (ps_supplier link))),
                   (''supplier_sku'', PStr (ps_supplier_sku link))]) (db\<lparr>db_product_suppliers := links\<rparr>) in
     if \<not> is_preferred then Inr (link, db)
     else
     andThen (set_preferred_supplier env user product supplier db) (\<lambda>(_, db).
     case tb_get ps_pk (ps_pk link) (db_product_suppliers db) of
       None \<Rightarrow> Inl (PyError ''ProductSupplier.DoesNotExist'') | Some l \<Rightarrow> Inr (l, db)))"

definition unlink_product_supplier ::
  "env \<Rightarrow> actor option \<Rightarrow> nat \<Rightarrow> nat \<Rightarrow> 'a purchasing_db_scheme \<Rightarrow> error + unit \<times> 'a purchasing_db_scheme" where
  "unlink_product_supplier env user supplier product db =
     andThen (require_roles user [OWNER]) (\<lambda>_.
     case find_link product supplier db of
       None \<Rightarrow> Inl (ValidationFailed [])
     | Some link \<Rightarrow>
     Inr ((), record_audit env A_DEACTIVATE ''product_supplier'' (Some (ps_pk link)) user S_WEB
          (Some [(''product_id'', PInt (int (ps_product link))), (''supplier_id'', PInt (int (ps_supplier link))),
                 (''is_preferred'', PBool (ps_is_preferred link))]) None
          (db\<lparr>db_product_suppliers := tb_delete (\<lambda>l. ps_pk l = ps_pk link) (db_product_suppliers db)\<rparr>)))"

section \<open>Purchase orders\<close>

fun PO_TRANSITIONS :: "purchase_status \<Rightarrow> purchase_status list" where
  "PO_TRANSITIONS PO_DRAFT = [PO_ISSUED, PO_CANCELLED]"
| "PO_TRANSITIONS PO_ISSUED = [PO_PARTIALLY_RECEIVED, PO_RECEIVED, PO_CANCELLED]"
| "PO_TRANSITIONS PO_PARTIALLY_RECEIVED = [PO_PARTIALLY_RECEIVED, PO_RECEIVED, PO_CLOSED]"
| "PO_TRANSITIONS PO_RECEIVED = [PO_CLOSED]"
| "PO_TRANSITIONS PO_CLOSED = []"
| "PO_TRANSITIONS PO_CANCELLED = []"

fun purchase_status_str :: "purchase_status \<Rightarrow> string" where
  "purchase_status_str PO_DRAFT = ''DRAFT''"
| "purchase_status_str PO_ISSUED = ''ISSUED''"
| "purchase_status_str PO_PARTIALLY_RECEIVED = ''PARTIALLY_RECEIVED''"
| "purchase_status_str PO_RECEIVED = ''RECEIVED''"
| "purchase_status_str PO_CLOSED = ''CLOSED''"
| "purchase_status_str PO_CANCELLED = ''CANCELLED''"

definition po_is_editable :: "purchase_order \<Rightarrow> bool" where
  "po_is_editable p \<longleftrightarrow> pu_status p = PO_DRAFT"

definition po_constraints :: "purchase_order \<Rightarrow> bool" where
  "po_constraints p \<longleftrightarrow> 0 \<le> pu_subtotal_amount p \<and> 0 \<le> pu_tax_amount p \<and> 0 \<le> pu_total_amount p"

definition po_line_constraints :: "purchase_line \<Rightarrow> bool" where
  "po_line_constraints l \<longleftrightarrow> 0 < ul_quantity_ordered l \<and> 0 \<le> ul_unit_cost l"

definition next_po_number :: "'a purchasing_db_scheme \<Rightarrow> string \<times> 'a purchasing_db_scheme" where
  "next_po_number db =
     (''PO-'' @ zero_pad 8 (db_po_number_seq db), db\<lparr>db_po_number_seq := Suc (db_po_number_seq db)\<rparr>)"

definition po_lines :: "nat \<Rightarrow> 'a purchasing_db_scheme \<Rightarrow> purchase_line list" where
  "po_lines order db =
     sort_key ul_line_number (filter (\<lambda>l. ul_purchase_order l = order) (tb_rows (db_purchase_lines db)))"

text \<open>
  \<^verbatim>\<open>save(update_fields)\<close>: the columns go to the instance and to the row.  No service deletes an order,
  so the row of an instance that was read is there.
\<close>

definition save_purchase_order ::
  "(purchase_order \<Rightarrow> purchase_order) \<Rightarrow> purchase_order \<Rightarrow> 'a purchasing_db_scheme \<Rightarrow>
   error + purchase_order \<times> 'a purchasing_db_scheme" where
  "save_purchase_order f p db =
     andThen (require (list_all (\<lambda>r. pu_pk r = pu_pk p \<longrightarrow> po_constraints (f r)) (tb_rows (db_purchase_orders db)))
                (IntegrityError ''ck_po_totals_non_negative'')) (\<lambda>_.
     Inr (f p, db\<lparr>db_purchase_orders := tb_update pu_pk (pu_pk p) f (db_purchase_orders db)\<rparr>))"

text \<open>\<open>purchase_order.supplier\<close>: the row the foreign key points at.\<close>

definition po_supplier :: "purchase_order \<Rightarrow> 'a purchasing_db_scheme \<Rightarrow> error + supplier" where
  "po_supplier p db =
     (case tb_get sp_pk (pu_supplier p) (db_suppliers db) of
        None \<Rightarrow> Inl (PyError ''Supplier.DoesNotExist'') | Some s \<Rightarrow> Inr s)"

definition po_audit_state :: "supplier \<Rightarrow> purchase_order \<Rightarrow> state" where
  "po_audit_state s p =
     [(''po_number'', PStr (pu_po_number p)), (''supplier_code'', PStr (sp_code s)),
      (''status'', PStr (purchase_status_str (pu_status p))), (''total_amount'', PDec 2 (pu_total_amount p))]"

definition po_transition ::
  "env \<Rightarrow> actor option \<Rightarrow> purchase_order \<Rightarrow> purchase_status \<Rightarrow> (purchase_order \<Rightarrow> purchase_order) \<Rightarrow> state \<Rightarrow>
   'a purchasing_db_scheme \<Rightarrow> error + purchase_order \<times> 'a purchasing_db_scheme" where
  "po_transition env user p to extra audit_extra db =
     (let from = pu_status p in
     andThen (require (to \<in> set (PO_TRANSITIONS from)) (invalid ''status'' ''INVALID_TRANSITION'')) (\<lambda>_.
     andThen (save_purchase_order (\<lambda>r. (extra r)\<lparr>pu_status := to, pu_updated_at := now env\<rparr>) p db) (\<lambda>(p, db).
     Inr (p, record_audit env (case to of PO_ISSUED \<Rightarrow> A_ISSUE | PO_CANCELLED \<Rightarrow> A_CANCEL | _ \<Rightarrow> A_UPDATE)
            ''purchase_order'' (Some (pu_pk p)) user S_WEB
            (Some [(''status'', PStr (purchase_status_str from))])
            (Some ((''status'', PStr (purchase_status_str to)) # audit_extra)) db))))"

record purchase_input =
  ui_product :: product
  ui_quantity_ordered :: decimal
  ui_unit_cost :: decimal

definition new_po_line :: "nat \<Rightarrow> nat \<Rightarrow> product \<Rightarrow> decimal \<Rightarrow> decimal \<Rightarrow> nat \<Rightarrow> purchase_line" where
  "new_po_line order index p quantity unit_cost pk =
     (let taxable = to_money (unit_cost * quantity);
          tax_rate = to_percent (pr_tax_rate_percent p);
          tax = to_money (taxable * tax_rate / 100)
      in \<lparr>ul_pk = pk, ul_purchase_order = order, ul_line_number = index, ul_product = pr_pk p,
          ul_product_code = pr_code p, ul_product_name = pr_name p, ul_unit_name = pr_unit_name p,
          ul_pack_size_snapshot = pr_pack_size p, ul_quantity_ordered = quantity, ul_unit_cost = unit_cost,
          ul_tax_rate_percent = tax_rate, ul_taxable_amount = taxable, ul_tax_amount = tax,
          ul_line_total = to_money (taxable + tax)\<rparr>)"

definition insert_po_line ::
  "nat \<Rightarrow> nat \<times> purchase_input \<Rightarrow> 'a purchasing_db_scheme \<Rightarrow> error + 'a purchasing_db_scheme" where
  "insert_po_line order ir db =
     (let (index, raw) = ir; p = ui_product raw in
     andThen (require (pr_is_active p) (invalid ''product'' ''INACTIVE'')) (\<lambda>_.
     let quantity = to_quantity (ui_quantity_ordered raw) in
     andThen (require (\<not> quantity \<le> 0) (invalid ''quantity_ordered'' ''MIN_VALUE'')) (\<lambda>_.
     let unit_cost = to_money (ui_unit_cost raw) in
     andThen (require (\<not> unit_cost < 0) (invalid ''unit_cost'' ''MIN_VALUE'')) (\<lambda>_.
     let (l, rows) = tb_insert (new_po_line order index p quantity unit_cost) (db_purchase_lines db) in
     andThen (require (po_line_constraints l) (IntegrityError ''purchase_order_line'')) (\<lambda>_.
     Inr (db\<lparr>db_purchase_lines := rows\<rparr>))))))"

definition po_recalculate_totals ::
  "env \<Rightarrow> purchase_order \<Rightarrow> 'a purchasing_db_scheme \<Rightarrow> error + purchase_order \<times> 'a purchasing_db_scheme" where
  "po_recalculate_totals env p db =
     (let ls = po_lines (pu_pk p) db
      in save_purchase_order (\<lambda>r. r\<lparr>pu_subtotal_amount := to_money (sum_list (map ul_taxable_amount ls)),
            pu_tax_amount := to_money (sum_list (map ul_tax_amount ls)),
            pu_total_amount := to_money (sum_list (map ul_line_total ls)), pu_updated_at := now env\<rparr>) p db)"

text \<open>
  The old lines go first; a line that goods were received against is protected by the foreign
  key of the receipt line (\<^verbatim>\<open>RESTRICT\<close>).
\<close>

definition po_replace_lines ::
  "env \<Rightarrow> purchase_order \<Rightarrow> purchase_input list \<Rightarrow> 'a purchasing_db_scheme \<Rightarrow>
   error + purchase_order \<times> 'a purchasing_db_scheme" where
  "po_replace_lines env p inputs db =
     andThen (require (\<not> tb_exists (\<lambda>g. gl_purchase_order_line g \<in> set (map ul_pk (po_lines (pu_pk p) db)))
                (db_receipt_lines db)) (IntegrityError ''goods_receipt_line_purchase_order_line'')) (\<lambda>_.
     andThen (require (inputs \<noteq> []) (invalid ''lines'' ''REQUIRED'')) (\<lambda>_.
     andThen (for_each (enumerate 1 inputs) (insert_po_line (pu_pk p))
        (db\<lparr>db_purchase_lines := tb_delete (\<lambda>l. ul_purchase_order l = pu_pk p) (db_purchase_lines db)\<rparr>)) (\<lambda>db.
     po_recalculate_totals env p db)))"

record purchase_request =
  uq_supplier :: supplier
  uq_order_date :: "date option"
  uq_lines :: "purchase_input list"
  uq_expected_date :: "date option"
  uq_notes :: string

definition new_purchase_order :: "env \<Rightarrow> actor option \<Rightarrow> purchase_request \<Rightarrow> date \<Rightarrow> string \<Rightarrow> nat \<Rightarrow> purchase_order" where
  "new_purchase_order env user q d number pk =
     \<lparr>pu_pk = pk, pu_po_number = number, pu_supplier = sp_pk (uq_supplier q), pu_status = PO_DRAFT,
      pu_order_date = d, pu_expected_date = uq_expected_date q, pu_subtotal_amount = 0, pu_tax_amount = 0,
      pu_total_amount = 0, pu_notes = strip (uq_notes q), pu_issued_at = None, pu_issued_by = None,
      pu_cancelled_reason = '''', pu_cancelled_at = None, pu_cancelled_by = None,
      pu_created_by = actor_pk user, pu_updated_at = now env\<rparr>"

definition create_purchase_order ::
  "env \<Rightarrow> actor option \<Rightarrow> purchase_request \<Rightarrow> 'a purchasing_db_scheme \<Rightarrow>
   error + purchase_order \<times> 'a purchasing_db_scheme" where
  "create_purchase_order env user q db =
     andThen (require_roles user [OWNER]) (\<lambda>_.
     case uq_order_date q of None \<Rightarrow> Inl (ValidationFailed [])
     | Some order_date \<Rightarrow>
     andThen (require (sp_is_active (uq_supplier q)) (invalid ''supplier'' ''INACTIVE'')) (\<lambda>_.
     andThen (require (case uq_expected_date q of None \<Rightarrow> True | Some d \<Rightarrow> \<not> d < order_date)
                (invalid ''expected_date'' ''BEFORE_ORDER_DATE'')) (\<lambda>_.
     let (number, db) = next_po_number db;
         (p, rows) = tb_insert (new_purchase_order env user q order_date number) (db_purchase_orders db) in
     andThen (require (\<not> tb_exists (\<lambda>x. pu_po_number x = number) (db_purchase_orders db))
                (IntegrityError ''purchase_order_po_number'')) (\<lambda>_.
     andThen (po_replace_lines env p (uq_lines q) (db\<lparr>db_purchase_orders := rows\<rparr>)) (\<lambda>(p, db).
     Inr (p, record_audit env A_CREATE ''purchase_order'' (Some (pu_pk p)) user S_WEB None
            (Some (po_audit_state (uq_supplier q) p)) db))))))"

text \<open>The outer option of a keyword says whether it was given.\<close>

definition amended_form :: "env \<Rightarrow> date option option \<Rightarrow> string option \<Rightarrow> purchase_order \<Rightarrow> purchase_order" where
  "amended_form env expected_date notes p =
     (let p = (case expected_date of None \<Rightarrow> p | Some d \<Rightarrow> p\<lparr>pu_expected_date := d\<rparr>);
          p = (case notes of None \<Rightarrow> p | Some n \<Rightarrow> p\<lparr>pu_notes := strip n\<rparr>)
      in p\<lparr>pu_updated_at := now env\<rparr>)"

definition expected_date_ok :: "date option option \<Rightarrow> purchase_order \<Rightarrow> bool" where
  "expected_date_ok expected_date p \<longleftrightarrow>
     (case expected_date of Some (Some d) \<Rightarrow> \<not> d < pu_order_date p | _ \<Rightarrow> True)"

definition save_amended ::
  "env \<Rightarrow> date option option \<Rightarrow> string option \<Rightarrow> purchase_order \<Rightarrow> 'a purchasing_db_scheme \<Rightarrow>
   error + purchase_order \<times> 'a purchasing_db_scheme" where
  "save_amended env expected_date notes p db =
     (if expected_date = None \<and> notes = None then Inr (p, db)
      else save_purchase_order (amended_form env expected_date notes) p db)"

definition amend_purchase_order ::
  "env \<Rightarrow> actor option \<Rightarrow> purchase_order \<Rightarrow> purchase_input list \<Rightarrow> date option option \<Rightarrow> string option \<Rightarrow>
   'a purchasing_db_scheme \<Rightarrow> error + purchase_order \<times> 'a purchasing_db_scheme" where
  "amend_purchase_order env user p inputs expected_date notes db =
     andThen (require_roles user [OWNER]) (\<lambda>_.
     andThen (require (po_is_editable p) (invalid ''status'' ''NOT_EDITABLE'')) (\<lambda>_.
     andThen (po_supplier p db) (\<lambda>s.
     let before = po_audit_state s p in
     andThen (require (expected_date_ok expected_date p) (invalid ''expected_date'' ''BEFORE_ORDER_DATE'')) (\<lambda>_.
     andThen (save_amended env expected_date notes p db) (\<lambda>(p, db).
     andThen (po_replace_lines env p inputs db) (\<lambda>(p, db).
     Inr (p, record_audit env A_UPDATE ''purchase_order'' (Some (pu_pk p)) user S_WEB
            (Some before) (Some (po_audit_state s p)) db)))))))"

definition issue_purchase_order ::
  "env \<Rightarrow> actor option \<Rightarrow> purchase_order \<Rightarrow> 'a purchasing_db_scheme \<Rightarrow>
   error + purchase_order \<times> 'a purchasing_db_scheme" where
  "issue_purchase_order env user p db =
     andThen (require_roles user [OWNER]) (\<lambda>_.
     andThen (require (po_lines (pu_pk p) db \<noteq> []) (invalid ''lines'' ''REQUIRED'')) (\<lambda>_.
     po_transition env user p PO_ISSUED (\<lambda>r. r\<lparr>pu_issued_at := Some (now env), pu_issued_by := actor_pk user\<rparr>)
       [(''po_number'', PStr (pu_po_number p))] db))"

definition cancel_purchase_order ::
  "env \<Rightarrow> actor option \<Rightarrow> purchase_order \<Rightarrow> string \<Rightarrow> 'a purchasing_db_scheme \<Rightarrow>
   error + purchase_order \<times> 'a purchasing_db_scheme" where
  "cancel_purchase_order env user p reason db =
     andThen (require_roles user [OWNER]) (\<lambda>_.
     let reason = strip reason in
     andThen (require (reason \<noteq> '''') (invalid ''reason'' ''REQUIRED'')) (\<lambda>_.
     po_transition env user p PO_CANCELLED (\<lambda>r. r\<lparr>pu_cancelled_reason := reason, pu_cancelled_at := Some (now env),
        pu_cancelled_by := actor_pk user\<rparr>) [(''reason'', PStr reason)] db))"

definition close_purchase_order ::
  "env \<Rightarrow> actor option \<Rightarrow> purchase_order \<Rightarrow> string \<Rightarrow> 'a purchasing_db_scheme \<Rightarrow>
   error + purchase_order \<times> 'a purchasing_db_scheme" where
  "close_purchase_order env user p reason db =
     andThen (require_roles user [OWNER]) (\<lambda>_.
     let reason = strip reason in
     andThen (require (reason \<noteq> '''') (invalid ''reason'' ''REQUIRED'')) (\<lambda>_.
     po_transition env user p PO_CLOSED (\<lambda>r. r) [(''reason'', PStr reason)] db))"


section \<open>Goods receipts\<close>

definition RECEIVABLE_STATUSES :: "purchase_status list" where
  "RECEIVABLE_STATUSES = [PO_ISSUED, PO_PARTIALLY_RECEIVED]"

definition next_grn_number :: "'a purchasing_db_scheme \<Rightarrow> string \<times> 'a purchasing_db_scheme" where
  "next_grn_number db =
     (''GRN-'' @ zero_pad 8 (db_grn_number_seq db), db\<lparr>db_grn_number_seq := Suc (db_grn_number_seq db)\<rparr>)"

definition grn_audit_state :: "supplier \<Rightarrow> purchase_order \<Rightarrow> goods_receipt \<Rightarrow> state" where
  "grn_audit_state s p g =
     [(''grn_number'', PStr (gr_grn_number g)), (''po_number'', PStr (pu_po_number p)),
      (''supplier_code'', PStr (sp_code s)), (''receipt_date'', PStr (date_str (gr_receipt_date g))),
      (''total_amount'', PDec 2 (gr_total_amount g))]"

text \<open>\<open>received_quantities\<close>: the sum per ordered line over every receipt of the order.\<close>

definition receipt_lines_of_order :: "nat \<Rightarrow> 'a purchasing_db_scheme \<Rightarrow> receipt_line list" where
  "receipt_lines_of_order order db =
     (let receipts = map gr_pk (filter (\<lambda>g. gr_purchase_order g = order) (tb_rows (db_goods_receipts db)))
      in filter (\<lambda>l. gl_goods_receipt l \<in> set receipts) (tb_rows (db_receipt_lines db)))"

definition received_quantities :: "nat \<Rightarrow> 'a purchasing_db_scheme \<Rightarrow> (nat \<times> decimal) list" where
  "received_quantities order db =
     (let ls = receipt_lines_of_order order db
      in map (\<lambda>k. (k, to_quantity (sum_where (\<lambda>l. gl_purchase_order_line l = k) gl_quantity_received ls)))
           (remdups (map gl_purchase_order_line ls)))"

definition received_get :: "(nat \<times> decimal) list \<Rightarrow> nat \<Rightarrow> decimal" where
  "received_get received k = (case map_of received k of None \<Rightarrow> 0 | Some q \<Rightarrow> q)"

definition acceptance_limit :: "decimal \<Rightarrow> decimal \<Rightarrow> decimal" where
  "acceptance_limit ordered tolerance_percent = to_quantity (ordered * (100 + tolerance_percent) / 100)"

record receipt_input =
  ri_purchase_order_line :: purchase_line
  ri_quantity_received :: decimal

text \<open>A priced line: the ordered line and the row's own columns.\<close>

record priced_line =
  pc_purchase_order_line :: purchase_line
  pc_quantity_received :: decimal
  pc_taxable_amount :: decimal
  pc_tax_amount :: decimal
  pc_line_total :: decimal

fun price_loop ::
  "nat \<Rightarrow> (nat \<times> decimal) list \<Rightarrow> decimal \<Rightarrow> nat set \<Rightarrow> receipt_input list \<Rightarrow> error + priced_line list" where
  "price_loop order already tolerance seen [] = Inr []"
| "price_loop order already tolerance seen (raw # raws) =
     (let l = ri_purchase_order_line raw in
     andThen (require (ul_purchase_order l = order) (invalid ''purchase_order_line'' ''WRONG_ORDER'')) (\<lambda>_.
     andThen (require (ul_pk l \<notin> seen) (invalid ''purchase_order_line'' ''DUPLICATE_LINE'')) (\<lambda>_.
     let quantity = to_quantity (ri_quantity_received raw) in
     andThen (require (\<not> quantity \<le> 0) (invalid ''quantity_received'' ''MIN_VALUE'')) (\<lambda>_.
     let prior = received_get already (ul_pk l);
         limit = acceptance_limit (ul_quantity_ordered l) tolerance in
     andThen (require (\<not> prior + quantity > limit) (invalid ''quantity_received'' ''OVER_RECEIPT'')) (\<lambda>_.
     let taxable = to_money (ul_unit_cost l * quantity);
         tax = to_money (taxable * ul_tax_rate_percent l / 100) in
     andThen (price_loop order already tolerance (insert (ul_pk l) seen) raws) (\<lambda>priced.
     Inr (\<lparr>pc_purchase_order_line = l, pc_quantity_received = quantity, pc_taxable_amount = taxable,
           pc_tax_amount = tax, pc_line_total = to_money (taxable + tax)\<rparr> # priced)))))))"

definition price_receipt_lines ::
  "nat \<Rightarrow> receipt_input list \<Rightarrow> (nat \<times> decimal) list \<Rightarrow> decimal \<Rightarrow> error + priced_line list" where
  "price_receipt_lines order raws already tolerance =
     andThen (require (raws \<noteq> []) (invalid ''lines'' ''REQUIRED'')) (\<lambda>_.
     price_loop order already tolerance {} raws)"

definition receipt_totals :: "priced_line list \<Rightarrow> decimal \<times> decimal \<times> decimal" where
  "receipt_totals priced =
     (to_money (sum_list (map pc_taxable_amount priced)), to_money (sum_list (map pc_tax_amount priced)),
      to_money (sum_list (map pc_line_total priced)))"

definition grn_constraints :: "goods_receipt \<Rightarrow> bool" where
  "grn_constraints g \<longleftrightarrow> 0 \<le> gr_subtotal_amount g \<and> 0 \<le> gr_tax_amount g \<and> 0 \<le> gr_total_amount g"

definition grn_line_free :: "receipt_line \<Rightarrow> 'a purchasing_db_scheme \<Rightarrow> bool" where
  "grn_line_free l db \<longleftrightarrow> \<not> tb_exists (\<lambda>x. gl_goods_receipt x = gl_goods_receipt l \<and>
     gl_purchase_order_line x = gl_purchase_order_line l) (db_receipt_lines db)"

definition post_receipt_line ::
  "env \<Rightarrow> actor option \<Rightarrow> goods_receipt \<Rightarrow> priced_line \<Rightarrow> 'a purchasing_db_scheme \<Rightarrow> error + 'a purchasing_db_scheme" where
  "post_receipt_line env user g row db =
     (let l = pc_purchase_order_line row in
     case tb_get pr_pk (ul_product l) (db_products db) of
       None \<Rightarrow> Inl (PyError ''Product.DoesNotExist'')
     | Some p \<Rightarrow>
     andThen (receive_stock env user p (pc_quantity_received row) None
                (no_kw\<lparr>kw_document := Some (''GoodsReceipt'', Some (gr_pk g)),
                       kw_notes := gr_grn_number g @ '' line '' @ str_nat (ul_line_number l)\<rparr>) db) (\<lambda>(m, db).
     let (gl, rows) = tb_insert (\<lambda>pk. \<lparr>gl_pk = pk, gl_goods_receipt = gr_pk g, gl_purchase_order_line = ul_pk l,
           gl_quantity_received = pc_quantity_received row, gl_unit_cost = ul_unit_cost l,
           gl_tax_rate_percent = ul_tax_rate_percent l, gl_taxable_amount = pc_taxable_amount row,
           gl_tax_amount = pc_tax_amount row, gl_line_total = pc_line_total row,
           gl_stock_movement = mv_pk m\<rparr>) (db_receipt_lines db) in
     andThen (require (grn_line_free gl db) (IntegrityError ''uq_grn_line'')) (\<lambda>_.
     andThen (require (0 < gl_quantity_received gl) (IntegrityError ''ck_grn_line_quantity_positive'')) (\<lambda>_.
     Inr (db\<lparr>db_receipt_lines := rows\<rparr>)))))"

definition post_receipt_lines ::
  "env \<Rightarrow> actor option \<Rightarrow> goods_receipt \<Rightarrow> priced_line list \<Rightarrow> 'a purchasing_db_scheme \<Rightarrow> error + 'a purchasing_db_scheme" where
  "post_receipt_lines env user g priced db = for_each priced (post_receipt_line env user g) db"

definition settle_order_status ::
  "env \<Rightarrow> actor option \<Rightarrow> purchase_order \<Rightarrow> 'a purchasing_db_scheme \<Rightarrow>
   error + purchase_order \<times> 'a purchasing_db_scheme" where
  "settle_order_status env user p db =
     (let received = received_quantities (pu_pk p) db;
          complete = list_all (\<lambda>l. received_get received (ul_pk l) \<ge> ul_quantity_ordered l) (po_lines (pu_pk p) db)
      in po_transition env user p (if complete then PO_RECEIVED else PO_PARTIALLY_RECEIVED) (\<lambda>r. r) [] db)"

record receipt_request =
  rr_purchase_order :: purchase_order
  rr_receipt_date :: "date option"
  rr_lines :: "receipt_input list"
  rr_supplier_reference :: string
  rr_notes :: string

definition new_goods_receipt ::
  "env \<Rightarrow> actor option \<Rightarrow> receipt_request \<Rightarrow> date \<Rightarrow> priced_line list \<Rightarrow> string \<Rightarrow> nat \<Rightarrow> goods_receipt" where
  "new_goods_receipt env user q d priced number pk =
     (let (subtotal, tax, all) = receipt_totals priced
      in \<lparr>gr_pk = pk, gr_grn_number = number, gr_purchase_order = pu_pk (rr_purchase_order q), gr_receipt_date = d,
          gr_supplier_reference = strip (rr_supplier_reference q), gr_subtotal_amount = subtotal,
          gr_tax_amount = tax, gr_total_amount = all, gr_notes = strip (rr_notes q),
          gr_received_by = actor_pk user, gr_created_at = now env\<rparr>)"

definition insert_goods_receipt ::
  "(nat \<Rightarrow> goods_receipt) \<Rightarrow> 'a purchasing_db_scheme \<Rightarrow> error + goods_receipt \<times> 'a purchasing_db_scheme" where
  "insert_goods_receipt mk db =
     (let (g, rows) = tb_insert mk (db_goods_receipts db)
      in andThen (require (grn_constraints g) (IntegrityError ''ck_grn_totals_non_negative'')) (\<lambda>_.
         andThen (require (\<not> tb_exists (\<lambda>x. gr_grn_number x = gr_grn_number g) (db_goods_receipts db))
                    (IntegrityError ''goods_receipt_grn_number'')) (\<lambda>_.
         Inr (g, db\<lparr>db_goods_receipts := rows\<rparr>))))"

text \<open>The payable; a receipt of free goods raises none.\<close>

definition raise_payable ::
  "env \<Rightarrow> actor option \<Rightarrow> supplier \<Rightarrow> purchase_order \<Rightarrow> goods_receipt \<Rightarrow> 'a ledger_db_scheme \<Rightarrow> error + 'a ledger_db_scheme" where
  "raise_payable env user s p g db =
     (if gr_total_amount g = 0 then Inr db
      else andThen (record_supplier_entry env user (sp_pk s) ''GOODS_RECEIPT'' (gr_total_amount g)
             (gr_grn_number g @ '' against '' @ pu_po_number p) (Some (gr_receipt_date g))
             (Some (''GoodsReceipt'', Some (gr_pk g))) db) (\<lambda>(_, db). Inr db))"

definition create_goods_receipt ::
  "env \<Rightarrow> actor option \<Rightarrow> receipt_request \<Rightarrow> 'a purchasing_db_scheme \<Rightarrow>
   error + (goods_receipt \<times> purchase_order) \<times> 'a purchasing_db_scheme" where
  "create_goods_receipt env user q db =
     andThen (require_roles user [OWNER]) (\<lambda>_.
     let p = rr_purchase_order q in
     case rr_receipt_date q of None \<Rightarrow> Inl (ValidationFailed [])
     | Some receipt_date \<Rightarrow>
     andThen (require (pu_status p \<in> set RECEIVABLE_STATUSES) (invalid ''status'' ''NOT_RECEIVABLE'')) (\<lambda>_.
     andThen (require (\<not> receipt_date < pu_order_date p) (invalid ''receipt_date'' ''BEFORE_ORDER_DATE'')) (\<lambda>_.
     let already = received_quantities (pu_pk p) db;
         (profile, db) = get_business_profile db in
     andThen (price_receipt_lines (pu_pk p) (rr_lines q) already
                (to_percent (bp_over_receipt_tolerance_percent profile))) (\<lambda>priced.
     let (number, db) = next_grn_number db in
     andThen (insert_goods_receipt (new_goods_receipt env user q receipt_date priced number) db) (\<lambda>(g, db).
     andThen (post_receipt_lines env user g priced db) (\<lambda>db.
     andThen (po_supplier p db) (\<lambda>s.
     andThen (raise_payable env user s p g db) (\<lambda>db.
     andThen (settle_order_status env user p db) (\<lambda>(p, db).
     Inr ((g, p), record_audit env A_CREATE ''goods_receipt'' (Some (gr_pk g)) user S_WEB None
            (Some (grn_audit_state s p g)) db))))))))))"

section \<open>What was owed at go-live\<close>

definition existing_opening :: "nat \<Rightarrow> 'a ledger_db_scheme \<Rightarrow> sle option" where
  "existing_opening s db = tb_first (\<lambda>e. se_supplier e = s \<and> se_entry_type e = ''OPENING'') (db_sle db)"

definition duplicate_opening :: error where
  "duplicate_opening = invalid ''supplier'' ''DUPLICATE_OPENING''"

definition load_supplier_opening_balance ::
  "env \<Rightarrow> actor option \<Rightarrow> supplier \<Rightarrow> decimal \<Rightarrow> date option \<Rightarrow> 'a ledger_db_scheme \<Rightarrow>
   error + sle \<times> 'a ledger_db_scheme" where
  "load_supplier_opening_balance env user s amount entry_date db =
     andThen (require_roles user [OWNER]) (\<lambda>_.
     case entry_date of None \<Rightarrow> Inl (invalid ''entry_date'' ''REQUIRED'')
     | Some d \<Rightarrow>
     let amount = to_money amount in
     andThen (require (quantizable amount) (PyError ''InvalidOperation'')) (\<lambda>_.
     andThen (require (amount \<noteq> 0) (invalid ''amount'' ''ZERO'')) (\<lambda>_.
     andThen (require (existing_opening (sp_pk s) db = None) duplicate_opening) (\<lambda>_.
     case record_supplier_entry env user (sp_pk s) ''OPENING'' amount ''Opening balance carried at go-live'' (Some d) None db of
       Inl (IntegrityError c) \<Rightarrow>
         (if existing_opening (sp_pk s) db = None then Inl (IntegrityError c) else Inl duplicate_opening)
     | r \<Rightarrow> r))))"


section \<open>Payments to suppliers\<close>

definition SUPPLIER_METHODS :: "(string \<times> string) list" where
  "SUPPLIER_METHODS = [(''CASH'', ''Cash''), (''UPI'', ''UPI''), (''BANK'', ''Bank transfer''), (''CHEQUE'', ''Cheque'')]"

definition SUPPLIER_PAYMENT_MUTABLE :: "string list" where
  "SUPPLIER_PAYMENT_MUTABLE = [''is_reversed'', ''reversed_reason'', ''reversed_at'', ''reversed_by'']"

definition supplier_payment_constraints :: "supplier_payment \<Rightarrow> bool" where
  "supplier_payment_constraints p \<longleftrightarrow>
     0 < sy_amount p \<and> (sy_is_reversed p \<longrightarrow> sy_reversed_reason p \<noteq> '''') \<and>
     (sy_is_reversed p \<longleftrightarrow> sy_reversed_at p \<noteq> None)"

definition next_supplier_payment_number :: "'a purchasing_db_scheme \<Rightarrow> string \<times> 'a purchasing_db_scheme" where
  "next_supplier_payment_number db =
     (''SPY-'' @ zero_pad 8 (db_spy_number_seq db), db\<lparr>db_spy_number_seq := Suc (db_spy_number_seq db)\<rparr>)"

definition payment_audit_state :: "supplier \<Rightarrow> supplier_payment \<Rightarrow> state" where
  "payment_audit_state s p =
     [(''payment_number'', PStr (sy_payment_number p)), (''supplier_code'', PStr (sp_code s)),
      (''amount'', PDec 2 (sy_amount p)), (''method'', PStr (sy_method p)),
      (''payment_date'', PStr (date_str (sy_payment_date p)))]"

record payment_payload =
  pp_supplier :: nat
  pp_amount :: decimal
  pp_payment_date :: date
  pp_method :: string
  pp_reference_number :: string
  pp_notes :: string

definition payload_of :: "supplier_payment \<Rightarrow> payment_payload" where
  "payload_of p = \<lparr>pp_supplier = sy_supplier p, pp_amount = sy_amount p, pp_payment_date = sy_payment_date p,
     pp_method = sy_method p, pp_reference_number = sy_reference_number p, pp_notes = sy_notes p\<rparr>"

text \<open>The fields whose values differ, in the order \<^verbatim>\<open>sorted\<close> puts their names.\<close>

definition payload_differences :: "payment_payload \<Rightarrow> payment_payload \<Rightarrow> string list" where
  "payload_differences a b =
     (if pp_amount a \<noteq> pp_amount b then [''amount''] else []) @
     (if pp_method a \<noteq> pp_method b then [''method''] else []) @
     (if pp_notes a \<noteq> pp_notes b then [''notes''] else []) @
     (if pp_payment_date a \<noteq> pp_payment_date b then [''payment_date''] else []) @
     (if pp_reference_number a \<noteq> pp_reference_number b then [''reference_number''] else []) @
     (if pp_supplier a \<noteq> pp_supplier b then [''supplier_id''] else [])"

definition replayed_payment :: "supplier_payment \<Rightarrow> payment_payload \<Rightarrow> error + supplier_payment" where
  "replayed_payment existing payload =
     (if payload_differences (payload_of existing) payload = [] then Inr existing
      else Inl (invalid ''submission_id'' ''SUBMISSION_REPLAYED_WITH_CHANGES''))"

record supplier_payment_request =
  yq_supplier :: supplier
  yq_submission_id :: string
  yq_amount :: decimal
  yq_method :: string
  yq_payment_date :: "date option"
  yq_reference_number :: string
  yq_notes :: string

definition new_supplier_payment ::
  "env \<Rightarrow> actor option \<Rightarrow> string \<Rightarrow> payment_payload \<Rightarrow> string \<Rightarrow> nat \<Rightarrow> supplier_payment" where
  "new_supplier_payment env user submission payload number pk =
     \<lparr>sy_pk = pk, sy_submission_id = submission, sy_payment_number = number, sy_supplier = pp_supplier payload,
      sy_amount = pp_amount payload, sy_method = pp_method payload,
      sy_reference_number = pp_reference_number payload, sy_payment_date = pp_payment_date payload,
      sy_notes = pp_notes payload, sy_paid_by = actor_pk user, sy_created_at = now env,
      sy_is_reversed = False, sy_reversed_reason = '''', sy_reversed_at = None, sy_reversed_by = None\<rparr>"

definition insert_supplier_payment ::
  "(nat \<Rightarrow> supplier_payment) \<Rightarrow> 'a purchasing_db_scheme \<Rightarrow> error + supplier_payment \<times> 'a purchasing_db_scheme" where
  "insert_supplier_payment mk db =
     (let (p, rows) = tb_insert mk (db_supplier_payments db)
      in andThen (require (supplier_payment_constraints p) (IntegrityError ''supplier_payment'')) (\<lambda>_.
         andThen (require (\<not> tb_exists (\<lambda>x. sy_payment_number x = sy_payment_number p) (db_supplier_payments db))
                    (IntegrityError ''supplier_payment_payment_number'')) (\<lambda>_.
         andThen (require (\<not> tb_exists (\<lambda>x. sy_submission_id x = sy_submission_id p) (db_supplier_payments db))
                    (IntegrityError ''supplier_payment_submission_id'')) (\<lambda>_.
         Inr (p, db\<lparr>db_supplier_payments := rows\<rparr>)))))"

definition find_submission :: "string \<Rightarrow> 'a purchasing_db_scheme \<Rightarrow> supplier_payment option" where
  "find_submission sid db = tb_first (\<lambda>p. sy_submission_id p = sid) (db_supplier_payments db)"

definition supplier_method_display :: "string \<Rightarrow> string" where
  "supplier_method_display m = (case map_of SUPPLIER_METHODS m of None \<Rightarrow> m | Some label \<Rightarrow> label)"

definition request_payload :: "supplier_payment_request \<Rightarrow> decimal \<Rightarrow> date \<Rightarrow> payment_payload" where
  "request_payload q amount d =
     \<lparr>pp_supplier = sp_pk (yq_supplier q), pp_amount = amount, pp_payment_date = d, pp_method = yq_method q,
      pp_reference_number = take 100 (strip (yq_reference_number q)), pp_notes = strip (yq_notes q)\<rparr>"

definition record_supplier_payment ::
  "env \<Rightarrow> actor option \<Rightarrow> supplier_payment_request \<Rightarrow> 'a purchasing_db_scheme \<Rightarrow>
   error + supplier_payment \<times> 'a purchasing_db_scheme" where
  "record_supplier_payment env user q db =
     andThen (require_roles user [OWNER]) (\<lambda>_.
     andThen (require (yq_submission_id q \<noteq> '''') (invalid ''submission_id'' ''REQUIRED'')) (\<lambda>_.
     case yq_payment_date q of None \<Rightarrow> Inl (invalid ''payment_date'' ''REQUIRED'')
     | Some d \<Rightarrow>
     andThen (require (map_of SUPPLIER_METHODS (yq_method q) \<noteq> None) (invalid ''method'' ''INVALID'')) (\<lambda>_.
     let amount = to_money (yq_amount q) in
     andThen (require (\<not> amount \<le> 0) (invalid ''amount'' ''MIN_VALUE'')) (\<lambda>_.
     let payload = request_payload q amount d in
     case find_submission (yq_submission_id q) db of
       Some existing \<Rightarrow> andThen (replayed_payment existing payload) (\<lambda>p. Inr (p, db))
     | None \<Rightarrow>
     let (number, db1) = next_supplier_payment_number db in
     case insert_supplier_payment (new_supplier_payment env user (yq_submission_id q) payload number) db1 of
       Inl e \<Rightarrow>
         (case find_submission (yq_submission_id q) db of None \<Rightarrow> Inl e
          | Some existing \<Rightarrow> andThen (replayed_payment existing payload) (\<lambda>p. Inr (p, db)))
     | Inr (p, db2) \<Rightarrow>
         andThen (record_supplier_entry env user (sp_pk (yq_supplier q)) ''PAYMENT'' (- amount)
                    (''Payment '' @ sy_payment_number p @ '' ('' @ supplier_method_display (sy_method p) @ '')'') (Some d)
                    (Some (''SupplierPayment'', Some (sy_pk p))) db2) (\<lambda>(_, db3).
         Inr (p, record_audit env A_CREATE ''supplier_payment'' (Some (sy_pk p)) user S_WEB None
                (Some (payment_audit_state (yq_supplier q) p)) db3))))))"

definition reversed_supplier_form :: "env \<Rightarrow> actor option \<Rightarrow> string \<Rightarrow> supplier_payment \<Rightarrow> supplier_payment" where
  "reversed_supplier_form env user reason p = p\<lparr>sy_is_reversed := True, sy_reversed_reason := reason,
     sy_reversed_at := Some (now env), sy_reversed_by := actor_pk user\<rparr>"

definition save_supplier_payment ::
  "string list \<Rightarrow> (supplier_payment \<Rightarrow> supplier_payment) \<Rightarrow> supplier_payment \<Rightarrow> 'a purchasing_db_scheme \<Rightarrow>
   error + supplier_payment \<times> 'a purchasing_db_scheme" where
  "save_supplier_payment update_fields f p db =
     andThen (document_save ''supplier_payment'' SUPPLIER_PAYMENT_MUTABLE update_fields) (\<lambda>_.
     andThen (require (supplier_payment_constraints (f p)) (IntegrityError ''supplier_payment'')) (\<lambda>_.
     Inr (f p, db\<lparr>db_supplier_payments := tb_update sy_pk (sy_pk p) f (db_supplier_payments db)\<rparr>)))"

definition reverse_supplier_payment ::
  "env \<Rightarrow> actor option \<Rightarrow> nat \<Rightarrow> string \<Rightarrow> date option \<Rightarrow> 'a purchasing_db_scheme \<Rightarrow>
   error + supplier_payment \<times> 'a purchasing_db_scheme" where
  "reverse_supplier_payment env user pk reason reversal_date db =
     andThen (require_roles user [OWNER]) (\<lambda>_.
     let reason = strip reason in
     andThen (require (reason \<noteq> '''') (invalid ''reason'' ''REQUIRED'')) (\<lambda>_.
     case reversal_date of None \<Rightarrow> Inl (invalid ''reversal_date'' ''REQUIRED'')
     | Some d \<Rightarrow>
     case tb_get sy_pk pk (db_supplier_payments db) of
       None \<Rightarrow> Inl ResourceNotFound
     | Some locked \<Rightarrow>
     if sy_is_reversed locked then Inr (locked, db)
     else
     case tb_get sp_pk (sy_supplier locked) (db_suppliers db) of
       None \<Rightarrow> Inl (PyError ''Supplier.DoesNotExist'')
     | Some s \<Rightarrow>
     andThen (record_supplier_entry env user (sp_pk s) ''ADJUSTMENT'' (sy_amount locked)
                (''Reversal of payment '' @ sy_payment_number locked) (Some d)
                (Some (''SupplierPayment'', Some (sy_pk locked))) db) (\<lambda>(_, db).
     andThen (save_supplier_payment [''is_reversed'', ''reversed_reason'', ''reversed_at'', ''reversed_by'']
                (reversed_supplier_form env user reason) locked db) (\<lambda>(locked, db).
     Inr (locked, record_audit env A_PAYMENT_REVERSE ''supplier_payment'' (Some (sy_pk locked)) user S_WEB
            (Some [(''is_reversed'', PBool False)])
            (Some (payment_audit_state s locked @ [(''reason'', PStr reason)])) db)))))"


section \<open>Selectors\<close>

definition active_suppliers :: "'a purchasing_db_scheme \<Rightarrow> supplier list" where
  "active_suppliers db = sort_key sp_name (filter sp_is_active (tb_rows (db_suppliers db)))"

definition search_suppliers :: "string \<Rightarrow> bool option \<Rightarrow> 'a purchasing_db_scheme \<Rightarrow> supplier list" where
  "search_suppliers term is_active db =
     sort_key sp_name (filter (\<lambda>s. (term = '''' \<or> icontains term (sp_name s) \<or> icontains term (sp_code s)) \<and>
        (case is_active of None \<Rightarrow> True | Some b \<Rightarrow> sp_is_active s = b)) (tb_rows (db_suppliers db)))"

definition supplier_name :: "nat \<Rightarrow> 'a purchasing_db_scheme \<Rightarrow> string" where
  "supplier_name k db = (case tb_get sp_pk k (db_suppliers db) of None \<Rightarrow> '''' | Some s \<Rightarrow> sp_name s)"

definition products_for_supplier :: "nat \<Rightarrow> 'a purchasing_db_scheme \<Rightarrow> product_supplier list" where
  "products_for_supplier s db =
     sort_key (\<lambda>l. case tb_get pr_pk (ps_product l) (db_products db) of None \<Rightarrow> '''' | Some p \<Rightarrow> pr_name p)
       (filter (\<lambda>l. ps_supplier l = s) (tb_rows (db_product_suppliers db)))"

definition suppliers_for_product :: "nat \<Rightarrow> 'a purchasing_db_scheme \<Rightarrow> product_supplier list" where
  "suppliers_for_product p db =
     sort_key (\<lambda>l. (\<not> ps_is_preferred l, supplier_name (ps_supplier l) db))
       (filter (\<lambda>l. ps_product l = p) (tb_rows (db_product_suppliers db)))"

definition search_purchase_orders ::
  "string \<Rightarrow> purchase_status option \<Rightarrow> nat option \<Rightarrow> 'a purchasing_db_scheme \<Rightarrow> purchase_order list" where
  "search_purchase_orders term status supplier db =
     rev (sort_key (\<lambda>p. (pu_order_date p, pu_pk p))
       (filter (\<lambda>p. (term = '''' \<or> icontains term (pu_po_number p) \<or> icontains term (supplier_name (pu_supplier p) db)) \<and>
          (case status of None \<Rightarrow> True | Some s \<Rightarrow> pu_status p = s) \<and>
          (case supplier of None \<Rightarrow> True | Some s \<Rightarrow> pu_supplier p = s)) (tb_rows (db_purchase_orders db))))"

definition receipt_order :: "goods_receipt \<Rightarrow> 'a purchasing_db_scheme \<Rightarrow> purchase_order option" where
  "receipt_order g db = tb_get pu_pk (gr_purchase_order g) (db_purchase_orders db)"

definition search_goods_receipts ::
  "string \<Rightarrow> nat option \<Rightarrow> nat option \<Rightarrow> 'a purchasing_db_scheme \<Rightarrow> goods_receipt list" where
  "search_goods_receipts term supplier order db =
     rev (sort_key (\<lambda>g. (gr_receipt_date g, gr_pk g))
       (filter (\<lambda>g. (term = '''' \<or> icontains term (gr_grn_number g) \<or> icontains term (gr_supplier_reference g) \<or>
            (case receipt_order g db of None \<Rightarrow> False | Some p \<Rightarrow> icontains term (pu_po_number p))) \<and>
          (case supplier of None \<Rightarrow> True
           | Some s \<Rightarrow> (case receipt_order g db of None \<Rightarrow> False | Some p \<Rightarrow> pu_supplier p = s)) \<and>
          (case order of None \<Rightarrow> True | Some k \<Rightarrow> gr_purchase_order g = k)) (tb_rows (db_goods_receipts db))))"

definition receipt_lines_for :: "nat \<Rightarrow> 'a purchasing_db_scheme \<Rightarrow> receipt_line list" where
  "receipt_lines_for receipt db =
     sort_key (\<lambda>l. case tb_get ul_pk (gl_purchase_order_line l) (db_purchase_lines db) of None \<Rightarrow> 0 | Some u \<Rightarrow> ul_line_number u)
       (filter (\<lambda>l. gl_goods_receipt l = receipt) (tb_rows (db_receipt_lines db)))"

definition receipts_for :: "nat \<Rightarrow> 'a purchasing_db_scheme \<Rightarrow> goods_receipt list" where
  "receipts_for order db =
     sort_key (\<lambda>g. (gr_receipt_date g, gr_pk g))
       (filter (\<lambda>g. gr_purchase_order g = order) (tb_rows (db_goods_receipts db)))"

definition outstanding_lines :: "nat \<Rightarrow> 'a purchasing_db_scheme \<Rightarrow> (purchase_line \<times> decimal \<times> decimal) list" where
  "outstanding_lines order db =
     (let received = received_quantities order db
      in map (\<lambda>l. (l, received_get received (ul_pk l), to_quantity (ul_quantity_ordered l - received_get received (ul_pk l))))
           (po_lines order db))"

definition supplier_policy :: walk_policy where
  "supplier_policy = \<lparr>wp_adjustment_type = ''ADJUSTMENT'', wp_annullable_source_types = [''GOODS_RECEIPT'', ''PAYMENT''],
     wp_reducing_type = ''DEBIT_NOTE'', wp_target_type = ''GOODS_RECEIPT''\<rparr>"

definition sle_row :: "sle \<Rightarrow> ledger_row" where
  "sle_row e = \<lparr>lr_pk = se_pk e, lr_entry_date = se_entry_date e, lr_entry_type = se_entry_type e,
     lr_amount = se_amount e, lr_narration = se_narration e, lr_source_type = se_source_type e,
     lr_source_id = se_source_id e\<rparr>"

definition supplier_entries_as_of :: "nat \<Rightarrow> date \<Rightarrow> 'a ledger_db_scheme \<Rightarrow> sle list" where
  "supplier_entries_as_of s on db =
     sort_key (\<lambda>e. (se_entry_date e, se_pk e))
       (filter (\<lambda>e. se_supplier e = s \<and> se_entry_date e \<le> on) (tb_rows (db_sle db)))"

definition supplier_position :: "env \<Rightarrow> nat \<Rightarrow> date option \<Rightarrow> 'a ledger_db_scheme \<Rightarrow> position" where
  "supplier_position env s as_of db =
     (let on = (case as_of of None \<Rightarrow> today env | Some d \<Rightarrow> d)
      in walk s on (map sle_row (supplier_entries_as_of s on db)) [] supplier_policy)"

definition search_supplier_payments ::
  "string \<Rightarrow> nat option \<Rightarrow> string \<Rightarrow> 'a purchasing_db_scheme \<Rightarrow> supplier_payment list" where
  "search_supplier_payments term supplier met db =
     rev (sort_key (\<lambda>p. (sy_payment_date p, sy_pk p))
       (filter (\<lambda>p. (term = '''' \<or> icontains term (sy_payment_number p) \<or> icontains term (sy_reference_number p) \<or>
            icontains term (supplier_name (sy_supplier p) db)) \<and>
          (case supplier of None \<Rightarrow> True | Some s \<Rightarrow> sy_supplier p = s) \<and>
          (met = '''' \<or> sy_method p = met)) (tb_rows (db_supplier_payments db))))"

definition get_supplier_payment :: "nat \<Rightarrow> 'a purchasing_db_scheme \<Rightarrow> supplier_payment option" where
  "get_supplier_payment pk db = tb_get sy_pk pk (db_supplier_payments db)"

end
