(* ===== verification/Receiving.thy ===== *)
theory Receiving
  imports Purchasing
begin

text \<open>
  Purchase orders and goods receipts: what a successful call of each service does, stage by stage,
  and the invariant every step of purchasing keeps.  Goods arrived for an order exactly when its
  status says so, no ordered line received more than the tolerance allows, and a RECEIVED order
  received everything it ordered.
\<close>


section \<open>Pricing a receipt\<close>

definition priced_ok :: "nat \<Rightarrow> (nat \<times> decimal) list \<Rightarrow> decimal \<Rightarrow> priced_line \<Rightarrow> bool" where
  "priced_ok order already tolerance c \<longleftrightarrow>
     (let l = pc_purchase_order_line c; q = pc_quantity_received c in
      ul_purchase_order l = order \<and> 0 < q \<and> is_quantity q \<and>
      received_get already (ul_pk l) + q \<le> acceptance_limit (ul_quantity_ordered l) tolerance \<and>
      pc_taxable_amount c = to_money (ul_unit_cost l * q) \<and>
      pc_tax_amount c = to_money (pc_taxable_amount c * ul_tax_rate_percent l / 100) \<and>
      pc_line_total c = pc_taxable_amount c + pc_tax_amount c)"

lemma price_loopD:
  "price_loop order already tol seen raws = Inr priced \<Longrightarrow>
   map pc_purchase_order_line priced = map ri_purchase_order_line raws \<and>
   map pc_quantity_received priced = map (to_quantity \<circ> ri_quantity_received) raws \<and>
   distinct (map (ul_pk \<circ> pc_purchase_order_line) priced) \<and>
   (\<forall>c \<in> set priced. ul_pk (pc_purchase_order_line c) \<notin> seen \<and> priced_ok order already tol c)"
proof (induction raws arbitrary: seen priced)
  case (Cons raw raws)
  let ?l = "ri_purchase_order_line raw" and ?q = "to_quantity (ri_quantity_received raw)"
  let ?x = "to_money (ul_unit_cost ?l * ?q)"
  let ?y = "to_money (?x * ul_tax_rate_percent ?l / 100)"
  let ?c = "\<lparr>pc_purchase_order_line = ?l, pc_quantity_received = ?q, pc_taxable_amount = ?x,
      pc_tax_amount = ?y, pc_line_total = to_money (?x + ?y)\<rparr>"
  obtain rest where rest: "price_loop order already tol (insert (ul_pk ?l) seen) raws = Inr rest"
    and priced: "priced = ?c # rest"
    and head: "ul_purchase_order ?l = order" "ul_pk ?l \<notin> seen" "\<not> ?q \<le> 0"
      "\<not> received_get already (ul_pk ?l) + ?q > acceptance_limit (ul_quantity_ordered ?l) tol"
    using Cons.prems by (auto simp: Let_def result_simps split: if_splits)
  have "to_money (?x + ?y) = ?x + ?y" by simp
  then have "priced_ok order already tol ?c" using head by (simp add: priced_ok_def Let_def)
  then show ?case using Cons.IH [OF rest] head(2) by (auto simp: priced)
qed simp

lemma price_receipt_linesD:
  assumes "price_receipt_lines order raws already tol = Inr priced"
  shows "map pc_purchase_order_line priced = map ri_purchase_order_line raws"
    "map pc_quantity_received priced = map (to_quantity \<circ> ri_quantity_received) raws"
    "distinct (map (ul_pk \<circ> pc_purchase_order_line) priced)"
    "\<forall>c \<in> set priced. priced_ok order already tol c" "priced \<noteq> []"
  using price_loopD [of order already tol "{}" raws priced] assms
  by (auto simp: price_receipt_lines_def split: if_splits)

lemma priced_money:
  assumes "\<forall>c \<in> set priced. priced_ok order already tol c"
  shows "receipt_totals priced =
    (sum_list (map pc_taxable_amount priced), sum_list (map pc_tax_amount priced), sum_list (map pc_line_total priced))"
    "sum_list (map pc_line_total priced) = sum_list (map pc_taxable_amount priced) + sum_list (map pc_tax_amount priced)"
proof -
  have "is_money (sum_list (map pc_taxable_amount priced)) \<and> is_money (sum_list (map pc_tax_amount priced)) \<and>
      is_money (sum_list (map pc_line_total priced)) \<and>
      sum_list (map pc_line_total priced) = sum_list (map pc_taxable_amount priced) + sum_list (map pc_tax_amount priced)"
    using assms by (induction priced) (auto simp: priced_ok_def Let_def)
  then show "receipt_totals priced =
    (sum_list (map pc_taxable_amount priced), sum_list (map pc_tax_amount priced), sum_list (map pc_line_total priced))"
    "sum_list (map pc_line_total priced) = sum_list (map pc_taxable_amount priced) + sum_list (map pc_tax_amount priced)"
    by (auto simp: receipt_totals_def)
qed


section \<open>Posting a receipt\<close>

text \<open>What one received line leaves behind: a movement and a row that point at each other's document.\<close>

definition posted :: "goods_receipt \<Rightarrow> priced_line \<Rightarrow> movement \<Rightarrow> receipt_line \<Rightarrow> bool" where
  "posted g c m l \<longleftrightarrow>
     mv_product m = ul_product (pc_purchase_order_line c) \<and> mv_quantity m = pc_quantity_received c \<and>
     mv_movement_type m = ''RECEIPT'' \<and> mv_source_type m = ''GOODS_RECEIPT'' \<and> mv_source_id m = Some (gr_pk g) \<and>
     gl_goods_receipt l = gr_pk g \<and> gl_purchase_order_line l = ul_pk (pc_purchase_order_line c) \<and>
     gl_quantity_received l = pc_quantity_received c \<and> gl_unit_cost l = ul_unit_cost (pc_purchase_order_line c) \<and>
     gl_line_total l = pc_line_total c \<and> gl_stock_movement l = mv_pk m"

lemma post_receipt_lineD:
  assumes "post_receipt_line env user g c db = Inr db'" "0 < pc_quantity_received c" "is_quantity (pc_quantity_received c)"
  obtains m l lots ms ls where "posted g c m l" "has_role user [OWNER]"
    "db' = db\<lparr>db_lots := lots, db_movements := ms, db_receipt_lines := ls\<rparr>"
    "tb_rows ms = tb_rows (db_movements db) @ [m]" "mv_pk m = tb_seq (db_movements db)"
    "tb_seq ms = Suc (tb_seq (db_movements db))"
    "tb_rows ls = tb_rows (db_receipt_lines db) @ [l]" "gl_pk l = tb_seq (db_receipt_lines db)"
    "tb_seq ls = Suc (tb_seq (db_receipt_lines db))"
proof -
  let ?u = "pc_purchase_order_line c"
  let ?kw = "no_kw\<lparr>kw_document := Some (''GoodsReceipt'', Some (gr_pk g)),
                       kw_notes := gr_grn_number g @ '' line '' @ str_nat (ul_line_number ?u)\<rparr>"
  obtain p where p: "tb_get pr_pk (ul_product ?u) (db_products db) = Some p"
    using assms(1) by (auto simp: post_receipt_line_def Let_def split: option.splits)
  obtain m db1 where m: "receive_stock env user p (pc_quantity_received c) None ?kw db = Inr (m, db1)"
    and rest: "(let (gl, rows) = tb_insert (\<lambda>pk. \<lparr>gl_pk = pk, gl_goods_receipt = gr_pk g, gl_purchase_order_line = ul_pk ?u,
           gl_quantity_received = pc_quantity_received c, gl_unit_cost = ul_unit_cost ?u,
           gl_tax_rate_percent = ul_tax_rate_percent ?u, gl_taxable_amount = pc_taxable_amount c,
           gl_tax_amount = pc_tax_amount c, gl_line_total = pc_line_total c,
           gl_stock_movement = mv_pk m\<rparr>) (db_receipt_lines db1) in
     andThen (require (grn_line_free gl db1) (IntegrityError ''uq_grn_line'')) (\<lambda>_.
     andThen (require (0 < gl_quantity_received gl) (IntegrityError ''ck_grn_line_quantity_positive'')) (\<lambda>_.
     Inr (db1\<lparr>db_receipt_lines := rows\<rparr>)))) = Inr db'"
    using assms(1) p by (auto simp: post_receipt_line_def Let_def andThen_Inr_iff [of "receive_stock _ _ _ _ _ _ _"])
  have q: "\<bar>to_quantity (pc_quantity_received c)\<bar> = pc_quantity_received c" using assms(2,3) by simp
  have r: "record_movement env user p (pc_quantity_received c) ''RECEIPT'' None ?kw db = Inr (m, db1)" "has_role user [OWNER]"
    using m by (auto simp: receive_stock_def q split: if_splits)
  note M = record_movementD [OF r(1)]
  obtain lots ms where db1: "db1 = db\<lparr>db_lots := lots, db_movements := ms\<rparr>"
    using record_movement_frame [OF r(1)] by auto
  let ?l = "\<lparr>gl_pk = tb_seq (db_receipt_lines db), gl_goods_receipt = gr_pk g, gl_purchase_order_line = ul_pk ?u,
           gl_quantity_received = pc_quantity_received c, gl_unit_cost = ul_unit_cost ?u,
           gl_tax_rate_percent = ul_tax_rate_percent ?u, gl_taxable_amount = pc_taxable_amount c,
           gl_tax_amount = pc_tax_amount c, gl_line_total = pc_line_total c, gl_stock_movement = mv_pk m\<rparr>"
  have db': "db' = db\<lparr>db_lots := lots, db_movements := ms, db_receipt_lines :=
      (db_receipt_lines db)\<lparr>tb_seq := Suc (tb_seq (db_receipt_lines db)), tb_rows := tb_rows (db_receipt_lines db) @ [?l]\<rparr>\<rparr>"
    using rest by (simp add: tb_insert_def Let_def db1 split: if_splits)
  have ms: "tb_rows ms = tb_rows (db_movements db) @ [m]" "tb_seq ms = Suc (tb_seq (db_movements db))"
    using M(1,2) by (simp_all add: db1)
  have src: "mv_source_type m = ''GOODS_RECEIPT''" "mv_source_id m = Some (gr_pk g)"
    using M(10) by (simp_all add: resolve_source_def STOCK_DOCUMENT_REGISTRY_def no_kw_def)
  have pk: "pr_pk p = ul_product ?u" using tb_getD [OF p] by blast
  have "posted g c m ?l" using M(4,5,6) src pk assms(3) by (simp add: posted_def)
  from that [OF this r(2) db' ms(1) M(3) ms(2)] show ?thesis by simp
qed

lemma post_receipt_linesD:
  assumes "post_receipt_lines env user g priced db = Inr db'"
    "\<forall>c \<in> set priced. 0 < pc_quantity_received c \<and> is_quantity (pc_quantity_received c)"
  obtains ts lots ms ls where "map fst ts = priced" "\<forall>(c, m, l) \<in> set ts. posted g c m l"
    "db' = db\<lparr>db_lots := lots, db_movements := ms, db_receipt_lines := ls\<rparr>"
    "tb_rows ms = tb_rows (db_movements db) @ map (\<lambda>(c, m, l). m) ts"
    "tb_rows ls = tb_rows (db_receipt_lines db) @ map (\<lambda>(c, m, l). l) ts"
    "table_wf mv_pk (db_movements db) \<longrightarrow> table_wf mv_pk ms"
    "table_wf gl_pk (db_receipt_lines db) \<longrightarrow> table_wf gl_pk ls"
proof -
  have "\<exists>ts lots ms ls. map fst ts = priced \<and> (\<forall>(c, m, l) \<in> set ts. posted g c m l) \<and>
    db' = db\<lparr>db_lots := lots, db_movements := ms, db_receipt_lines := ls\<rparr> \<and>
    tb_rows ms = tb_rows (db_movements db) @ map (\<lambda>(c, m, l). m) ts \<and>
    tb_rows ls = tb_rows (db_receipt_lines db) @ map (\<lambda>(c, m, l). l) ts \<and>
    (table_wf mv_pk (db_movements db) \<longrightarrow> table_wf mv_pk ms) \<and>
    (table_wf gl_pk (db_receipt_lines db) \<longrightarrow> table_wf gl_pk ls)"
    using assms
  proof (induction priced arbitrary: db)
    case Nil
    then have "db' = db\<lparr>db_lots := db_lots db, db_movements := db_movements db, db_receipt_lines := db_receipt_lines db\<rparr>"
      by (simp add: post_receipt_lines_def)
    then show ?case by (intro exI [of _ "[]"] exI [of _ "db_lots db"] exI [of _ "db_movements db"] exI [of _ "db_receipt_lines db"]) simp
  next
    case (Cons c cs)
    obtain db1 where db1: "post_receipt_line env user g c db = Inr db1" "post_receipt_lines env user g cs db1 = Inr db'"
      using Cons.prems(1) by (auto simp: post_receipt_lines_def andThen_Inr_iff)
    have c: "0 < pc_quantity_received c" "is_quantity (pc_quantity_received c)" using Cons.prems(2) by simp_all
    obtain m l lots1 ms1 ls1 where one: "posted g c m l"
      "db1 = db\<lparr>db_lots := lots1, db_movements := ms1, db_receipt_lines := ls1\<rparr>"
      "tb_rows ms1 = tb_rows (db_movements db) @ [m]" "mv_pk m = tb_seq (db_movements db)"
      "tb_seq ms1 = Suc (tb_seq (db_movements db))"
      "tb_rows ls1 = tb_rows (db_receipt_lines db) @ [l]" "gl_pk l = tb_seq (db_receipt_lines db)"
      "tb_seq ls1 = Suc (tb_seq (db_receipt_lines db))"
      by (rule post_receipt_lineD [OF db1(1) c])
    obtain ts lots ms ls where IH: "map fst ts = cs" "\<forall>(c, m, l) \<in> set ts. posted g c m l"
      "db' = db1\<lparr>db_lots := lots, db_movements := ms, db_receipt_lines := ls\<rparr>"
      "tb_rows ms = tb_rows (db_movements db1) @ map (\<lambda>(c, m, l). m) ts"
      "tb_rows ls = tb_rows (db_receipt_lines db1) @ map (\<lambda>(c, m, l). l) ts"
      "table_wf mv_pk (db_movements db1) \<longrightarrow> table_wf mv_pk ms"
      "table_wf gl_pk (db_receipt_lines db1) \<longrightarrow> table_wf gl_pk ls"
      using Cons.IH [OF db1(2)] Cons.prems(2) by (auto simp del: split_paired_Ex)
    have wf: "table_wf mv_pk (db_movements db) \<longrightarrow> table_wf mv_pk ms1"
      "table_wf gl_pk (db_receipt_lines db) \<longrightarrow> table_wf gl_pk ls1"
      using table_wf_append [where key = mv_pk, OF _ one(3,5,4)] table_wf_append [where key = gl_pk, OF _ one(6,8,7)]
      by blast+
    show ?case
      by (intro exI [of _ "(c, m, l) # ts"] exI [of _ lots] exI [of _ ms] exI [of _ ls])
        (use IH wf one(1,3,6) in \<open>simp add: one(2)\<close>)
  qed
  then show ?thesis using that by blast
qed

section \<open>A goods receipt\<close>

lemma record_audit_eq: "\<exists>a. record_audit env act et ei u s b c db = db\<lparr>db_audit := a\<rparr>"
  by (auto simp: record_audit_def record_audit_from_def)

definition to_status :: "env \<Rightarrow> purchase_status \<Rightarrow> (purchase_order \<Rightarrow> purchase_order) \<Rightarrow> purchase_order \<Rightarrow> purchase_order" where
  "to_status env to extra r = (extra r)\<lparr>pu_status := to, pu_updated_at := now env\<rparr>"

lemma po_transitionD:
  assumes "po_transition env user p to extra note db = Inr (p', db')"
  obtains au where "to \<in> set (PO_TRANSITIONS (pu_status p))" "p' = to_status env to extra p"
    "list_all (\<lambda>r. pu_pk r = pu_pk p \<longrightarrow> po_constraints (to_status env to extra r)) (tb_rows (db_purchase_orders db))"
    "db' = db\<lparr>db_purchase_orders := tb_update pu_pk (pu_pk p) (to_status env to extra) (db_purchase_orders db), db_audit := au\<rparr>"
proof -
  let ?f = "\<lambda>r. (extra r)\<lparr>pu_status := to, pu_updated_at := now env\<rparr>"
  have f: "?f = to_status env to extra" by (simp add: to_status_def fun_eq_iff)
  have a: "to \<in> set (PO_TRANSITIONS (pu_status p))" "p' = to_status env to extra p"
    "list_all (\<lambda>r. pu_pk r = pu_pk p \<longrightarrow> po_constraints (to_status env to extra r)) (tb_rows (db_purchase_orders db))"
    using assms unfolding po_transition_def Let_def f
    by (auto simp: save_purchase_order_def split: if_splits)
  obtain act st nt where "db' = record_audit env act ''purchase_order'' (Some (pu_pk p')) user S_WEB st nt
      (db\<lparr>db_purchase_orders := tb_update pu_pk (pu_pk p) (to_status env to extra) (db_purchase_orders db)\<rparr>)"
    using assms unfolding po_transition_def Let_def f
    by (auto simp: save_purchase_order_def split: if_splits)
  then show ?thesis using that [OF a] by (auto simp: record_audit_def record_audit_from_def)
qed

definition fully_received :: "nat \<Rightarrow> 'a purchasing_db_scheme \<Rightarrow> bool" where
  "fully_received order db \<longleftrightarrow>
     list_all (\<lambda>l. ul_quantity_ordered l \<le> received_get (received_quantities order db) (ul_pk l)) (po_lines order db)"

lemma settle_order_statusD:
  assumes "settle_order_status env user p db = Inr (p', db')"
  obtains au st where "st = (if fully_received (pu_pk p) db then PO_RECEIVED else PO_PARTIALLY_RECEIVED)"
    "st \<in> set (PO_TRANSITIONS (pu_status p))" "p' = to_status env st id p"
    "db' = db\<lparr>db_purchase_orders := tb_update pu_pk (pu_pk p) (to_status env st id) (db_purchase_orders db), db_audit := au\<rparr>"
proof -
  have i: "(\<lambda>r :: purchase_order. r) = id" by (simp add: fun_eq_iff)
  let ?st = "if fully_received (pu_pk p) db then PO_RECEIVED else PO_PARTIALLY_RECEIVED"
  have "po_transition env user p ?st id [] db = Inr (p', db')"
    using assms by (simp add: settle_order_status_def Let_def fully_received_def i)
  then obtain au where "?st \<in> set (PO_TRANSITIONS (pu_status p))" "p' = to_status env ?st id p"
    "db' = db\<lparr>db_purchase_orders := tb_update pu_pk (pu_pk p) (to_status env ?st id) (db_purchase_orders db), db_audit := au\<rparr>"
    by (rule po_transitionD)
  then show ?thesis by (rule that [OF refl])
qed

text \<open>The entries a receipt writes: one for its total, none when it is worth nothing.\<close>

definition receipt_entries :: "goods_receipt \<Rightarrow> nat \<Rightarrow> sle list \<Rightarrow> bool" where
  "receipt_entries g s es \<longleftrightarrow>
     map (\<lambda>e. (se_entry_type e, se_supplier e, se_amount e, se_entry_date e, se_source_type e, se_source_id e)) es =
       (if gr_total_amount g = 0 then []
        else [(''GOODS_RECEIPT'', s, gr_total_amount g, gr_receipt_date g, ''GOODS_RECEIPT'', Some (gr_pk g))])"

lemma raise_payableD:
  assumes "raise_payable env user s p g db = Inr db'" "is_money (gr_total_amount g)"
  obtains sl es where "db' = db\<lparr>db_sle := sl\<rparr>" "tb_rows sl = tb_rows (db_sle db) @ es"
    "receipt_entries g (sp_pk s) es" "ledger_ok db \<longrightarrow> ledger_ok db'"
proof (cases "gr_total_amount g = 0")
  case True
  show ?thesis
    by (rule that [of "db_sle db" "[]"]) (use assms True in \<open>simp_all add: raise_payable_def receipt_entries_def\<close>)
next
  case False
  then obtain e where e: "record_supplier_entry env user (sp_pk s) ''GOODS_RECEIPT'' (gr_total_amount g)
      (gr_grn_number g @ '' against '' @ pu_po_number p) (Some (gr_receipt_date g))
      (Some (''GoodsReceipt'', Some (gr_pk g))) db = Inr (e, db')"
    using assms(1) by (auto simp: raise_payable_def andThen_Inr_iff)
  note E = record_supplier_entryD [OF e]
  have "se_source_type e = ''GOODS_RECEIPT''" "se_source_id e = Some (gr_pk g)"
    using E(11) by (simp_all add: resolve_source_def SOURCE_DOCUMENT_REGISTRY_def)
  then have "receipt_entries g (sp_pk s) [e]" using E(5-8) False assms(2) by (simp add: receipt_entries_def)
  then show ?thesis using that [OF E(2,1)] record_supplier_entry_ok [OF e] by blast
qed

text \<open>The stages of a successful receipt, in the order of the code.\<close>

lemma create_goods_receipt_stages:
  assumes "create_goods_receipt env user q db = Inr ((g, p'), db')"
  obtains d priced db1 db2 db3 db4 s where
    "rr_receipt_date q = Some d" "has_role user [OWNER]" "pu_status (rr_purchase_order q) \<in> set RECEIVABLE_STATUSES"
    "\<not> d < pu_order_date (rr_purchase_order q)"
    "price_receipt_lines (pu_pk (rr_purchase_order q)) (rr_lines q) (received_quantities (pu_pk (rr_purchase_order q)) db)
       (to_percent (bp_over_receipt_tolerance_percent (profile_of db))) = Inr priced"
    "insert_goods_receipt (new_goods_receipt env user q d priced (fst (next_grn_number db)))
       (db\<lparr>db_profile := Some (profile_of db), db_grn_number_seq := Suc (db_grn_number_seq db)\<rparr>) = Inr (g, db1)"
    "post_receipt_lines env user g priced db1 = Inr db2" "po_supplier (rr_purchase_order q) db2 = Inr s"
    "raise_payable env user s (rr_purchase_order q) g db2 = Inr db3"
    "settle_order_status env user (rr_purchase_order q) db3 = Inr (p', db4)"
    "db' = record_audit env A_CREATE ''goods_receipt'' (Some (gr_pk g)) user S_WEB None (Some (grn_audit_state s p' g)) db4"
proof -
  have n: "next_grn_number (snd (get_business_profile db)) =
      (fst (next_grn_number db), db\<lparr>db_profile := Some (profile_of db), db_grn_number_seq := Suc (db_grn_number_seq db)\<rparr>)"
    by (simp add: next_grn_number_def get_business_profile_eq)
  obtain d where d: "rr_receipt_date q = Some d"
    using assms by (auto simp: create_goods_receipt_def Let_def split: option.splits if_splits)
  show ?thesis
    using assms d that
    by (simp add: create_goods_receipt_def Let_def case_prod_unfold n split: if_splits)
      (auto simp: andThen_Inr_iff)
qed

lemma create_goods_receiptD:
  assumes "create_goods_receipt env user q db = Inr ((g, p'), db')"
  obtains d priced ts es lots ms ls sl au st where
    "rr_receipt_date q = Some d" "has_role user [OWNER]" "pu_status (rr_purchase_order q) \<in> set RECEIVABLE_STATUSES"
    "pu_order_date (rr_purchase_order q) \<le> d"
    "price_receipt_lines (pu_pk (rr_purchase_order q)) (rr_lines q) (received_quantities (pu_pk (rr_purchase_order q)) db)
       (to_percent (bp_over_receipt_tolerance_percent (profile_of db))) = Inr priced"
    "g = new_goods_receipt env user q d priced (fst (next_grn_number db)) (tb_seq (db_goods_receipts db))"
    "map fst ts = priced" "\<forall>(c, m, l) \<in> set ts. posted g c m l"
    "tb_rows ms = tb_rows (db_movements db) @ map (\<lambda>(c, m, l). m) ts"
    "tb_rows ls = tb_rows (db_receipt_lines db) @ map (\<lambda>(c, m, l). l) ts"
    "table_wf mv_pk (db_movements db) \<longrightarrow> table_wf mv_pk ms"
    "table_wf gl_pk (db_receipt_lines db) \<longrightarrow> table_wf gl_pk ls"
    "receipt_entries g (pu_supplier (rr_purchase_order q)) es" "tb_rows sl = tb_rows (db_sle db) @ es"
    "st = (if fully_received (pu_pk (rr_purchase_order q)) db' then PO_RECEIVED else PO_PARTIALLY_RECEIVED)"
    "st \<in> set (PO_TRANSITIONS (pu_status (rr_purchase_order q)))" "p' = to_status env st id (rr_purchase_order q)"
    "db' = db\<lparr>db_profile := Some (profile_of db), db_grn_number_seq := Suc (db_grn_number_seq db),
       db_goods_receipts := (db_goods_receipts db)\<lparr>tb_seq := Suc (tb_seq (db_goods_receipts db)),
         tb_rows := tb_rows (db_goods_receipts db) @ [g]\<rparr>,
       db_lots := lots, db_movements := ms, db_receipt_lines := ls, db_sle := sl,
       db_purchase_orders := tb_update pu_pk (pu_pk (rr_purchase_order q)) (to_status env st id) (db_purchase_orders db),
       db_audit := au\<rparr>"
    "ledger_ok db \<longrightarrow> ledger_ok db'"
  using assms
proof (cases rule: create_goods_receipt_stages)
  case (1 d priced db1 db2 db3 db4 s)
  let ?p = "rr_purchase_order q"
  have g: "g = new_goods_receipt env user q d priced (fst (next_grn_number db)) (tb_seq (db_goods_receipts db))"
    "db1 = db\<lparr>db_profile := Some (profile_of db), db_grn_number_seq := Suc (db_grn_number_seq db),
       db_goods_receipts := (db_goods_receipts db)\<lparr>tb_seq := Suc (tb_seq (db_goods_receipts db)),
         tb_rows := tb_rows (db_goods_receipts db) @ [g]\<rparr>\<rparr>"
    using 1(6) by (auto simp: insert_goods_receipt_def tb_insert_def Let_def split: if_splits)
  have m: "is_money (gr_total_amount g)" by (simp add: g(1) new_goods_receipt_def receipt_totals_def)
  have pos: "\<forall>c \<in> set priced. 0 < pc_quantity_received c \<and> is_quantity (pc_quantity_received c)"
    using price_receipt_linesD(4) [OF 1(5)] by (simp add: priced_ok_def Let_def)
  have sp: "sp_pk s = pu_supplier ?p"
    using 1(8) tb_getD [where key = sp_pk] by (auto simp: po_supplier_def split: option.splits)
  obtain ts lots ms ls where T: "map fst ts = priced" "\<forall>(c, m, l) \<in> set ts. posted g c m l"
    "db2 = db1\<lparr>db_lots := lots, db_movements := ms, db_receipt_lines := ls\<rparr>"
    "tb_rows ms = tb_rows (db_movements db1) @ map (\<lambda>(c, m, l). m) ts"
    "tb_rows ls = tb_rows (db_receipt_lines db1) @ map (\<lambda>(c, m, l). l) ts"
    "table_wf mv_pk (db_movements db1) \<longrightarrow> table_wf mv_pk ms"
    "table_wf gl_pk (db_receipt_lines db1) \<longrightarrow> table_wf gl_pk ls"
    by (rule post_receipt_linesD [OF 1(7) pos])
  obtain sl es where sl: "db3 = db2\<lparr>db_sle := sl\<rparr>" "tb_rows sl = tb_rows (db_sle db2) @ es"
    "receipt_entries g (sp_pk s) es" "ledger_ok db2 \<longrightarrow> ledger_ok db3" by (rule raise_payableD [OF 1(9) m])
  obtain au0 st where st: "st = (if fully_received (pu_pk ?p) db3 then PO_RECEIVED else PO_PARTIALLY_RECEIVED)"
    "st \<in> set (PO_TRANSITIONS (pu_status ?p))" "p' = to_status env st id ?p"
    "db4 = db3\<lparr>db_purchase_orders := tb_update pu_pk (pu_pk ?p) (to_status env st id) (db_purchase_orders db3), db_audit := au0\<rparr>"
    by (rule settle_order_statusD [OF 1(10)])
  obtain au where au: "db' = db4\<lparr>db_audit := au\<rparr>" using 1(11) by (auto simp: record_audit_def record_audit_from_def)
  note eqs = g(2) T(3) sl(1) st(4) au
  have fr: "fully_received (pu_pk ?p) db' = fully_received (pu_pk ?p) db3"
    by (simp add: fully_received_def received_quantities_def receipt_lines_of_order_def po_lines_def eqs)
  have ok: "ledger_ok db \<longrightarrow> ledger_ok db'" using sl(4) by (simp add: eqs ledger_ok_def)
  show ?thesis
  proof (rule that [OF 1(1-3) _ 1(5) g(1) T(1,2)])
    show "st = (if fully_received (pu_pk ?p) db' then PO_RECEIVED else PO_PARTIALLY_RECEIVED)"
      using st(1) unfolding fr .
  qed (use 1(4) T(4-7) sl(2,3) st(2,3) ok in \<open>simp_all add: sp eqs\<close>)
qed

section \<open>Order operations\<close>

lemma insert_po_lineD:
  assumes "insert_po_line order ir db = Inr db'"
  obtains u where "u = new_po_line order (fst ir) (ui_product (snd ir)) (to_quantity (ui_quantity_ordered (snd ir)))
      (to_money (ui_unit_cost (snd ir))) (tb_seq (db_purchase_lines db))"
    "0 < ul_quantity_ordered u" "0 \<le> ul_unit_cost u" "pr_is_active (ui_product (snd ir))"
    "db' = db\<lparr>db_purchase_lines := (db_purchase_lines db)\<lparr>tb_seq := Suc (tb_seq (db_purchase_lines db)),
        tb_rows := tb_rows (db_purchase_lines db) @ [u]\<rparr>\<rparr>"
  using assms
  by (cases ir) (auto simp: insert_po_line_def Let_def tb_insert_def po_line_constraints_def split: if_splits)

lemma new_po_line_sel [simp]:
  "ul_pk (new_po_line o' i p q c k) = k" "ul_purchase_order (new_po_line o' i p q c k) = o'"
  "ul_line_number (new_po_line o' i p q c k) = i" "ul_quantity_ordered (new_po_line o' i p q c k) = q"
  "ul_unit_cost (new_po_line o' i p q c k) = c" "ul_product (new_po_line o' i p q c k) = pr_pk p"
  by (simp_all add: new_po_line_def Let_def)

definition po_line_ok :: "nat \<Rightarrow> nat \<times> purchase_input \<Rightarrow> purchase_line \<Rightarrow> bool" where
  "po_line_ok order ir u \<longleftrightarrow>
     ul_purchase_order u = order \<and> ul_line_number u = fst ir \<and> ul_product u = pr_pk (ui_product (snd ir)) \<and>
     ul_quantity_ordered u = to_quantity (ui_quantity_ordered (snd ir)) \<and> 0 < ul_quantity_ordered u \<and>
     ul_unit_cost u = to_money (ui_unit_cost (snd ir)) \<and> 0 \<le> ul_unit_cost u \<and>
     ul_taxable_amount u = to_money (ul_unit_cost u * ul_quantity_ordered u) \<and>
     ul_tax_amount u = to_money (ul_taxable_amount u * ul_tax_rate_percent u / 100) \<and>
     ul_line_total u = ul_taxable_amount u + ul_tax_amount u"

lemma insert_po_lines_loop:
  assumes "for_each irs (insert_po_line order) db = Inr db'"
  obtains us ls where "list_all2 (po_line_ok order) irs us"
    "db' = db\<lparr>db_purchase_lines := ls\<rparr>" "tb_rows ls = tb_rows (db_purchase_lines db) @ us"
    "\<forall>u \<in> set us. tb_seq (db_purchase_lines db) \<le> ul_pk u"
    "table_wf ul_pk (db_purchase_lines db) \<longrightarrow> table_wf ul_pk ls"
proof -
  have "\<exists>us ls. list_all2 (po_line_ok order) irs us \<and> db' = db\<lparr>db_purchase_lines := ls\<rparr> \<and>
      tb_rows ls = tb_rows (db_purchase_lines db) @ us \<and> (\<forall>u \<in> set us. tb_seq (db_purchase_lines db) \<le> ul_pk u) \<and>
      (table_wf ul_pk (db_purchase_lines db) \<longrightarrow> table_wf ul_pk ls)"
    using assms
  proof (induction irs arbitrary: db)
    case Nil
    show ?case by (rule exI [of _ "[]"], rule exI [of _ "db_purchase_lines db"]) (use Nil in simp)
  next
    case (Cons ir irs)
    obtain db1 where s: "insert_po_line order ir db = Inr db1" "for_each irs (insert_po_line order) db1 = Inr db'"
      using Cons.prems by (auto simp: andThen_Inr_iff)
    obtain u where u: "u = new_po_line order (fst ir) (ui_product (snd ir)) (to_quantity (ui_quantity_ordered (snd ir)))
        (to_money (ui_unit_cost (snd ir))) (tb_seq (db_purchase_lines db))" "0 < ul_quantity_ordered u" "0 \<le> ul_unit_cost u"
      "db1 = db\<lparr>db_purchase_lines := (db_purchase_lines db)\<lparr>tb_seq := Suc (tb_seq (db_purchase_lines db)),
        tb_rows := tb_rows (db_purchase_lines db) @ [u]\<rparr>\<rparr>"
      by (rule insert_po_lineD [OF s(1)])
    obtain us ls where IH: "list_all2 (po_line_ok order) irs us" "db' = db1\<lparr>db_purchase_lines := ls\<rparr>"
      "tb_rows ls = tb_rows (db_purchase_lines db1) @ us" "\<forall>u \<in> set us. tb_seq (db_purchase_lines db1) \<le> ul_pk u"
      "table_wf ul_pk (db_purchase_lines db1) \<longrightarrow> table_wf ul_pk ls"
      using Cons.IH [OF s(2)] by blast
    have "ul_line_total u = ul_taxable_amount u + ul_tax_amount u"
      "ul_taxable_amount u = to_money (ul_unit_cost u * ul_quantity_ordered u)"
      "ul_tax_amount u = to_money (ul_taxable_amount u * ul_tax_rate_percent u / 100)"
      by (simp_all add: u(1) new_po_line_def Let_def)
    then have "po_line_ok order ir u" using u(2,3) by (simp add: po_line_ok_def) (simp add: u(1))
    moreover have "table_wf ul_pk (db_purchase_lines db1)" if "table_wf ul_pk (db_purchase_lines db)"
      by (rule table_wf_append [where key = ul_pk and r = u, OF that]) (simp_all add: u(4), simp add: u(1))
    moreover have "tb_seq (db_purchase_lines db) \<le> ul_pk u" by (simp add: u(1))
    ultimately show ?case
      by (intro exI [of _ "u # us"] exI [of _ ls]) (use IH in \<open>auto simp: u(4) dest: Suc_leD\<close>)
  qed
  then show ?thesis using that by blast
qed

text \<open>What saving an order leaves alone: everything but its totals and the listed columns.\<close>

definition same_order :: "(purchase_order \<Rightarrow> purchase_order) \<Rightarrow> bool" where
  "same_order f \<longleftrightarrow> (\<forall>r. pu_pk (f r) = pu_pk r \<and> pu_supplier (f r) = pu_supplier r \<and> pu_status (f r) = pu_status r \<and>
     pu_po_number (f r) = pu_po_number r \<and> pu_order_date (f r) = pu_order_date r)"

lemma po_replace_linesD:
  assumes "po_replace_lines env p inputs db = Inr (p', db')"
  obtains us ls f where "inputs \<noteq> []"
    "\<forall>g \<in> set (tb_rows (db_receipt_lines db)). \<forall>u \<in> set (tb_rows (db_purchase_lines db)).
       ul_purchase_order u = pu_pk p \<longrightarrow> gl_purchase_order_line g \<noteq> ul_pk u"
    "list_all2 (po_line_ok (pu_pk p)) (enumerate 1 inputs) us"
    "tb_rows ls = filter (\<lambda>u. ul_purchase_order u \<noteq> pu_pk p) (tb_rows (db_purchase_lines db)) @ us"
    "\<forall>u \<in> set us. tb_seq (db_purchase_lines db) \<le> ul_pk u"
    "table_wf ul_pk (db_purchase_lines db) \<longrightarrow> table_wf ul_pk ls"
    "same_order f" "p' = f p"
    "pu_subtotal_amount p' = to_money (sum_list (map ul_taxable_amount us))"
    "pu_tax_amount p' = to_money (sum_list (map ul_tax_amount us))"
    "pu_total_amount p' = to_money (sum_list (map ul_line_total us))"
    "db' = db\<lparr>db_purchase_lines := ls, db_purchase_orders := tb_update pu_pk (pu_pk p) f (db_purchase_orders db)\<rparr>"
proof -
  let ?db = "db\<lparr>db_purchase_lines := tb_delete (\<lambda>l. ul_purchase_order l = pu_pk p) (db_purchase_lines db)\<rparr>"
  obtain db1 where guard: "inputs \<noteq> []"
      "\<not> tb_exists (\<lambda>g. gl_purchase_order_line g \<in> set (map ul_pk (po_lines (pu_pk p) db))) (db_receipt_lines db)"
    and loop: "for_each (enumerate 1 inputs) (insert_po_line (pu_pk p)) ?db = Inr db1"
    and tot: "po_recalculate_totals env p db1 = Inr (p', db')"
    using assms unfolding po_replace_lines_def by (auto simp: andThen_Inr_iff split: if_splits)
  obtain us ls where us: "list_all2 (po_line_ok (pu_pk p)) (enumerate 1 inputs) us"
    "db1 = ?db\<lparr>db_purchase_lines := ls\<rparr>" "tb_rows ls = tb_rows (db_purchase_lines ?db) @ us"
    "\<forall>u \<in> set us. tb_seq (db_purchase_lines ?db) \<le> ul_pk u"
    "table_wf ul_pk (db_purchase_lines ?db) \<longrightarrow> table_wf ul_pk ls"
    by (rule insert_po_lines_loop [OF loop])
  have mine: "\<forall>u \<in> set us. ul_purchase_order u = pu_pk p"
    using us(1) by (auto simp: list_all2_conv_all_nth in_set_conv_nth po_line_ok_def)
  have perm: "mset (po_lines (pu_pk p) db1) = mset us"
    using mine by (simp add: po_lines_def us(2,3) table_simps filter_empty_conv cong: filter_cong)
  have sums: "sum_list (map h (po_lines (pu_pk p) db1)) = sum_list (map h us)" for h :: "purchase_line \<Rightarrow> decimal"
    using perm by (metis mset_map sum_mset_sum_list)
  define f :: "purchase_order \<Rightarrow> purchase_order" where "f = (\<lambda>r. r\<lparr>pu_subtotal_amount := to_money (sum_list (map ul_taxable_amount us)),
            pu_tax_amount := to_money (sum_list (map ul_tax_amount us)),
            pu_total_amount := to_money (sum_list (map ul_line_total us)), pu_updated_at := now env\<rparr>)"
  have t: "p' = f p" "db' = db1\<lparr>db_purchase_orders := tb_update pu_pk (pu_pk p) f (db_purchase_orders db1)\<rparr>"
    using tot unfolding po_recalculate_totals_def Let_def sums f_def [symmetric]
    by (auto simp: save_purchase_order_def split: if_splits)
  show ?thesis
  proof (rule that [of us ls f, OF guard(1) _ us(1)])
    show "\<forall>g \<in> set (tb_rows (db_receipt_lines db)). \<forall>u \<in> set (tb_rows (db_purchase_lines db)).
       ul_purchase_order u = pu_pk p \<longrightarrow> gl_purchase_order_line g \<noteq> ul_pk u"
      using guard(2) by (auto simp: tb_exists_iff po_lines_def)
    show "tb_rows ls = filter (\<lambda>u. ul_purchase_order u \<noteq> pu_pk p) (tb_rows (db_purchase_lines db)) @ us"
      using us(3) by (simp add: table_simps)
    show "\<forall>u \<in> set us. tb_seq (db_purchase_lines db) \<le> ul_pk u" using us(4) by (simp add: tb_delete_def)
    show "table_wf ul_pk (db_purchase_lines db) \<longrightarrow> table_wf ul_pk ls"
      using us(5) by (simp add: table_wf_delete)
    show "same_order f" by (simp add: same_order_def f_def)
  qed (simp_all add: t us(2) f_def)
qed

lemma tb_update_compose:
  assumes "\<And>r. key (f r) = key r"
  shows "tb_update key k g (tb_update key k f t) = tb_update key k (g \<circ> f) t"
  by (simp add: tb_update_def assms)

lemma tb_update_new_row:
  assumes "table_wf key t" "tb_rows t' = tb_rows t @ [r]" "key r = tb_seq t"
  shows "tb_rows (tb_update key (tb_seq t) f t') = tb_rows t @ [f r]"
proof -
  have "map (\<lambda>x. if key x = tb_seq t then f x else x) (tb_rows t) = tb_rows t"
    using assms(1) by (intro map_idI) (auto simp: table_wf_def list_all_iff)
  then show ?thesis by (simp add: table_simps assms(2,3))
qed

lemma create_purchase_orderD:
  assumes "create_purchase_order env user q db = Inr (p, db')" "table_wf pu_pk (db_purchase_orders db)"
  obtains us ls os au where "uq_lines q \<noteq> []" "sp_is_active (uq_supplier q)"
    "\<forall>g \<in> set (tb_rows (db_receipt_lines db)). \<forall>u \<in> set (tb_rows (db_purchase_lines db)).
       ul_purchase_order u = pu_pk p \<longrightarrow> gl_purchase_order_line g \<noteq> ul_pk u"
    "pu_pk p = tb_seq (db_purchase_orders db)" "pu_status p = PO_DRAFT" "pu_supplier p = sp_pk (uq_supplier q)"
    "list_all2 (po_line_ok (pu_pk p)) (enumerate 1 (uq_lines q)) us"
    "tb_rows ls = filter (\<lambda>u. ul_purchase_order u \<noteq> pu_pk p) (tb_rows (db_purchase_lines db)) @ us"
    "\<forall>u \<in> set us. tb_seq (db_purchase_lines db) \<le> ul_pk u"
    "table_wf ul_pk (db_purchase_lines db) \<longrightarrow> table_wf ul_pk ls"
    "pu_subtotal_amount p = to_money (sum_list (map ul_taxable_amount us))"
    "pu_tax_amount p = to_money (sum_list (map ul_tax_amount us))"
    "pu_total_amount p = to_money (sum_list (map ul_line_total us))"
    "tb_rows os = tb_rows (db_purchase_orders db) @ [p]" "tb_seq os = Suc (tb_seq (db_purchase_orders db))"
    "db' = db\<lparr>db_po_number_seq := Suc (db_po_number_seq db), db_purchase_lines := ls, db_purchase_orders := os, db_audit := au\<rparr>"
proof -
  obtain d where d: "uq_order_date q = Some d"
    using assms(1) by (auto simp: create_purchase_order_def split: option.splits if_splits)
  define p0 where "p0 = new_purchase_order env user q d (fst (next_po_number db)) (tb_seq (db_purchase_orders db))"
  let ?db = "db\<lparr>db_po_number_seq := Suc (db_po_number_seq db), db_purchase_orders :=
      (db_purchase_orders db)\<lparr>tb_seq := Suc (tb_seq (db_purchase_orders db)), tb_rows := tb_rows (db_purchase_orders db) @ [p0]\<rparr>\<rparr>"
  obtain db1 where r: "po_replace_lines env p0 (uq_lines q) ?db = Inr (p, db1)" "sp_is_active (uq_supplier q)"
    and db': "db' = record_audit env A_CREATE ''purchase_order'' (Some (pu_pk p)) user S_WEB None
            (Some (po_audit_state (uq_supplier q) p)) db1"
    using assms(1) d
    by (auto simp: create_purchase_order_def Let_def tb_insert_def next_po_number_def p0_def andThen_Inr_iff split: if_splits)
  have p0: "pu_pk p0 = tb_seq (db_purchase_orders db)" "pu_status p0 = PO_DRAFT" "pu_supplier p0 = sp_pk (uq_supplier q)"
    by (simp_all add: p0_def new_purchase_order_def)
  obtain us ls f where R: "uq_lines q \<noteq> []"
    "\<forall>g \<in> set (tb_rows (db_receipt_lines ?db)). \<forall>u \<in> set (tb_rows (db_purchase_lines ?db)).
       ul_purchase_order u = pu_pk p0 \<longrightarrow> gl_purchase_order_line g \<noteq> ul_pk u"
    "list_all2 (po_line_ok (pu_pk p0)) (enumerate 1 (uq_lines q)) us"
    "tb_rows ls = filter (\<lambda>u. ul_purchase_order u \<noteq> pu_pk p0) (tb_rows (db_purchase_lines ?db)) @ us"
    "\<forall>u \<in> set us. tb_seq (db_purchase_lines ?db) \<le> ul_pk u"
    "table_wf ul_pk (db_purchase_lines ?db) \<longrightarrow> table_wf ul_pk ls"
    "same_order f" "p = f p0" "pu_subtotal_amount p = to_money (sum_list (map ul_taxable_amount us))"
    "pu_tax_amount p = to_money (sum_list (map ul_tax_amount us))"
    "pu_total_amount p = to_money (sum_list (map ul_line_total us))"
    "db1 = ?db\<lparr>db_purchase_lines := ls, db_purchase_orders := tb_update pu_pk (pu_pk p0) f (db_purchase_orders ?db)\<rparr>"
    by (rule po_replace_linesD [OF r(1)])
  have p: "pu_pk p = pu_pk p0" "pu_status p = pu_status p0" "pu_supplier p = pu_supplier p0"
    using R(7) by (simp_all add: R(8) same_order_def)
  define os where "os = tb_update pu_pk (pu_pk p0) f (db_purchase_orders ?db)"
  have os: "tb_rows os = tb_rows (db_purchase_orders db) @ [p]" "tb_seq os = Suc (tb_seq (db_purchase_orders db))"
    unfolding os_def p0(1) R(8)
    by (rule tb_update_new_row [OF assms(2)]) (simp_all add: p0(1) table_simps)
  obtain au where au: "db' = db1\<lparr>db_audit := au\<rparr>" using db' by (auto simp: record_audit_def record_audit_from_def)
  show ?thesis
    by (rule that [of us ls os au, OF R(1) r(2)])
      (use R(2-6,9-11) in \<open>simp_all add: p p0 os au R(12) [folded os_def]\<close>)
qed

lemma amend_purchase_order_stages:
  assumes "amend_purchase_order env user p inputs expected notes' db = Inr (p', db')"
  shows "\<exists>s. andThen (save_amended env expected notes' p db) (\<lambda>(p1, db). andThen (po_replace_lines env p1 inputs db) (\<lambda>(p1, db).
      Inr (p1, record_audit env A_UPDATE ''purchase_order'' (Some (pu_pk p1)) user S_WEB
        (Some (po_audit_state s p)) (Some (po_audit_state s p1)) db))) = Inr (p', db')"
proof (cases "po_supplier p db")
  case (Inl e)
  then show ?thesis using assms by (simp add: amend_purchase_order_def split: if_splits)
next
  case (Inr s)
  then show ?thesis using assms unfolding amend_purchase_order_def Let_def
    by (intro exI [of _ s]) (simp only: andThen.simps andThen_require andThen_require_roles sum.simps split: if_splits)
qed

lemma amend_purchase_orderD:
  assumes "amend_purchase_order env user p inputs expected notes' db = Inr (p', db')"
  obtains us ls f au where "pu_status p = PO_DRAFT" "inputs \<noteq> []"
    "\<forall>g \<in> set (tb_rows (db_receipt_lines db)). \<forall>u \<in> set (tb_rows (db_purchase_lines db)).
       ul_purchase_order u = pu_pk p \<longrightarrow> gl_purchase_order_line g \<noteq> ul_pk u"
    "list_all2 (po_line_ok (pu_pk p)) (enumerate 1 inputs) us"
    "tb_rows ls = filter (\<lambda>u. ul_purchase_order u \<noteq> pu_pk p) (tb_rows (db_purchase_lines db)) @ us"
    "\<forall>u \<in> set us. tb_seq (db_purchase_lines db) \<le> ul_pk u"
    "table_wf ul_pk (db_purchase_lines db) \<longrightarrow> table_wf ul_pk ls" "same_order f" "p' = f p"
    "db' = db\<lparr>db_purchase_lines := ls, db_purchase_orders := tb_update pu_pk (pu_pk p) f (db_purchase_orders db), db_audit := au\<rparr>"
proof -
  have draft: "pu_status p = PO_DRAFT"
    using assms unfolding amend_purchase_order_def by (simp add: po_is_editable_def split: if_splits)
  obtain s where "andThen (save_amended env expected notes' p db) (\<lambda>(p1, db). andThen (po_replace_lines env p1 inputs db) (\<lambda>(p1, db).
      Inr (p1, record_audit env A_UPDATE ''purchase_order'' (Some (pu_pk p1)) user S_WEB
        (Some (po_audit_state s p)) (Some (po_audit_state s p1)) db))) = Inr (p', db')"
    using amend_purchase_order_stages [OF assms] by blast
  then obtain p1 db1 db2 where s: "save_amended env expected notes' p db = Inr (p1, db1)"
      "po_replace_lines env p1 inputs db1 = Inr (p', db2)"
      "db' = record_audit env A_UPDATE ''purchase_order'' (Some (pu_pk p')) user S_WEB (Some (po_audit_state s p))
        (Some (po_audit_state s p')) db2"
    by (cases "save_amended env expected notes' p db") (auto simp: andThen_Inr_iff [of "po_replace_lines _ _ _ _"])
  define f1 where "f1 = (if expected = None \<and> notes' = None then id else amended_form env expected notes')"
  have f1: "same_order f1" by (auto simp: f1_def amended_form_def Let_def same_order_def split: option.splits)
  have save: "p1 = f1 p" "db1 = db\<lparr>db_purchase_orders := tb_update pu_pk (pu_pk p) f1 (db_purchase_orders db)\<rparr>"
  proof -
    have i: "tb_update pu_pk (pu_pk p) id t = t" for t :: "purchase_order table"
    proof -
      have "(\<lambda>r :: purchase_order. if pu_pk r = pu_pk p then id r else r) = id" by auto
      then show ?thesis by (simp add: tb_update_def)
    qed
    show "p1 = f1 p" "db1 = db\<lparr>db_purchase_orders := tb_update pu_pk (pu_pk p) f1 (db_purchase_orders db)\<rparr>"
    proof (atomize (full), cases "expected = None \<and> notes' = None")
      case True
      then have "p1 = p" "db1 = db" using s(1) by (simp_all add: save_amended_def)
      then show "p1 = f1 p \<and> db1 = db\<lparr>db_purchase_orders := tb_update pu_pk (pu_pk p) f1 (db_purchase_orders db)\<rparr>"
        using True by (simp add: f1_def i)
    next
      case False
      then have f: "f1 = amended_form env expected notes'" unfolding f1_def by (simp only: if_False)
      have "save_purchase_order f1 p db = Inr (p1, db1)" using s(1) False unfolding save_amended_def f by (simp only: if_False)
      then show "p1 = f1 p \<and> db1 = db\<lparr>db_purchase_orders := tb_update pu_pk (pu_pk p) f1 (db_purchase_orders db)\<rparr>"
        by (simp add: save_purchase_order_def split: if_splits)
    qed
  qed
  have pk: "pu_pk p1 = pu_pk p" using f1 by (simp add: save(1) same_order_def)
  obtain us ls f where R: "inputs \<noteq> []"
    "\<forall>g \<in> set (tb_rows (db_receipt_lines db1)). \<forall>u \<in> set (tb_rows (db_purchase_lines db1)).
       ul_purchase_order u = pu_pk p1 \<longrightarrow> gl_purchase_order_line g \<noteq> ul_pk u"
    "list_all2 (po_line_ok (pu_pk p1)) (enumerate 1 inputs) us"
    "tb_rows ls = filter (\<lambda>u. ul_purchase_order u \<noteq> pu_pk p1) (tb_rows (db_purchase_lines db1)) @ us"
    "\<forall>u \<in> set us. tb_seq (db_purchase_lines db1) \<le> ul_pk u"
    "table_wf ul_pk (db_purchase_lines db1) \<longrightarrow> table_wf ul_pk ls"
    "same_order f" "p' = f p1"
    "db2 = db1\<lparr>db_purchase_lines := ls, db_purchase_orders := tb_update pu_pk (pu_pk p1) f (db_purchase_orders db1)\<rparr>"
    by (rule po_replace_linesD [OF s(2)])
  have comp: "tb_update pu_pk (pu_pk p) f (tb_update pu_pk (pu_pk p) f1 t) = tb_update pu_pk (pu_pk p) (f \<circ> f1) t" for t
    by (rule tb_update_compose) (use f1 in \<open>simp add: same_order_def\<close>)
  have so: "same_order (f \<circ> f1)" using f1 R(7) by (simp add: same_order_def)
  obtain au where au: "db' = db2\<lparr>db_audit := au\<rparr>" using s(3) by (auto simp: record_audit_def record_audit_from_def)
  show ?thesis
    by (rule that [of us ls "f \<circ> f1" au, OF draft R(1)])
      (use R(2-6) so in \<open>simp_all add: pk [unfolded save(1)] save R(8,9) au comp\<close>)
qed

section \<open>Orders and what arrived for them\<close>

definition received_total :: "nat \<Rightarrow> 'a purchasing_db_scheme \<Rightarrow> decimal" where
  "received_total k db = sum_where (\<lambda>l. gl_purchase_order_line l = k) gl_quantity_received (tb_rows (db_receipt_lines db))"

definition tolerance :: "'a purchasing_db_scheme \<Rightarrow> decimal" where
  "tolerance db = to_percent (bp_over_receipt_tolerance_percent (profile_of db))"

definition arrived :: "purchase_status \<Rightarrow> bool" where
  "arrived s \<longleftrightarrow> s \<in> {PO_PARTIALLY_RECEIVED, PO_RECEIVED, PO_CLOSED}"

text \<open>A received line belongs to a receipt and to an ordered line of that receipt's order.\<close>

definition line_linked :: "receipt_line \<Rightarrow> goods_receipt list \<Rightarrow> purchase_line list \<Rightarrow> bool" where
  "line_linked l gs us \<longleftrightarrow> 0 < gl_quantity_received l \<and> is_quantity (gl_quantity_received l) \<and>
     (\<exists>g \<in> set gs. \<exists>u \<in> set us. gl_goods_receipt l = gr_pk g \<and> gl_purchase_order_line l = ul_pk u \<and>
        ul_purchase_order u = gr_purchase_order g)"

definition purchasing_ok :: "'a purchasing_db_scheme \<Rightarrow> bool" where
  "purchasing_ok db \<longleftrightarrow>
     table_wf pu_pk (db_purchase_orders db) \<and> table_wf ul_pk (db_purchase_lines db) \<and>
     table_wf gr_pk (db_goods_receipts db) \<and> 0 \<le> tolerance db \<and>
     (\<forall>l \<in> set (tb_rows (db_receipt_lines db)). line_linked l (tb_rows (db_goods_receipts db)) (tb_rows (db_purchase_lines db))) \<and>
     (\<forall>g \<in> set (tb_rows (db_goods_receipts db)). \<exists>p \<in> set (tb_rows (db_purchase_orders db)). pu_pk p = gr_purchase_order g) \<and>
     (\<forall>p \<in> set (tb_rows (db_purchase_orders db)).
        arrived (pu_status p) \<longleftrightarrow> (\<exists>g \<in> set (tb_rows (db_goods_receipts db)). gr_purchase_order g = pu_pk p)) \<and>
     (\<forall>u \<in> set (tb_rows (db_purchase_lines db)). 0 < ul_quantity_ordered u \<and>
        received_total (ul_pk u) db \<le> acceptance_limit (ul_quantity_ordered u) (tolerance db)) \<and>
     (\<forall>p \<in> set (tb_rows (db_purchase_orders db)). pu_status p = PO_RECEIVED \<longrightarrow>
        (\<forall>u \<in> set (tb_rows (db_purchase_lines db)). ul_purchase_order u = pu_pk p \<longrightarrow>
           ul_quantity_ordered u \<le> received_total (ul_pk u) db))"

lemma sum_where_quantity:
  "(\<And>l. l \<in> set ls \<Longrightarrow> P l \<Longrightarrow> is_quantity (f l)) \<Longrightarrow> is_quantity (sum_where P f ls)"
  by (induction ls) auto

lemma received_get_map:
  "received_get (map (\<lambda>k. (k, f k)) ks) k = (if k \<in> set ks then f k else 0)"
  by (induction ks) (auto simp: received_get_def)

text \<open>The code's grouped query is the sum over all receipts.\<close>

lemma received_get_total:
  assumes "\<forall>l \<in> set (tb_rows (db_receipt_lines db)).
      line_linked l (tb_rows (db_goods_receipts db)) (tb_rows (db_purchase_lines db))"
    and "table_wf ul_pk (db_purchase_lines db)" "u \<in> set (tb_rows (db_purchase_lines db))"
  shows "received_get (received_quantities (ul_purchase_order u) db) (ul_pk u) = received_total (ul_pk u) db"
proof -
  let ?rs = "tb_rows (db_receipt_lines db)" and ?k = "ul_pk u"
  have mine: "l \<in> set (receipt_lines_of_order (ul_purchase_order u) db)"
    if l: "l \<in> set ?rs" "gl_purchase_order_line l = ?k" for l
  proof -
    obtain g v where "g \<in> set (tb_rows (db_goods_receipts db))" "v \<in> set (tb_rows (db_purchase_lines db))"
      "gl_goods_receipt l = gr_pk g" "?k = ul_pk v" "ul_purchase_order v = gr_purchase_order g"
      using assms(1) l by (auto simp: line_linked_def)
    moreover have "v = u" using table_wf_inj [OF assms(2)] calculation(2,4) assms(3) by metis
    ultimately show ?thesis using l(1) by (auto simp: receipt_lines_of_order_def Let_def)
  qed
  have sub: "sum_where (\<lambda>l. gl_purchase_order_line l = ?k) gl_quantity_received (receipt_lines_of_order (ul_purchase_order u) db)
      = received_total ?k db"
    unfolding received_total_def receipt_lines_of_order_def Let_def sum_where_def filter_filter
    by (rule arg_cong [of _ _ "\<lambda>xs. sum_list (map gl_quantity_received xs)"], rule filter_cong)
      (use mine in \<open>auto simp: receipt_lines_of_order_def Let_def\<close>)
  have q: "is_quantity (received_total ?k db)"
    unfolding received_total_def by (rule sum_where_quantity) (use assms(1) in \<open>simp add: line_linked_def\<close>)
  show ?thesis
  proof (cases "?k \<in> gl_purchase_order_line ` set (receipt_lines_of_order (ul_purchase_order u) db)")
    case True
    then show ?thesis using q by (simp add: received_quantities_def Let_def received_get_map sub)
  next
    case False
    then have "filter (\<lambda>l. gl_purchase_order_line l = ?k) ?rs = []"
      unfolding filter_empty_conv using mine by (metis image_eqI)
    then have "received_total ?k db = 0" by (simp add: received_total_def sum_where_def)
    then show ?thesis using False by (simp add: received_quantities_def Let_def received_get_map)
  qed
qed

text \<open>No receipt can name a line that is not there yet.\<close>

lemma received_total_new:
  assumes "purchasing_ok db" "tb_seq (db_purchase_lines db) \<le> k"
  shows "received_total k db = 0"
proof -
  have "gl_purchase_order_line l \<noteq> k" if "l \<in> set (tb_rows (db_receipt_lines db))" for l
    using assms that by (fastforce simp: purchasing_ok_def line_linked_def table_wf_def list_all_iff)
  then have "filter (\<lambda>l. gl_purchase_order_line l = k) (tb_rows (db_receipt_lines db)) = []"
    by (simp add: filter_empty_conv)
  then show ?thesis by (simp add: received_total_def sum_where_def)
qed

lemma acceptance_limit_nonneg: "0 < q \<Longrightarrow> 0 \<le> t \<Longrightarrow> 0 \<le> acceptance_limit q t"
  by (simp add: acceptance_limit_def to_quantity_nonneg)

lemma orders_write_ok:
  assumes ok: "purchasing_ok db"
    and same: "db_goods_receipts db' = db_goods_receipts db" "db_receipt_lines db' = db_receipt_lines db" "tolerance db' = tolerance db"
    and rows: "tb_rows (db_purchase_lines db') = filter Q (tb_rows (db_purchase_lines db)) @ us"
    and wf: "table_wf ul_pk (db_purchase_lines db')" "table_wf pu_pk (db_purchase_orders db')"
    and kept: "\<forall>l \<in> set (tb_rows (db_receipt_lines db)). \<forall>u \<in> set (tb_rows (db_purchase_lines db)).
        \<not> Q u \<longrightarrow> gl_purchase_order_line l \<noteq> ul_pk u"
    and new: "\<forall>u \<in> set us. tb_seq (db_purchase_lines db) \<le> ul_pk u \<and> 0 < ul_quantity_ordered u"
    and orders: "\<forall>g \<in> set (tb_rows (db_goods_receipts db)). \<exists>p \<in> set (tb_rows (db_purchase_orders db')). pu_pk p = gr_purchase_order g"
      "\<forall>p \<in> set (tb_rows (db_purchase_orders db')).
        arrived (pu_status p) \<longleftrightarrow> (\<exists>g \<in> set (tb_rows (db_goods_receipts db)). gr_purchase_order g = pu_pk p)"
      "\<forall>p \<in> set (tb_rows (db_purchase_orders db')). pu_status p = PO_RECEIVED \<longrightarrow>
        (\<exists>r \<in> set (tb_rows (db_purchase_orders db)). pu_pk r = pu_pk p \<and> pu_status r = PO_RECEIVED) \<and>
        (\<forall>u \<in> set us. ul_purchase_order u \<noteq> pu_pk p)"
  shows "purchasing_ok db'"
proof -
  have t: "received_total k db' = received_total k db" for k by (simp add: received_total_def same)
  have linked: "line_linked l (tb_rows (db_goods_receipts db)) (tb_rows (db_purchase_lines db'))"
    if l: "l \<in> set (tb_rows (db_receipt_lines db))" for l
  proof -
    have "line_linked l (tb_rows (db_goods_receipts db)) (tb_rows (db_purchase_lines db))"
      using ok l by (simp add: purchasing_ok_def)
    then obtain g u where gu: "0 < gl_quantity_received l" "is_quantity (gl_quantity_received l)"
      "g \<in> set (tb_rows (db_goods_receipts db))" "u \<in> set (tb_rows (db_purchase_lines db))"
      "gl_goods_receipt l = gr_pk g" "gl_purchase_order_line l = ul_pk u" "ul_purchase_order u = gr_purchase_order g"
      unfolding line_linked_def by blast
    have "Q u" using kept l gu(4,6) by blast
    then have "u \<in> set (tb_rows (db_purchase_lines db'))" using gu(4) by (simp add: rows)
    then show ?thesis unfolding line_linked_def using gu by blast
  qed
  have bound: "0 < ul_quantity_ordered u \<and> received_total (ul_pk u) db \<le> acceptance_limit (ul_quantity_ordered u) (tolerance db)"
    if "u \<in> set (tb_rows (db_purchase_lines db'))" for u
  proof (cases "u \<in> set us")
    case True
    then show ?thesis
      using new received_total_new [OF ok, of "ul_pk u"] acceptance_limit_nonneg [of "ul_quantity_ordered u" "tolerance db"] ok
      by (simp add: purchasing_ok_def)
  next
    case False
    then show ?thesis using that ok by (simp add: rows purchasing_ok_def)
  qed
  have full: "ul_quantity_ordered u \<le> received_total (ul_pk u) db"
    if p: "p \<in> set (tb_rows (db_purchase_orders db'))" "pu_status p = PO_RECEIVED"
      and u: "u \<in> set (tb_rows (db_purchase_lines db'))" "ul_purchase_order u = pu_pk p" for p u
  proof -
    obtain r where r: "r \<in> set (tb_rows (db_purchase_orders db))" "pu_pk r = pu_pk p" "pu_status r = PO_RECEIVED"
      and us: "\<forall>u \<in> set us. ul_purchase_order u \<noteq> pu_pk p" using orders(3) p by blast
    have "u \<in> set (tb_rows (db_purchase_lines db))" using u us by (auto simp: rows)
    then show ?thesis using ok r u(2) unfolding purchasing_ok_def by metis
  qed
  show ?thesis
    unfolding purchasing_ok_def t same
    using ok wf orders(1,2) linked bound full by (auto simp: purchasing_ok_def)
qed

lemma orders_update_ok:
  assumes ok: "purchasing_ok db" and p: "p \<in> set (tb_rows (db_purchase_orders db))"
    and same: "db_goods_receipts db' = db_goods_receipts db" "db_receipt_lines db' = db_receipt_lines db" "tolerance db' = tolerance db"
    and rows: "tb_rows (db_purchase_lines db') = filter Q (tb_rows (db_purchase_lines db)) @ us"
    and wf: "table_wf ul_pk (db_purchase_lines db')"
    and kept: "\<forall>l \<in> set (tb_rows (db_receipt_lines db)). \<forall>u \<in> set (tb_rows (db_purchase_lines db)).
        \<not> Q u \<longrightarrow> gl_purchase_order_line l \<noteq> ul_pk u"
    and new: "\<forall>u \<in> set us. tb_seq (db_purchase_lines db) \<le> ul_pk u \<and> 0 < ul_quantity_ordered u \<and> ul_purchase_order u = pu_pk p"
    and orders: "db_purchase_orders db' = tb_update pu_pk (pu_pk p) F (db_purchase_orders db)"
      "\<And>r. pu_pk (F r) = pu_pk r" "arrived (pu_status (F p)) = arrived (pu_status p)" "pu_status (F p) \<noteq> PO_RECEIVED"
  shows "purchasing_ok db'"
proof -
  have wfo: "table_wf pu_pk (db_purchase_orders db)" using ok by (simp add: purchasing_ok_def)
  have img: "set (tb_rows (db_purchase_orders db')) = (\<lambda>r. if pu_pk r = pu_pk p then F r else r) ` set (tb_rows (db_purchase_orders db))"
    by (simp add: orders(1) table_simps)
  have cases: "r = F p \<or> (r \<in> set (tb_rows (db_purchase_orders db)) \<and> pu_pk r \<noteq> pu_pk p)"
    if "r \<in> set (tb_rows (db_purchase_orders db'))" for r
    using that table_wf_inj [OF wfo _ p] unfolding img by (auto split: if_splits)
  show ?thesis
  proof (rule orders_write_ok [OF ok same rows wf _ kept])
    show "table_wf pu_pk (db_purchase_orders db')"
      unfolding orders(1) by (rule table_wf_update [OF wfo]) (simp add: orders(2))
    show "\<forall>u \<in> set us. tb_seq (db_purchase_lines db) \<le> ul_pk u \<and> 0 < ul_quantity_ordered u" using new by blast
    show "\<forall>g \<in> set (tb_rows (db_goods_receipts db)). \<exists>p \<in> set (tb_rows (db_purchase_orders db')). pu_pk p = gr_purchase_order g"
    proof
      fix g assume "g \<in> set (tb_rows (db_goods_receipts db))"
      then obtain r where "r \<in> set (tb_rows (db_purchase_orders db))" "pu_pk r = gr_purchase_order g"
        using ok unfolding purchasing_ok_def by blast
      then show "\<exists>p \<in> set (tb_rows (db_purchase_orders db')). pu_pk p = gr_purchase_order g"
        unfolding img by (intro bexI [of _ "if pu_pk r = pu_pk p then F r else r"] image_eqI [of _ _ r]) (simp_all add: orders(2))
    qed
    have pk: "pu_pk (F p) = pu_pk p" by (rule orders(2))
    have old: "arrived (pu_status r) \<longleftrightarrow> (\<exists>g \<in> set (tb_rows (db_goods_receipts db)). gr_purchase_order g = pu_pk r)"
      if "r \<in> set (tb_rows (db_purchase_orders db))" for r using ok that unfolding purchasing_ok_def by blast
    show "\<forall>p \<in> set (tb_rows (db_purchase_orders db')).
        arrived (pu_status p) \<longleftrightarrow> (\<exists>g \<in> set (tb_rows (db_goods_receipts db)). gr_purchase_order g = pu_pk p)"
      using cases old old [OF p] pk orders(3) by metis
    show "\<forall>p \<in> set (tb_rows (db_purchase_orders db')). pu_status p = PO_RECEIVED \<longrightarrow>
        (\<exists>r \<in> set (tb_rows (db_purchase_orders db)). pu_pk r = pu_pk p \<and> pu_status r = PO_RECEIVED) \<and>
        (\<forall>u \<in> set us. ul_purchase_order u \<noteq> pu_pk p)"
      using cases new orders(4) by metis
  qed
qed

lemma table_wf_cases: "(table_wf key t \<longrightarrow> table_wf key t') \<Longrightarrow> table_wf key t \<Longrightarrow> table_wf key t'"
  by blast

lemma list_all2_po_line_ok: "list_all2 (po_line_ok k) irs us \<Longrightarrow> u \<in> set us \<Longrightarrow> ul_purchase_order u = k \<and> 0 < ul_quantity_ordered u"
  by (auto simp: list_all2_conv_all_nth in_set_conv_nth po_line_ok_def)

lemma amend_purchase_order_ok:
  assumes "amend_purchase_order env user p inputs expected notes' db = Inr (p', db')" "purchasing_ok db"
    "p \<in> set (tb_rows (db_purchase_orders db))"
  shows "purchasing_ok db'"
  using assms(1)
proof (cases rule: amend_purchase_orderD)
  case (1 us ls f au)
  show ?thesis
  proof (rule orders_update_ok [OF assms(2,3)])
    show "tb_rows (db_purchase_lines db') = filter (\<lambda>u. ul_purchase_order u \<noteq> pu_pk p) (tb_rows (db_purchase_lines db)) @ us"
      using 1(5) by (simp add: 1(10))
    show "db_purchase_orders db' = tb_update pu_pk (pu_pk p) f (db_purchase_orders db)" by (simp add: 1(10))
  qed (use 1(1,3,6-8) list_all2_po_line_ok [OF 1(4)] assms(2) in
      \<open>simp_all add: 1(10) tolerance_def profile_of_def same_order_def arrived_def purchasing_ok_def\<close>)
qed

lemma create_purchase_order_ok:
  assumes "create_purchase_order env user q db = Inr (p, db')" "purchasing_ok db"
  shows "purchasing_ok db'"
proof -
  have wfo: "table_wf pu_pk (db_purchase_orders db)" using assms(2) by (simp add: purchasing_ok_def)
  show ?thesis
    using assms(1) wfo
  proof (cases rule: create_purchase_orderD)
    case (1 us ls os au)
    have below: "pu_pk r \<noteq> pu_pk p" if "r \<in> set (tb_rows (db_purchase_orders db))" for r
      using wfo that 1(4) by (auto simp: table_wf_def list_all_iff)
    have none: "gr_purchase_order g \<noteq> pu_pk p" if "g \<in> set (tb_rows (db_goods_receipts db))" for g
      using assms(2) that below unfolding purchasing_ok_def by metis
    show ?thesis
    proof (rule orders_write_ok [OF assms(2)])
      show "tb_rows (db_purchase_lines db') = filter (\<lambda>u. ul_purchase_order u \<noteq> pu_pk p) (tb_rows (db_purchase_lines db)) @ us"
        using 1(8) by (simp add: 1(16))
      show "table_wf pu_pk (db_purchase_orders db')"
        by (rule table_wf_append [where key = pu_pk and r = p, OF wfo]) (use 1(4) in \<open>simp_all add: 1(14-16)\<close>)
      show "table_wf ul_pk (db_purchase_lines db')" using 1(10) assms(2) by (simp add: 1(16) purchasing_ok_def)
      show "\<forall>l \<in> set (tb_rows (db_receipt_lines db)). \<forall>u \<in> set (tb_rows (db_purchase_lines db)).
        \<not> ul_purchase_order u \<noteq> pu_pk p \<longrightarrow> gl_purchase_order_line l \<noteq> ul_pk u" using 1(3) by blast
      show "\<forall>u \<in> set us. tb_seq (db_purchase_lines db) \<le> ul_pk u \<and> 0 < ul_quantity_ordered u"
        using 1(9) list_all2_po_line_ok [OF 1(7)] by blast
      show "\<forall>p \<in> set (tb_rows (db_purchase_orders db')).
        arrived (pu_status p) \<longleftrightarrow> (\<exists>g \<in> set (tb_rows (db_goods_receipts db)). gr_purchase_order g = pu_pk p)"
        using assms(2) none 1(5) by (simp add: 1(14,16) purchasing_ok_def arrived_def)
      show "\<forall>g \<in> set (tb_rows (db_goods_receipts db)). \<exists>p \<in> set (tb_rows (db_purchase_orders db')). pu_pk p = gr_purchase_order g"
        using assms(2) by (auto simp: 1(14,16) purchasing_ok_def)
      show "\<forall>x \<in> set (tb_rows (db_purchase_orders db')). pu_status x = PO_RECEIVED \<longrightarrow>
        (\<exists>r \<in> set (tb_rows (db_purchase_orders db)). pu_pk r = pu_pk x \<and> pu_status r = PO_RECEIVED) \<and>
        (\<forall>u \<in> set us. ul_purchase_order u \<noteq> pu_pk x)"
      proof (intro ballI impI)
        fix x assume x: "x \<in> set (tb_rows (db_purchase_orders db'))" "pu_status x = PO_RECEIVED"
        then have "x \<in> set (tb_rows (db_purchase_orders db))" using 1(5) by (auto simp: 1(14,16))
        then show "(\<exists>r \<in> set (tb_rows (db_purchase_orders db)). pu_pk r = pu_pk x \<and> pu_status r = PO_RECEIVED) \<and>
          (\<forall>u \<in> set us. ul_purchase_order u \<noteq> pu_pk x)"
          using x(2) below list_all2_po_line_ok [OF 1(7)] by metis
      qed
    qed (simp_all add: 1(16) tolerance_def profile_of_def)
  qed
qed

lemma issue_purchase_orderD:
  assumes "issue_purchase_order env user p db = Inr (p', db')"
  obtains F au where "pu_status p = PO_DRAFT" "\<And>r. pu_pk (F r) = pu_pk r" "\<And>r. pu_supplier (F r) = pu_supplier r"
    "\<And>r. pu_status (F r) = PO_ISSUED" "p' = F p" "po_lines (pu_pk p) db \<noteq> []"
    "db' = db\<lparr>db_purchase_orders := tb_update pu_pk (pu_pk p) F (db_purchase_orders db), db_audit := au\<rparr>"
proof -
  let ?e = "\<lambda>r. r\<lparr>pu_issued_at := Some (now env), pu_issued_by := actor_pk user\<rparr>"
  have "po_lines (pu_pk p) db \<noteq> []"
    and "po_transition env user p PO_ISSUED ?e [(''po_number'', PStr (pu_po_number p))] db = Inr (p', db')"
    using assms by (simp_all add: issue_purchase_order_def split: if_splits)
  from this(2) show ?thesis
  proof (cases rule: po_transitionD)
    case (1 au)
    have "pu_status p = PO_DRAFT" using 1(1) by (cases "pu_status p") simp_all
    then show ?thesis
      by (rule that [where F = "to_status env PO_ISSUED ?e", OF _ _ _ _ 1(2) \<open>po_lines _ _ \<noteq> []\<close> 1(4)])
        (simp_all add: to_status_def)
  qed
qed

lemma cancel_purchase_orderD:
  assumes "cancel_purchase_order env user p reason db = Inr (p', db')"
  obtains F au where "pu_status p \<in> {PO_DRAFT, PO_ISSUED}" "\<And>r. pu_pk (F r) = pu_pk r" "\<And>r. pu_supplier (F r) = pu_supplier r"
    "\<And>r. pu_status (F r) = PO_CANCELLED" "p' = F p"
    "db' = db\<lparr>db_purchase_orders := tb_update pu_pk (pu_pk p) F (db_purchase_orders db), db_audit := au\<rparr>"
proof -
  let ?e = "\<lambda>r. r\<lparr>pu_cancelled_reason := strip reason, pu_cancelled_at := Some (now env), pu_cancelled_by := actor_pk user\<rparr>"
  have "po_transition env user p PO_CANCELLED ?e [(''reason'', PStr (strip reason))] db = Inr (p', db')"
    using assms by (simp add: cancel_purchase_order_def Let_def split: if_splits)
  then show ?thesis
  proof (cases rule: po_transitionD)
    case (1 au)
    have "pu_status p \<in> {PO_DRAFT, PO_ISSUED}" using 1(1) by (cases "pu_status p") simp_all
    then show ?thesis
      by (rule that [where F = "to_status env PO_CANCELLED ?e", OF _ _ _ _ 1(2) 1(4)]) (simp_all add: to_status_def)
  qed
qed

lemma close_purchase_orderD:
  assumes "close_purchase_order env user p reason db = Inr (p', db')"
  obtains F au where "pu_status p \<in> {PO_PARTIALLY_RECEIVED, PO_RECEIVED}" "\<And>r. pu_pk (F r) = pu_pk r"
    "\<And>r. pu_supplier (F r) = pu_supplier r" "\<And>r. pu_status (F r) = PO_CLOSED" "p' = F p"
    "db' = db\<lparr>db_purchase_orders := tb_update pu_pk (pu_pk p) F (db_purchase_orders db), db_audit := au\<rparr>"
proof -
  have "po_transition env user p PO_CLOSED (\<lambda>r. r) [(''reason'', PStr (strip reason))] db = Inr (p', db')"
    using assms by (simp add: close_purchase_order_def Let_def split: if_splits)
  then show ?thesis
  proof (cases rule: po_transitionD)
    case (1 au)
    have "pu_status p \<in> {PO_PARTIALLY_RECEIVED, PO_RECEIVED}" using 1(1) by (cases "pu_status p") simp_all
    then show ?thesis
      by (rule that [where F = "to_status env PO_CLOSED (\<lambda>r. r)", OF _ _ _ _ 1(2) 1(4)]) (simp_all add: to_status_def)
  qed
qed

lemma status_write_ok:
  assumes "purchasing_ok db" "p \<in> set (tb_rows (db_purchase_orders db))"
    "db' = db\<lparr>db_purchase_orders := tb_update pu_pk (pu_pk p) F (db_purchase_orders db), db_audit := au\<rparr>"
    "\<And>r. pu_pk (F r) = pu_pk r" "arrived (pu_status (F p)) = arrived (pu_status p)" "pu_status (F p) \<noteq> PO_RECEIVED"
  shows "purchasing_ok db'"
  by (rule orders_update_ok [OF assms(1,2), where Q = "\<lambda>_. True" and us = "[]" and F = F])
    (use assms(1,4-6) in \<open>simp_all add: assms(3) tolerance_def profile_of_def purchasing_ok_def\<close>)

lemma issue_purchase_order_ok:
  assumes "issue_purchase_order env user p db = Inr (p', db')" "purchasing_ok db"
    "p \<in> set (tb_rows (db_purchase_orders db))"
  shows "purchasing_ok db'"
  using assms(1)
proof (cases rule: issue_purchase_orderD)
  case (1 F au)
  show ?thesis
    by (rule status_write_ok [OF assms(2,3) 1(7) 1(2)]) (use 1(1) in \<open>auto simp: 1(4) arrived_def\<close>)
qed

lemma cancel_purchase_order_ok:
  assumes "cancel_purchase_order env user p reason db = Inr (p', db')" "purchasing_ok db"
    "p \<in> set (tb_rows (db_purchase_orders db))"
  shows "purchasing_ok db'"
  using assms(1)
proof (cases rule: cancel_purchase_orderD)
  case (1 F au)
  show ?thesis
    by (rule status_write_ok [OF assms(2,3) 1(6) 1(2)]) (use 1(1) in \<open>auto simp: 1(4) arrived_def\<close>)
qed

lemma close_purchase_order_ok:
  assumes "close_purchase_order env user p reason db = Inr (p', db')" "purchasing_ok db"
    "p \<in> set (tb_rows (db_purchase_orders db))"
  shows "purchasing_ok db'"
  using assms(1)
proof (cases rule: close_purchase_orderD)
  case (1 F au)
  show ?thesis
    by (rule status_write_ok [OF assms(2,3) 1(6) 1(2)]) (use 1(1) in \<open>auto simp: 1(4) arrived_def\<close>)
qed

lemma posted_sum:
  assumes "\<forall>(c, m, l) \<in> set ts. posted g c m l"
  shows "sum_where (\<lambda>l. gl_purchase_order_line l = k) gl_quantity_received (map (\<lambda>(c, m, l). l) ts)
    = sum_where (\<lambda>c. ul_pk (pc_purchase_order_line c) = k) pc_quantity_received (map fst ts)"
  using assms by (induction ts) (auto simp: posted_def)

lemma priced_sum:
  assumes "distinct (map (ul_pk \<circ> pc_purchase_order_line) priced)"
  shows "sum_where (\<lambda>c. ul_pk (pc_purchase_order_line c) = k) pc_quantity_received priced
    = (case find (\<lambda>c. ul_pk (pc_purchase_order_line c) = k) priced of None \<Rightarrow> 0 | Some c \<Rightarrow> pc_quantity_received c)"
  using assms
proof (induction priced)
  case (Cons c cs)
  have "sum_where (\<lambda>c. ul_pk (pc_purchase_order_line c) = k) pc_quantity_received cs = 0"
    if "ul_pk (pc_purchase_order_line c) = k"
  proof -
    have "filter (\<lambda>c. ul_pk (pc_purchase_order_line c) = k) cs = []"
      using Cons.prems that by (auto simp: filter_empty_conv image_iff)
    then show ?thesis by (simp add: sum_where_def)
  qed
  then show ?case using Cons by simp
qed simp

text \<open>How far a receipt moves what was received of one ordered line.\<close>

lemma receipt_received_total:
  assumes "price_receipt_lines order raws already tol = Inr priced" "map fst ts = priced"
    "\<forall>(c, m, l) \<in> set ts. posted g c m l" "tb_rows (db_receipt_lines db') = tb_rows (db_receipt_lines db) @ map (\<lambda>(c, m, l). l) ts"
  shows "received_total k db' = received_total k db +
      (case find (\<lambda>c. ul_pk (pc_purchase_order_line c) = k) priced of None \<Rightarrow> 0 | Some c \<Rightarrow> pc_quantity_received c)"
  using posted_sum [OF assms(3), of k] priced_sum [OF price_receipt_linesD(3) [OF assms(1)], of k] assms(2,4)
  by (simp add: received_total_def)

text \<open>A receipt's write, seen from the orders: one order moves on, one receipt is added for it.\<close>

lemma receipt_write_ok:
  assumes ok: "purchasing_ok db" and p: "p \<in> set (tb_rows (db_purchase_orders db))" and g: "gr_purchase_order g = pu_pk p"
    and tabs: "tb_rows (db_goods_receipts db') = tb_rows (db_goods_receipts db) @ [g]"
      "db_purchase_lines db' = db_purchase_lines db" "tolerance db' = tolerance db"
      "db_purchase_orders db' = tb_update pu_pk (pu_pk p) F (db_purchase_orders db)"
    and wfg: "table_wf gr_pk (db_goods_receipts db')"
    and F: "\<And>r. pu_pk (F r) = pu_pk r" "arrived (pu_status (F p))"
    and linked: "\<forall>l \<in> set (tb_rows (db_receipt_lines db')).
        line_linked l (tb_rows (db_goods_receipts db')) (tb_rows (db_purchase_lines db))"
    and bound: "\<And>u. u \<in> set (tb_rows (db_purchase_lines db)) \<Longrightarrow>
        received_total (ul_pk u) db' \<le> acceptance_limit (ul_quantity_ordered u) (tolerance db) \<and>
        received_total (ul_pk u) db \<le> received_total (ul_pk u) db'"
    and all: "\<And>u. pu_status (F p) = PO_RECEIVED \<Longrightarrow> u \<in> set (tb_rows (db_purchase_lines db)) \<Longrightarrow>
        ul_purchase_order u = pu_pk p \<Longrightarrow> ul_quantity_ordered u \<le> received_total (ul_pk u) db'"
  shows "purchasing_ok db'"
proof -
  let ?gs = "tb_rows (db_goods_receipts db)" and ?os = "tb_rows (db_purchase_orders db)"
  have wf: "table_wf pu_pk (db_purchase_orders db)" using ok by (simp add: purchasing_ok_def)
  have img: "set (tb_rows (db_purchase_orders db')) = (\<lambda>r. if pu_pk r = pu_pk p then F r else r) ` set ?os"
    by (simp add: tabs(4) table_simps)
  have rows: "r = F p \<or> (r \<in> set ?os \<and> pu_pk r \<noteq> pu_pk p)" if "r \<in> set (tb_rows (db_purchase_orders db'))" for r
    using that table_wf_inj [OF wf _ p] unfolding img by (auto split: if_splits)
  have "\<exists>r \<in> set (tb_rows (db_purchase_orders db')). pu_pk r = pu_pk x" if "x \<in> set ?os" for x
    using that unfolding img
    by (intro bexI [of _ "if pu_pk x = pu_pk p then F x else x"] image_eqI [of _ _ x]) (simp_all add: F)
  moreover have "\<exists>x \<in> set ?os. pu_pk x = gr_purchase_order h" if "h \<in> set (?gs @ [g])" for h
    using that ok p g by (cases "h = g") (auto simp: purchasing_ok_def)
  ultimately have receipts: "\<forall>h \<in> set (?gs @ [g]). \<exists>r \<in> set (tb_rows (db_purchase_orders db')). pu_pk r = gr_purchase_order h"
    by metis
  have full: "ul_quantity_ordered u \<le> received_total (ul_pk u) db'"
    if r: "r \<in> set (tb_rows (db_purchase_orders db'))" "pu_status r = PO_RECEIVED"
      and u: "u \<in> set (tb_rows (db_purchase_lines db))" "ul_purchase_order u = pu_pk r" for r u
    using rows [OF r(1)]
  proof
    assume "r = F p"
    then show ?thesis using all [OF _ u(1)] r(2) u(2) F(1) by simp
  next
    assume "r \<in> set ?os \<and> pu_pk r \<noteq> pu_pk p"
    then have "ul_quantity_ordered u \<le> received_total (ul_pk u) db" using ok r(2) u by (auto simp: purchasing_ok_def)
    then show ?thesis using bound [OF u(1)] by simp
  qed
  have arr: "arrived (pu_status r) \<longleftrightarrow> (\<exists>h \<in> set (?gs @ [g]). gr_purchase_order h = pu_pk r)"
    if r: "r \<in> set (tb_rows (db_purchase_orders db'))" for r
    using rows [OF r] ok F g by (auto simp: purchasing_ok_def)
  have "table_wf pu_pk (db_purchase_orders db')" unfolding tabs(4) by (rule table_wf_update [OF wf]) (simp add: F)
  then show ?thesis
    unfolding purchasing_ok_def
    using ok wfg linked bound full receipts arr by (auto simp: purchasing_ok_def tabs(2,3) simp flip: tabs(1))
qed

text \<open>A receipt's write, seen from the ordered lines: what arrived is linked and within the limit.\<close>

lemma receipt_lines_ok:
  assumes ok: "purchasing_ok db"
    and priced: "price_receipt_lines (pu_pk p) raws (received_quantities (pu_pk p) db) (tolerance db) = Inr priced"
    and fresh: "\<forall>r \<in> set raws. ri_purchase_order_line r \<in> set (tb_rows (db_purchase_lines db))"
    and ts: "map fst ts = priced" "\<forall>(c, m, l) \<in> set ts. posted g c m l" "gr_purchase_order g = pu_pk p"
    and rows: "tb_rows (db_receipt_lines db') = tb_rows (db_receipt_lines db) @ map (\<lambda>(c, m, l). l) ts"
  shows "\<forall>l \<in> set (tb_rows (db_receipt_lines db')).
      line_linked l (tb_rows (db_goods_receipts db) @ [g]) (tb_rows (db_purchase_lines db))"
    and "u \<in> set (tb_rows (db_purchase_lines db)) \<Longrightarrow>
      received_total (ul_pk u) db' \<le> acceptance_limit (ul_quantity_ordered u) (tolerance db) \<and>
      received_total (ul_pk u) db \<le> received_total (ul_pk u) db'"
proof -
  let ?us = "tb_rows (db_purchase_lines db)" and ?gs = "tb_rows (db_goods_receipts db)"
  note P = price_receipt_linesD [OF priced]
  have wf: "table_wf ul_pk (db_purchase_lines db)" and linked0: "\<forall>l \<in> set (tb_rows (db_receipt_lines db)). line_linked l ?gs ?us"
    using ok by (simp_all add: purchasing_ok_def)
  have mine: "pc_purchase_order_line c \<in> set ?us \<and> priced_ok (pu_pk p) (received_quantities (pu_pk p) db) (tolerance db) c"
    if "c \<in> set priced" for c
  proof -
    have "pc_purchase_order_line c \<in> set (map ri_purchase_order_line raws)" unfolding P(1) [symmetric] using that by simp
    then show ?thesis using fresh P(4) that by auto
  qed
  show "\<forall>l \<in> set (tb_rows (db_receipt_lines db')). line_linked l (?gs @ [g]) ?us"
  proof
    fix l assume "l \<in> set (tb_rows (db_receipt_lines db'))"
    then consider "l \<in> set (tb_rows (db_receipt_lines db))" | c m where "(c, m, l) \<in> set ts" by (auto simp: rows)
    then show "line_linked l (?gs @ [g]) ?us"
    proof cases
      case 1
      then show ?thesis using linked0 by (auto simp: line_linked_def)
    next
      case (2 c m)
      then have "c \<in> set priced" unfolding ts(1) [symmetric] by force
      moreover have "posted g c m l" using 2 ts(2) by blast
      ultimately show ?thesis using mine [of c] ts(3) by (auto simp: line_linked_def posted_def priced_ok_def Let_def)
    qed
  qed
  assume u: "u \<in> set ?us"
  note total = receipt_received_total [OF priced ts(1,2) rows, of "ul_pk u"]
  have old: "received_total (ul_pk u) db \<le> acceptance_limit (ul_quantity_ordered u) (tolerance db)"
    using ok u by (simp add: purchasing_ok_def)
  show "received_total (ul_pk u) db' \<le> acceptance_limit (ul_quantity_ordered u) (tolerance db) \<and>
      received_total (ul_pk u) db \<le> received_total (ul_pk u) db'"
  proof (cases "find (\<lambda>c. ul_pk (pc_purchase_order_line c) = ul_pk u) priced")
    case None
    then show ?thesis using old by (simp add: total)
  next
    case (Some c)
    then have c: "c \<in> set priced" "ul_pk (pc_purchase_order_line c) = ul_pk u" by (auto dest: find_SomeD)
    then have cu: "pc_purchase_order_line c = u" using mine [OF c(1)] table_wf_inj [OF wf] u by metis
    have "received_get (received_quantities (ul_purchase_order u) db) (ul_pk u) = received_total (ul_pk u) db"
      by (rule received_get_total [OF linked0 wf u])
    then show ?thesis using mine [OF c(1)] Some by (simp add: total priced_ok_def Let_def cu)
  qed
qed

lemma create_goods_receipt_ok:
  assumes R: "create_goods_receipt env user q db = Inr ((g, p'), db')" and ok: "purchasing_ok db"
    and fresh: "rr_purchase_order q \<in> set (tb_rows (db_purchase_orders db))"
      "\<forall>r \<in> set (rr_lines q). ri_purchase_order_line r \<in> set (tb_rows (db_purchase_lines db))"
  shows "purchasing_ok db'"
  using R
proof (cases rule: create_goods_receiptD)
  case (1 d priced ts es lots ms ls sl au st)
  let ?p = "rr_purchase_order q" and ?us = "tb_rows (db_purchase_lines db)"
  have wf: "table_wf ul_pk (db_purchase_lines db)" "table_wf gr_pk (db_goods_receipts db)"
    using ok by (simp_all add: purchasing_ok_def)
  have g: "gr_pk g = tb_seq (db_goods_receipts db)" "gr_purchase_order g = pu_pk ?p"
    by (simp_all add: 1(6) new_goods_receipt_def receipt_totals_def)
  have tabs: "tb_rows (db_goods_receipts db') = tb_rows (db_goods_receipts db) @ [g]"
    "db_purchase_lines db' = db_purchase_lines db" "tolerance db' = tolerance db"
    "db_purchase_orders db' = tb_update pu_pk (pu_pk ?p) (to_status env st id) (db_purchase_orders db)"
    and lines: "tb_rows (db_receipt_lines db') = tb_rows (db_receipt_lines db) @ map (\<lambda>(c, m, l). l) ts"
    using 1(10) by (simp_all add: 1(18) tolerance_def profile_of_def)
  have priced: "price_receipt_lines (pu_pk ?p) (rr_lines q) (received_quantities (pu_pk ?p) db) (tolerance db) = Inr priced"
    using 1(5) by (simp add: tolerance_def)
  note L = receipt_lines_ok [OF ok priced fresh(2) 1(7,8) g(2) lines]
  have st: "arrived (pu_status (to_status env st id r))" "pu_pk (to_status env st id r) = pu_pk r"
    "pu_status (to_status env st id r) = st" for r
    using 1(15) by (auto simp: to_status_def arrived_def split: if_splits)
  show ?thesis
  proof (rule receipt_write_ok [OF ok fresh(1) g(2) tabs])
    show "table_wf gr_pk (db_goods_receipts db')"
      by (rule table_wf_append [where key = gr_pk and r = g, OF wf(2)]) (use g(1) in \<open>simp_all add: 1(18)\<close>)
    show "\<forall>l \<in> set (tb_rows (db_receipt_lines db')). line_linked l (tb_rows (db_goods_receipts db')) ?us"
      using L(1) by (simp add: tabs(1))
    fix u assume u: "u \<in> set ?us"
    show "received_total (ul_pk u) db' \<le> acceptance_limit (ul_quantity_ordered u) (tolerance db) \<and>
        received_total (ul_pk u) db \<le> received_total (ul_pk u) db'"
      by (rule L(2) [OF u])
    assume all: "pu_status (to_status env st id ?p) = PO_RECEIVED" "ul_purchase_order u = pu_pk ?p"
    then have "ul_quantity_ordered u \<le> received_get (received_quantities (pu_pk ?p) db') (ul_pk u)"
      using u st 1(15) by (auto simp: fully_received_def po_lines_def list_all_iff tabs(2) split: if_splits)
    moreover have "received_get (received_quantities (ul_purchase_order u) db') (ul_pk u) = received_total (ul_pk u) db'"
      by (rule received_get_total) (use L(1) wf(1) u in \<open>simp_all add: tabs(1,2)\<close>)
    ultimately show "ul_quantity_ordered u \<le> received_total (ul_pk u) db'" using all(2) by simp
  qed (use st in simp_all)
qed

definition purchasing_untouched :: "'a purchasing_db_scheme \<Rightarrow> 'a purchasing_db_scheme \<Rightarrow> bool" where
  "purchasing_untouched db db' \<longleftrightarrow>
     db_purchase_orders db' = db_purchase_orders db \<and> db_purchase_lines db' = db_purchase_lines db \<and>
     db_goods_receipts db' = db_goods_receipts db \<and> db_receipt_lines db' = db_receipt_lines db \<and>
     db_supplier_payments db' = db_supplier_payments db \<and> db_sle db' = db_sle db \<and> tolerance db' = tolerance db"

text \<open>
  A step of purchasing.  The order and the ordered lines a call is given are the rows as they
  stand; everything else in the system writes none of the tables involved.
\<close>

inductive purchase_step :: "'a purchasing_db_scheme \<Rightarrow> 'a purchasing_db_scheme \<Rightarrow> bool" where
  order_it: "create_purchase_order env user uq db = Inr (p, db') \<Longrightarrow> purchase_step db db'"
| amend_it: "p \<in> set (tb_rows (db_purchase_orders db)) \<Longrightarrow>
    amend_purchase_order env user p inputs expected notes' db = Inr (p', db') \<Longrightarrow> purchase_step db db'"
| issue_it: "p \<in> set (tb_rows (db_purchase_orders db)) \<Longrightarrow>
    issue_purchase_order env user p db = Inr (p', db') \<Longrightarrow> purchase_step db db'"
| cancel_it: "p \<in> set (tb_rows (db_purchase_orders db)) \<Longrightarrow>
    cancel_purchase_order env user p reason db = Inr (p', db') \<Longrightarrow> purchase_step db db'"
| close_it: "p \<in> set (tb_rows (db_purchase_orders db)) \<Longrightarrow>
    close_purchase_order env user p reason db = Inr (p', db') \<Longrightarrow> purchase_step db db'"
| receive_it: "rr_purchase_order q \<in> set (tb_rows (db_purchase_orders db)) \<Longrightarrow>
    \<forall>r \<in> set (rr_lines q). ri_purchase_order_line r \<in> set (tb_rows (db_purchase_lines db)) \<Longrightarrow>
    create_goods_receipt env user q db = Inr ((g, p'), db') \<Longrightarrow> purchase_step db db'"
| pay_it: "record_supplier_payment env user yq db = Inr (y, db') \<Longrightarrow> purchase_step db db'"
| reverse_it: "reverse_supplier_payment env user pk reason on db = Inr (y, db') \<Longrightarrow> purchase_step db db'"
| open_it: "load_supplier_opening_balance env user s amount on db = Inr (e, db') \<Longrightarrow> purchase_step db db'"
| elsewhere: "purchasing_untouched db db' \<Longrightarrow> purchase_step db db'"

lemma purchasing_ok_cong:
  assumes "db_purchase_orders db' = db_purchase_orders db" "db_purchase_lines db' = db_purchase_lines db"
    "db_goods_receipts db' = db_goods_receipts db" "db_receipt_lines db' = db_receipt_lines db" "tolerance db' = tolerance db"
  shows "purchasing_ok db' = purchasing_ok db"
  by (simp add: purchasing_ok_def received_total_def assms)

end
