(* ===== verification/Payables.thy ===== *)
theory Payables
  imports Receiving Positions
begin

text \<open>
  What is owed to suppliers: payments, reversals and opening balances, the ledger as a function of
  the documents (receipts and opening balances less live payments), the walked position, and what
  one receipt does to stock and debt.
\<close>


section \<open>Payments to suppliers\<close>

lemma insert_supplier_paymentD:
  assumes "insert_supplier_payment mk db = Inr (p, db')"
  shows "p = mk (tb_seq (db_supplier_payments db))" "supplier_payment_constraints p"
    "\<forall>x \<in> set (tb_rows (db_supplier_payments db)). sy_submission_id x \<noteq> sy_submission_id p"
    "db' = db\<lparr>db_supplier_payments := (db_supplier_payments db)\<lparr>tb_seq := Suc (tb_seq (db_supplier_payments db)),
       tb_rows := tb_rows (db_supplier_payments db) @ [p]\<rparr>\<rparr>"
  using assms by (auto simp: insert_supplier_payment_def tb_insert_def Let_def tb_exists_iff split: if_splits)

lemma payload_differences_Nil: "payload_differences a b = [] \<longleftrightarrow> a = b"
  by (cases a; cases b) (auto simp: payload_differences_def)

lemma payload_of_new [simp]: "payload_of (new_supplier_payment env user sid payload n k) = payload"
  by (simp add: payload_of_def new_supplier_payment_def)

lemma replayed_payment_Inr: "replayed_payment e payload = Inr p \<longleftrightarrow> p = e \<and> payload_of e = payload"
  by (auto simp: replayed_payment_def payload_differences_Nil)

definition payment_entries :: "supplier_payment \<Rightarrow> sle \<Rightarrow> bool" where
  "payment_entries p e \<longleftrightarrow> se_supplier e = sy_supplier p \<and> se_entry_type e = ''PAYMENT'' \<and> se_amount e = - sy_amount p \<and>
     se_entry_date e = sy_payment_date p \<and> se_source_type e = ''PAYMENT'' \<and> se_source_id e = Some (sy_pk p)"

lemma record_supplier_paymentD:
  assumes "record_supplier_payment env user q db = Inr (p, db')"
  obtains (replayed) d where "yq_payment_date q = Some d" "find_submission (yq_submission_id q) db = Some p"
      "payload_of p = request_payload q (to_money (yq_amount q)) d" "has_role user [OWNER]" "db' = db"
    | (recorded) d e ps sl au where "yq_payment_date q = Some d" "find_submission (yq_submission_id q) db = None"
      "has_role user [OWNER]" "0 < to_money (yq_amount q)"
      "p = new_supplier_payment env user (yq_submission_id q) (request_payload q (to_money (yq_amount q)) d)
         (fst (next_supplier_payment_number db)) (tb_seq (db_supplier_payments db))"
      "supplier_payment_constraints p" "payment_entries p e"
      "tb_rows ps = tb_rows (db_supplier_payments db) @ [p]" "tb_seq ps = Suc (tb_seq (db_supplier_payments db))"
      "tb_rows sl = tb_rows (db_sle db) @ [e]" "se_pk e = tb_seq (db_sle db)"
      "db' = db\<lparr>db_spy_number_seq := Suc (db_spy_number_seq db), db_supplier_payments := ps, db_sle := sl, db_audit := au\<rparr>"
      "ledger_ok db \<longrightarrow> ledger_ok db'"
proof -
  obtain d where d: "yq_payment_date q = Some d"
    using assms by (auto simp: record_supplier_payment_def split: option.splits if_splits)
  let ?pl = "request_payload q (to_money (yq_amount q)) d"
  have owner: "has_role user [OWNER]" and pos: "0 < to_money (yq_amount q)"
    using assms d by (auto simp: record_supplier_payment_def Let_def split: if_splits)
  show ?thesis
  proof (cases "find_submission (yq_submission_id q) db")
    case (Some x)
    then have "replayed_payment x ?pl = Inr p \<and> db' = db"
      using assms d by (auto simp: record_supplier_payment_def Let_def andThen_Inr_iff split: if_splits)
    then show ?thesis using replayed d Some owner by (auto simp: replayed_payment_Inr)
  next
    case None
    let ?number = "fst (next_supplier_payment_number db)"
    let ?db1 = "db\<lparr>db_spy_number_seq := Suc (db_spy_number_seq db)\<rparr>"
    let ?mk = "new_supplier_payment env user (yq_submission_id q) ?pl ?number"
    obtain x db2 where x: "insert_supplier_payment ?mk ?db1 = Inr (x, db2)"
      using assms d None
      by (cases "insert_supplier_payment ?mk ?db1")
        (auto simp: record_supplier_payment_def Let_def next_supplier_payment_number_def split: if_splits)
    obtain e db3 where e: "record_supplier_entry env user (sp_pk (yq_supplier q)) ''PAYMENT'' (- to_money (yq_amount q))
        (''Payment '' @ sy_payment_number x @ '' ('' @ supplier_method_display (sy_method x) @ '')'') (Some d)
        (Some (''SupplierPayment'', Some (sy_pk x))) db2 = Inr (e, db3)"
      and px: "p = x" and db': "db' = record_audit env A_CREATE ''supplier_payment'' (Some (sy_pk x)) user S_WEB None
                (Some (payment_audit_state (yq_supplier q) x)) db3"
      using assms d None x
      by (auto simp: record_supplier_payment_def Let_def next_supplier_payment_number_def
          andThen_Inr_iff [of "record_supplier_entry _ _ _ _ _ _ _ _ _"] split: if_splits)
    note X = insert_supplier_paymentD [OF x] and E = record_supplier_entryD [OF e]
    obtain sl where sl: "db3 = db2\<lparr>db_sle := sl\<rparr>" using E(2) by blast
    obtain au where au: "db' = db3\<lparr>db_audit := au\<rparr>" using db' by (auto simp: record_audit_def record_audit_from_def)
    have p: "p = ?mk (tb_seq (db_supplier_payments db))" using X(1) px by simp
    have src: "se_source_type e = ''PAYMENT''" "se_source_id e = Some (sy_pk x)"
      using E(11) by (simp_all add: resolve_source_def SOURCE_DOCUMENT_REGISTRY_def)
    have ent: "payment_entries p e"
      using E(5-8) src px to_money_minus [of "to_money (yq_amount q)"]
      by (simp add: payment_entries_def p [unfolded px] px new_supplier_payment_def request_payload_def)
    show ?thesis
      by (rule recorded [OF d None owner pos p _ ent, where
            ps = "(db_supplier_payments db)\<lparr>tb_seq := Suc (tb_seq (db_supplier_payments db)),
              tb_rows := tb_rows (db_supplier_payments db) @ [p]\<rparr>" and sl = sl and au = au])
        (use X(2) E(1,4) record_supplier_entry_ok [OF e] in \<open>simp_all add: px au sl X(4) ledger_ok_def\<close>)
  qed
qed

lemma reversed_supplier_form_sel [simp]:
  "sy_pk (reversed_supplier_form env user r p) = sy_pk p" "sy_amount (reversed_supplier_form env user r p) = sy_amount p"
  "sy_supplier (reversed_supplier_form env user r p) = sy_supplier p"
  "sy_is_reversed (reversed_supplier_form env user r p) = True"
  "sy_submission_id (reversed_supplier_form env user r p) = sy_submission_id p"
  by (simp_all add: reversed_supplier_form_def)

lemma reverse_supplier_paymentD:
  assumes "reverse_supplier_payment env user pk reason on db = Inr (p, db')"
  obtains (already) "tb_get sy_pk pk (db_supplier_payments db) = Some p" "sy_is_reversed p" "db' = db"
    | (reversed) d old e sl au where "on = Some d" "tb_get sy_pk pk (db_supplier_payments db) = Some old" "\<not> sy_is_reversed old"
      "p = reversed_supplier_form env user (strip reason) old" "has_role user [OWNER]"
      "se_supplier e = sy_supplier old" "se_entry_type e = ''ADJUSTMENT''" "se_amount e = to_money (sy_amount old)"
      "se_entry_date e = d" "se_source_type e = ''PAYMENT''" "se_source_id e = Some pk"
      "tb_rows sl = tb_rows (db_sle db) @ [e]" "se_pk e = tb_seq (db_sle db)"
      "db' = db\<lparr>db_sle := sl, db_supplier_payments := tb_update sy_pk pk (reversed_supplier_form env user (strip reason))
         (db_supplier_payments db), db_audit := au\<rparr>"
      "ledger_ok db \<longrightarrow> ledger_ok db'"
proof -
  let ?f = "reversed_supplier_form env user (strip reason)"
  obtain d where d: "on = Some d" "has_role user [OWNER]"
    using assms by (auto simp: reverse_supplier_payment_def Let_def split: option.splits if_splits)
  obtain old where o: "tb_get sy_pk pk (db_supplier_payments db) = Some old"
    using assms d by (auto simp: reverse_supplier_payment_def Let_def split: option.splits if_splits)
  have pk: "sy_pk old = pk" using tb_getD [OF o] by blast
  show ?thesis
  proof (cases "sy_is_reversed old")
    case True
    then have "p = old" "db' = db"
      using assms d o by (simp_all add: reverse_supplier_payment_def Let_def split: if_splits)
    then show ?thesis using already o True by simp
  next
    case False
    obtain s where s: "tb_get sp_pk (sy_supplier old) (db_suppliers db) = Some s"
      using assms d o False by (auto simp: reverse_supplier_payment_def Let_def split: option.splits if_splits)
    have sp: "sp_pk s = sy_supplier old" using tb_getD [OF s] by blast
    obtain e db1 db2 where e: "record_supplier_entry env user (sp_pk s) ''ADJUSTMENT'' (sy_amount old)
        (''Reversal of payment '' @ sy_payment_number old) (Some d) (Some (''SupplierPayment'', Some (sy_pk old))) db = Inr (e, db1)"
      and sv: "save_supplier_payment [''is_reversed'', ''reversed_reason'', ''reversed_at'', ''reversed_by''] ?f old db1 = Inr (p, db2)"
      and db': "db' = record_audit env A_PAYMENT_REVERSE ''supplier_payment'' (Some (sy_pk p)) user S_WEB
            (Some [(''is_reversed'', PBool False)])
            (Some (payment_audit_state s p @ [(''reason'', PStr (strip reason))])) db2"
      using assms d o False s
      by (auto simp: reverse_supplier_payment_def Let_def andThen_Inr_iff [of "record_supplier_entry _ _ _ _ _ _ _ _ _"]
          andThen_Inr_iff [of "save_supplier_payment _ _ _ _"] split: if_splits)
    note E = record_supplier_entryD [OF e]
    obtain sl where sl: "db1 = db\<lparr>db_sle := sl\<rparr>" using E(2) by blast
    have S: "p = ?f old" "db2 = db1\<lparr>db_supplier_payments := tb_update sy_pk pk ?f (db_supplier_payments db1)\<rparr>"
      using sv by (simp_all add: save_supplier_payment_def andThen_Inr_iff pk split: if_splits)
    obtain au where au: "db' = db2\<lparr>db_audit := au\<rparr>" using db' by (auto simp: record_audit_def record_audit_from_def)
    have src: "se_source_type e = ''PAYMENT''" "se_source_id e = Some pk"
      using E(11) pk by (simp_all add: resolve_source_def SOURCE_DOCUMENT_REGISTRY_def)
    show ?thesis
      by (rule reversed [OF d(1) o False S(1) d(2) _ E(6,7) _ src, where sl = sl and au = au])
        (use E(1,4,5,8) sp record_supplier_entry_ok [OF e] in \<open>simp_all add: au S(2) sl ledger_ok_def\<close>)
  qed
qed

lemma load_supplier_opening_balanceD:
  assumes "load_supplier_opening_balance env user s amount on db = Inr (e, db')"
  shows "record_supplier_entry env user (sp_pk s) ''OPENING'' (to_money amount) ''Opening balance carried at go-live'' on None db
      = Inr (e, db')" "has_role user [OWNER]"
proof -
  obtain d where d: "on = Some d"
    using assms by (auto simp: load_supplier_opening_balance_def split: option.splits if_splits)
  show "record_supplier_entry env user (sp_pk s) ''OPENING'' (to_money amount) ''Opening balance carried at go-live'' on None db
      = Inr (e, db')" "has_role user [OWNER]"
    using assms d
    by (auto simp: load_supplier_opening_balance_def Let_def split: sum.splits error.splits if_splits)
qed


section \<open>What is owed\<close>

definition order_supplier :: "nat \<Rightarrow> 'a purchasing_db_scheme \<Rightarrow> nat option" where
  "order_supplier k db = map_option pu_supplier (tb_get pu_pk k (db_purchase_orders db))"

definition openings_total :: "nat \<Rightarrow> 'a ledger_db_scheme \<Rightarrow> decimal" where
  "openings_total s db = sum_where (\<lambda>e. se_entry_type e = ''OPENING'' \<and> se_supplier e = s) se_amount (tb_rows (db_sle db))"

definition receipts_total :: "nat \<Rightarrow> 'a purchasing_db_scheme \<Rightarrow> decimal" where
  "receipts_total s db =
     sum_where (\<lambda>g. order_supplier (gr_purchase_order g) db = Some s) gr_total_amount (tb_rows (db_goods_receipts db))"

definition paid_total :: "nat \<Rightarrow> 'a purchasing_db_scheme \<Rightarrow> decimal" where
  "paid_total s db = sum_where (\<lambda>p. sy_supplier p = s \<and> \<not> sy_is_reversed p) sy_amount (tb_rows (db_supplier_payments db))"

definition payables_ok :: "'a purchasing_db_scheme \<Rightarrow> bool" where
  "payables_ok db \<longleftrightarrow>
     table_wf sy_pk (db_supplier_payments db) \<and>
     (\<forall>p \<in> set (tb_rows (db_supplier_payments db)). is_money (sy_amount p)) \<and>
     (\<forall>e \<in> set (tb_rows (db_sle db)). se_source_type e = ''PAYMENT'' \<longrightarrow>
        (\<exists>p \<in> set (tb_rows (db_supplier_payments db)). se_source_id e = Some (sy_pk p))) \<and>
     (\<forall>s. supplier_balance s None db = openings_total s db + receipts_total s db - paid_total s db)"

lemma order_supplier_update:
  assumes "\<And>r. pu_pk (F r) = pu_pk r" "\<And>r. pu_supplier (F r) = pu_supplier r"
    "db_purchase_orders db' = tb_update pu_pk j F (db_purchase_orders db)"
  shows "order_supplier k db' = order_supplier k db"
proof -
  have "map_option pu_supplier (find (\<lambda>r. pu_pk r = k) (map (\<lambda>r. if pu_pk r = j then F r else r) xs))
      = map_option pu_supplier (find (\<lambda>r. pu_pk r = k) xs)" for xs
    by (induction xs) (auto simp: assms(1,2))
  then show ?thesis by (simp add: order_supplier_def tb_get_def assms(3) table_simps)
qed

lemma receipts_total_cong:
  assumes "tb_rows (db_goods_receipts db') = tb_rows (db_goods_receipts db)"
    "\<And>g. g \<in> set (tb_rows (db_goods_receipts db)) \<Longrightarrow> order_supplier (gr_purchase_order g) db' = order_supplier (gr_purchase_order g) db"
  shows "receipts_total s db' = receipts_total s db"
  unfolding receipts_total_def assms(1) by (rule sum_where_cong) (simp add: assms(2))

text \<open>A write that touches neither ledger nor payments and keeps every order's supplier.\<close>

lemma payables_ok_orders:
  assumes "payables_ok db" "db_sle db' = db_sle db" "db_supplier_payments db' = db_supplier_payments db"
    "db_goods_receipts db' = db_goods_receipts db"
    "\<And>g. g \<in> set (tb_rows (db_goods_receipts db)) \<Longrightarrow> order_supplier (gr_purchase_order g) db' = order_supplier (gr_purchase_order g) db"
  shows "payables_ok db'"
  using assms(1) receipts_total_cong [of db' db] assms(2-5)
  by (simp add: payables_ok_def supplier_balance_def openings_total_def paid_total_def)

lemma supplier_balance_append:
  "tb_rows (db_sle db') = tb_rows (db_sle db) @ es \<Longrightarrow>
   supplier_balance s None db' = supplier_balance s None db + sum_where (\<lambda>e. se_supplier e = s) se_amount es"
  by (simp add: supplier_balance_def up_to_def)

lemma create_goods_receipt_payables:
  assumes R: "create_goods_receipt env user q db = Inr ((g, p'), db')" and ok: "payables_ok db" "purchasing_ok db"
    and fresh: "rr_purchase_order q \<in> set (tb_rows (db_purchase_orders db))"
  shows "payables_ok db'"
  using R
proof (cases rule: create_goods_receiptD)
  case (1 d priced ts es lots ms ls sl au st)
  let ?p = "rr_purchase_order q"
  have wf: "table_wf pu_pk (db_purchase_orders db)" using ok(2) by (simp add: purchasing_ok_def)
  have sup: "order_supplier k db' = order_supplier k db" for k
    by (rule order_supplier_update [where F = "to_status env st id" and j = "pu_pk ?p"]) (simp_all add: to_status_def 1(18))
  have "gr_purchase_order g = pu_pk ?p"
    by (simp add: 1(6) new_goods_receipt_def receipt_totals_def)
  then have gs: "order_supplier (gr_purchase_order g) db = Some (pu_supplier ?p)"
    using tb_get_row [OF wf fresh] by (simp add: order_supplier_def)
  have rt: "receipts_total s db' = receipts_total s db + (if pu_supplier ?p = s then gr_total_amount g else 0)" for s
    using gs by (simp add: receipts_total_def sup) (simp add: 1(18))
  have none: "filter (\<lambda>e. se_entry_type e = ''OPENING'' \<and> se_supplier e = s) es = []" for s
    using 1(13) by (cases es) (auto simp: receipt_entries_def split: if_splits)
  have amt: "sum_where (\<lambda>e. se_supplier e = s) se_amount es = (if pu_supplier ?p = s then gr_total_amount g else 0)" for s
    using 1(13) by (cases es) (auto simp: receipt_entries_def split: if_splits)
  have sl: "tb_rows (db_sle db') = tb_rows (db_sle db) @ es" using 1(14) by (simp add: 1(18))
  have op: "openings_total s db' = openings_total s db" for s
    using none [of s] by (simp add: openings_total_def sl sum_where_def)
  have same: "db_supplier_payments db' = db_supplier_payments db" by (simp add: 1(18))
  have src: "se_source_type e \<noteq> ''PAYMENT''" if "e \<in> set es" for e
    using 1(13) that by (cases es) (auto simp: receipt_entries_def split: if_splits)
  have old: "\<forall>e \<in> set (tb_rows (db_sle db')). se_source_type e = ''PAYMENT'' \<longrightarrow>
      (\<exists>p \<in> set (tb_rows (db_supplier_payments db)). se_source_id e = Some (sy_pk p))"
    using ok(1) src by (auto simp: sl payables_ok_def)
  show ?thesis
    using ok(1) old by (simp add: payables_ok_def rt op same supplier_balance_append [OF sl] amt paid_total_def)
qed

lemma record_supplier_payment_payables:
  assumes "record_supplier_payment env user q db = Inr (p, db')" "payables_ok db"
  shows "payables_ok db'"
  using assms(1)
proof (cases rule: record_supplier_paymentD)
  case (recorded d e ps sl au)
  have p: "sy_pk p = tb_seq (db_supplier_payments db)" "\<not> sy_is_reversed p" "is_money (sy_amount p)"
    by (subst recorded(5), simp add: new_supplier_payment_def request_payload_def)+
  have wf: "table_wf sy_pk ps"
    by (rule table_wf_append [where key = sy_pk, OF _ recorded(8,9) p(1)]) (use assms(2) in \<open>simp add: payables_ok_def\<close>)
  have sl: "tb_rows (db_sle db') = tb_rows (db_sle db) @ [e]" using recorded(10) by (simp add: recorded(12))
  have rt: "receipts_total s db' = receipts_total s db" for s
    by (rule receipts_total_cong) (simp_all add: recorded(12) order_supplier_def)
  have e: "se_supplier e = sy_supplier p" "se_amount e = - sy_amount p" "se_entry_type e = ''PAYMENT''"
    "se_source_id e = Some (sy_pk p)"
    using recorded(7) by (simp_all add: payment_entries_def)
  have src: "\<forall>x \<in> set (tb_rows (db_sle db')). se_source_type x = ''PAYMENT'' \<longrightarrow>
      (\<exists>p \<in> set (tb_rows ps). se_source_id x = Some (sy_pk p))"
    using assms(2) e(4) by (auto simp: sl recorded(8) payables_ok_def)
  show ?thesis
    using assms(2) wf p(2,3) recorded(8) src
    by (simp add: payables_ok_def rt supplier_balance_append [OF sl] openings_total_def sl e paid_total_def)
      (simp add: recorded(12))
qed (use assms(2) in simp)

lemma reverse_supplier_payment_payables:
  assumes "reverse_supplier_payment env user pk reason on db = Inr (p, db')" "payables_ok db"
  shows "payables_ok db'"
  using assms(1)
proof (cases rule: reverse_supplier_paymentD)
  case (reversed d old e sl au)
  let ?f = "reversed_supplier_form env user (strip reason)"
  have o: "old \<in> set (tb_rows (db_supplier_payments db))" "sy_pk old = pk" using tb_getD [OF reversed(2)] by blast+
  have wf: "table_wf sy_pk (db_supplier_payments db)" using assms(2) by (simp add: payables_ok_def)
  have wf': "table_wf sy_pk (tb_update sy_pk pk ?f (db_supplier_payments db))"
    by (rule table_wf_update [OF wf]) simp
  have sl: "tb_rows (db_sle db') = tb_rows (db_sle db) @ [e]" using reversed(12) by (simp add: reversed(14))
  have rt: "receipts_total s db' = receipts_total s db" for s
    by (rule receipts_total_cong) (simp_all add: reversed(14) order_supplier_def)
  have amt: "se_amount e = sy_amount old" using reversed(8) assms(2) o(1) by (simp add: payables_ok_def)
  have paid: "paid_total s db' = paid_total s db - (if sy_supplier old = s then sy_amount old else 0)" for s
  proof (cases "sy_supplier old = s")
    case True
    have "sum_where (\<lambda>p. sy_supplier p = s \<and> \<not> sy_is_reversed p) sy_amount
        (map (\<lambda>x. if sy_pk x = sy_pk old then ?f x else x) (tb_rows (db_supplier_payments db)))
      = sum_where (\<lambda>p. sy_supplier p = s \<and> \<not> sy_is_reversed p) sy_amount (tb_rows (db_supplier_payments db)) - sy_amount old"
      by (rule sum_where_update) (use wf o(1) True reversed(3) in \<open>simp_all add: table_wf_def\<close>)
    then show ?thesis using True o(2) by (simp add: paid_total_def reversed(14) table_simps)
  next
    case False
    have "sum_where (\<lambda>p. sy_supplier p = s \<and> \<not> sy_is_reversed p) sy_amount (map (\<lambda>x. if sy_pk x = pk then ?f x else x) xs)
        = sum_where (\<lambda>p. sy_supplier p = s \<and> \<not> sy_is_reversed p) sy_amount xs"
      if "\<forall>x \<in> set xs. sy_pk x = pk \<longrightarrow> sy_supplier x \<noteq> s" for xs
      using that by (induction xs) auto
    moreover have "\<forall>x \<in> set (tb_rows (db_supplier_payments db)). sy_pk x = pk \<longrightarrow> sy_supplier x \<noteq> s"
      using table_wf_inj [OF wf _ o(1)] o(2) False by metis
    ultimately show ?thesis using False by (simp add: paid_total_def reversed(14) table_simps)
  qed
  have keys: "\<exists>p \<in> set (tb_rows (db_supplier_payments db')). sy_pk p = sy_pk x"
    if "x \<in> set (tb_rows (db_supplier_payments db))" for x
    using that by (intro bexI [of _ "if sy_pk x = pk then ?f x else x"]) (simp_all add: reversed(14) table_simps)
  have src: "\<forall>x \<in> set (tb_rows (db_sle db')). se_source_type x = ''PAYMENT'' \<longrightarrow>
      (\<exists>p \<in> set (tb_rows (db_supplier_payments db')). se_source_id x = Some (sy_pk p))"
  proof (intro ballI impI)
    fix x assume "x \<in> set (tb_rows (db_sle db'))" "se_source_type x = ''PAYMENT''"
    then have "\<exists>p \<in> set (tb_rows (db_supplier_payments db)). se_source_id x = Some (sy_pk p)"
      using assms(2) o reversed(11) by (auto simp: sl payables_ok_def)
    then show "\<exists>p \<in> set (tb_rows (db_supplier_payments db')). se_source_id x = Some (sy_pk p)"
      using keys by metis
  qed
  have money: "\<forall>p \<in> set (tb_rows (db_supplier_payments db')). is_money (sy_amount p)"
    using assms(2) by (auto simp: reversed(14) table_simps payables_ok_def)
  have wf2: "table_wf sy_pk (db_supplier_payments db')" using wf' by (simp add: reversed(14))
  show ?thesis
    unfolding payables_ok_def using assms(2) wf2 src money
    by (simp add: payables_ok_def rt supplier_balance_append [OF sl] openings_total_def sl reversed(6,7) amt paid)
qed (use assms(2) in simp)

lemma load_supplier_opening_payables:
  assumes "load_supplier_opening_balance env user s amount on db = Inr (e, db')" "payables_ok db"
  shows "payables_ok db'"
proof -
  note E = record_supplier_entryD [OF load_supplier_opening_balanceD(1) [OF assms(1)]]
  obtain sl where sl: "db' = db\<lparr>db_sle := sl\<rparr>" using E(2) by blast
  have rt: "receipts_total k db' = receipts_total k db" for k
    by (rule receipts_total_cong) (simp_all add: sl order_supplier_def)
  have "se_source_type e = ''''" using E(11) by (simp add: resolve_source_def)
  then show ?thesis
    using assms(2)
    by (simp add: payables_ok_def rt supplier_balance_append [OF E(1)] openings_total_def E(1,5,6) paid_total_def)
      (simp add: sl)
qed

lemma create_purchase_order_supplier:
  assumes "create_purchase_order env user q db = Inr (p, db')" "table_wf pu_pk (db_purchase_orders db)"
    "r \<in> set (tb_rows (db_purchase_orders db))"
  shows "order_supplier (pu_pk r) db' = order_supplier (pu_pk r) db"
  using assms(1,2)
proof (cases rule: create_purchase_orderD)
  case (1 us ls os au)
  have "tb_get pu_pk (pu_pk r) os = Some r"
    using find_distinct_key [of pu_pk "tb_rows (db_purchase_orders db)" r] assms(2,3)
    by (simp add: tb_get_def 1(14) find_append table_wf_def)
  then show ?thesis using tb_get_row [OF assms(2,3)] by (simp add: order_supplier_def 1(16))
qed

lemma purchase_step_payables:
  "purchase_step db db' \<Longrightarrow> purchasing_ok db \<Longrightarrow> payables_ok db \<Longrightarrow> payables_ok db'"
proof (induction rule: purchase_step.induct)
  case (order_it env user uq db p db')
  have wf: "table_wf pu_pk (db_purchase_orders db)" using order_it(2) by (simp add: purchasing_ok_def)
  from order_it(1) wf show ?case
  proof (cases rule: create_purchase_orderD)
    case (1 us ls os au)
    show ?thesis
    proof (rule payables_ok_orders [OF order_it(3)])
      fix g assume "g \<in> set (tb_rows (db_goods_receipts db))"
      then obtain r where "r \<in> set (tb_rows (db_purchase_orders db))" "pu_pk r = gr_purchase_order g"
        using order_it(2) unfolding purchasing_ok_def by blast
      then show "order_supplier (gr_purchase_order g) db' = order_supplier (gr_purchase_order g) db"
        using create_purchase_order_supplier [OF order_it(1) wf] by metis
    qed (simp_all add: 1(16))
  qed
next
  case (amend_it p db env user inputs expected notes' p' db')
  from amend_it(2) show ?case
  proof (cases rule: amend_purchase_orderD)
    case (1 us ls f au)
    show ?thesis
      by (rule payables_ok_orders [OF amend_it(4)], simp_all add: 1(10))
        (rule order_supplier_update [where F = f and j = "pu_pk p"], use 1(8) in \<open>simp_all add: same_order_def\<close>)
  qed
next
  case (issue_it p db env user p' db')
  from issue_it(2) show ?case
  proof (cases rule: issue_purchase_orderD)
    case (1 F au)
    have "order_supplier k db' = order_supplier k db" for k
      by (rule order_supplier_update [where F = F and j = "pu_pk p"]) (simp_all add: 1(2,3,7))
    then show ?thesis by (intro payables_ok_orders [OF issue_it(4)]) (simp_all add: 1(7))
  qed
next
  case (cancel_it p db env user reason p' db')
  from cancel_it(2) show ?case
  proof (cases rule: cancel_purchase_orderD)
    case (1 F au)
    have "order_supplier k db' = order_supplier k db" for k
      by (rule order_supplier_update [where F = F and j = "pu_pk p"]) (simp_all add: 1(2,3,6))
    then show ?thesis by (intro payables_ok_orders [OF cancel_it(4)]) (simp_all add: 1(6))
  qed
next
  case (close_it p db env user reason p' db')
  from close_it(2) show ?case
  proof (cases rule: close_purchase_orderD)
    case (1 F au)
    have "order_supplier k db' = order_supplier k db" for k
      by (rule order_supplier_update [where F = F and j = "pu_pk p"]) (simp_all add: 1(2,3,6))
    then show ?thesis by (intro payables_ok_orders [OF close_it(4)]) (simp_all add: 1(6))
  qed
next
  case (receive_it q db env user g p' db')
  then show ?case by (blast intro: create_goods_receipt_payables)
next
  case (pay_it env user yq db y db')
  then show ?case by (blast intro: record_supplier_payment_payables)
next
  case (reverse_it env user pk reason on db y db')
  then show ?case by (blast intro: reverse_supplier_payment_payables)
next
  case (open_it env user s amount on db e db')
  then show ?case by (blast intro: load_supplier_opening_payables)
next
  case (elsewhere db db')
  then show ?case
    by (intro payables_ok_orders [of db db']) (simp_all add: purchasing_untouched_def order_supplier_def)
qed

lemma purchase_step_ok: "purchase_step db db' \<Longrightarrow> purchasing_ok db \<Longrightarrow> purchasing_ok db'"
proof (induction rule: purchase_step.induct)
  case (order_it env user uq db p db')
  then show ?case by (blast intro: create_purchase_order_ok)
next
  case (amend_it p db env user inputs expected notes' p' db')
  then show ?case by (blast intro: amend_purchase_order_ok)
next
  case (issue_it p db env user p' db')
  then show ?case by (blast intro: issue_purchase_order_ok)
next
  case (cancel_it p db env user reason p' db')
  then show ?case by (blast intro: cancel_purchase_order_ok)
next
  case (close_it p db env user reason p' db')
  then show ?case by (blast intro: close_purchase_order_ok)
next
  case (receive_it q db env user g p' db')
  then show ?case by (blast intro: create_goods_receipt_ok)
next
  case (pay_it env user yq db y db')
  from pay_it(1) show ?case
    by (cases rule: record_supplier_paymentD)
      (use pay_it(2) purchasing_ok_cong [of db' db] in \<open>simp_all add: tolerance_def profile_of_def\<close>)
next
  case (reverse_it env user pk reason on db y db')
  from reverse_it(1) show ?case
    by (cases rule: reverse_supplier_paymentD)
      (use reverse_it(2) purchasing_ok_cong [of db' db] in \<open>simp_all add: tolerance_def profile_of_def\<close>)
next
  case (open_it env user s amount on db e db')
  obtain sl where "db' = db\<lparr>db_sle := sl\<rparr>"
    using record_supplier_entryD(2) [OF load_supplier_opening_balanceD(1) [OF open_it(1)]] by blast
  then show ?case using open_it(2) purchasing_ok_cong [of db' db] by (simp add: tolerance_def profile_of_def)
next
  case (elsewhere db db')
  then show ?case using purchasing_ok_cong [of db' db] by (simp add: purchasing_untouched_def)
qed

lemma purchases_reachable_ok:
  assumes "purchase_step\<^sup>*\<^sup>* db db'" "purchasing_ok db" "payables_ok db"
  shows "purchasing_ok db' \<and> payables_ok db'"
  using assms by (induction rule: rtranclp_induct) (auto intro: purchase_step_ok purchase_step_payables)


section \<open>Supplier positions\<close>

lemma sle_row_sel [simp]:
  "lr_pk (sle_row e) = se_pk e" "lr_entry_date (sle_row e) = se_entry_date e"
  "lr_entry_type (sle_row e) = se_entry_type e" "lr_amount (sle_row e) = se_amount e"
  "lr_source_type (sle_row e) = se_source_type e" "lr_source_id (sle_row e) = se_source_id e"
  by (simp_all add: sle_row_def)

lemma debit_note_negative:
  assumes "ledger_ok db" "e \<in> set (tb_rows (db_sle db))" "se_entry_type e = ''DEBIT_NOTE''"
  shows "se_amount e \<le> 0"
proof -
  have "sle_check e = Inr ()" using assms(1,2) by (simp add: ledger_ok_def list_all_iff)
  then have "sle_sign_ok ''DEBIT_NOTE'' (se_amount e)" using assms(3) by (auto simp: sle_check_def split: if_splits)
  then show ?thesis by (simp add: sle_sign_ok_def)
qed

interpretation owing: walked_ledger
  "\<lambda>db :: 'a ledger_db_scheme. tb_rows (db_sle db)" se_supplier sle_row supplier_policy ledger_ok
  by unfold_locales (auto simp: ledger_ok_def table_wf_def supplier_policy_def intro: debit_note_negative)

lemma supplier_position_eq: "supplier_position env s (Some d) db = walk s d (owing.as_of s d db) [] supplier_policy"
  by (simp add: supplier_position_def Let_def supplier_entries_as_of_def owing.as_of_def)

lemma supplier_position_balance:
  assumes "ledger_ok db"
  shows "po_balance (supplier_position env s (Some d) db) = supplier_balance s (Some d) db"
    "po_total_outstanding (supplier_position env s (Some d) db) = max 0 (supplier_balance s (Some d) db)"
  using owing.position [OF assms, of s d]
  by (simp_all add: supplier_position_eq owing.total_def supplier_balance_def up_to_def)

lemma supplier_payment_reversal:
  assumes "record_supplier_payment env user q db = Inr (p, db1)" "find_submission (yq_submission_id q) db = None"
    and "reverse_supplier_payment env' user' (sy_pk p) reason (Some rd) db1 = Inr (p', db2)"
    and "payables_ok db" "ledger_ok db" "sy_payment_date p \<le> d" "rd \<le> d"
  shows "supplier_position env'' s (Some d) db2 = supplier_position env'' s (Some d) db"
    "supplier_balance s None db2 = supplier_balance s None db"
proof -
  from assms(1) obtain t where R: "tb_rows (db_sle db1) = tb_rows (db_sle db) @ [t]" "payment_entries p t" "ledger_ok db1"
    "tb_rows (db_supplier_payments db1) = tb_rows (db_supplier_payments db) @ [p]" "sy_pk p = tb_seq (db_supplier_payments db)"
    "\<not> sy_is_reversed p" "is_money (sy_amount p)"
    by (cases rule: record_supplier_paymentD) (use assms(2,5) in \<open>auto simp: new_supplier_payment_def request_payload_def\<close>)
  have wf: "table_wf sy_pk (db_supplier_payments db1)"
    using record_supplier_payment_payables [OF assms(1,4)] by (simp add: payables_ok_def)
  have get: "tb_get sy_pk (sy_pk p) (db_supplier_payments db1) = Some p"
    by (rule tb_get_row [OF wf]) (simp add: R(4))
  from assms(3) obtain a where A: "tb_rows (db_sle db2) = tb_rows (db_sle db1) @ [a]" "ledger_ok db2"
    "se_supplier a = sy_supplier p" "se_entry_type a = ''ADJUSTMENT''" "se_amount a = sy_amount p" "se_entry_date a = rd"
    "se_source_type a = ''PAYMENT''" "se_source_id a = Some (sy_pk p)"
    by (cases rule: reverse_supplier_paymentD) (use get R(3,6,7) in \<open>auto\<close>)
  have fresh: "\<forall>e \<in> set (tb_rows (db_sle db)). lr_source_type (sle_row e) = ''PAYMENT'' \<longrightarrow> lr_source_id (sle_row e) \<noteq> Some (sy_pk p)"
    using assms(4) R(5) by (fastforce simp: payables_ok_def table_wf_def list_all_iff)
  have rows: "tb_rows (db_sle db2) = tb_rows (db_sle db) @ [t, a]" using R(1) A(1) by simp
  have "walk s d (owing.as_of s d db2) [] supplier_policy = walk s d (owing.as_of s d db) [] supplier_policy"
    by (rule owing.reversal [OF rows A(2), where st = "''PAYMENT''" and k = "sy_pk p"])
      (use R(2) A fresh assms(6,7) in \<open>auto simp: payment_entries_def supplier_policy_def\<close>)
  then show "supplier_position env'' s (Some d) db2 = supplier_position env'' s (Some d) db"
    by (simp add: supplier_position_eq)
  show "supplier_balance s None db2 = supplier_balance s None db"
    using R(2) A by (simp add: supplier_balance_def up_to_def rows payment_entries_def)
qed


section \<open>What one receipt does\<close>

definition receipt_value :: "receipt_input \<Rightarrow> decimal" where
  "receipt_value r =
     (let l = ri_purchase_order_line r; taxable = to_money (ul_unit_cost l * to_quantity (ri_quantity_received r))
      in taxable + to_money (taxable * ul_tax_rate_percent l / 100))"

lemma price_loop_values:
  "price_loop order already tol seen raws = Inr priced \<Longrightarrow> map pc_line_total priced = map receipt_value raws"
proof (induction raws arbitrary: seen priced)
  case (Cons raw raws)
  then obtain rest where "price_loop order already tol (insert (ul_pk (ri_purchase_order_line raw)) seen) raws = Inr rest"
    "map pc_line_total priced = receipt_value raw # map pc_line_total rest"
    by (auto simp: Let_def result_simps receipt_value_def split: if_splits)
  then show ?case using Cons.IH by auto
qed simp

lemma posted_on_hand:
  assumes "\<forall>(c, m, l) \<in> set ts. posted g c m l" "map pc_purchase_order_line (map fst ts) = map ri_purchase_order_line raws"
    "map pc_quantity_received (map fst ts) = map (to_quantity \<circ> ri_quantity_received) raws"
  shows "sum_where (\<lambda>m. mv_product m = k) mv_quantity (map (\<lambda>(c, m, l). m) ts)
    = sum_where (\<lambda>r. ul_product (ri_purchase_order_line r) = k) (\<lambda>r. to_quantity (ri_quantity_received r)) raws"
  using assms
proof (induction ts arbitrary: raws)
  case (Cons t ts)
  then obtain r rs where raws: "raws = r # rs" by (cases raws) auto
  then show ?case using Cons by (cases t) (auto simp: posted_def)
qed simp

lemma create_goods_receipt_effect:
  assumes "create_goods_receipt env user q db = Inr ((g, p'), db')"
  shows "on_hand_expression None k db' = on_hand_expression None k db +
      sum_where (\<lambda>r. ul_product (ri_purchase_order_line r) = k) (\<lambda>r. to_quantity (ri_quantity_received r)) (rr_lines q) \<and>
    supplier_balance s None db' = supplier_balance s None db +
      (if pu_supplier (rr_purchase_order q) = s then sum_list (map receipt_value (rr_lines q)) else 0) \<and>
    gr_total_amount g = sum_list (map receipt_value (rr_lines q)) \<and> db_cle db' = db_cle db"
  using assms
proof (cases rule: create_goods_receiptD)
  case (1 d priced ts es lots ms ls sl au st)
  note P = price_receipt_linesD [OF 1(5)]
  have "map pc_line_total priced = map receipt_value (rr_lines q)"
    by (rule price_loop_values) (use 1(5) in \<open>simp add: price_receipt_lines_def split: if_splits\<close>)
  then have tot: "gr_total_amount g = sum_list (map receipt_value (rr_lines q))"
    using priced_money(1) [OF P(4)] by (simp add: 1(6) new_goods_receipt_def)
  have "sum_where (\<lambda>m. mv_product m = k) mv_quantity (map (\<lambda>(c, m, l). m) ts)
    = sum_where (\<lambda>r. ul_product (ri_purchase_order_line r) = k) (\<lambda>r. to_quantity (ri_quantity_received r)) (rr_lines q)"
    by (rule posted_on_hand [OF 1(8)]) (use P(1,2) in \<open>simp_all only: 1(7)\<close>)
  then have hand: "on_hand_expression None k db' = on_hand_expression None k db +
      sum_where (\<lambda>r. ul_product (ri_purchase_order_line r) = k) (\<lambda>r. to_quantity (ri_quantity_received r)) (rr_lines q)"
    using 1(9) by (simp add: on_hand_expression_def occurred_by_def 1(18))
  have "sum_where (\<lambda>e. se_supplier e = s) se_amount es = (if pu_supplier (rr_purchase_order q) = s then gr_total_amount g else 0)"
    using 1(13) by (cases es) (auto simp: receipt_entries_def split: if_splits)
  moreover have sl: "tb_rows (db_sle db') = tb_rows (db_sle db) @ es" using 1(14) by (simp add: 1(18))
  ultimately have owed: "supplier_balance s None db' = supplier_balance s None db +
      (if pu_supplier (rr_purchase_order q) = s then sum_list (map receipt_value (rr_lines q)) else 0)"
    using supplier_balance_append [OF sl, of s] by (simp add: tot)
  show ?thesis using hand owed tot by (simp add: 1(18))
qed

end
