(* ===== verification/Suppliers.thy ===== *)
theory Suppliers
  imports Payables Interfaces
begin

text \<open>
  The rest of what purchasing promises: a product has at most one preferred supplier whatever is
  linked and unlinked, a supplier payment can be retried under its submission id but not changed,
  and the life of a purchase order ends.
\<close>


section \<open>The preferred supplier of a product\<close>

definition preferred_links :: "nat \<Rightarrow> 'a purchasing_db_scheme \<Rightarrow> product_supplier list" where
  "preferred_links product db =
     filter (\<lambda>l. ps_product l = product \<and> ps_is_preferred l) (tb_rows (db_product_suppliers db))"

definition links_ok :: "'a purchasing_db_scheme \<Rightarrow> bool" where
  "links_ok db \<longleftrightarrow> table_wf ps_pk (db_product_suppliers db) \<and>
     distinct (map (\<lambda>l. (ps_product l, ps_supplier l)) (tb_rows (db_product_suppliers db))) \<and>
     (\<forall>l \<in> set (tb_rows (db_product_suppliers db)). \<forall>r \<in> set (tb_rows (db_product_suppliers db)).
        ps_is_preferred l \<and> ps_is_preferred r \<and> ps_product l = ps_product r \<longrightarrow> l = r)"

lemma find_linkD:
  assumes "find_link p s db = Some l"
  shows "l \<in> set (tb_rows (db_product_suppliers db))" "ps_product l = p" "ps_supplier l = s"
  using tb_firstD [OF assms [unfolded find_link_def]] by simp_all

text \<open>The table after a promotion: the other links of the product are demoted.\<close>

definition promoted :: "product_supplier \<Rightarrow> product_supplier \<Rightarrow> product_supplier" where
  "promoted link l = (if ps_product l = ps_product link then l\<lparr>ps_is_preferred := ps_pk l = ps_pk link\<rparr> else l)"

lemma promoted_sel [simp]:
  "ps_pk (promoted link l) = ps_pk l" "ps_product (promoted link l) = ps_product l" "ps_supplier (promoted link l) = ps_supplier l"
  "ps_is_preferred (promoted link l) \<longleftrightarrow> (if ps_product l = ps_product link then ps_pk l = ps_pk link else ps_is_preferred l)"
  by (simp_all add: promoted_def)

definition demoted :: "product_supplier \<Rightarrow> product_supplier \<Rightarrow> product_supplier" where
  "demoted link l = (if ps_product l = ps_product link \<and> ps_is_preferred l \<and> ps_pk l \<noteq> ps_pk link
     then l\<lparr>ps_is_preferred := False\<rparr> else l)"

lemma preferred_self [simp]: "ps_is_preferred l = b \<Longrightarrow> l\<lparr>ps_is_preferred := b\<rparr> = l"
  by (cases l) simp

lemma demoted_promoted:
  assumes "ps_pk l = ps_pk link \<longrightarrow> l = link"
  shows "(if ps_pk (demoted link l) = ps_pk link then (demoted link l)\<lparr>ps_is_preferred := True\<rparr> else demoted link l) = promoted link l"
    and "ps_is_preferred link \<Longrightarrow> demoted link l = promoted link l"
  using assms by (cases "l = link"; auto simp: demoted_def promoted_def)+

text \<open>An owner's promotion of an existing link always succeeds: the index it could run into is free.\<close>

lemma set_preferred_supplier_works:
  assumes "links_ok db" "find_link p s db = Some link" "has_role user [OWNER]"
  obtains l au where
    "set_preferred_supplier env user p s db = Inr (l, db\<lparr>db_product_suppliers := (db_product_suppliers db)\<lparr>
       tb_rows := map (promoted link) (tb_rows (db_product_suppliers db))\<rparr>, db_audit := au\<rparr>)"
    "l = promoted link link"
proof -
  let ?rows = "tb_rows (db_product_suppliers db)"
  note L = find_linkD [OF assms(2)]
  have same: "ps_pk l = ps_pk link \<longrightarrow> l = link" if "l \<in> set ?rows" for l
    using table_wf_inj [of ps_pk "db_product_suppliers db"] assms(1) L(1) that by (auto simp: links_ok_def)
  let ?dem = "map (\<lambda>l. if ps_product l = p \<and> ps_is_preferred l \<and> ps_pk l \<noteq> ps_pk link
                            then l\<lparr>ps_is_preferred := False\<rparr> else l) ?rows"
  have dem: "?dem = map (demoted link) ?rows" by (simp add: demoted_def [abs_def] L(2))
  have free: "\<not> (\<exists>l \<in> set (map (demoted link) ?rows). ps_product l = ps_product link \<and> ps_is_preferred l)"
    if "\<not> ps_is_preferred link"
    using that same by (auto simp: demoted_def split: if_splits)
  have up: "map (\<lambda>l. if ps_pk l = ps_pk link then l\<lparr>ps_is_preferred := True\<rparr> else l) (map (demoted link) ?rows) = map (promoted link) ?rows"
    using demoted_promoted(1) [OF same] by simp
  have keep: "map (demoted link) ?rows = map (promoted link) ?rows" if pref: "ps_is_preferred link"
    using demoted_promoted(2) [OF same pref] by simp
  have "\<exists>c. set_preferred_supplier env user p s db = Inr (promoted link link,
      record_audit env A_UPDATE ''product_supplier'' (Some (ps_pk link)) user S_WEB None c
        (db\<lparr>db_product_suppliers := (db_product_suppliers db)\<lparr>tb_rows := map (promoted link) ?rows\<rparr>\<rparr>))"
  proof (cases "ps_is_preferred link")
    case True
    then have "promoted link link = link" by (simp add: promoted_def)
    then show ?thesis using assms(2,3) True by (simp add: set_preferred_supplier_def Let_def dem keep) blast
  next
    case False
    then have "promoted link link = link\<lparr>ps_is_preferred := True\<rparr>" by (simp add: promoted_def)
    then show ?thesis
      using assms(2,3) False free [OF False]
      by (simp add: set_preferred_supplier_def Let_def dem tb_exists_iff tb_update_def up del: map_map) blast
  qed
  then show ?thesis using that record_audit_eq by metis
qed

lemma promoted_links_ok:
  assumes "links_ok db" "link \<in> set (tb_rows (db_product_suppliers db))"
    "db_product_suppliers db' = (db_product_suppliers db)\<lparr>tb_rows := map (promoted link) (tb_rows (db_product_suppliers db))\<rparr>"
  shows "links_ok db'" "preferred_links (ps_product link) db' = [promoted link link]"
proof -
  let ?rows = "tb_rows (db_product_suppliers db)"
  have wf: "table_wf ps_pk (db_product_suppliers db)" using assms(1) by (simp add: links_ok_def)
  have same: "l = r" if "l \<in> set ?rows" "r \<in> set ?rows" "ps_pk l = ps_pk r" for l r
    using table_wf_inj [OF wf] that by blast
  have "table_wf ps_pk (db_product_suppliers db')"
    using wf by (simp add: assms(3) table_wf_def list_all_iff comp_def)
  moreover have "l = r" if "l \<in> set ?rows" "r \<in> set ?rows" "ps_is_preferred (promoted link l)" "ps_is_preferred (promoted link r)"
      "ps_product l = ps_product r" for l r
    using assms(1) that same [OF that(1) assms(2)] same [OF that(2) assms(2)] by (auto simp: links_ok_def split: if_splits)
  ultimately show "links_ok db'"
    using assms(1) by (simp add: links_ok_def assms(3) comp_def del: promoted_sel(4)) blast
  have "distinct ?rows" using wf by (auto simp: table_wf_def distinct_map)
  moreover have "preferred_links (ps_product link) db' = map (promoted link) (filter (\<lambda>l. l = link) ?rows)"
    unfolding preferred_links_def assms(3)
    using same [OF _ assms(2)] by (auto simp: filter_map comp_def intro!: arg_cong [of _ _ "map (promoted link)"] filter_cong)
  moreover have "filter (\<lambda>l. l = link) rows = [link]" if "distinct rows" "link \<in> set rows" for rows
    using that by (induction rows) (auto simp: filter_empty_conv)
  ultimately show "preferred_links (ps_product link) db' = [promoted link link]" using assms(2) by simp
qed

lemma set_preferred_supplierD:
  assumes "set_preferred_supplier env user p s db = Inr (l, db')" "links_ok db"
  obtains link where "find_link p s db = Some link" "l = promoted link link" "links_ok db'" "preferred_links p db' = [l]"
    "tb_rows (db_product_suppliers db') = map (promoted link) (tb_rows (db_product_suppliers db))"
proof -
  obtain link where link: "find_link p s db = Some link" and user: "has_role user [OWNER]"
    using assms(1) by (auto simp: set_preferred_supplier_def split: option.splits if_splits)
  note L = find_linkD [OF link]
  obtain l0 au where w: "set_preferred_supplier env user p s db = Inr (l0, db\<lparr>db_product_suppliers := (db_product_suppliers db)\<lparr>
       tb_rows := map (promoted link) (tb_rows (db_product_suppliers db))\<rparr>, db_audit := au\<rparr>)" "l0 = promoted link link"
    using set_preferred_supplier_works [OF assms(2) link user] by metis
  then have db': "db' = db\<lparr>db_product_suppliers := (db_product_suppliers db)\<lparr>
       tb_rows := map (promoted link) (tb_rows (db_product_suppliers db))\<rparr>, db_audit := au\<rparr>" and l: "l = promoted link link"
    using assms(1) by simp_all
  have t: "db_product_suppliers db' = (db_product_suppliers db)\<lparr>tb_rows := map (promoted link) (tb_rows (db_product_suppliers db))\<rparr>"
    by (simp add: db')
  show ?thesis
    using that [OF link l] promoted_links_ok [OF assms(2) L(1) t] L(2) t by (simp add: l)
qed

text \<open>Writing the supplier's own code for a product, or a new link, changes no preference.\<close>

lemma upsert_linkD:
  assumes "upsert_link s p sku db = (l, c, t)" "links_ok db" "db_product_suppliers db' = t"
  shows "links_ok db'" "\<And>k. map ps_supplier (preferred_links k db') = map ps_supplier (preferred_links k db)"
    "ps_product l = p" "ps_supplier l = s" "l \<in> set (tb_rows t)"
proof -
  let ?rows = "tb_rows (db_product_suppliers db)"
  have wf: "table_wf ps_pk (db_product_suppliers db)" using assms(2) by (simp add: links_ok_def)
  have "links_ok db' \<and> (\<forall>k. map ps_supplier (preferred_links k db') = map ps_supplier (preferred_links k db)) \<and>
    ps_product l = p \<and> ps_supplier l = s \<and> l \<in> set (tb_rows t)"
  proof (cases "find_link p s db")
    case None
    then have free: "\<forall>r \<in> set ?rows. \<not> (ps_product r = p \<and> ps_supplier r = s)"
      by (simp add: find_link_def tb_first_None)
    let ?new = "\<lambda>pk. \<lparr>ps_pk = pk, ps_product = p, ps_supplier = s, ps_supplier_sku = sku, ps_is_preferred = False\<rparr>"
    have t: "t = snd (tb_insert ?new (db_product_suppliers db))" and l: "l = ?new (tb_seq (db_product_suppliers db))"
      using assms(1) None by (auto simp: upsert_link_def tb_insert_def Let_def)
    have "table_wf ps_pk t" unfolding t by (rule table_wf_insert [OF wf]) simp
    then show ?thesis
      using assms(2) free unfolding links_ok_def preferred_links_def assms(3)
      by (auto simp: t l table_simps)
  next
    case (Some r)
    note R = find_linkD [OF Some]
    let ?f = "\<lambda>r. r\<lparr>ps_supplier_sku := sku\<rparr>"
    have t: "t = tb_update ps_pk (ps_pk r) ?f (db_product_suppliers db)" and l: "l = ?f r"
      using assms(1) Some by (auto simp: upsert_link_def)
    define g :: "product_supplier \<Rightarrow> product_supplier" where "g x = (if ps_pk x = ps_pk r then ?f x else x)" for x
    have g: "ps_pk (g x) = ps_pk x" "ps_product (g x) = ps_product x" "ps_supplier (g x) = ps_supplier x"
      "ps_is_preferred (g x) = ps_is_preferred x" for x by (simp_all add: g_def)
    have rows: "tb_rows t = map g ?rows" by (simp add: t table_simps g_def [abs_def])
    have "table_wf ps_pk t" unfolding t by (rule table_wf_update [OF wf]) simp
    moreover have "l \<in> set (tb_rows t)" using R(1) by (auto simp: rows l g_def)
    moreover have "distinct (map (\<lambda>l. (ps_product l, ps_supplier l)) (tb_rows t))"
      using assms(2) by (simp add: links_ok_def rows comp_def g)
    moreover have "\<forall>x \<in> set (tb_rows t). \<forall>y \<in> set (tb_rows t).
        ps_is_preferred x \<and> ps_is_preferred y \<and> ps_product x = ps_product y \<longrightarrow> x = y"
      using assms(2) by (simp add: links_ok_def rows g) blast
    moreover have "map ps_supplier (preferred_links k db') = map ps_supplier (preferred_links k db)" for k
      by (simp add: preferred_links_def assms(3) rows filter_map comp_def g)
    ultimately show ?thesis using R(2,3) by (simp add: links_ok_def assms(3) l)
  qed
  then show "links_ok db'" "\<And>k. map ps_supplier (preferred_links k db') = map ps_supplier (preferred_links k db)"
    "ps_product l = p" "ps_supplier l = s" "l \<in> set (tb_rows t)" by simp_all
qed

lemma link_product_supplierD:
  assumes "link_product_supplier env user s p sku b db = Inr (l, db')" "links_ok db"
  shows "links_ok db'" "ps_product l = p" "ps_supplier l = s"
    "map ps_supplier (preferred_links k db') = (if b \<and> k = p then [s] else map ps_supplier (preferred_links k db))"
proof -
  obtain l0 c t where u: "upsert_link s p (strip sku) db = (l0, c, t)" by (metis prod_cases3)
  let ?b = "record_audit env (if c then A_CREATE else A_UPDATE) ''product_supplier'' (Some (ps_pk l0)) user S_WEB None
            (Some [(''product_id'', PInt (int (ps_product l0))), (''supplier_id'', PInt (int (ps_supplier l0))),
                   (''supplier_sku'', PStr (ps_supplier_sku l0))]) (db\<lparr>db_product_suppliers := t\<rparr>)"
  have step: "(\<not> b \<and> l = l0 \<and> db' = ?b) \<or>
      (b \<and> (\<exists>x. set_preferred_supplier env user p s ?b = Inr (x, db')) \<and> tb_get ps_pk (ps_pk l0) (db_product_suppliers db') = Some l)"
    using assms(1) by (auto simp: link_product_supplier_def Let_def u andThen_Inr_iff split: if_splits option.splits)
  note U = upsert_linkD [OF u assms(2), of ?b, simplified]
  have "links_ok db' \<and> ps_product l = p \<and> ps_supplier l = s \<and>
    map ps_supplier (preferred_links k db') = (if b \<and> k = p then [s] else map ps_supplier (preferred_links k db))"
  proof (cases b)
    case False
    then show ?thesis using step U by simp
  next
    case True
    then obtain x where x: "set_preferred_supplier env user p s ?b = Inr (x, db')"
      and l: "tb_get ps_pk (ps_pk l0) (db_product_suppliers db') = Some l" using step by blast
    from x U(1) obtain link where link: "find_link p s ?b = Some link" "x = promoted link link" "links_ok db'"
      "preferred_links p db' = [x]" "tb_rows (db_product_suppliers db') = map (promoted link) (tb_rows (db_product_suppliers ?b))"
      by (rule set_preferred_supplierD)
    note K = find_linkD [OF link(1)]
    have "preferred_links k db' = map (promoted link) (preferred_links k ?b)" if "k \<noteq> p"
      unfolding preferred_links_def link(5) filter_map
      using that K(2) by (auto intro!: arg_cong [of _ _ "map (promoted link)"] filter_cong)
    then have "map ps_supplier (preferred_links k db') = map ps_supplier (preferred_links k db)" if "k \<noteq> p"
      using that U(2) by (simp add: comp_def)
    moreover have "ps_product l = p \<and> ps_supplier l = s"
    proof -
      obtain r where r: "r \<in> set (tb_rows t)" "l = promoted link r" "ps_pk r = ps_pk l0"
        using tb_getD [OF l] by (auto simp: link(5))
      have "table_wf ps_pk t" using U(1) by (simp add: links_ok_def)
      then have "r = l0" using table_wf_inj [of ps_pk t] r U(5) by blast
      then show ?thesis using r U(3,4) by simp
    qed
    ultimately show ?thesis using True link K by simp
  qed
  then show "links_ok db'" "ps_product l = p" "ps_supplier l = s"
    "map ps_supplier (preferred_links k db') = (if b \<and> k = p then [s] else map ps_supplier (preferred_links k db))"
    by simp_all
qed

lemma unlink_product_supplierD:
  assumes "unlink_product_supplier env user s p db = Inr (u, db')" "links_ok db"
  shows "links_ok db'"
    "map ps_supplier (preferred_links k db') = filter (\<lambda>x. \<not> (k = p \<and> x = s)) (map ps_supplier (preferred_links k db))"
proof -
  let ?rows = "tb_rows (db_product_suppliers db)"
  obtain link where link: "find_link p s db = Some link"
    and t: "db_product_suppliers db' = tb_delete (\<lambda>l. ps_pk l = ps_pk link) (db_product_suppliers db)"
    using assms(1) by (auto simp: unlink_product_supplier_def split: option.splits if_splits)
  note L = find_linkD [OF link]
  have wf: "table_wf ps_pk (db_product_suppliers db)" using assms(2) by (simp add: links_ok_def)
  show "links_ok db'"
    using assms(2) table_wf_delete [OF wf] by (simp add: links_ok_def t table_simps distinct_map_filter)
  have "l = link" if "l \<in> set ?rows" "ps_product l = p" "ps_supplier l = s" for l
    using assms(2) that L unfolding links_ok_def distinct_map by (auto dest!: inj_onD)
  then have same: "ps_pk l = ps_pk link \<longleftrightarrow> ps_product l = p \<and> ps_supplier l = s" if "l \<in> set ?rows" for l
    using table_wf_inj [OF wf that L(1)] that L(2,3) by metis
  show "map ps_supplier (preferred_links k db') = filter (\<lambda>x. \<not> (k = p \<and> x = s)) (map ps_supplier (preferred_links k db))"
    unfolding preferred_links_def filter_map t tb_delete_rows filter_filter
    by (rule arg_cong [of _ _ "map ps_supplier"], rule filter_cong [OF refl]) (auto simp: same)
qed

lemma distinct_constant_length: "distinct xs \<Longrightarrow> (\<And>x y. x \<in> set xs \<Longrightarrow> y \<in> set xs \<Longrightarrow> x = y) \<Longrightarrow> length xs \<le> 1"
proof (induction xs)
  case (Cons x xs)
  then have "x \<notin> set xs" "\<And>y. y \<in> set xs \<Longrightarrow> y = x" by auto
  then have "xs = []" by (cases xs) auto
  then show ?case by simp
qed simp

lemma preferred_at_most_one:
  assumes "links_ok db"
  shows "length (preferred_links k db) \<le> 1"
proof (rule distinct_constant_length)
  show "distinct (preferred_links k db)"
    using assms by (auto simp: links_ok_def table_wf_def distinct_map preferred_links_def)
  show "x = y" if "x \<in> set (preferred_links k db)" "y \<in> set (preferred_links k db)" for x y
    using assms that by (auto simp: links_ok_def preferred_links_def)
qed

text \<open>A step of the association: the three services, or any write that leaves the table alone.\<close>

inductive link_step :: "'a purchasing_db_scheme \<Rightarrow> 'a purchasing_db_scheme \<Rightarrow> bool" where
  links: "link_product_supplier env user s p sku b db = Inr (l, db') \<Longrightarrow> link_step db db'"
| promotes: "set_preferred_supplier env user p s db = Inr (l, db') \<Longrightarrow> link_step db db'"
| unlinks: "unlink_product_supplier env user s p db = Inr (u, db') \<Longrightarrow> link_step db db'"
| elsewhere: "db_product_suppliers db' = db_product_suppliers db \<Longrightarrow> link_step db db'"

lemma link_step_ok: "link_step db db' \<Longrightarrow> links_ok db \<Longrightarrow> links_ok db'"
proof (induction rule: link_step.induct)
  case (promotes env user p s db l db')
  then show ?case by (blast elim: set_preferred_supplierD)
next
  case (elsewhere db' db)
  then show ?case by (simp add: links_ok_def)
qed (blast intro: link_product_supplierD(1) unlink_product_supplierD(1))+

lemma links_reachable_ok: "link_step\<^sup>*\<^sup>* db db' \<Longrightarrow> links_ok db \<Longrightarrow> links_ok db'"
  by (induction rule: rtranclp_induct) (auto intro: link_step_ok)


section \<open>A payment under its submission id\<close>

definition payment_accepted :: "actor option \<Rightarrow> supplier_payment_request \<Rightarrow> bool" where
  "payment_accepted user q \<longleftrightarrow> has_role user [OWNER] \<and> yq_submission_id q \<noteq> '''' \<and> yq_payment_date q \<noteq> None \<and>
     map_of SUPPLIER_METHODS (yq_method q) \<noteq> None \<and> 0 < to_money (yq_amount q)"

definition says_the_same :: "supplier_payment_request \<Rightarrow> supplier_payment \<Rightarrow> bool" where
  "says_the_same q p \<longleftrightarrow> (\<exists>d. yq_payment_date q = Some d \<and> payload_of p = request_payload q (to_money (yq_amount q)) d)"

lemma record_supplier_payment_taken:
  assumes "payment_accepted user q" "find_submission (yq_submission_id q) db = Some p"
  shows "record_supplier_payment env user q db =
    (if says_the_same q p then Inr (p, db) else Inl (invalid ''submission_id'' ''SUBMISSION_REPLAYED_WITH_CHANGES''))"
  using assms by (auto simp: record_supplier_payment_def payment_accepted_def says_the_same_def replayed_payment_def
      payload_differences_Nil Let_def)

lemma recorded_submission:
  assumes "record_supplier_payment env user q db = Inr (p, db')"
  shows "find_submission (yq_submission_id q) db' = Some p" "says_the_same q p"
proof -
  have "find_submission (yq_submission_id q) db' = Some p \<and> says_the_same q p"
    using assms
  proof (cases rule: record_supplier_paymentD)
    case (recorded d e ps sl au)
    have "sy_submission_id p = yq_submission_id q" by (simp add: recorded(5) new_supplier_payment_def)
    moreover have "find (\<lambda>p. sy_submission_id p = yq_submission_id q) (tb_rows (db_supplier_payments db)) = None"
      using recorded(2) by (simp add: find_submission_def tb_first_def)
    ultimately have "find_submission (yq_submission_id q) db' = Some p"
      by (simp add: find_submission_def tb_first_def recorded(8,12) find_append)
    then show ?thesis using recorded(1) by (simp add: says_the_same_def recorded(5))
  qed (auto simp: says_the_same_def)
  then show "find_submission (yq_submission_id q) db' = Some p" "says_the_same q p" by simp_all
qed

interpretation pay: checked_writer
  "\<lambda>(env, user, q) (db :: 'a purchasing_db_scheme). record_supplier_payment env user q db"
  "\<lambda>(env, user, q). Some (yq_submission_id q)" find_submission
  "\<lambda>(env, user, q). payment_accepted user q" "\<lambda>db. True" "\<lambda>(env, user, q). says_the_same q"
proof (unfold_locales, goal_cases)
  case (1 q k db r)
  then show ?case by (auto simp: record_supplier_payment_taken split: prod.splits)
next
  case (2 q k db r x)
  obtain env user rq where q: "q = (env, user, rq)" by (cases q)
  show ?case
  proof
    assume "(case q of (env, user, q) \<Rightarrow> \<lambda>db. record_supplier_payment env user q db) db = Inr x"
    then obtain p db' where "record_supplier_payment env user rq db = Inr (p, db')" by (cases x) (simp add: q)
    then show False using 2 by (cases rule: record_supplier_paymentD) (auto simp: q says_the_same_def)
  qed
next
  case (3 q db x)
  then show ?case
    by (auto simp: record_supplier_payment_def payment_accepted_def Let_def split: prod.splits if_splits option.splits)
next
  case (4 db q k r db')
  then show ?case by (auto dest: recorded_submission split: prod.splits)
qed

text \<open>Any other request under the same submission id gets the same payment or is refused.\<close>

lemma changed_submission_refused:
  assumes "record_supplier_payment env user q db = Inr (p, db')" "payment_accepted user' q'"
    "yq_submission_id q' = yq_submission_id q"
  shows "record_supplier_payment env' user' q' db' =
    (if says_the_same q' p then Inr (p, db') else Inl (invalid ''submission_id'' ''SUBMISSION_REPLAYED_WITH_CHANGES''))"
  by (rule record_supplier_payment_taken [OF assms(2)]) (simp add: assms(3) recorded_submission [OF assms(1)])


section \<open>The end of a purchase order\<close>

text \<open>
  The order's row is written without being read again: whatever became of it in the meantime, an
  order read as a draft or as issued can be cancelled.
\<close>

lemma cancel_writes_blindly:
  assumes "has_role user [OWNER]" "strip reason \<noteq> ''''" "pu_status p \<in> {PO_DRAFT, PO_ISSUED}"
    "\<forall>r \<in> set (tb_rows (db_purchase_orders db)). po_constraints r"
  shows "\<exists>p' db'. cancel_purchase_order env user p reason db = Inr (p', db') \<and>
    db_receipt_lines db' = db_receipt_lines db \<and>
    (\<forall>r \<in> set (tb_rows (db_purchase_orders db')). pu_pk r = pu_pk p \<longrightarrow> pu_status r = PO_CANCELLED)"
proof -
  have "PO_CANCELLED \<in> set (PO_TRANSITIONS (pu_status p))" using assms(3) by auto
  then show ?thesis
    using assms(1,2,4)
    by (auto simp: cancel_purchase_order_def po_transition_def save_purchase_order_def Let_def po_constraints_def
        list_all_iff table_simps)
qed

end
