(* ===== verification/Supplies.thy ===== *)
theory Supplies
  imports Samples Suppliers
begin

text \<open>
  The sample business buys: one supplier, an order of ten pieces at 50 with 18 percent tax, six of
  them received, a payment of 200 on account and its reversal.
\<close>

definition sample_supplier :: supplier where
  "sample_supplier = \<lparr>sp_pk = 1, sp_code = ''S1'', sp_name = ''Mill'', sp_contact_name = '''', sp_phone = ''1'',
     sp_alt_phone = '''', sp_email = '''', sp_billing_address = ''Road'', sp_dispatch_address = '''', sp_gstin = '''',
     sp_state_code = ''32'', sp_payment_terms_days = 0, sp_is_active = True, sp_created_by = Some 1, sp_updated_at = 0\<rparr>"

definition supplied_db :: purchasing_db where
  "supplied_db = receivables_db.extend owing_db
     (purchasing_db.fields \<lparr>tb_seq = 2, tb_rows = [sample_supplier]\<rparr> empty_table empty_table empty_table empty_table
        empty_table empty_table 1 1 1)"

definition empty_purchasing_db :: purchasing_db where
  "empty_purchasing_db = receivables_db.extend empty_receivables_db
     (purchasing_db.fields empty_table empty_table empty_table empty_table empty_table empty_table empty_table 1 1 1)"

definition sample_po_request :: purchase_request where
  "sample_po_request = \<lparr>uq_supplier = sample_supplier, uq_order_date = Some (Date 2025 4 1),
     uq_lines = [\<lparr>ui_product = sample_product, ui_quantity_ordered = 10, ui_unit_cost = 50\<rparr>],
     uq_expected_date = None, uq_notes = ''''\<rparr>"

definition drafted_db :: purchasing_db where
  "drafted_db = after (create_purchase_order sample_env sample_owner sample_po_request supplied_db) empty_purchasing_db"

definition sample_po :: "purchasing_db \<Rightarrow> purchase_order" where
  "sample_po db = hd (tb_rows (db_purchase_orders db))"

definition issued_db :: purchasing_db where
  "issued_db = after (issue_purchase_order sample_env sample_owner (sample_po drafted_db) drafted_db) empty_purchasing_db"

definition sample_arrival :: "decimal \<Rightarrow> purchasing_db \<Rightarrow> receipt_request" where
  "sample_arrival k db = \<lparr>rr_purchase_order = sample_po db, rr_receipt_date = Some (Date 2025 4 2),
     rr_lines = [\<lparr>ri_purchase_order_line = hd (tb_rows (db_purchase_lines db)), ri_quantity_received = k\<rparr>],
     rr_supplier_reference = '''', rr_notes = ''''\<rparr>"

definition received_db :: purchasing_db where
  "received_db = after (create_goods_receipt sample_env sample_owner (sample_arrival 6 issued_db) issued_db) empty_purchasing_db"

definition sample_remittance :: supplier_payment_request where
  "sample_remittance = \<lparr>yq_supplier = sample_supplier, yq_submission_id = ''y1'', yq_amount = 200, yq_method = ''UPI'',
     yq_payment_date = Some (Date 2025 4 3), yq_reference_number = '''', yq_notes = ''''\<rparr>"

definition remitted_db :: purchasing_db where
  "remitted_db = after (record_supplier_payment sample_env sample_owner sample_remittance received_db) empty_purchasing_db"

definition returned_db :: purchasing_db where
  "returned_db = after (reverse_supplier_payment sample_env sample_owner 1 ''bounced'' (Some (Date 2025 4 4)) remitted_db) empty_purchasing_db"

lemma sample_draft: "succeeds (create_purchase_order sample_env sample_owner sample_po_request supplied_db)"
  by code_simp

lemma sample_po_issue: "succeeds (issue_purchase_order sample_env sample_owner (sample_po drafted_db) drafted_db)"
  by code_simp

lemma sample_receive: "succeeds (create_goods_receipt sample_env sample_owner (sample_arrival 6 issued_db) issued_db)"
  by code_simp

lemma sample_over_receive: "\<not> succeeds (create_goods_receipt sample_env sample_owner (sample_arrival 11 issued_db) issued_db)"
  by code_simp

lemma sample_remit: "succeeds (record_supplier_payment sample_env sample_owner sample_remittance received_db)"
  by code_simp

lemma sample_return:
  "succeeds (reverse_supplier_payment sample_env sample_owner 1 ''bounced'' (Some (Date 2025 4 4)) remitted_db)"
  by code_simp

lemma sample_rows:
  "tb_rows (db_purchase_orders drafted_db) \<noteq> []" "tb_rows (db_purchase_orders issued_db) \<noteq> []"
  "tb_rows (db_purchase_lines issued_db) \<noteq> []"
  by code_simp+

lemma supplied_tables:
  "db_purchase_orders supplied_db = empty_table" "db_purchase_lines supplied_db = empty_table"
  "db_goods_receipts supplied_db = empty_table" "db_receipt_lines supplied_db = empty_table"
  "db_supplier_payments supplied_db = empty_table" "db_product_suppliers supplied_db = empty_table"
  "db_suppliers supplied_db = \<lparr>tb_seq = 2, tb_rows = [sample_supplier]\<rparr>"
  "db_cle supplied_db = db_cle owing_db" "db_sle supplied_db = db_sle owing_db"
  by (simp_all add: supplied_db_def owing_db_def receivables_db.defs billing_db.defs purchasing_db.defs)

lemma supplied_sle: "tb_rows (db_sle supplied_db) = []"
  by code_simp

lemma supplied_tolerance: "0 \<le> tolerance supplied_db"
  by code_simp

lemma supplied_ok: "purchasing_ok supplied_db" "payables_ok supplied_db" "ledger_ok supplied_db" "links_ok supplied_db"
  using supplied_tolerance owing_ledger_ok
  by (simp_all add: purchasing_ok_def payables_ok_def ledger_ok_def links_ok_def supplied_tables empty_table_def
      openings_total_def receipts_total_def paid_total_def supplier_balance_def up_to_def table_wf_def
      supplied_sle [unfolded supplied_tables])

lemma supply_steps:
  "purchase_step supplied_db drafted_db" "purchase_step drafted_db issued_db" "purchase_step issued_db received_db"
  "purchase_step received_db remitted_db" "purchase_step remitted_db returned_db"
proof -
  obtain p where "create_purchase_order sample_env sample_owner sample_po_request supplied_db = Inr (p, drafted_db)"
    using succeedsE [OF sample_draft] unfolding drafted_db_def .
  then show "purchase_step supplied_db drafted_db" by (rule purchase_step.order_it)
  obtain p where "issue_purchase_order sample_env sample_owner (sample_po drafted_db) drafted_db = Inr (p, issued_db)"
    using succeedsE [OF sample_po_issue] unfolding issued_db_def .
  then show "purchase_step drafted_db issued_db"
    by (rule purchase_step.issue_it [rotated]) (simp add: sample_po_def sample_rows)
  obtain r where "create_goods_receipt sample_env sample_owner (sample_arrival 6 issued_db) issued_db = Inr (r, received_db)"
    using succeedsE [OF sample_receive] unfolding received_db_def .
  then obtain g p where R: "create_goods_receipt sample_env sample_owner (sample_arrival 6 issued_db) issued_db = Inr ((g, p), received_db)"
    by (cases r) simp
  have "rr_purchase_order (sample_arrival 6 issued_db) \<in> set (tb_rows (db_purchase_orders issued_db))"
    "\<forall>r \<in> set (rr_lines (sample_arrival 6 issued_db)). ri_purchase_order_line r \<in> set (tb_rows (db_purchase_lines issued_db))"
    by (simp_all add: sample_arrival_def sample_po_def sample_rows)
  then show "purchase_step issued_db received_db" by (rule purchase_step.receive_it [OF _ _ R])
  obtain y where "record_supplier_payment sample_env sample_owner sample_remittance received_db = Inr (y, remitted_db)"
    using succeedsE [OF sample_remit] unfolding remitted_db_def .
  then show "purchase_step received_db remitted_db" by (rule purchase_step.pay_it)
  obtain y where "reverse_supplier_payment sample_env sample_owner 1 ''bounced'' (Some (Date 2025 4 4)) remitted_db = Inr (y, returned_db)"
    using succeedsE [OF sample_return] unfolding returned_db_def .
  then show "purchase_step remitted_db returned_db" by (rule purchase_step.reverse_it)
qed

lemma supply_reaches:
  "purchase_step\<^sup>*\<^sup>* supplied_db received_db" "purchase_step\<^sup>*\<^sup>* supplied_db remitted_db" "purchase_step\<^sup>*\<^sup>* supplied_db returned_db"
  using supply_steps by (meson rtranclp.rtrancl_into_rtrancl rtranclp.rtrancl_refl)+

end
