(* ===== verification/Visits.thy ===== *)
theory Visits
  imports Purchasing Interfaces
begin

text \<open>
  Field visits: \<^verbatim>\<open>field/models.py\<close> and \<^verbatim>\<open>field/services.py\<close>.  A visit is an observation: there is one
  writer, nothing is ever changed, and a repeat under the same key is the original visit.
\<close>


section \<open>Values of a payload\<close>

text \<open>
  A value a device sends, read as a \<open>'v\<close>: missing (also \<^verbatim>\<open>null\<close> and the empty string), one that
  reads, or one that does not.
\<close>

datatype 'v arg = Absent | Given 'v | Malformed


section \<open>Visits\<close>

record visit =
  vi_pk :: nat
  vi_client_uuid :: "string option"
  vi_customer :: nat
  vi_app_user :: nat
  vi_visited_at :: int
  vi_latitude :: "decimal option"
  vi_longitude :: "decimal option"
  vi_accuracy_metres :: "decimal option"
  vi_photo_media :: "nat option"
  vi_notes :: string
  vi_outcome :: string
  vi_device_id :: string
  vi_synced_at :: "int option"
  vi_updated_at :: int

record field_db = purchasing_db +
  db_visits :: "visit table"

lemma record_audit_visits [simp, frame_simps]:
  "db_visits (record_audit_from env a et ei u s b c d ip db) = db_visits db"
  by (simp add: record_audit_from_def)

definition VISIT_OUTCOMES :: "string list" where
  "VISIT_OUTCOMES = [''ORDER_TAKEN'', ''NO_ORDER'', ''SHOP_CLOSED'']"

definition visit_constraints :: "visit \<Rightarrow> bool" where
  "visit_constraints v \<longleftrightarrow>
     (vi_outcome v = '''' \<or> vi_outcome v \<in> set VISIT_OUTCOMES) \<and>
     (vi_latitude v = None \<longleftrightarrow> vi_longitude v = None)"

text \<open>\<open>NUMERIC(d, s)\<close>: the column rounds to its scale and refuses what does not fit its digits.\<close>

definition COORDINATE_SCALE :: decimal where "COORDINATE_SCALE = 1 / 1000000"

definition numeric_column :: "decimal \<Rightarrow> decimal \<Rightarrow> decimal option \<Rightarrow> error + decimal option" where
  "numeric_column scale limit v =
     (case v of None \<Rightarrow> Inr None
      | Some x \<Rightarrow> andThen (require (\<bar>quantize x scale\<bar> < limit) (PyError ''DataError'')) (\<lambda>_. Inr (Some (quantize x scale))))"

record visit_args =
  va_customer_id :: "nat arg"
  va_visited_at :: "int arg"
  va_outcome :: string
  va_notes :: string
  va_latitude :: "decimal option"
  va_longitude :: "decimal option"
  va_accuracy_metres :: "decimal option"
  va_device_id :: string

definition find_visit :: "string option \<Rightarrow> 'a field_db_scheme \<Rightarrow> visit option" where
  "find_visit key db = tb_first (\<lambda>v. vi_client_uuid v = key) (db_visits db)"

text \<open>An empty key is no key; others are compared as the UUIDs they are.\<close>

definition as_uuid :: "string option \<Rightarrow> string option" where
  "as_uuid client_uuid = (if client_uuid = Some '''' then None else client_uuid)"

text \<open>
  The row, with what the columns make of its values.  A visit needs the user that made it; a
  missing time is refused by the column, one that does not read before the row is sent.
\<close>

definition insert_visit ::
  "env \<Rightarrow> actor option \<Rightarrow> visit_args \<Rightarrow> string option \<Rightarrow> customer \<Rightarrow> 'a field_db_scheme \<Rightarrow>
   error + visit \<times> 'a field_db_scheme" where
  "insert_visit env user a key c db =
     (case actor_pk user of None \<Rightarrow> Inl (PyError ''ValueError'')
      | Some u \<Rightarrow>
     case va_visited_at a of Malformed \<Rightarrow> Inl (PyError ''ValidationError'')
     | Absent \<Rightarrow> Inl (IntegrityError ''visit_visited_at'')
     | Given t \<Rightarrow>
     andThen (numeric_column COORDINATE_SCALE 1000 (va_latitude a)) (\<lambda>lat.
     andThen (numeric_column COORDINATE_SCALE 1000 (va_longitude a)) (\<lambda>lon.
     andThen (numeric_column MONEY_SCALE 1000000 (va_accuracy_metres a)) (\<lambda>acc.
     let (v, rows) = tb_insert (\<lambda>pk. \<lparr>vi_pk = pk, vi_client_uuid = key, vi_customer = cu_pk c, vi_app_user = u,
           vi_visited_at = t, vi_latitude = lat, vi_longitude = lon, vi_accuracy_metres = acc, vi_photo_media = None,
           vi_notes = va_notes a, vi_outcome = va_outcome a, vi_device_id = take 64 (va_device_id a),
           vi_synced_at = None, vi_updated_at = now env\<rparr>) (db_visits db)
     in andThen (require (visit_constraints v) (IntegrityError ''ck_visit'')) (\<lambda>_.
        andThen (require (key = None \<or> find_visit key db = None) (IntegrityError ''visit_client_uuid'')) (\<lambda>_.
        Inr (v, db\<lparr>db_visits := rows\<rparr>)))))))"

definition visit_audit_state :: "customer \<Rightarrow> visit_args \<Rightarrow> state" where
  "visit_audit_state c a = [(''customer_id'', PInt (int (cu_pk c))), (''outcome'', PStr (va_outcome a))]"

definition record_visit ::
  "env \<Rightarrow> actor option \<Rightarrow> visit_args \<Rightarrow> string option \<Rightarrow> 'a field_db_scheme \<Rightarrow> error + visit \<times> 'a field_db_scheme" where
  "record_visit env user a client_uuid db =
     andThen (require_roles user INTERNAL) (\<lambda>_.
     let key = as_uuid client_uuid in
     case (if key = None then None else find_visit key db) of Some r \<Rightarrow> Inr (r, db)
     | None \<Rightarrow>
     andThen (require (va_latitude a = None \<longleftrightarrow> va_longitude a = None) (invalid ''latitude'' ''COORDS_INCOMPLETE'')) (\<lambda>_.
     andThen (require (va_outcome a = '''' \<or> va_outcome a \<in> set VISIT_OUTCOMES) (invalid ''outcome'' ''INVALID_CHOICE'')) (\<lambda>_.
     case va_customer_id a of Malformed \<Rightarrow> Inl (PyError ''ValueError'')
     | Absent \<Rightarrow> Inl (invalid ''customer_id'' ''NOT_FOUND'')
     | Given k \<Rightarrow>
     case tb_get cu_pk k (db_customers db) of None \<Rightarrow> Inl (invalid ''customer_id'' ''NOT_FOUND'')
     | Some c \<Rightarrow>
     case insert_visit env user a key c db of
       Inl (IntegrityError e) \<Rightarrow>
         (case find_visit key db of None \<Rightarrow> Inl (IntegrityError e) | Some r \<Rightarrow> Inr (r, db))
     | Inl e \<Rightarrow> Inl e
     | Inr (v, db) \<Rightarrow>
         Inr (v, record_audit_from env A_CREATE ''visit'' (Some (vi_pk v)) user S_API None
                (Some (visit_audit_state c a)) (va_device_id a) '''' db))))"


section \<open>What recording a visit does\<close>

lemma insert_visitD:
  assumes "insert_visit env user a key c db = Inr (v, db')"
  shows "vi_client_uuid v = key" "vi_pk v = tb_seq (db_visits db)" "vi_customer v = cu_pk c" "visit_constraints v"
    "key = None \<or> find_visit key db = None" "actor_pk user = Some (vi_app_user v)"
    "db' = db\<lparr>db_visits := (db_visits db)\<lparr>tb_seq := Suc (tb_seq (db_visits db)), tb_rows := tb_rows (db_visits db) @ [v]\<rparr>\<rparr>"
  using assms
  by (auto simp: insert_visit_def tb_insert_def Let_def andThen_Inr_iff split: option.splits arg.splits if_splits)

lemma record_visitD:
  assumes "record_visit env user a cu db = Inr (v, db')"
  obtains (original) "find_visit (as_uuid cu) db = Some v" "db' = db" "has_role user INTERNAL"
    | (recorded) c au where "has_role user INTERNAL" "find_visit (as_uuid cu) db = None \<or> as_uuid cu = None"
      "c \<in> set (tb_rows (db_customers db))" "va_customer_id a = Given (cu_pk c)" "vi_customer v = cu_pk c"
      "vi_client_uuid v = as_uuid cu" "vi_pk v = tb_seq (db_visits db)" "visit_constraints v" "actor_pk user = Some (vi_app_user v)"
      "db' = db\<lparr>db_visits := (db_visits db)\<lparr>tb_seq := Suc (tb_seq (db_visits db)), tb_rows := tb_rows (db_visits db) @ [v]\<rparr>, db_audit := au\<rparr>"
proof -
  have user: "has_role user INTERNAL" using assms by (auto simp: record_visit_def split: if_splits)
  show ?thesis
  proof (cases "(if as_uuid cu = None then None else find_visit (as_uuid cu) db)")
    case (Some r)
    then have "find_visit (as_uuid cu) db = Some r" by (simp split: if_splits)
    moreover have "v = r \<and> db' = db" using assms Some user by (simp add: record_visit_def Let_def)
    ultimately show ?thesis using original user by blast
  next
    case None
    then have free: "find_visit (as_uuid cu) db = None \<or> as_uuid cu = None" by (auto split: if_splits)
    obtain k c where k: "va_customer_id a = Given k" "tb_get cu_pk k (db_customers db) = Some c"
      using assms None by (auto simp: record_visit_def Let_def split: if_splits arg.splits option.splits)
    note C = tb_getD [OF k(2)]
    show ?thesis
    proof (cases "insert_visit env user a (as_uuid cu) c db")
      case (Inl e)
      then have "find_visit (as_uuid cu) db = Some v \<and> db' = db"
        using assms None k by (cases e) (auto simp: record_visit_def Let_def split: if_splits option.splits)
      then show ?thesis using original user by blast
    next
      case (Inr x)
      obtain v0 db0 where x: "x = (v0, db0)" by (cases x)
      note I = insert_visitD [OF Inr [unfolded x]]
      have "v = v0 \<and> (\<exists>au. db' = db0\<lparr>db_audit := au\<rparr>)"
        using assms None k Inr x by (auto simp: record_visit_def Let_def record_audit_from_def split: if_splits)
      then obtain au where au: "v = v0" "db' = db0\<lparr>db_audit := au\<rparr>" by blast
      show ?thesis
        by (rule recorded [of c au]) (use user free C k(1) I au in \<open>simp_all add: I(7)\<close>)
    qed
  qed
qed

lemma find_visit_last:
  "find_visit key db = None \<Longrightarrow> tb_rows (db_visits db') = tb_rows (db_visits db) @ [v] \<Longrightarrow> vi_client_uuid v = key \<Longrightarrow>
   find_visit key db' = Some v"
  by (simp add: find_visit_def tb_first_def find_append)

interpretation observe: idempotent_writer
  "\<lambda>(env, user, a, cu) (db :: 'a field_db_scheme). record_visit env user a cu db"
  "\<lambda>(env, user, a, cu). as_uuid cu" "\<lambda>u. find_visit (Some u)"
  "\<lambda>(env, user, a, cu). has_role user INTERNAL" "\<lambda>db. True"
proof (unfold_locales, goal_cases)
  case (1 q k db r)
  then show ?case by (auto simp: record_visit_def Let_def split: prod.splits)
next
  case (2 q db x)
  then show ?case by (cases x) (auto simp: record_visit_def split: prod.splits if_splits)
next
  case (3 db q k r db')
  obtain env user a cu where q: "q = (env, user, a, cu)" by (cases q)
  have "record_visit env user a cu db = Inr (r, db')" using 3(4) by (simp add: q)
  then show ?case
  proof (cases rule: record_visitD)
    case (recorded c au)
    then have "find_visit (Some k) db' = Some r"
      using 3(2,3) by (intro find_visit_last [where db = db]) (simp_all add: q)
    then show ?thesis by blast
  qed (use 3 in \<open>simp_all add: q\<close>)
qed

end
