(* ===== verification/Sync.thy ===== *)
theory Sync
  imports Visits
begin

text \<open>
  Offline synchronisation: \<^verbatim>\<open>sync/models.py\<close>, \<^verbatim>\<open>sync/services.py\<close> and \<^verbatim>\<open>sync/selectors.py\<close>.  A device
  pushes what it recorded offline; every operation's receipt is committed before the operation is
  tried, each operation is a transaction of its own, and a repeat is answered, not repeated.

  A push can fail half way, so these functions return the state beside the answer:
  \<open>(Inl e, db)\<close> is an exception that leaves \<open>db\<close> behind.
\<close>


section \<open>The record of an operation\<close>

datatype op_status = OP_RECEIVED | OP_ACCEPTED | OP_DUPLICATE | OP_DEFERRED | OP_REJECTED

text \<open>The keys the two handlers read; the times are the texts a device sends.\<close>

record payload =
  pd_delivery_id :: "nat arg"
  pd_recipient_name :: string
  pd_delivered_at :: "int arg"
  pd_latitude :: "decimal arg"
  pd_longitude :: "decimal arg"
  pd_customer_id :: "nat arg"
  pd_visited_at :: "int arg"
  pd_outcome :: string
  pd_notes :: string
  pd_accuracy_metres :: "decimal arg"

record operation =
  on_client_uuid :: string
  on_operation_type :: string
  on_client_created_at :: int
  on_payload :: payload

record sync_operation =
  op_pk :: nat
  op_client_uuid :: string
  op_device_id :: string
  op_app_user :: nat
  op_operation_type :: string
  op_client_created_at :: int
  op_received_at :: int
  op_processed_at :: "int option"
  op_state :: op_status
  op_result_entity_type :: string
  op_result_entity_id :: "nat option"
  op_error_code :: string
  op_payload :: "payload option"
  op_retry_count :: int

record sync_db = field_db +
  db_operations :: "sync_operation table"

lemma record_audit_operations [simp, frame_simps]:
  "db_operations (record_audit_from env a et ei u s b c d ip db) = db_operations db"
  by (simp add: record_audit_from_def)

definition operation_constraints :: "sync_operation \<Rightarrow> bool" where
  "operation_constraints r \<longleftrightarrow> (op_state r = OP_REJECTED \<longrightarrow> op_error_code r \<noteq> '''')"

definition MAX_BATCH :: nat where "MAX_BATCH = 200"

record op_result =
  rs_client_uuid :: string
  rs_status :: op_status
  rs_entity_type :: string
  rs_entity_id :: "nat option"
  rs_error_code :: string

definition op_result_of :: "sync_operation \<Rightarrow> op_status option \<Rightarrow> op_result" where
  "op_result_of r status =
     \<lparr>rs_client_uuid = op_client_uuid r, rs_status = (case status of None \<Rightarrow> op_state r | Some s \<Rightarrow> s),
      rs_entity_type = op_result_entity_type r, rs_entity_id = op_result_entity_id r, rs_error_code = op_error_code r\<rparr>"

definition find_operation :: "string \<Rightarrow> 'a sync_db_scheme \<Rightarrow> sync_operation option" where
  "find_operation cu db = tb_first (\<lambda>r. op_client_uuid r = cu) (db_operations db)"

text \<open>The receipt.  \<^verbatim>\<open>app_user\<close> must be a saved user; the texts must fit their columns.\<close>

definition insert_operation ::
  "env \<Rightarrow> actor option \<Rightarrow> string \<Rightarrow> operation \<Rightarrow> 'a sync_db_scheme \<Rightarrow> error + sync_operation \<times> 'a sync_db_scheme" where
  "insert_operation env user device_id q db =
     (case actor_pk user of None \<Rightarrow> Inl (PyError ''ValueError'')
      | Some u \<Rightarrow>
     let (r, rows) = tb_insert (\<lambda>pk. \<lparr>op_pk = pk, op_client_uuid = on_client_uuid q, op_device_id = device_id,
           op_app_user = u, op_operation_type = on_operation_type q, op_client_created_at = on_client_created_at q,
           op_received_at = now env, op_processed_at = None, op_state = OP_RECEIVED, op_result_entity_type = '''',
           op_result_entity_id = None, op_error_code = '''', op_payload = None, op_retry_count = 0\<rparr>) (db_operations db)
     in andThen (require (length device_id \<le> 64 \<and> length (on_operation_type q) \<le> 40) (PyError ''DataError'')) (\<lambda>_.
        andThen (require (find_operation (on_client_uuid q) db = None) (IntegrityError ''sync_operation_client_uuid'')) (\<lambda>_.
        Inr (r, db\<lparr>db_operations := rows\<rparr>))))"

text \<open>\<^verbatim>\<open>record.save(update_fields)\<close>\<close>

definition save_operation ::
  "(sync_operation \<Rightarrow> sync_operation) \<Rightarrow> sync_operation \<Rightarrow> 'a sync_db_scheme \<Rightarrow>
   (error + op_result) \<times> 'a sync_db_scheme" where
  "save_operation f r db =
     (if operation_constraints (f r)
      then (Inr (op_result_of (f r) None), db\<lparr>db_operations := tb_update op_pk (op_pk r) f (db_operations db)\<rparr>)
      else (Inl (IntegrityError ''ck_sync_operation_rejected''), db))"


section \<open>Dispatch\<close>

definition decimal_arg :: "decimal arg \<Rightarrow> error + decimal option" where
  "decimal_arg v = (case v of Absent \<Rightarrow> Inr None | Given x \<Rightarrow> Inr (Some x) | Malformed \<Rightarrow> Inl (ValidationFailed []))"

text \<open>
  The payload's time reaches \<^verbatim>\<open>complete_delivery\<close> as the text it is.  The column would take a text that
  reads as a time and refuses any other, but the audit entry asks the delivery's time for its
  \<^verbatim>\<open>isoformat\<close>, which a text does not have: only a completion without a time can succeed.
\<close>

definition complete_at ::
  "env \<Rightarrow> actor option \<Rightarrow> nat \<Rightarrow> outcome_args \<Rightarrow> int arg \<Rightarrow> string option \<Rightarrow> 'a fulfilment_db_scheme \<Rightarrow>
   error + delivery \<times> 'a fulfilment_db_scheme" where
  "complete_at env user delivery_pk a delivered_at client_uuid db =
     (if delivered_at = Absent then complete_delivery env user delivery_pk a client_uuid db
      else
     andThen (require_roles user INTERNAL) (\<lambda>_.
     case replay_of client_uuid db of Some r \<Rightarrow> Inr (r, db)
     | None \<Rightarrow>
     andThen (lock_dispatched delivery_pk db) (\<lambda>locked.
     if dl_status locked \<noteq> PENDING then Inr (locked, db)
     else case delivered_at of
       Given t \<Rightarrow> andThen (complete_locked env user locked (a\<lparr>oa_delivered_at := Some t\<rparr>) client_uuid db)
                    (\<lambda>_. Inl (PyError ''AttributeError''))
     | _ \<Rightarrow> Inl (PyError ''ValidationError''))))"

definition handle_delivery_complete ::
  "env \<Rightarrow> actor option \<Rightarrow> string \<Rightarrow> operation \<Rightarrow> 'a sync_db_scheme \<Rightarrow> error + (string \<times> nat) \<times> 'a sync_db_scheme" where
  "handle_delivery_complete env user device_id q db =
     (let payload = on_payload q in
     case pd_delivery_id payload of Malformed \<Rightarrow> Inl (PyError ''ValueError'')
     | Absent \<Rightarrow> Inl (invalid ''delivery_id'' ''NOT_FOUND'')
     | Given k \<Rightarrow>
     case get_delivery_for user k db of None \<Rightarrow> Inl (invalid ''delivery_id'' ''NOT_FOUND'')
     | Some delivery \<Rightarrow>
     andThen (decimal_arg (pd_latitude payload)) (\<lambda>lat.
     andThen (decimal_arg (pd_longitude payload)) (\<lambda>lon.
     andThen (complete_at env user (dl_pk delivery)
        \<lparr>oa_recipient_name = pd_recipient_name payload, oa_delivered_at = None,
         oa_latitude = lat, oa_longitude = lon, oa_photo_media = None, oa_device_id = device_id\<rparr>
        (pd_delivered_at payload) (Some (on_client_uuid q)) db) (\<lambda>(completed, db).
     Inr ((''delivery'', dl_pk completed), db)))))"

definition handle_visit_create ::
  "env \<Rightarrow> actor option \<Rightarrow> string \<Rightarrow> operation \<Rightarrow> 'a sync_db_scheme \<Rightarrow> error + (string \<times> nat) \<times> 'a sync_db_scheme" where
  "handle_visit_create env user device_id q db =
     (let payload = on_payload q in
     andThen (decimal_arg (pd_latitude payload)) (\<lambda>lat.
     andThen (decimal_arg (pd_longitude payload)) (\<lambda>lon.
     andThen (decimal_arg (pd_accuracy_metres payload)) (\<lambda>acc.
     andThen (record_visit env user
        \<lparr>va_customer_id = pd_customer_id payload, va_visited_at = pd_visited_at payload, va_outcome = pd_outcome payload,
         va_notes = pd_notes payload, va_latitude = lat, va_longitude = lon, va_accuracy_metres = acc, va_device_id = device_id\<rparr>
        (Some (on_client_uuid q)) db) (\<lambda>(visit, db).
     Inr ((''visit'', vi_pk visit), db))))))"

definition HANDLERS ::
  "string \<Rightarrow> (env \<Rightarrow> actor option \<Rightarrow> string \<Rightarrow> operation \<Rightarrow> 'a sync_db_scheme \<Rightarrow>
     error + (string \<times> nat) \<times> 'a sync_db_scheme) option" where
  "HANDLERS t =
     (if t = ''DELIVERY_COMPLETE'' then Some handle_delivery_complete
      else if t = ''VISIT_CREATE'' then Some handle_visit_create else None)"

definition rejected_form :: "env \<Rightarrow> operation \<Rightarrow> string \<Rightarrow> sync_operation \<Rightarrow> sync_operation" where
  "rejected_form env q code r = r\<lparr>op_state := OP_REJECTED, op_error_code := take 50 code,
     op_payload := Some (on_payload q), op_processed_at := Some (now env)\<rparr>"

definition accepted_form :: "env \<Rightarrow> string \<Rightarrow> nat \<Rightarrow> sync_operation \<Rightarrow> sync_operation" where
  "accepted_form env t k r = r\<lparr>op_state := OP_ACCEPTED, op_result_entity_type := t, op_result_entity_id := Some k,
     op_processed_at := Some (now env)\<rparr>"

definition reject_operation ::
  "env \<Rightarrow> sync_operation \<Rightarrow> operation \<Rightarrow> string \<Rightarrow> 'a sync_db_scheme \<Rightarrow> (error + op_result) \<times> 'a sync_db_scheme" where
  "reject_operation env r q code db = save_operation (rejected_form env q code) r db"

definition apply_operation ::
  "env \<Rightarrow> actor option \<Rightarrow> string \<Rightarrow> operation \<Rightarrow> sync_operation \<Rightarrow> 'a sync_db_scheme \<Rightarrow>
   (error + op_result) \<times> 'a sync_db_scheme" where
  "apply_operation env user device_id q r db =
     (case HANDLERS (on_operation_type q) of
        None \<Rightarrow> reject_operation env r q ''SYNC_UNSUPPORTED_OPERATION'' db
      | Some handler \<Rightarrow>
     case handler env user device_id q db of
        Inl e \<Rightarrow> (case error_code e of Some code \<Rightarrow> reject_operation env r q code db | None \<Rightarrow> (Inl e, db))
      | Inr ((t, k), db) \<Rightarrow> save_operation (accepted_form env t k) r db)"

text \<open>One transaction: an exception takes back whatever the handler did.\<close>

definition recover_operation ::
  "env \<Rightarrow> actor option \<Rightarrow> string \<Rightarrow> operation \<Rightarrow> nat \<Rightarrow> 'a sync_db_scheme \<Rightarrow> (error + op_result) \<times> 'a sync_db_scheme" where
  "recover_operation env user device_id q pk db =
     (case tb_get op_pk pk (db_operations db) of None \<Rightarrow> (Inl (PyError ''SyncOperation.DoesNotExist''), db)
      | Some r \<Rightarrow>
      if op_state r \<noteq> OP_RECEIVED then (Inr (op_result_of r (Some OP_DUPLICATE)), db)
      else case apply_operation env user device_id q r db of (Inl e, _) \<Rightarrow> (Inl e, db) | (Inr x, db') \<Rightarrow> (Inr x, db'))"

definition settle_existing ::
  "env \<Rightarrow> actor option \<Rightarrow> string \<Rightarrow> operation \<Rightarrow> sync_operation \<Rightarrow> 'a sync_db_scheme \<Rightarrow>
   (error + op_result) \<times> 'a sync_db_scheme" where
  "settle_existing env user device_id q r db =
     (if op_state r \<noteq> OP_RECEIVED then (Inr (op_result_of r (Some OP_DUPLICATE)), db)
      else recover_operation env user device_id q (op_pk r) db)"

definition process_one ::
  "env \<Rightarrow> actor option \<Rightarrow> string \<Rightarrow> operation \<Rightarrow> 'a sync_db_scheme \<Rightarrow> (error + op_result) \<times> 'a sync_db_scheme" where
  "process_one env user device_id q db =
     (case find_operation (on_client_uuid q) db of
        Some r \<Rightarrow> settle_existing env user device_id q r db
      | None \<Rightarrow>
     case insert_operation env user device_id q db of
        Inl (IntegrityError e) \<Rightarrow>
          (case find_operation (on_client_uuid q) db of None \<Rightarrow> (Inl (IntegrityError e), db)
           | Some winner \<Rightarrow> settle_existing env user device_id q winner db)
      | Inl e \<Rightarrow> (Inl e, db)
      | Inr (r, db) \<Rightarrow> apply_operation env user device_id q r db)"

fun process_all ::
  "env \<Rightarrow> actor option \<Rightarrow> string \<Rightarrow> operation list \<Rightarrow> 'a sync_db_scheme \<Rightarrow> (error + op_result list) \<times> 'a sync_db_scheme" where
  "process_all env user device_id [] db = (Inr [], db)"
| "process_all env user device_id (q # qs) db =
     (case process_one env user device_id q db of (Inl e, db) \<Rightarrow> (Inl e, db)
      | (Inr x, db) \<Rightarrow>
     case process_all env user device_id qs db of (Inl e, db) \<Rightarrow> (Inl e, db) | (Inr xs, db) \<Rightarrow> (Inr (x # xs), db))"

definition process_push ::
  "env \<Rightarrow> actor option \<Rightarrow> string \<Rightarrow> operation list \<Rightarrow> 'a sync_db_scheme \<Rightarrow> (error + op_result list) \<times> 'a sync_db_scheme" where
  "process_push env user device_id qs db =
     (if length qs > MAX_BATCH then (Inl (invalid ''operations'' ''BATCH_TOO_LARGE''), db)
      else process_all env user device_id qs db)"


section \<open>Pulling\<close>

definition PULL_PAGE_SIZE :: nat where "PULL_PAGE_SIZE = 500"

text \<open>Where a collection's paging stands: not begun, behind a row, or finished.\<close>

datatype cursor = Start | After int nat | Exhausted

definition ordered_rows :: "('r \<Rightarrow> int) \<Rightarrow> ('r \<Rightarrow> nat) \<Rightarrow> 'r list \<Rightarrow> 'r list" where
  "ordered_rows updated key rows = sort_key (\<lambda>r. (updated r, key r)) rows"

definition behind :: "('r \<Rightarrow> int) \<Rightarrow> ('r \<Rightarrow> nat) \<Rightarrow> cursor \<Rightarrow> 'r \<Rightarrow> bool" where
  "behind updated key p r =
     (case p of Start \<Rightarrow> True | Exhausted \<Rightarrow> False
      | After last_at last_id \<Rightarrow> last_at < updated r \<or> (updated r = last_at \<and> last_id < key r))"

definition collect ::
  "('r \<Rightarrow> int) \<Rightarrow> ('r \<Rightarrow> nat) \<Rightarrow> 'r list \<Rightarrow> int option \<Rightarrow> cursor \<Rightarrow> 'r list \<times> cursor" where
  "collect updated key queryset cutoff p =
     (if p = Exhausted then ([], Exhausted)
      else
        let rows = take (Suc PULL_PAGE_SIZE) (ordered_rows updated key
              (filter (\<lambda>r. (case cutoff of None \<Rightarrow> True | Some t \<Rightarrow> t \<le> updated r) \<and> behind updated key p r) queryset))
        in if length rows \<le> PULL_PAGE_SIZE then (rows, Exhausted)
           else let page = take PULL_PAGE_SIZE rows in (page, After (updated (last page)) (key (last page))))"

definition deactivated_customer_ids :: "int option \<Rightarrow> 'a customers_db_scheme \<Rightarrow> nat list" where
  "deactivated_customer_ids cutoff db =
     (case cutoff of None \<Rightarrow> []
      | Some t \<Rightarrow> sort (map cu_pk (filter (\<lambda>c. \<not> cu_is_active c \<and> t \<le> cu_updated_at c) (tb_rows (db_customers db)))))"

text \<open>
  What the page token says, as the JSON value that is written (a \<open>JObj\<close> lists the items of a dict): an exhausted collection is \<^verbatim>\<open>null\<close>,
  another the pair of its last row's time and key.  The text of the token (base64 over JSON) and
  of a time (ISO 8601) are the codec's.
\<close>

datatype json = JNull | JBool bool | JInt int | JStr string | JList "json list" | JObj "(string \<times> json) list"

record codec =
  cd_dumps :: "json \<Rightarrow> string"
  cd_loads :: "string \<Rightarrow> json option"
  cd_isoformat :: "int \<Rightarrow> string"
  cd_fromisoformat :: "string \<Rightarrow> (int \<times> bool) option"

definition cursor_json :: "codec \<Rightarrow> cursor \<Rightarrow> json" where
  "cursor_json cd p = (case p of After t k \<Rightarrow> JList [JStr (cd_isoformat cd t), JInt (int k)] | _ \<Rightarrow> JNull)"

definition encode_token :: "codec \<Rightarrow> cursor \<Rightarrow> cursor \<Rightarrow> string" where
  "encode_token cd c d = cd_dumps cd (JObj [(''c'', cursor_json cd c), (''d'', cursor_json cd d)])"

definition bad_token :: error where
  "bad_token = invalid ''page_token'' ''INVALID''"

text \<open>The time must be aware: a naive one is as good as one that does not read.\<close>

definition read_cursor :: "codec \<Rightarrow> json \<Rightarrow> error + cursor" where
  "read_cursor cd v =
     (case v of
        JNull \<Rightarrow> Inr Exhausted
      | JList [JStr updated_at, JInt row_id] \<Rightarrow>
          andThen (require (\<not> row_id < 1) bad_token) (\<lambda>_.
          case cd_fromisoformat cd updated_at of
            Some (t, True) \<Rightarrow> Inr (After t (nat row_id)) | _ \<Rightarrow> Inl bad_token)
      | _ \<Rightarrow> Inl bad_token)"

definition decode_token :: "codec \<Rightarrow> string option \<Rightarrow> error + cursor \<times> cursor" where
  "decode_token cd page_token =
     (case page_token of None \<Rightarrow> Inr (Start, Start)
      | Some tok \<Rightarrow>
     if tok = '''' then Inr (Start, Start)
     else case cd_loads cd tok of
        Some (JObj kvs) \<Rightarrow>
          andThen (require (set (map fst kvs) = {''c'', ''d''}) bad_token) (\<lambda>_.
          andThen (read_cursor cd (the (map_of kvs ''c''))) (\<lambda>c.
          andThen (read_cursor cd (the (map_of kvs ''d''))) (\<lambda>d. Inr (c, d))))
      | _ \<Rightarrow> Inl bad_token)"

record pull_page =
  pg_server_time :: int
  pg_since :: "int option"
  pg_next_page_token :: "string option"
  pg_has_more :: bool
  pg_customers :: "customer list"
  pg_deactivated_ids :: "nat list"
  pg_deliveries :: "delivery list"

definition pull ::
  "codec \<Rightarrow> env \<Rightarrow> actor option \<Rightarrow> int option \<Rightarrow> string option \<Rightarrow> 'a fulfilment_db_scheme \<Rightarrow> error + pull_page" where
  "pull cd env user cutoff page_token db =
     andThen (decode_token cd page_token) (\<lambda>(c, d).
     let (customers, c') = collect cu_updated_at cu_pk (visible_customers user db) cutoff c;
         (deliveries, d') = collect dl_updated_at dl_pk (visible_deliveries user db) cutoff d;
         more = (c' \<noteq> Exhausted \<or> d' \<noteq> Exhausted)
     in Inr \<lparr>pg_server_time = now env, pg_since = cutoff,
          pg_next_page_token = (if more then Some (encode_token cd c' d') else None), pg_has_more = more,
          pg_customers = customers,
          pg_deactivated_ids = (if page_token = None \<or> page_token = Some '''' then deactivated_customer_ids cutoff db else []),
          pg_deliveries = deliveries\<rparr>)"


section \<open>Status\<close>

record device_report =
  dr_device_id :: string
  dr_last_sync_at :: "int option"
  dr_pending_count :: nat
  dr_deferred_count :: nat
  dr_rejected_count :: nat
  dr_rejected :: "(string \<times> string \<times> string \<times> int) list"

definition count_status :: "op_status \<Rightarrow> sync_operation list \<Rightarrow> nat" where
  "count_status s rows = length (filter (\<lambda>r. op_state r = s) rows)"

definition latest :: "sync_operation list \<Rightarrow> int option" where
  "latest rows = (if rows = [] then None else Some (Max (set (map op_received_at rows))))"

definition device_status :: "string \<Rightarrow> 'a sync_db_scheme \<Rightarrow> device_report" where
  "device_status device_id db =
     (let rows = filter (\<lambda>r. op_device_id r = device_id) (tb_rows (db_operations db))
      in \<lparr>dr_device_id = device_id, dr_last_sync_at = latest rows,
          dr_pending_count = count_status OP_RECEIVED rows, dr_deferred_count = count_status OP_DEFERRED rows,
          dr_rejected_count = count_status OP_REJECTED rows,
          dr_rejected = map (\<lambda>r. (op_client_uuid r, op_operation_type r, op_error_code r, op_client_created_at r))
            (sort_key op_client_created_at (filter (\<lambda>r. op_state r = OP_REJECTED) rows))\<rparr>)"

record fleet_row =
  fl_device_id :: string
  fl_last_sync_at :: "int option"
  fl_accepted :: nat
  fl_duplicate :: nat
  fl_deferred :: nat
  fl_rejected :: nat
  fl_in_flight :: nat

text \<open>\<open>day\<close> is the cast of a timestamp to a date in the server's time zone.\<close>

definition fleet_status :: "(int \<Rightarrow> date) \<Rightarrow> date option \<Rightarrow> date option \<Rightarrow> 'a sync_db_scheme \<Rightarrow> fleet_row list" where
  "fleet_status day date_from date_to db =
     (let rows = filter (\<lambda>r. (case date_from of None \<Rightarrow> True | Some d \<Rightarrow> d \<le> day (op_received_at r)) \<and>
                          (case date_to of None \<Rightarrow> True | Some d \<Rightarrow> day (op_received_at r) \<le> d)) (tb_rows (db_operations db))
      in map (\<lambda>dev. let own = filter (\<lambda>r. op_device_id r = dev) rows
              in \<lparr>fl_device_id = dev, fl_last_sync_at = latest own, fl_accepted = count_status OP_ACCEPTED own,
                  fl_duplicate = count_status OP_DUPLICATE own, fl_deferred = count_status OP_DEFERRED own,
                  fl_rejected = count_status OP_REJECTED own, fl_in_flight = count_status OP_RECEIVED own\<rparr>)
           (sort (remdups (map op_device_id rows))))"

end
