(* ===== verification/Syncing.thy ===== *)
theory Syncing
  imports Sync
begin

text \<open>
  What synchronisation promises: nothing a device pushed is lost and nothing is done twice,
  whatever is repeated or cut short; a repeat changes nothing; an operation reaches only what its
  user may see; and a pull delivers every row once.
\<close>


section \<open>The handlers\<close>

lemma tb_get_update:
  assumes "\<And>r. key (f r) = key r"
  shows "tb_get key k (tb_update key pk f t) = map_option (\<lambda>r. if key r = pk then f r else r) (tb_get key k t)"
proof -
  have "find (\<lambda>r. key r = k) (map (\<lambda>r. if key r = pk then f r else r) rows)
    = map_option (\<lambda>r. if key r = pk then f r else r) (find (\<lambda>r. key r = k) rows)" for rows
    by (induction rows) (auto simp: assms)
  then show ?thesis by (simp add: tb_get_def table_simps)
qed

lemma mark_delivered_state:
  assumes "mark_delivered env user ord db = Inr (ord', db')"
  shows "\<exists>F au. (\<forall>r. so_pk (F r) = so_pk r \<and> so_customer (F r) = so_customer r) \<and>
    db' = db\<lparr>db_orders := tb_update so_pk (so_pk ord) F (db_orders db), db_audit := au\<rparr>"
  using assms
  by (auto simp: mark_delivered_def transition_def save_order_def Let_def record_audit_def record_audit_from_def
      andThen_Inr_iff split: if_splits
      intro!: exI [of _ "\<lambda>r. r\<lparr>so_status := DELIVERED, so_updated_at := now env\<rparr>"])

text \<open>Completing a delivery writes that delivery, its order and the audit log.\<close>

lemma complete_delivery_state:
  fixes db db' :: "'a fulfilment_db_scheme"
  assumes "complete_delivery env user pk a cu db = Inr (d, db')"
  obtains "db' = db" | f F k k' au where
    "\<And>r. dl_pk (f r) = dl_pk r \<and> dl_order (f r) = dl_order r \<and> dl_assigned_user (f r) = dl_assigned_user r"
    "\<And>r. so_pk (F r) = so_pk r \<and> so_customer (F r) = so_customer r"
    "db' = db\<lparr>db_deliveries := tb_update dl_pk k f (db_deliveries db), db_orders := tb_update so_pk k' F (db_orders db), db_audit := au\<rparr>"
proof (cases "db' = db")
  case False
  then obtain locked where c: "complete_locked env user locked a cu db = Inr (d, db')"
    using assms by (auto simp: complete_delivery_cases split: option.splits if_splits)
  define f where "f = (\<lambda>d :: delivery. d\<lparr>dl_outcome_client_uuid := cu, dl_status := HANDED_OVER,
          dl_delivered_at := Some (case oa_delivered_at a of None \<Rightarrow> now env | Some t \<Rightarrow> t),
          dl_recipient_name := take 200 (oa_recipient_name a), dl_latitude := oa_latitude a,
          dl_longitude := oa_longitude a, dl_photo_media := oa_photo_media a,
          dl_device_id := take 64 (oa_device_id a), dl_synced_at := Some (now env),
          dl_updated_at := now env\<rparr>)"
  let ?db1 = "db\<lparr>db_deliveries := tb_update dl_pk (dl_pk locked) f (db_deliveries db)\<rparr>"
  obtain oc where oc: "save_outcome cu f locked db = Inr oc"
    using c by (auto simp: complete_locked_def f_def [symmetric] andThen_Inr_iff)
  have "oc = Saved (f locked) ?db1"
    using oc c False
    by (auto simp: save_outcome_def save_delivery_def complete_locked_def f_def [symmetric] Let_def split: if_splits option.splits)
  then obtain o1 o2 db2 ei b st where t: "mark_delivered env user o1 ?db1 = Inr (o2, db2)"
    and db': "db' = record_audit env A_UPDATE ''delivery'' ei user S_WEB b st db2"
    using c oc by (auto simp: complete_locked_def f_def [symmetric] andThen_Inr_iff)
  obtain F au where F: "\<forall>r. so_pk (F r) = so_pk r \<and> so_customer (F r) = so_customer r"
    "db2 = ?db1\<lparr>db_orders := tb_update so_pk (so_pk o1) F (db_orders ?db1), db_audit := au\<rparr>"
    using mark_delivered_state [OF t] by blast
  obtain au' where "record_audit env A_UPDATE ''delivery'' ei user S_WEB b st db2 = db2\<lparr>db_audit := au'\<rparr>"
    by (simp add: record_audit_def record_audit_from_def)
  then show ?thesis
    using that(2) [where f = f and F = F and k = "dl_pk locked" and k' = "so_pk o1" and au = au'] F db' by (simp add: f_def)
qed (rule that)

lemma get_delivery_after_completion:
  fixes db db' :: "'a fulfilment_db_scheme"
  assumes "complete_delivery env user pk a cu db = Inr (d, db')"
  shows "map_option dl_pk (get_delivery_for u k db') = map_option dl_pk (get_delivery_for u k db)"
  using assms
proof (cases rule: complete_delivery_state)
  case (2 f F j j' au)
  define g where "g r = (if dl_pk r = j then f r else r)" for r :: delivery
  have g: "dl_pk (g r) = dl_pk r" "dl_assigned_user (g r) = dl_assigned_user r" "dl_order (g r) = dl_order r" for r
    using 2(1) by (simp_all add: g_def)
  have rows: "tb_rows (db_deliveries db') = map g (tb_rows (db_deliveries db))"
    by (simp add: 2(3) table_simps g_def [abs_def])
  have cust: "delivery_customer (g r) db' = delivery_customer r db" for r
    using 2(2) by (simp add: delivery_customer_def g 2(3) tb_get_update option.map_comp comp_def if_distrib cong: if_cong)
  have zone: "zone_assigned u c db' = zone_assigned u c db" for c
    by (simp add: zone_assigned_def 2(3) cong: option.case_cong)
  have "visible_deliveries u db' = map g (visible_deliveries u db)"
    by (simp add: visible_deliveries_def Let_def rows filter_map comp_def g cust zone cong: option.case_cong)
  moreover have "map_option dl_pk (find (\<lambda>d. dl_pk d = k) (map g ds)) = map_option dl_pk (find (\<lambda>d. dl_pk d = k) ds)" for ds
    by (induction ds) (auto simp: g)
  ultimately show ?thesis by (simp add: get_delivery_for_def)
qed simp

lemma get_delivery_pk: "get_delivery_for u k db = Some d \<Longrightarrow> dl_pk d = k"
  unfolding get_delivery_for_def by (auto dest: find_SomeD)


section \<open>The contract of a handler\<close>

text \<open>
  What the dispatcher relies on: a handler leaves the operations alone, keeps the deliveries'
  table well formed, and done again where it has been done it changes nothing and says the same.
\<close>

definition handler_contract ::
  "(env \<Rightarrow> actor option \<Rightarrow> string \<Rightarrow> operation \<Rightarrow> 'a sync_db_scheme \<Rightarrow> error + (string \<times> nat) \<times> 'a sync_db_scheme) \<Rightarrow> bool" where
  "handler_contract h \<longleftrightarrow> (\<forall>env user dev q db x db'. h env user dev q db = Inr (x, db') \<longrightarrow>
     db_operations db' = db_operations db \<and>
     (deliveries_ok db \<longrightarrow> deliveries_ok db') \<and>
     (deliveries_ok db \<longrightarrow> on_client_uuid q \<noteq> '''' \<longrightarrow> h env user dev q db' = Inr (x, db')))"

lemma complete_delivery_frame:
  fixes db db' :: "'a sync_db_scheme"
  assumes "complete_delivery env user pk a cu db = Inr (d, db')"
  shows "db_operations db' = db_operations db" "db_visits db' = db_visits db" "deliveries_ok db \<Longrightarrow> deliveries_ok db'"
proof -
  have "db_operations db' = db_operations db \<and> db_visits db' = db_visits db \<and> (deliveries_ok db \<longrightarrow> deliveries_ok db')"
    using assms
  proof (cases rule: complete_delivery_state)
    case (2 f F k k' au)
    then show ?thesis by (auto simp: deliveries_ok_def intro!: table_wf_update)
  qed simp
  then show "db_operations db' = db_operations db" "db_visits db' = db_visits db" "deliveries_ok db \<Longrightarrow> deliveries_ok db'"
    by simp_all
qed

text \<open>A completion that carries a time and does not fail found its work done.\<close>

lemma complete_at_Inr:
  assumes "complete_at env user pk a t cu db = Inr (d, db')"
  shows "complete_delivery env user pk a cu db = Inr (d, db')" "t = Absent \<or> db' = db"
proof -
  have "complete_delivery env user pk a cu db = Inr (d, db') \<and> (t = Absent \<or> db' = db)"
  proof (cases t)
    case Absent
    then show ?thesis using assms by (simp add: complete_at_def)
  next
    case (Given x)
    then show ?thesis using assms
      by (auto simp: complete_at_def complete_delivery_def andThen_Inr_iff split: option.splits if_splits)
  next
    case Malformed
    then show ?thesis using assms
      by (auto simp: complete_at_def complete_delivery_def andThen_Inr_iff split: option.splits if_splits)
  qed
  then show "complete_delivery env user pk a cu db = Inr (d, db')" "t = Absent \<or> db' = db" by simp_all
qed

lemma complete_at_again:
  assumes "complete_at env user pk a t (Some u) db = Inr (d, db')" "deliveries_ok db"
  shows "complete_at env user pk a t (Some u) db' = Inr (d, db')"
proof (cases "t = Absent")
  case True
  then show ?thesis
    using complete.second_write [of db "(env, user, pk, a, Some u)" d db'] assms complete_at_Inr(1) [OF assms(1)]
    by (simp add: complete_at_def)
next
  case False
  then show ?thesis using complete_at_Inr(2) [OF assms(1)] assms(1) by simp
qed

lemma delivery_contract: "handler_contract handle_delivery_complete"
  unfolding handler_contract_def
proof (intro allI impI)
  fix env user dev q x and db db' :: "'a sync_db_scheme"
  assume h: "handle_delivery_complete env user dev q db = Inr (x, db')"
  let ?p = "on_payload q"
  obtain k delivery lat lon d where k: "pd_delivery_id ?p = Given k" "get_delivery_for user k db = Some delivery"
    "decimal_arg (pd_latitude ?p) = Inr lat" "decimal_arg (pd_longitude ?p) = Inr lon" "x = (''delivery'', dl_pk d)"
    and c: "complete_at env user (dl_pk delivery)
        \<lparr>oa_recipient_name = pd_recipient_name ?p, oa_delivered_at = None, oa_latitude = lat,
         oa_longitude = lon, oa_photo_media = None, oa_device_id = dev\<rparr> (pd_delivered_at ?p) (Some (on_client_uuid q)) db = Inr (d, db')"
    using h by (auto simp: handle_delivery_complete_def Let_def andThen_Inr_iff split: arg.splits option.splits)
  note F = complete_delivery_frame [OF complete_at_Inr(1) [OF c]]
  obtain delivery' where d': "get_delivery_for user k db' = Some delivery'"
    using get_delivery_after_completion [OF complete_at_Inr(1) [OF c], of user k] k(2)
    by (cases "get_delivery_for user k db'") auto
  have pk: "dl_pk delivery' = dl_pk delivery" using get_delivery_pk [OF d'] get_delivery_pk [OF k(2)] by simp
  have "handle_delivery_complete env user dev q db' = Inr (x, db')" if "deliveries_ok db"
    using complete_at_again [OF c that] by (simp add: handle_delivery_complete_def Let_def k d' pk)
  then show "db_operations db' = db_operations db \<and> (deliveries_ok db \<longrightarrow> deliveries_ok db') \<and>
      (deliveries_ok db \<longrightarrow> on_client_uuid q \<noteq> '''' \<longrightarrow> handle_delivery_complete env user dev q db' = Inr (x, db'))"
    using F by blast
qed

lemma record_visit_frame:
  fixes db db' :: "'a sync_db_scheme"
  assumes "record_visit env user a cu db = Inr (v, db')"
  shows "db_operations db' = db_operations db" "db_deliveries db' = db_deliveries db"
  using assms by (cases rule: record_visitD; simp)+

lemma visit_contract: "handler_contract handle_visit_create"
  unfolding handler_contract_def
proof (intro allI impI)
  fix env user dev q x and db db' :: "'a sync_db_scheme"
  assume h: "handle_visit_create env user dev q db = Inr (x, db')"
  obtain a v where a: "record_visit env user a (Some (on_client_uuid q)) db = Inr (v, db')" "x = (''visit'', vi_pk v)"
    and again: "\<And>db2 db3 w. record_visit env user a (Some (on_client_uuid q)) (db2 :: 'a sync_db_scheme) = Inr (w, db3) \<Longrightarrow>
      handle_visit_create env user dev q db2 = Inr ((''visit'', vi_pk w), db3)"
    using h by (auto simp: handle_visit_create_def Let_def andThen_Inr_iff)
  have "handle_visit_create env user dev q db' = Inr (x, db')" if "on_client_uuid q \<noteq> ''''"
    using observe.second_write [of "(env, user, a, Some (on_client_uuid q))" db v db' "on_client_uuid q"] that a(1) again [of db' v db'] a(2)
    by (simp add: as_uuid_def)
  then show "db_operations db' = db_operations db \<and> (deliveries_ok db \<longrightarrow> deliveries_ok db') \<and>
      (deliveries_ok db \<longrightarrow> on_client_uuid q \<noteq> '''' \<longrightarrow> handle_visit_create env user dev q db' = Inr (x, db'))"
    using record_visit_frame [OF a(1)] by (simp add: deliveries_ok_def)
qed

lemma HANDLERS_contract: "HANDLERS t = Some h \<Longrightarrow> handler_contract h"
  by (auto simp: HANDLERS_def delivery_contract visit_contract split: if_splits)

section \<open>One operation\<close>

definition sync_ok :: "'a sync_db_scheme \<Rightarrow> bool" where
  "sync_ok db \<longleftrightarrow> table_wf op_pk (db_operations db) \<and>
     distinct (map op_client_uuid (tb_rows (db_operations db))) \<and> deliveries_ok db"

text \<open>The operation has its verdict, and \<open>x\<close> is what a repeat is told.\<close>

definition settled :: "operation \<Rightarrow> op_result \<Rightarrow> 'a sync_db_scheme \<Rightarrow> bool" where
  "settled q x db \<longleftrightarrow> (\<exists>r. find_operation (on_client_uuid q) db = Some r \<and> op_state r \<noteq> OP_RECEIVED \<and>
     x = op_result_of r (Some OP_DUPLICATE))"

definition as_repeat :: "op_result \<Rightarrow> op_result" where
  "as_repeat x = x\<lparr>rs_status := OP_DUPLICATE\<rparr>"

lemma as_repeat_result: "as_repeat (op_result_of r s) = op_result_of r (Some OP_DUPLICATE)"
  by (simp add: as_repeat_def op_result_of_def)

lemma as_repeat_idem [simp]: "as_repeat (as_repeat x) = as_repeat x"
  by (simp add: as_repeat_def)

lemma find_operationD: "find_operation u db = Some r \<Longrightarrow> r \<in> set (tb_rows (db_operations db)) \<and> op_client_uuid r = u"
  unfolding find_operation_def by (rule tb_firstD)

lemma save_operationD:
  assumes "save_operation f r db = (Inr x, db')"
  shows "x = op_result_of (f r) None" "db' = db\<lparr>db_operations := tb_update op_pk (op_pk r) f (db_operations db)\<rparr>"
  using assms by (auto simp: save_operation_def split: if_splits)

lemma save_operation_Inl: "save_operation f r db = (Inl e, db') \<Longrightarrow> db' = db"
  by (auto simp: save_operation_def split: if_splits)

text \<open>A verdict: the row keeps whose it is and gets a final status.\<close>

definition verdict :: "(sync_operation \<Rightarrow> sync_operation) \<Rightarrow> bool" where
  "verdict f \<longleftrightarrow> (\<forall>r. op_pk (f r) = op_pk r \<and> op_client_uuid (f r) = op_client_uuid r \<and>
     op_device_id (f r) = op_device_id r \<and> op_state (f r) \<in> {OP_ACCEPTED, OP_REJECTED})"

lemma verdict_final: "verdict f \<Longrightarrow> op_state (f r) \<noteq> OP_RECEIVED"
  unfolding verdict_def by (drule spec [of _ r]) auto

lemma verdict_forms: "verdict (rejected_form env q code)" "verdict (accepted_form env t k)"
  by (simp_all add: verdict_def rejected_form_def accepted_form_def)

lemma apply_operationD:
  assumes "apply_operation env user dev q r db = (Inr x, db')"
  obtains f db1 where "verdict f" "x = op_result_of (f r) None" "db_operations db1 = db_operations db"
    "deliveries_ok db \<longrightarrow> deliveries_ok db1"
    "db' = db1\<lparr>db_operations := tb_update op_pk (op_pk r) f (db_operations db)\<rparr>"
proof (cases "HANDLERS (on_operation_type q) :: (env \<Rightarrow> actor option \<Rightarrow> string \<Rightarrow> operation \<Rightarrow> 'a sync_db_scheme \<Rightarrow> _) option")
  case None
  then have "save_operation (rejected_form env q ''SYNC_UNSUPPORTED_OPERATION'') r db = (Inr x, db')"
    using assms by (simp add: apply_operation_def reject_operation_def)
  then show ?thesis using that [OF verdict_forms(1)] save_operationD by blast
next
  case (Some h)
  show ?thesis
  proof (cases "h env user dev q db")
    case (Inl e)
    then obtain code where "save_operation (rejected_form env q code) r db = (Inr x, db')"
      using assms Some by (auto simp: apply_operation_def reject_operation_def split: option.splits)
    then show ?thesis using that [OF verdict_forms(1)] save_operationD by blast
  next
    case (Inr y)
    obtain t k db1 where y: "y = ((t, k), db1)" by (cases y) auto
    have s: "save_operation (accepted_form env t k) r db1 = (Inr x, db')"
      using assms Some Inr y by (simp add: apply_operation_def)
    have "db_operations db1 = db_operations db" "deliveries_ok db \<longrightarrow> deliveries_ok db1"
      using HANDLERS_contract [OF Some] Inr y unfolding handler_contract_def by blast+
    then show ?thesis using that [OF verdict_forms(2)] save_operationD [OF s] by metis
  qed
qed

lemma apply_operation_Inl:
  assumes "apply_operation env user dev q r db = (Inl e, db')"
  shows "db' = db"
  using assms
  by (auto simp: apply_operation_def reject_operation_def split: option.splits sum.splits
      dest: save_operation_Inl) (simp add: save_operation_def operation_constraints_def accepted_form_def)

lemma insert_operationD:
  assumes "insert_operation env user dev q db = Inr (r, db')"
  shows "op_client_uuid r = on_client_uuid q" "op_state r = OP_RECEIVED" "op_pk r = tb_seq (db_operations db)" "op_device_id r = dev"
    "find_operation (on_client_uuid q) db = None"
    "db' = db\<lparr>db_operations := (db_operations db)\<lparr>tb_seq := Suc (tb_seq (db_operations db)), tb_rows := tb_rows (db_operations db) @ [r]\<rparr>\<rparr>"
  using assms by (auto simp: insert_operation_def tb_insert_def Let_def split: option.splits if_splits)

lemma insert_operation_ok:
  assumes "insert_operation env user dev q db = Inr (r, db')"
  shows "find_operation (on_client_uuid q) db' = Some r" "sync_ok db \<Longrightarrow> sync_ok db'"
proof -
  note I = insert_operationD [OF assms]
  show "find_operation (on_client_uuid q) db' = Some r"
    using I(1,5) by (simp add: I(6) find_operation_def tb_first_def find_append)
  assume ok: "sync_ok db"
  have "table_wf op_pk (db_operations db')"
    by (rule table_wf_append [where t = "db_operations db" and r = r]) (use ok I(3) in \<open>simp_all add: I(6) sync_ok_def\<close>)
  moreover have "on_client_uuid q \<notin> op_client_uuid ` set (tb_rows (db_operations db))"
    using I(5) by (auto simp: find_operation_def tb_first_None)
  ultimately show "sync_ok db'" using ok I(1) by (simp add: sync_ok_def I(6) deliveries_ok_def)
qed

lemma verdict_ok:
  assumes "sync_ok db" "verdict f" "db_operations db1 = db_operations db" "deliveries_ok db \<longrightarrow> deliveries_ok db1"
    "db' = db1\<lparr>db_operations := tb_update op_pk k f (db_operations db)\<rparr>"
  shows "sync_ok db'"
proof -
  have "table_wf op_pk (tb_update op_pk k f (db_operations db))"
    by (rule table_wf_update) (use assms(1,2) in \<open>simp_all add: sync_ok_def verdict_def\<close>)
  moreover have "map op_client_uuid (tb_rows (tb_update op_pk k f (db_operations db))) = map op_client_uuid (tb_rows (db_operations db))"
    using assms(2) by (simp add: table_simps verdict_def)
  ultimately show ?thesis using assms(1,4) by (simp add: sync_ok_def assms(5) deliveries_ok_def)
qed

text \<open>A row found before a verdict is found after it, changed if the verdict was its own.\<close>

lemma find_after_verdict:
  assumes "verdict f" "db_operations db' = tb_update op_pk k f (db_operations db)"
  shows "find_operation u db' = map_option (\<lambda>r. if op_pk r = k then f r else r) (find_operation u db)"
proof -
  have "find (\<lambda>r. op_client_uuid r = u) (map (\<lambda>r. if op_pk r = k then f r else r) rows)
    = map_option (\<lambda>r. if op_pk r = k then f r else r) (find (\<lambda>r. op_client_uuid r = u) rows)" for rows
    using assms(1) by (induction rows) (auto simp: verdict_def)
  then show ?thesis by (simp add: find_operation_def tb_first_def assms(2) table_simps)
qed

text \<open>How an operation can go: a repeat, or the first or the resumed attempt at it.\<close>

lemma process_oneD:
  assumes "process_one env user dev q db = (Inr x, db')" "sync_ok db"
  obtains (repeat) r where "find_operation (on_client_uuid q) db = Some r" "op_state r \<noteq> OP_RECEIVED"
      "x = op_result_of r (Some OP_DUPLICATE)" "db' = db"
    | (attempt) r db0 where "(find_operation (on_client_uuid q) db = Some r \<and> db0 = db) \<or>
        insert_operation env user dev q db = Inr (r, db0)"
      "find_operation (on_client_uuid q) db0 = Some r" "op_state r = OP_RECEIVED" "sync_ok db0"
      "apply_operation env user dev q r db0 = (Inr x, db')"
proof (cases "find_operation (on_client_uuid q) db")
  case (Some r)
  note R = find_operationD [OF Some]
  have get: "tb_get op_pk (op_pk r) (db_operations db) = Some r"
    using tb_get_row [of op_pk "db_operations db" r] R assms(2) by (simp add: sync_ok_def)
  show ?thesis
  proof (cases "op_state r = OP_RECEIVED")
    case True
    then have "apply_operation env user dev q r db = (Inr x, db')"
      using assms(1) Some get
      by (auto simp: process_one_def settle_existing_def recover_operation_def split: prod.splits sum.splits)
    then show ?thesis using attempt Some True assms(2) by blast
  next
    case False
    then show ?thesis using repeat Some assms(1) by (simp add: process_one_def settle_existing_def)
  qed
next
  case None
  then obtain r db0 where I: "insert_operation env user dev q db = Inr (r, db0)"
    and A: "apply_operation env user dev q r db0 = (Inr x, db')"
    using assms(1) by (auto simp: process_one_def split: sum.splits error.splits)
  then show ?thesis using attempt insert_operation_ok [OF I] insert_operationD(2) [OF I] assms(2) by blast
qed

lemma process_one_Inl:
  assumes "process_one env user dev q db = (Inl e, db')"
  shows "db' = db \<or> (\<exists>r. insert_operation env user dev q db = Inr (r, db'))"
proof (cases "find_operation (on_client_uuid q) db")
  case (Some r)
  then show ?thesis
    using assms by (auto simp: process_one_def settle_existing_def recover_operation_def split: if_splits option.splits prod.splits sum.splits)
next
  case None
  then show ?thesis
    using assms by (auto simp: process_one_def split: sum.splits error.splits dest: apply_operation_Inl)
qed

lemma process_one_ok:
  assumes "process_one env user dev q db = (res, db')" "sync_ok db"
  shows "sync_ok db'"
proof (cases res)
  case (Inl e)
  then show ?thesis using process_one_Inl assms insert_operation_ok(2) by blast
next
  case (Inr x)
  have "process_one env user dev q db = (Inr x, db')" using assms(1) Inr by simp
  then show ?thesis using assms(2)
  proof (cases rule: process_oneD)
    case (attempt r db0)
    from attempt(5) show ?thesis
      by (rule apply_operationD) (use attempt(4) in \<open>auto intro: verdict_ok\<close>)
  qed (use assms(2) in simp)
qed

text \<open>A settled operation stays settled, whatever else is processed.\<close>

lemma settled_kept:
  assumes "settled q x db" "process_one env user dev q' db = (res, db')" "sync_ok db"
  shows "settled q x db'"
proof -
  obtain r where r: "find_operation (on_client_uuid q) db = Some r" "op_state r \<noteq> OP_RECEIVED" "x = op_result_of r (Some OP_DUPLICATE)"
    using assms(1) unfolding settled_def by blast
  have new: "find_operation (on_client_uuid q) db0 = Some r" if "insert_operation env user dev q' db = Inr (r0, db0)" for r0 db0
    using r(1) insert_operationD(6) [OF that] by (simp add: find_operation_def tb_first_def find_append)
  have "find_operation (on_client_uuid q) db' = Some r"
  proof (cases res)
    case (Inl e)
    then show ?thesis using process_one_Inl assms(2) r(1) new by blast
  next
    case (Inr y)
    have "process_one env user dev q' db = (Inr y, db')" using assms(2) Inr by simp
    then show ?thesis using assms(3)
    proof (cases rule: process_oneD)
      case (attempt r1 db0)
      have r0: "find_operation (on_client_uuid q) db0 = Some r" using attempt(1) new r(1) by blast
      from attempt(5) obtain f db1 where f: "verdict f" "db' = db1\<lparr>db_operations := tb_update op_pk (op_pk r1) f (db_operations db0)\<rparr>"
        by (rule apply_operationD)
      have "op_pk r \<noteq> op_pk r1"
        using table_wf_inj [of op_pk "db_operations db0" r r1] attempt(2-4) r(2) find_operationD r0
        by (auto simp: sync_ok_def dest!: find_operationD)
      then show ?thesis using find_after_verdict [OF f(1), of db' "op_pk r1" db0] r0 by (simp add: f(2))
    qed (use r(1) in simp)
  qed
  then show ?thesis using r unfolding settled_def by blast
qed

lemma settled_repeat: "settled q x db \<Longrightarrow> process_one env user dev q db = (Inr x, db)"
  by (auto simp: settled_def process_one_def settle_existing_def)

lemma processed_settled:
  assumes "process_one env user dev q db = (Inr x, db')" "sync_ok db"
  shows "settled q (as_repeat x) db'"
  using assms
proof (cases rule: process_oneD)
  case (repeat r)
  then show ?thesis by (auto simp: settled_def as_repeat_result)
next
  case (attempt r db0)
  from attempt(5) obtain f db1 where f: "verdict f" "x = op_result_of (f r) None"
    "db' = db1\<lparr>db_operations := tb_update op_pk (op_pk r) f (db_operations db0)\<rparr>"
    by (rule apply_operationD)
  have "find_operation (on_client_uuid q) db' = Some (f r)"
    using find_after_verdict [OF f(1), of db' "op_pk r" db0] attempt(2) by (simp add: f(3))
  then show ?thesis using verdict_final [OF f(1)] by (simp add: settled_def f(2) as_repeat_result)
qed


section \<open>A batch\<close>

lemma process_all_ok: "process_all env user dev qs db = (res, db') \<Longrightarrow> sync_ok db \<Longrightarrow> sync_ok db'"
proof (induction qs arbitrary: db res db')
  case (Cons q qs)
  obtain r1 db1 where s: "process_one env user dev q db = (r1, db1)" by (cases "process_one env user dev q db")
  obtain r2 db2 where ss: "process_all env user dev qs db1 = (r2, db2)" by (cases "process_all env user dev qs db1")
  have "db' = db1 \<or> db' = db2" using Cons.prems(1) s ss by (auto split: sum.splits)
  then show ?case using Cons.IH [OF ss] process_one_ok [OF s Cons.prems(2)] by blast
qed simp

lemma settled_kept_all: "process_all env user dev qs db = (res, db') \<Longrightarrow> sync_ok db \<Longrightarrow> settled q x db \<Longrightarrow> settled q x db'"
proof (induction qs arbitrary: db res db')
  case (Cons q' qs)
  obtain r1 db1 where s: "process_one env user dev q' db = (r1, db1)" by (cases "process_one env user dev q' db")
  obtain r2 db2 where ss: "process_all env user dev qs db1 = (r2, db2)" by (cases "process_all env user dev qs db1")
  have "db' = db1 \<or> db' = db2" using Cons.prems(1) s ss by (auto split: sum.splits)
  then show ?case
    using Cons.IH [OF ss] process_one_ok [OF s Cons.prems(2)] settled_kept [OF Cons.prems(3) s Cons.prems(2)] by blast
qed simp

lemma process_all_append:
  "process_all env user dev (ps @ qs) db =
     (case process_all env user dev ps db of (Inl e, db) \<Rightarrow> (Inl e, db)
      | (Inr xs, db) \<Rightarrow> (case process_all env user dev qs db of (Inl e, db) \<Rightarrow> (Inl e, db) | (Inr ys, db) \<Rightarrow> (Inr (xs @ ys), db)))"
  by (induction ps arbitrary: db) (auto split: prod.splits sum.splits)

lemma process_all_settled:
  "process_all env user dev qs db = (Inr xs, db') \<Longrightarrow> sync_ok db \<Longrightarrow> list_all2 (\<lambda>q x. settled q (as_repeat x) db') qs xs"
proof (induction qs arbitrary: db xs db')
  case (Cons q qs)
  obtain x db1 xs' where s: "process_one env user dev q db = (Inr x, db1)" "process_all env user dev qs db1 = (Inr xs', db')" "xs = x # xs'"
    using Cons.prems(1) by (auto split: prod.splits sum.splits)
  have ok: "sync_ok db1" by (rule process_one_ok [OF s(1) Cons.prems(2)])
  show ?case
    using Cons.IH [OF s(2) ok] settled_kept_all [OF s(2) ok processed_settled [OF s(1) Cons.prems(2)]] by (simp add: s(3))
qed simp

lemma settled_all_repeat:
  "list_all2 (\<lambda>q x. settled q (as_repeat x) db) qs xs \<Longrightarrow> process_all env user dev qs db = (Inr (map as_repeat xs), db)"
  by (induction qs xs rule: list_all2_induct) (simp_all add: settled_repeat)

text \<open>A whole batch sent again changes nothing and every answer says so.\<close>

lemma push_again:
  assumes "process_push env user dev qs db = (Inr xs, db')" "sync_ok db"
  shows "process_push env' user' dev' qs db' = (Inr (map as_repeat xs), db')"
  using assms settled_all_repeat [OF process_all_settled [OF _ assms(2)]]
  by (auto simp: process_push_def split: if_splits)

text \<open>
  A batch that broke off: what came before stays, the operation it broke at left nothing but its
  receipt, what comes behind was not looked at.
\<close>

lemma process_all_broken:
  assumes "process_all env user dev qs db = (Inl e, db')" "sync_ok db"
  obtains ps q rest xs db1 where "qs = ps @ q # rest" "process_all env user dev ps db = (Inr xs, db1)" "sync_ok db1"
    "process_one env user dev q db1 = (Inl e, db')" "db' = db1 \<or> (\<exists>r. insert_operation env user dev q db1 = Inr (r, db'))"
  using assms
proof (induction qs arbitrary: db thesis)
  case (Cons q qs)
  obtain r1 db1 where s: "process_one env user dev q db = (r1, db1)" by (cases "process_one env user dev q db")
  show ?case
  proof (cases r1)
    case (Inl e1)
    then have "process_one env user dev q db = (Inl e, db')" using Cons.prems(2) s by simp
    then show ?thesis
      using Cons.prems(1) [where ps = "[]" and q = q and rest = qs and xs = "[]" and ?db1.0 = db] Cons.prems(3) process_one_Inl by fastforce
  next
    case (Inr x)
    then have ss: "process_all env user dev qs db1 = (Inl e, db')" using Cons.prems(2) s by (auto split: prod.splits sum.splits)
    obtain ps q2 rest xs db2 where IH: "qs = ps @ q2 # rest" "process_all env user dev ps db1 = (Inr xs, db2)" "sync_ok db2"
      "process_one env user dev q2 db2 = (Inl e, db')" "db' = db2 \<or> (\<exists>r. insert_operation env user dev q2 db2 = Inr (r, db'))"
      using Cons.IH [OF _ ss process_one_ok [OF s Cons.prems(3)]] by blast
    show ?thesis
      by (rule Cons.prems(1) [of "q # ps" q2 rest "x # xs" db2]) (use IH s Inr in \<open>simp_all\<close>)
  qed
qed simp

section \<open>Interruptions\<close>

text \<open>
  Where an attempt at an operation can be cut off by something that is no error of the code's own:
  before anything was written, after the receipt was committed, or after the handler's effect was
  committed but not the verdict.  A resumed attempt is one transaction, so cutting it off is the
  first case.
\<close>

inductive cut_off :: "env \<Rightarrow> actor option \<Rightarrow> string \<Rightarrow> operation \<Rightarrow> 'a sync_db_scheme \<Rightarrow> 'a sync_db_scheme \<Rightarrow> bool"
  for env user dev q where
  at_once: "cut_off env user dev q db db"
| after_receipt: "insert_operation env user dev q db = Inr (r, db1) \<Longrightarrow> cut_off env user dev q db db1"
| after_effect: "insert_operation env user dev q db = Inr (r, db1) \<Longrightarrow> HANDLERS (on_operation_type q) = Some h \<Longrightarrow>
    h env user dev q db1 = Inr (y, db2) \<Longrightarrow> cut_off env user dev q db db2"

inductive_cases cut_offE: "cut_off env user dev q db db'"

lemma cut_off_known:
  assumes "cut_off env user dev q db db'" "find_operation (on_client_uuid q) db = Some r"
  shows "db' = db"
  using assms by (auto elim!: cut_offE dest: insert_operationD(5))

lemma handler_find:
  "HANDLERS t = Some h \<Longrightarrow> h env user dev q db = Inr (y, db') \<Longrightarrow> find_operation u db' = find_operation u db"
  using HANDLERS_contract unfolding handler_contract_def find_operation_def by metis

text \<open>However often it is cut off, what is left is one of three states.\<close>

lemma cut_off_many:
  assumes "(cut_off env user dev q)\<^sup>*\<^sup>* db db'"
  shows "cut_off env user dev q db db'"
  using assms
proof (induction rule: rtranclp_induct)
  case base
  show ?case by (rule cut_off.at_once)
next
  case (step db1 db2)
  consider "db1 = db" | r where "find_operation (on_client_uuid q) db1 = Some r"
    using step.IH
  proof (cases rule: cut_off.cases)
    case (after_receipt r)
    then show ?thesis using that insert_operation_ok(1) by blast
  next
    case (after_effect r d h y)
    then show ?thesis using that insert_operation_ok(1) handler_find by metis
  qed (use that in blast)
  then show ?case
  proof cases
    case 1
    then show ?thesis using step.hyps by simp
  next
    case 2
    then show ?thesis using cut_off_known step by metis
  qed
qed

lemma resumed:
  assumes "sync_ok db" "find_operation (on_client_uuid q) db = Some r" "op_state r = OP_RECEIVED"
    "apply_operation env user dev q r db = (Inr x, db')"
  shows "process_one env user dev q db = (Inr x, db')"
proof -
  have "tb_get op_pk (op_pk r) (db_operations db) = Some r"
    using tb_get_row [of op_pk "db_operations db" r] find_operationD [OF assms(2)] assms(1) by (simp add: sync_ok_def)
  then show ?thesis using assms by (simp add: process_one_def settle_existing_def recover_operation_def)
qed

lemma process_one_resumed:
  assumes "(cut_off env user dev q)\<^sup>*\<^sup>* db db1" "process_one env user dev q db = (Inr x, db')" "sync_ok db" "on_client_uuid q \<noteq> ''''"
  shows "process_one env user dev q db1 = (Inr x, db')"
  using cut_off_many [OF assms(1)]
proof (cases rule: cut_off.cases)
  case at_once
  then show ?thesis using assms(2) by simp
next
  case (after_receipt r)
  have "apply_operation env user dev q r db1 = (Inr x, db')"
    using assms(2) after_receipt insert_operationD(5) [OF after_receipt] by (simp add: process_one_def)
  then show ?thesis
    using resumed insert_operation_ok [OF after_receipt] insert_operationD(2) [OF after_receipt] assms(3) by blast
next
  case (after_effect r db0 h y)
  note I = insert_operation_ok [OF after_effect(1)] insert_operationD [OF after_effect(1)]
  have C: "db_operations db1 = db_operations db0" "deliveries_ok db1" "h env user dev q db1 = Inr (y, db1)"
    using HANDLERS_contract [OF after_effect(2)] after_effect(3) I(2) [OF assms(3)] assms(4)
    unfolding handler_contract_def sync_ok_def by blast+
  obtain t k where y: "y = (t, k)" by (cases y)
  have "apply_operation env user dev q r db0 = (Inr x, db')"
    using assms(2) after_effect(1) I(7) by (simp add: process_one_def)
  then have "apply_operation env user dev q r db1 = (Inr x, db')"
    using after_effect(2,3) C(3) by (simp add: apply_operation_def y)
  moreover have "sync_ok db1" using I(2) [OF assms(3)] C by (simp add: sync_ok_def)
  moreover have "find_operation (on_client_uuid q) db1 = Some r" using I(1) C(1) by (simp add: find_operation_def)
  ultimately show ?thesis using resumed I(4) by blast
qed

lemma cut_off_settled:
  assumes "cut_off env user dev q' db db'" "settled q x db"
  shows "settled q x db'"
proof -
  have new: "settled q x db0" if "insert_operation env user dev q' db = Inr (r, db0)" for r db0
    using assms(2) insert_operationD(6) [OF that] by (auto simp: settled_def find_operation_def tb_first_def find_append)
  show ?thesis
    using assms(1)
  proof (cases rule: cut_off.cases)
    case (after_effect r db1 h y)
    then show ?thesis using new [OF after_effect(1)] handler_find [OF after_effect(2,3)] by (simp add: settled_def)
  qed (use new assms(2) in auto)
qed

text \<open>
  A batch that was cut off at an operation, sent again: what had its verdict is answered as a
  repeat, the operation and what is behind it as if nothing had happened.
\<close>

lemma push_resumed:
  assumes "process_push env user dev (ps @ q # qs) db = (Inr zs, db')" "process_all env user dev ps db = (Inr xs, db0)"
    "(cut_off env user dev q)\<^sup>*\<^sup>* db0 db1" "sync_ok db" "on_client_uuid q \<noteq> ''''"
  shows "process_push env user dev (ps @ q # qs) db1 = (Inr (map as_repeat xs @ drop (length ps) zs), db')"
proof -
  have len: "length (ps @ q # qs) \<le> MAX_BATCH" and all: "process_all env user dev (ps @ q # qs) db = (Inr zs, db')"
    using assms(1) by (auto simp: process_push_def split: if_splits)
  obtain ys where ys: "process_all env user dev (q # qs) db0 = (Inr ys, db')" "zs = xs @ ys"
    using all assms(2) by (auto simp: process_all_append split: prod.splits sum.splits)
  obtain y db2 ys' where y: "process_one env user dev q db0 = (Inr y, db2)" "process_all env user dev qs db2 = (Inr ys', db')" "ys = y # ys'"
    using ys(1) by (auto split: prod.splits sum.splits)
  have done': "list_all2 (\<lambda>q x. settled q (as_repeat x) db0) ps xs" by (rule process_all_settled [OF assms(2,4)])
  then have "length ps = length xs" by (rule list_all2_lengthD)
  moreover have "process_all env user dev ps db1 = (Inr (map as_repeat xs), db1)"
    by (rule settled_all_repeat, rule list_all2_mono [OF done'], rule cut_off_settled [OF cut_off_many [OF assms(3)]])
  moreover have "process_one env user dev q db1 = (Inr y, db2)"
    by (rule process_one_resumed [OF assms(3) y(1) process_all_ok [OF assms(2,4)] assms(5)])
  ultimately show ?thesis
    using len y by (simp add: process_push_def process_all_append ys(2))
qed

section \<open>What an operation can reach\<close>

lemma get_delivery_for_operations [simp]:
  "get_delivery_for user k (db\<lparr>db_operations := t\<rparr>) = get_delivery_for user k db"
  by (simp add: get_delivery_for_def visible_deliveries_def delivery_customer_def zone_assigned_def Let_def cong: option.case_cong)

lemma handler_deliveries:
  assumes "HANDLERS (on_operation_type q) = Some h" "h env user dev q db = Inr (y, db')" "db_deliveries db' \<noteq> db_deliveries db"
  shows "on_operation_type q = ''DELIVERY_COMPLETE'' \<and> pd_delivered_at (on_payload q) = Absent \<and> has_role user INTERNAL \<and>
    (\<exists>k d. pd_delivery_id (on_payload q) = Given k \<and> get_delivery_for user k db = Some d)"
proof (cases "on_operation_type q = ''DELIVERY_COMPLETE''")
  case True
  then have "handle_delivery_complete env user dev q db = Inr (y, db')" using assms(1,2) by (simp add: HANDLERS_def)
  then obtain k d lat lon x where k: "pd_delivery_id (on_payload q) = Given k" "get_delivery_for user k db = Some d"
    and c: "complete_at env user (dl_pk d)
        \<lparr>oa_recipient_name = pd_recipient_name (on_payload q), oa_delivered_at = None, oa_latitude = lat,
         oa_longitude = lon, oa_photo_media = None, oa_device_id = dev\<rparr>
        (pd_delivered_at (on_payload q)) (Some (on_client_uuid q)) db = Inr (x, db')"
    by (auto simp: handle_delivery_complete_def Let_def andThen_Inr_iff split: arg.splits option.splits)
  have "has_role user INTERNAL" using complete_at_Inr(1) [OF c] by (simp add: complete_delivery_cases)
  then show ?thesis using complete_at_Inr(2) [OF c] k True assms(3) by auto
next
  case False
  then have "handle_visit_create env user dev q db = Inr (y, db')" using assms(1,2) by (auto simp: HANDLERS_def split: if_splits)
  then show ?thesis using assms(3) by (auto simp: handle_visit_create_def Let_def andThen_Inr_iff dest: record_visit_frame(2))
qed

lemma apply_operation_deliveries:
  assumes "apply_operation env user dev q r db = (res, db')" "db_deliveries db' \<noteq> db_deliveries db"
  shows "on_operation_type q = ''DELIVERY_COMPLETE'' \<and> pd_delivered_at (on_payload q) = Absent \<and> has_role user INTERNAL \<and>
    (\<exists>k d. pd_delivery_id (on_payload q) = Given k \<and> get_delivery_for user k db = Some d)"
proof -
  have save: "db_deliveries d2 = db_deliveries d1" if "save_operation f r d1 = (v, d2)" for f v and d1 d2 :: "'a sync_db_scheme"
    using that by (auto simp: save_operation_def split: if_splits)
  obtain h y db1 where "HANDLERS (on_operation_type q) = Some h" "h env user dev q db = Inr (y, db1)" "db_deliveries db' = db_deliveries db1"
    using assms save by (auto simp: apply_operation_def reject_operation_def split: option.splits sum.splits prod.splits)
  then show ?thesis using handler_deliveries assms(2) by metis
qed

lemma process_one_deliveries:
  assumes "process_one env user dev q db = (res, db')" "sync_ok db" "db_deliveries db' \<noteq> db_deliveries db"
  shows "on_operation_type q = ''DELIVERY_COMPLETE'' \<and> pd_delivered_at (on_payload q) = Absent \<and> has_role user INTERNAL \<and>
    (\<exists>k d. pd_delivery_id (on_payload q) = Given k \<and> get_delivery_for user k db = Some d)"
proof (cases res)
  case (Inl e)
  then show ?thesis using assms(1,3) process_one_Inl insert_operationD(6) by fastforce
next
  case (Inr x)
  have "process_one env user dev q db = (Inr x, db')" using assms(1) Inr by simp
  then show ?thesis using assms(2)
  proof (cases rule: process_oneD)
    case (attempt r db0)
    from attempt(1) have "\<exists>t. db0 = db\<lparr>db_operations := t\<rparr>"
    proof
      assume "find_operation (on_client_uuid q) db = Some r \<and> db0 = db"
      then show ?thesis by (intro exI [of _ "db_operations db"]) simp
    next
      assume "insert_operation env user dev q db = Inr (r, db0)"
      then show ?thesis using insert_operationD(6) by blast
    qed
    then obtain t where t: "db0 = db\<lparr>db_operations := t\<rparr>" by blast
    show ?thesis using apply_operation_deliveries [OF attempt(5)] assms(3) by (simp add: t)
  qed (use assms(3) in simp)
qed


section \<open>An operation that breaks its batch\<close>

text \<open>The handler raises something that is no domain error, before and after the receipt alike.\<close>

definition breaks :: "env \<Rightarrow> actor option \<Rightarrow> string \<Rightarrow> operation \<Rightarrow> error \<Rightarrow> 'a sync_db_scheme \<Rightarrow> bool" where
  "breaks env user dev q e db \<longleftrightarrow> (\<exists>h. HANDLERS (on_operation_type q) = Some h \<and> (\<forall>t. h env user dev q (db\<lparr>db_operations := t\<rparr>) = Inl e)) \<and>
     error_code e = None"

lemma breaks_apply:
  "breaks env user dev q e db \<Longrightarrow> apply_operation env user dev q r (db\<lparr>db_operations := t\<rparr>) = (Inl e, db\<lparr>db_operations := t\<rparr>)"
  by (auto simp: breaks_def apply_operation_def)

lemma breaks_operations [simp]: "breaks env user dev q e (db\<lparr>db_operations := t\<rparr>) = breaks env user dev q e db"
  by (simp add: breaks_def)

text \<open>
  However often the batch is sent: the same failure, and what is behind the operation is not
  looked at.
\<close>

lemma breaks_first:
  assumes "breaks env user dev q e db" "sync_ok db" "find_operation (on_client_uuid q) db = None"
    "insert_operation env user dev q db = Inr (r, db1)"
  shows "process_all env user dev (q # qs) db = (Inl e, db1)"
  using assms breaks_apply [OF assms(1), where r = r] insert_operationD(6) [OF assms(4)] by (simp add: process_one_def)

lemma breaks_again:
  assumes "breaks env user dev q e db" "sync_ok db" "find_operation (on_client_uuid q) db = Some r" "op_state r = OP_RECEIVED"
  shows "process_all env user dev (q # qs) db = (Inl e, db)"
proof -
  have "tb_get op_pk (op_pk r) (db_operations db) = Some r"
    using tb_get_row [of op_pk "db_operations db" r] find_operationD [OF assms(3)] assms(2) by (simp add: sync_ok_def)
  moreover have "apply_operation env user dev q r db = (Inl e, db)"
    using breaks_apply [OF assms(1), of r "db_operations db"] by simp
  ultimately show ?thesis using assms(3,4) by (simp add: process_one_def settle_existing_def recover_operation_def)
qed

lemma breaks_forever:
  assumes b: "breaks env user dev q e db" "sync_ok db" "find_operation (on_client_uuid q) db = None"
    and i: "insert_operation env user dev q db = Inr (r, db1)" and len: "length (q # qs) \<le> MAX_BATCH"
  defines "push \<equiv> \<lambda>db. process_push env user dev (q # qs) db"
  shows "fst (push (((\<lambda>db. snd (push db)) ^^ n) db)) = Inl e" "((\<lambda>db. snd (push db)) ^^ n) db \<in> {db, db1}"
proof -
  have push: "push d = process_all env user dev (q # qs) d" for d using len by (simp add: push_def process_push_def)
  have db1: "breaks env user dev q e db1" using b(1) insert_operationD(6) [OF i] by simp
  have again: "push db1 = (Inl e, db1)"
    unfolding push
    by (rule breaks_again [OF db1 insert_operation_ok(2) [OF i b(2)] insert_operation_ok(1) [OF i] insert_operationD(2) [OF i]])
  have first: "push db = (Inl e, db1)" unfolding push by (rule breaks_first [OF b i])
  show in': "((\<lambda>db. snd (push db)) ^^ n) db \<in> {db, db1}"
    by (induction n) (use first again in auto)
  show "fst (push (((\<lambda>db. snd (push db)) ^^ n) db)) = Inl e" using in' first again by auto
qed

lemma complete_locked_operations:
  "(\<exists>x. complete_locked env user l a cu (db\<lparr>db_operations := t\<rparr>) = Inr x) \<longleftrightarrow>
   (\<exists>x. complete_locked env user l a cu (db :: 'a sync_db_scheme) = Inr x)"
  by (simp add: complete_locked_def save_outcome_def save_delivery_def get_order_def mark_delivered_def transition_def
      save_order_def replay_of_def Let_def andThen_case split: option.splits sum.splits if_splits)

lemma complete_locked_now:
  "complete_locked env user l (a\<lparr>oa_delivered_at := None\<rparr>) cu db = complete_locked env user l (a\<lparr>oa_delivered_at := Some (now env)\<rparr>) cu db"
  by (simp add: complete_locked_def)

lemma complete_locked_time:
  "(\<exists>x. complete_locked env user l (a\<lparr>oa_delivered_at := Some t\<rparr>) cu db = Inr x) \<longleftrightarrow>
   (\<exists>x. complete_locked env user l (a\<lparr>oa_delivered_at := Some t'\<rparr>) cu (db :: 'a fulfilment_db_scheme) = Inr x)"
  by (cases "oa_latitude a"; cases "oa_longitude a")
    (simp_all add: complete_locked_def save_outcome_def save_delivery_def get_order_def mark_delivered_def transition_def
      save_order_def delivery_constraints_def Let_def andThen_case split: option.splits sum.splits if_splits)

definition untimed :: "operation \<Rightarrow> operation" where
  "untimed q = q\<lparr>on_payload := (on_payload q)\<lparr>pd_delivered_at := Absent\<rparr>\<rparr>"

text \<open>
  The mobile client always sends the time of a completion.  Whatever completion would go through
  without its time breaks the batch with it, as long as the delivery is still to be completed.
\<close>

lemma good_completion_breaks:
  fixes db :: "'a sync_db_scheme"
  assumes q: "on_operation_type q = ''DELIVERY_COMPLETE''" "pd_delivered_at (on_payload q) = Given t"
      "pd_delivery_id (on_payload q) = Given k"
    and d: "tb_get dl_pk k (db_deliveries db) = Some d" "dl_status d = PENDING" "replay_of (Some (on_client_uuid q)) db = None"
    and ok: "handle_delivery_complete env user dev (untimed q) db = Inr y"
  shows "breaks env user dev q (PyError ''AttributeError'') db"
proof -
  obtain d1 where d1: "get_delivery_for user k db = Some d1"
    using ok q(3) by (auto simp: handle_delivery_complete_def untimed_def Let_def split: option.splits)
  then have pk: "dl_pk d1 = k" and row: "d1 \<in> set (tb_rows (db_deliveries db))"
    by (auto simp: get_delivery_for_def visible_deliveries_def Let_def dest!: find_SomeD split: if_splits)
  obtain lat lon where c: "decimal_arg (pd_latitude (on_payload q)) = Inr lat" "decimal_arg (pd_longitude (on_payload q)) = Inr lon"
    and fin: "\<exists>x. complete_delivery env user k \<lparr>oa_recipient_name = pd_recipient_name (on_payload q), oa_delivered_at = None,
        oa_latitude = lat, oa_longitude = lon, oa_photo_media = None, oa_device_id = dev\<rparr> (Some (on_client_uuid q)) db = Inr x"
    using ok q(3) d1 pk by (auto simp: handle_delivery_complete_def untimed_def Let_def complete_at_def andThen_Inr_iff split: option.splits)
  let ?a = "\<lparr>oa_recipient_name = pd_recipient_name (on_payload q), oa_delivered_at = None,
        oa_latitude = lat, oa_longitude = lon, oa_photo_media = None, oa_device_id = dev\<rparr>"
  obtain x where x: "complete_locked env user d ?a (Some (on_client_uuid q)) db = Inr x"
    and r: "has_role user INTERNAL" "dl_dispatched_at d \<noteq> None"
    using fin d by (auto simp: complete_delivery_def lock_dispatched_def andThen_Inr_iff require_roles_def require_def
        split: if_splits)
  have "?a\<lparr>oa_delivered_at := None\<rparr> = ?a" by simp
  then obtain z where z: "complete_locked env user d (?a\<lparr>oa_delivered_at := Some t\<rparr>) (Some (on_client_uuid q)) db = Inr z"
    using x complete_locked_now [of env user d ?a] complete_locked_time by metis
  have "handle_delivery_complete env user dev q (db\<lparr>db_operations := tt\<rparr>) = Inl (PyError ''AttributeError'')" for tt
  proof -
    obtain y where "complete_locked env user d (?a\<lparr>oa_delivered_at := Some t\<rparr>) (Some (on_client_uuid q)) (db\<lparr>db_operations := tt\<rparr>) = Inr y"
      using z complete_locked_operations by blast
    then show ?thesis
      using q d d1 pk c r by (simp add: handle_delivery_complete_def Let_def complete_at_def lock_dispatched_def replay_of_def)
  qed
  then show ?thesis using q(1) by (simp add: breaks_def HANDLERS_def)
qed


lemma insertion_only_notes:
  "insert_operation env user dev q db = Inr (r, db1) \<Longrightarrow> op_state r = OP_RECEIVED \<and> db1 = db\<lparr>db_operations := db_operations db1\<rparr>"
  by (auto simp: insert_operation_def tb_insert_def Let_def andThen_Inr_iff split: option.splits if_splits)

end
