(* ===== verification/Pulling.thy ===== *)
theory Pulling
  imports Sync
begin

text \<open>
  What a pull promises.  Pages are cut by the time and key of the last row, not by counting, so a
  row that stays as it is reaches the device once whatever becomes of the others meanwhile; and
  over rows that rest the pages are the sorted collection, cut at the page size.
\<close>


section \<open>One page\<close>

definition since_ok :: "('r \<Rightarrow> int) \<Rightarrow> int option \<Rightarrow> 'r \<Rightarrow> bool" where
  "since_ok updated cutoff r = (case cutoff of None \<Rightarrow> True | Some t \<Rightarrow> t \<le> updated r)"

text \<open>What is still to come of a collection, in the order it comes.\<close>

definition to_come :: "('r \<Rightarrow> int) \<Rightarrow> ('r \<Rightarrow> nat) \<Rightarrow> 'r list \<Rightarrow> int option \<Rightarrow> cursor \<Rightarrow> 'r list" where
  "to_come updated key q cutoff p = filter (behind updated key p) (ordered_rows updated key (filter (since_ok updated cutoff) q))"

lemma collect_to_come:
  "collect updated key q cutoff p =
     (let rest = to_come updated key q cutoff p
      in if p = Exhausted \<or> length rest \<le> PULL_PAGE_SIZE then (rest, Exhausted)
         else let page = take PULL_PAGE_SIZE rest in (page, After (updated (last page)) (key (last page))))"
proof -
  have "ordered_rows updated key (filter (\<lambda>r. since_ok updated cutoff r \<and> behind updated key p r) q) = to_come updated key q cutoff p"
    by (simp add: to_come_def ordered_rows_def filter_sort conj_commute)
  moreover have "to_come updated key q cutoff Exhausted = []" by (simp add: to_come_def behind_def)
  ultimately show ?thesis
    by (auto simp: collect_def Let_def since_ok_def [symmetric] min_def not_less_eq_eq)
qed

lemma set_to_come: "set (to_come updated key q cutoff p) = {r \<in> set q. since_ok updated cutoff r \<and> behind updated key p r}"
  by (auto simp: to_come_def ordered_rows_def)

text \<open>Keys are not shared, so the order is strict and the last row of a page says where the next begins.\<close>

lemma to_come_strict:
  assumes "distinct (map key q)"
  shows "sorted_wrt (\<lambda>a b. (updated a, key a) < (updated b, key b)) (to_come updated key q cutoff p)"
proof -
  let ?f = "\<lambda>r. (updated r, key r)" and ?q = "filter (since_ok updated cutoff) q"
  have "distinct (map ?f (sort_key ?f ?q))"
    using assms by (auto simp: distinct_map inj_on_def)
  then have "sorted_wrt (<) (map ?f (sort_key ?f ?q))"
    by (simp add: strict_sorted_iff)
  then show ?thesis
    unfolding to_come_def ordered_rows_def by (intro sorted_wrt_filter) (simp add: sorted_wrt_map)
qed

lemma filter_behind_nth:
  assumes "sorted_wrt (\<lambda>a b. f a < f b) xs" "n < length xs"
  shows "filter (\<lambda>x. f (xs ! n) < (f x :: 'b :: linorder)) xs = drop (Suc n) xs"
proof -
  have "xs = take (Suc n) xs @ drop (Suc n) xs" by simp
  moreover have "filter (\<lambda>x. f (xs ! n) < f x) (take (Suc n) xs) = []"
  proof -
    have "\<not> f (xs ! n) < f x" if x: "x \<in> set (take (Suc n) xs)" for x
    proof -
      obtain i where i: "i < Suc n" "x = xs ! i" using x assms(2) by (auto simp: in_set_conv_nth)
      then have "i = n \<or> f x < f (xs ! n)" using sorted_wrt_nth_less [OF assms(1)] assms(2) by (auto simp: less_Suc_eq)
      then show ?thesis using i by auto
    qed
    then show ?thesis by (auto simp: filter_empty_conv)
  qed
  moreover have "filter (\<lambda>x. f (xs ! n) < f x) (drop (Suc n) xs) = drop (Suc n) xs"
  proof -
    have "f (xs ! n) < f x" if x: "x \<in> set (drop (Suc n) xs)" for x
    proof -
      obtain i where "i < length xs - Suc n" "x = xs ! (Suc n + i)" using x by (auto simp: in_set_conv_nth)
      then show ?thesis using sorted_wrt_nth_less [OF assms(1), of n "Suc n + i"] by simp
    qed
    then show ?thesis by (simp add: filter_id_conv)
  qed
  ultimately show ?thesis by (metis append_Nil filter_append)
qed

lemma behind_After: "behind updated key (After t k) r \<longleftrightarrow> (t, k) < (updated r, key r)"
  by (auto simp: behind_def)

text \<open>A page is the head of what is to come, and what comes after it is the rest.\<close>

lemma collect_page:
  assumes "collect updated key q cutoff p = (page, p')" "distinct (map key q)"
  shows "page = take PULL_PAGE_SIZE (to_come updated key q cutoff p)"
    "to_come updated key q cutoff p' = drop PULL_PAGE_SIZE (to_come updated key q cutoff p)"
    "p' = Exhausted \<longleftrightarrow> length (to_come updated key q cutoff p) \<le> PULL_PAGE_SIZE"
proof -
  let ?rest = "to_come updated key q cutoff"
  have none: "?rest Exhausted = []" by (simp add: to_come_def behind_def)
  show "page = take PULL_PAGE_SIZE (?rest p)" "p' = Exhausted \<longleftrightarrow> length (?rest p) \<le> PULL_PAGE_SIZE"
    using assms(1) none by (auto simp: collect_to_come Let_def split: if_splits)
  show "?rest p' = drop PULL_PAGE_SIZE (?rest p)"
  proof (cases "length (?rest p) \<le> PULL_PAGE_SIZE")
    case True
    then show ?thesis using assms(1) none by (auto simp: collect_to_come Let_def split: if_splits)
  next
    case False
    let ?n = "PULL_PAGE_SIZE - 1" and ?f = "\<lambda>r. (updated r, key r)"
    have n: "?n < length (?rest p)" "Suc ?n = PULL_PAGE_SIZE" using False by (simp_all add: PULL_PAGE_SIZE_def)
    have last: "last (take PULL_PAGE_SIZE (?rest p)) = ?rest p ! ?n"
      using False n by (subst last_conv_nth) (auto simp: PULL_PAGE_SIZE_def min_def)
    have p': "p' = After (updated (?rest p ! ?n)) (key (?rest p ! ?n))"
      using assms(1) False none by (auto simp: collect_to_come Let_def last split: if_splits)
    have "?rest p ! ?n \<in> set (?rest p)" using n(1) by (rule nth_mem)
    then have here: "behind updated key p (?rest p ! ?n)" by (simp add: set_to_come)
    have "behind updated key p r" if "behind updated key p' r" for r
      using that here by (cases p) (auto simp: p' behind_def)
    then have "?rest p' = filter (behind updated key p') (?rest p)"
      unfolding to_come_def filter_filter by (intro filter_cong) auto
    also have "\<dots> = drop (Suc ?n) (?rest p)"
      unfolding p' behind_After by (rule filter_behind_nth [OF to_come_strict [OF assms(2)] n(1)])
    finally show ?thesis unfolding n(2) .
  qed
qed


lemma collect_resumes:
  assumes "collect updated key q cutoff p = (page, After t k)"
  obtains r where "r \<in> set q" "k = key r"
proof -
  let ?page = "take PULL_PAGE_SIZE (to_come updated key q cutoff p)"
  have "\<not> length (to_come updated key q cutoff p) \<le> PULL_PAGE_SIZE" "k = key (last ?page)"
    using assms by (auto simp: collect_to_come Let_def split: if_splits)
  then have "last ?page \<in> set ?page" "k = key (last ?page)"
    by (auto simp: PULL_PAGE_SIZE_def intro!: last_in_set)
  then have "last ?page \<in> set q" "k = key (last ?page)" by (auto simp: set_to_come dest!: in_set_takeD)
  then show ?thesis using that by blast
qed

lemma collect_not_Start: "collect updated key q cutoff p \<noteq> (page, Start)"
  by (auto simp: collect_to_come Let_def split: if_splits)


section \<open>The token\<close>

text \<open>
  What is relied on of the standard library's JSON, base64 and ISO 8601: what was written is read
  back, no text is empty, and a written time carries its zone.
\<close>

definition codec_ok :: "codec \<Rightarrow> bool" where
  "codec_ok cd \<longleftrightarrow> (\<forall>j. cd_loads cd (cd_dumps cd j) = Some j \<and> cd_dumps cd j \<noteq> '''') \<and>
     (\<forall>t. cd_fromisoformat cd (cd_isoformat cd t) = Some (t, True))"

definition resumable :: "cursor \<Rightarrow> bool" where
  "resumable p = (case p of Start \<Rightarrow> False | After t k \<Rightarrow> 0 < k | Exhausted \<Rightarrow> True)"

lemma read_cursor_json: "codec_ok cd \<Longrightarrow> resumable p \<Longrightarrow> read_cursor cd (cursor_json cd p) = Inr p"
  by (cases p) (auto simp: codec_ok_def resumable_def cursor_json_def read_cursor_def andThen_def require_def)

lemma decode_encode:
  "codec_ok cd \<Longrightarrow> resumable c \<Longrightarrow> resumable d \<Longrightarrow> decode_token cd (Some (encode_token cd c d)) = Inr (c, d)"
  by (simp add: decode_token_def encode_token_def read_cursor_json) (simp add: codec_ok_def read_cursor_json andThen_def require_def)

lemma collect_resumable:
  assumes "collect updated key q cutoff p = (page, p')" "\<forall>r \<in> set q. 0 < key r"
  shows "resumable p'"
proof (cases p')
  case Start
  then show ?thesis using assms(1) collect_not_Start by metis
next
  case (After t k)
  then obtain r where "r \<in> set q" "k = key r" using assms(1) collect_resumes by metis
  then show ?thesis using assms(2) by (simp add: After resumable_def)
qed (simp add: resumable_def)


section \<open>A whole pull\<close>

definition keys_ok :: "'a fulfilment_db_scheme \<Rightarrow> bool" where
  "keys_ok db \<longleftrightarrow> distinct (map cu_pk (tb_rows (db_customers db))) \<and> distinct (map dl_pk (tb_rows (db_deliveries db))) \<and>
     (\<forall>c \<in> set (tb_rows (db_customers db)). 0 < cu_pk c) \<and> (\<forall>d \<in> set (tb_rows (db_deliveries db)). 0 < dl_pk d)"

text \<open>The device asks until there is no more; the database may be another at every page.\<close>

fun pull_chain ::
  "codec \<Rightarrow> env \<Rightarrow> actor option \<Rightarrow> int option \<Rightarrow> string option \<Rightarrow> 'a fulfilment_db_scheme list \<Rightarrow> pull_page list option" where
  "pull_chain cd env user cutoff tok [] = None"
| "pull_chain cd env user cutoff tok (db # dbs) =
     (case pull cd env user cutoff tok db of Inl _ \<Rightarrow> None
      | Inr pg \<Rightarrow> if pg_has_more pg then map_option (Cons pg) (pull_chain cd env user cutoff (pg_next_page_token pg) dbs)
                 else Some [pg])"

lemma visible_keys:
  assumes "keys_ok db"
  shows "distinct (map cu_pk (visible_customers user db))" "distinct (map dl_pk (visible_deliveries user db))"
    "\<forall>c \<in> set (visible_customers user db). 0 < cu_pk c" "\<forall>d \<in> set (visible_deliveries user db). 0 < dl_pk d"
  using assms by (auto simp: keys_ok_def visible_customers_def visible_deliveries_def Let_def distinct_map_filter)

text \<open>One page of a pull, with the cursors instead of the token.\<close>

lemma pull_page:
  assumes "codec_ok cd" "keys_ok db" "decode_token cd tok = Inr (c, d)"
  obtains pg c' d' where "pull cd env user cutoff tok db = Inr pg"
    "collect cu_updated_at cu_pk (visible_customers user db) cutoff c = (pg_customers pg, c')"
    "collect dl_updated_at dl_pk (visible_deliveries user db) cutoff d = (pg_deliveries pg, d')"
    "pg_has_more pg \<longleftrightarrow> c' \<noteq> Exhausted \<or> d' \<noteq> Exhausted"
    "pg_has_more pg \<Longrightarrow> decode_token cd (pg_next_page_token pg) = Inr (c', d')"
proof -
  obtain cs c' where C: "collect cu_updated_at cu_pk (visible_customers user db) cutoff c = (cs, c')" by fastforce
  obtain ds d' where D: "collect dl_updated_at dl_pk (visible_deliveries user db) cutoff d = (ds, d')" by fastforce
  note r = collect_resumable [OF C visible_keys(3) [OF assms(2)]] collect_resumable [OF D visible_keys(4) [OF assms(2)]]
  show ?thesis
    by (rule that [where c' = c' and d' = d' and pg = "\<lparr>pg_server_time = now env, pg_since = cutoff,
          pg_next_page_token = (if c' \<noteq> Exhausted \<or> d' \<noteq> Exhausted then Some (encode_token cd c' d') else None),
          pg_has_more = (c' \<noteq> Exhausted \<or> d' \<noteq> Exhausted), pg_customers = cs,
          pg_deactivated_ids = (if tok = None \<or> tok = Some '''' then deactivated_customer_ids cutoff db else []),
          pg_deliveries = ds\<rparr>"])
      (use assms C D r in \<open>simp_all add: pull_def andThen_def decode_encode\<close>)
qed


lemma count_distinct: "distinct xs \<Longrightarrow> count_list xs x = of_bool (x \<in> set xs)"
  by (induction xs) auto

lemma collect_count:
  assumes "collect updated key q cutoff p = (page, p')" "distinct (map key q)" "r \<in> set q" "since_ok updated cutoff r"
  shows "count_list page r + of_bool (behind updated key p' r) = of_bool (behind updated key p r)"
proof -
  let ?rest = "to_come updated key q cutoff"
  have dist: "distinct (?rest p)" for p
    using assms(2) by (auto simp: to_come_def ordered_rows_def distinct_map)
  have in_rest: "count_list (?rest p) r = of_bool (behind updated key p r)" for p
    using dist [of p] assms(3,4) by (simp add: count_distinct set_to_come)
  have "?rest p = page @ ?rest p'" using collect_page [OF assms(1,2)] by simp
  then have "count_list (?rest p) r = count_list page r + count_list (?rest p') r" by (metis count_list_append)
  then show ?thesis by (simp add: in_rest)
qed

text \<open>Over rows that rest the pages are the sorted collection, cut at the page size.\<close>

lemma pull_chain_resting:
  assumes "codec_ok cd" "keys_ok db"
  shows "decode_token cd tok = Inr (c, d) \<Longrightarrow> 0 < n \<Longrightarrow>
    length (to_come cu_updated_at cu_pk (visible_customers user db) cutoff c) \<le> n * PULL_PAGE_SIZE \<Longrightarrow>
    length (to_come dl_updated_at dl_pk (visible_deliveries user db) cutoff d) \<le> n * PULL_PAGE_SIZE \<Longrightarrow>
    \<exists>pgs. pull_chain cd env user cutoff tok (replicate n db) = Some pgs \<and>
      concat (map pg_customers pgs) = to_come cu_updated_at cu_pk (visible_customers user db) cutoff c \<and>
      concat (map pg_deliveries pgs) = to_come dl_updated_at dl_pk (visible_deliveries user db) cutoff d \<and>
      (\<forall>pg \<in> set pgs. length (pg_customers pg) \<le> PULL_PAGE_SIZE \<and> length (pg_deliveries pg) \<le> PULL_PAGE_SIZE)"
proof (induction n arbitrary: tok c d)
  case (Suc n)
  obtain pg c' d' where pg: "pull cd env user cutoff tok db = Inr pg"
    "collect cu_updated_at cu_pk (visible_customers user db) cutoff c = (pg_customers pg, c')"
    "collect dl_updated_at dl_pk (visible_deliveries user db) cutoff d = (pg_deliveries pg, d')"
    "pg_has_more pg \<longleftrightarrow> c' \<noteq> Exhausted \<or> d' \<noteq> Exhausted"
    "pg_has_more pg \<Longrightarrow> decode_token cd (pg_next_page_token pg) = Inr (c', d')"
    using pull_page [OF assms Suc.prems(1)] by blast
  note C = collect_page [OF pg(2) visible_keys(1) [OF assms(2)]]
  note D = collect_page [OF pg(3) visible_keys(2) [OF assms(2)]]
  show ?case
  proof (cases "pg_has_more pg")
    case True
    then have "0 < n" using pg(4) C(3) D(3) Suc.prems(3,4) by (cases n) auto
    moreover have "length (to_come cu_updated_at cu_pk (visible_customers user db) cutoff c') \<le> n * PULL_PAGE_SIZE"
      "length (to_come dl_updated_at dl_pk (visible_deliveries user db) cutoff d') \<le> n * PULL_PAGE_SIZE"
      using Suc.prems(3,4) by (simp_all add: C(2) D(2))
    ultimately obtain pgs where pgs: "pull_chain cd env user cutoff (pg_next_page_token pg) (replicate n db) = Some pgs"
      "concat (map pg_customers pgs) = to_come cu_updated_at cu_pk (visible_customers user db) cutoff c'"
      "concat (map pg_deliveries pgs) = to_come dl_updated_at dl_pk (visible_deliveries user db) cutoff d'"
      "\<forall>pg \<in> set pgs. length (pg_customers pg) \<le> PULL_PAGE_SIZE \<and> length (pg_deliveries pg) \<le> PULL_PAGE_SIZE"
      using Suc.IH [OF pg(5) [OF True]] by blast
    have "length (pg_customers pg) \<le> PULL_PAGE_SIZE" "length (pg_deliveries pg) \<le> PULL_PAGE_SIZE" using C(1) D(1) by simp_all
    then show ?thesis using pg(1) True pgs C(1,2) D(1,2) by (intro exI [of _ "pg # pgs"]) simp
  next
    case False
    then show ?thesis using pg(1,4) C(1,3) D(1,3) by (intro exI [of _ "[pg]"]) simp
  qed
qed simp

text \<open>Whatever changes between the pages, what does not change is told once.\<close>

lemma pull_chain_once:
  assumes "codec_ok cd"
  shows "pull_chain cd env user cutoff tok dbs = Some pgs \<Longrightarrow> decode_token cd tok = Inr (c, d) \<Longrightarrow> \<forall>db \<in> set dbs. keys_ok db \<Longrightarrow>
     (\<forall>db \<in> set dbs. x \<in> set (visible_customers user db)) \<and> since_ok cu_updated_at cutoff x \<longrightarrow>
       count_list (concat (map pg_customers pgs)) x = of_bool (behind cu_updated_at cu_pk c x)"
    and "pull_chain cd env user cutoff tok dbs = Some pgs \<Longrightarrow> decode_token cd tok = Inr (c, d) \<Longrightarrow> \<forall>db \<in> set dbs. keys_ok db \<Longrightarrow>
     (\<forall>db \<in> set dbs. y \<in> set (visible_deliveries user db)) \<and> since_ok dl_updated_at cutoff y \<longrightarrow>
       count_list (concat (map pg_deliveries pgs)) y = of_bool (behind dl_updated_at dl_pk d y)"
proof (induction dbs arbitrary: tok c d pgs)
  case (Cons db dbs)
  { fix tok c d pgs
    assume prems: "pull_chain cd env user cutoff tok (db # dbs) = Some pgs" "decode_token cd tok = Inr (c, d)"
      "\<forall>db \<in> set (db # dbs). keys_ok db"
    have keys: "keys_ok db" using prems(3) by simp
    obtain pg c' d' where pg: "pull cd env user cutoff tok db = Inr pg"
      "collect cu_updated_at cu_pk (visible_customers user db) cutoff c = (pg_customers pg, c')"
      "collect dl_updated_at dl_pk (visible_deliveries user db) cutoff d = (pg_deliveries pg, d')"
      "pg_has_more pg \<longleftrightarrow> c' \<noteq> Exhausted \<or> d' \<noteq> Exhausted"
      "pg_has_more pg \<Longrightarrow> decode_token cd (pg_next_page_token pg) = Inr (c', d')"
      using pull_page [OF assms keys prems(2)] by blast
    note C = collect_count [OF pg(2) visible_keys(1) [OF keys]] and D = collect_count [OF pg(3) visible_keys(2) [OF keys]]
    have "((\<forall>db \<in> set (db # dbs). x \<in> set (visible_customers user db)) \<and> since_ok cu_updated_at cutoff x \<longrightarrow>
       count_list (concat (map pg_customers pgs)) x = of_bool (behind cu_updated_at cu_pk c x)) \<and>
      ((\<forall>db \<in> set (db # dbs). y \<in> set (visible_deliveries user db)) \<and> since_ok dl_updated_at cutoff y \<longrightarrow>
       count_list (concat (map pg_deliveries pgs)) y = of_bool (behind dl_updated_at dl_pk d y))"
    proof (cases "pg_has_more pg")
      case True
      then obtain pgs' where pgs': "pgs = pg # pgs'" "pull_chain cd env user cutoff (pg_next_page_token pg) dbs = Some pgs'"
        using prems(1) pg(1) by auto
      then show ?thesis
        using Cons.IH(1) [OF pgs'(2) pg(5) [OF True]] Cons.IH(2) [OF pgs'(2) pg(5) [OF True]] prems(3) C [of x] D [of y] by auto
    next
      case False
      then have "c' = Exhausted" "d' = Exhausted" "pgs = [pg]" using pg(4) prems(1) pg(1) by auto
      then show ?thesis using C [of x] D [of y] by (simp add: behind_def)
    qed }
  note both = this
  { case 1
    then show ?case using both by blast
  next
    case 2
    then show ?case using both by blast }
qed simp_all


lemma first_pull_once:
  assumes "codec_ok cd" "pull_chain cd env user cutoff None dbs = Some pgs" "\<forall>db \<in> set dbs. keys_ok db"
  shows "(\<forall>db \<in> set dbs. x \<in> set (visible_customers user db)) \<Longrightarrow> since_ok cu_updated_at cutoff x \<Longrightarrow>
      count_list (concat (map pg_customers pgs)) x = 1"
    and "(\<forall>db \<in> set dbs. y \<in> set (visible_deliveries user db)) \<Longrightarrow> since_ok dl_updated_at cutoff y \<Longrightarrow>
      count_list (concat (map pg_deliveries pgs)) y = 1"
  using pull_chain_once [OF assms(1,2) _ assms(3), where c = Start and d = Start] by (simp_all add: decode_token_def behind_def)

lemma first_pull_resting:
  assumes "codec_ok cd" "keys_ok db" "0 < n" "length (visible_customers user db) \<le> n * PULL_PAGE_SIZE"
    "length (visible_deliveries user db) \<le> n * PULL_PAGE_SIZE"
  shows "\<exists>pgs. pull_chain cd env user cutoff None (replicate n db) = Some pgs \<and>
    concat (map pg_customers pgs) = ordered_rows cu_updated_at cu_pk (filter (since_ok cu_updated_at cutoff) (visible_customers user db)) \<and>
    concat (map pg_deliveries pgs) = ordered_rows dl_updated_at dl_pk (filter (since_ok dl_updated_at cutoff) (visible_deliveries user db)) \<and>
    (\<forall>pg \<in> set pgs. length (pg_customers pg) \<le> PULL_PAGE_SIZE \<and> length (pg_deliveries pg) \<le> PULL_PAGE_SIZE)"
proof -
  have start: "to_come updated key q cutoff Start = ordered_rows updated key (filter (since_ok updated cutoff) q)" for updated key q
    by (simp add: to_come_def behind_def)
  have short: "length (to_come updated key q cutoff Start) \<le> m" if "length q \<le> m" for updated key q m
    using that le_trans [OF length_filter_le] by (fastforce simp: start ordered_rows_def)
  show ?thesis
    using pull_chain_resting [OF assms(1,2) _ assms(3) short [OF assms(4)] short [OF assms(5)], where tok = None]
    unfolding start by (simp add: decode_token_def)
qed

end
