(* ===== verification/Devices.thy ===== *)
theory Devices
  imports Supplies Syncing Pulling "HOL-Library.Countable"
begin

text \<open>
  The sample business has a device: the order of the sample has gone out, and the device reports a
  visit to the shop and the handover, once as the receiver understands it and once as the mobile
  client writes it.
\<close>

definition device_db :: sync_db where
  "device_db = field_db.extend (purchasing_db.extend (receivables_db.extend
       (billing_db.extend shipped_db (receivables_db.fields empty_table 1))
       (purchasing_db.fields \<lparr>tb_seq = 2, tb_rows = [sample_supplier]\<rparr> empty_table empty_table empty_table empty_table
          empty_table empty_table 1 1 1)) (field_db.fields empty_table)) (sync_db.fields empty_table)"

definition no_payload :: payload where
  "no_payload = \<lparr>pd_delivery_id = Absent, pd_recipient_name = '''', pd_delivered_at = Absent, pd_latitude = Absent,
     pd_longitude = Absent, pd_customer_id = Absent, pd_visited_at = Absent, pd_outcome = '''', pd_notes = '''',
     pd_accuracy_metres = Absent\<rparr>"

definition visit_op :: operation where
  "visit_op = \<lparr>on_client_uuid = ''v1'', on_operation_type = ''VISIT_CREATE'', on_client_created_at = 900,
     on_payload = no_payload\<lparr>pd_customer_id := Given 1, pd_visited_at := Given 900, pd_outcome := ''NO_ORDER''\<rparr>\<rparr>"

definition handover_op :: operation where
  "handover_op = \<lparr>on_client_uuid = ''k1'', on_operation_type = ''DELIVERY_COMPLETE'', on_client_created_at = 950,
     on_payload = no_payload\<lparr>pd_delivery_id := Given 1, pd_recipient_name := ''Mani''\<rparr>\<rparr>"

definition timed_op :: operation where
  "timed_op = handover_op\<lparr>on_payload := (on_payload handover_op)\<lparr>pd_delivered_at := Given 950\<rparr>\<rparr>"

definition pushed :: "operation list \<Rightarrow> sync_db \<Rightarrow> (error + op_result list) \<times> sync_db" where
  "pushed qs db = process_push sample_env sample_owner ''d1'' qs db"

text \<open>The device got as far as the handover's effect, but not its verdict.\<close>

definition visited_db :: sync_db where
  "visited_db = snd (process_all sample_env sample_owner ''d1'' [visit_op] device_db)"

definition noted_db :: sync_db where
  "noted_db = after (insert_operation sample_env sample_owner ''d1'' handover_op visited_db) device_db"

definition handed_db :: sync_db where
  "handed_db = after (handle_delivery_complete sample_env sample_owner ''d1'' handover_op noted_db) device_db"

lemma device_rows:
  "tb_rows (db_operations device_db) = []" "db_deliveries device_db = db_deliveries shipped_db"
  by (simp_all add: device_db_def sync_db.defs field_db.defs purchasing_db.defs receivables_db.defs billing_db.defs)

lemma device_ok: "sync_ok device_db"
proof -
  have "table_wf dl_pk (db_deliveries shipped_db)" by code_simp
  then show ?thesis by (simp add: sync_ok_def deliveries_ok_def device_rows table_wf_def)
qed

lemma device_push: "succeeds (fst (pushed [visit_op, handover_op] device_db))"
  by code_simp

lemma device_visit: "succeeds (fst (process_all sample_env sample_owner ''d1'' [visit_op] device_db))"
  by code_simp

lemma device_note: "succeeds (insert_operation sample_env sample_owner ''d1'' handover_op visited_db)"
  by code_simp

lemma device_handover: "succeeds (handle_delivery_complete sample_env sample_owner ''d1'' handover_op noted_db)"
  by code_simp

lemma device_cut_off: "cut_off sample_env sample_owner ''d1'' handover_op visited_db handed_db"
proof -
  obtain r where "insert_operation sample_env sample_owner ''d1'' handover_op visited_db = Inr (r, noted_db)"
    using succeedsE [OF device_note] unfolding noted_db_def .
  moreover obtain y where "handle_delivery_complete sample_env sample_owner ''d1'' handover_op noted_db = Inr (y, handed_db)"
    using succeedsE [OF device_handover] unfolding handed_db_def .
  moreover have "HANDLERS (on_operation_type handover_op) = Some handle_delivery_complete"
    by (simp add: HANDLERS_def handover_op_def)
  ultimately show ?thesis using cut_off.after_effect by blast
qed

lemma device_cut_off_many: "(cut_off sample_env sample_owner ''d1'' handover_op)\<^sup>*\<^sup>* visited_db handed_db"
  using device_cut_off by (rule r_into_rtranclp)

text \<open>The handover with its time.\<close>

lemma timed_untimed: "untimed timed_op = handover_op"
  by (simp add: untimed_def timed_op_def handover_op_def no_payload_def)

lemma device_timed_facts:
  "succeeds (handle_delivery_complete sample_env sample_owner ''d1'' handover_op device_db)"
  "succeeds (insert_operation sample_env sample_owner ''d1'' timed_op device_db)"
  "replay_of (Some ''k1'') device_db = None"
  by code_simp+

lemma device_delivery: "map_option dl_status (tb_get dl_pk 1 (db_deliveries device_db)) = Some PENDING"
  by code_simp


text \<open>A codec: the text of a value is as long as the value's number.\<close>

instance json :: countable
  by countable_datatype

definition sample_codec :: codec where
  "sample_codec = \<lparr>cd_dumps = \<lambda>j. replicate (Suc (to_nat j)) CHR ''x'', cd_loads = \<lambda>s. Some (from_nat (length s - 1)),
     cd_isoformat = \<lambda>t. replicate (to_nat t) CHR ''t'', cd_fromisoformat = \<lambda>s. Some (from_nat (length s), True)\<rparr>"

lemma sample_codec_ok: "codec_ok sample_codec"
  by (simp add: codec_ok_def sample_codec_def)

lemma device_keys: "keys_ok device_db"
proof -
  have "distinct (map dl_pk (tb_rows (db_deliveries shipped_db)))" "list_all (\<lambda>d. 0 < dl_pk d) (tb_rows (db_deliveries shipped_db))"
    "distinct (map cu_pk (tb_rows (db_customers shipped_db)))" "list_all (\<lambda>c. 0 < cu_pk c) (tb_rows (db_customers shipped_db))"
    by code_simp+
  moreover have "db_customers device_db = db_customers shipped_db"
    by (simp add: device_db_def sync_db.defs field_db.defs purchasing_db.defs receivables_db.defs billing_db.defs)
  ultimately show ?thesis by (simp add: keys_ok_def device_rows list_all_iff)
qed

end
