(* ===== verification/Tables.thy ===== *)
theory Tables
  imports Core
begin

text \<open>
  The shape every report has and its export: \<^verbatim>\<open>reporting/tables.py\<close> and \<^verbatim>\<open>reporting/csv.py\<close>.  A cell
  is a value with its type; its column says what the value means.  Texts are UTF-8 bytes.  The
  text of an instant (ISO 8601) is the parameter \<open>stamp\<close>.
\<close>


section \<open>Tables\<close>

datatype column_kind = K_TEXT | K_COUNT | K_MONEY | K_QUANTITY | K_RATE

record column =
  co_key :: string
  co_label :: string
  co_kind :: column_kind

definition numeric :: "column \<Rightarrow> bool" where
  "numeric c \<longleftrightarrow> co_kind c \<noteq> K_TEXT"

text \<open>\<open>V_Dec n x\<close> is a \<^verbatim>\<open>Decimal\<close> with \<open>n\<close> places, \<open>V_Time\<close> a \<^verbatim>\<open>datetime\<close>.\<close>

datatype cell = V_None | V_Str string | V_Bool bool | V_Int int | V_Dec nat decimal | V_Date date | V_Time int

type_synonym row = "(string \<times> cell) list"

record report =
  rt_key :: string
  rt_title :: string
  rt_columns :: "column list"
  rt_rows :: "row list"
  rt_definition :: string
  rt_notes :: "string list"
  rt_total :: "row option"
  rt_date_from :: "date option"
  rt_date_to :: "date option"
  rt_as_of :: "date option"
  rt_group_by :: string

definition row_get :: "row \<Rightarrow> string \<Rightarrow> cell" where
  "row_get r k = (case map_of r k of None \<Rightarrow> V_None | Some v \<Rightarrow> v)"

definition column_named :: "report \<Rightarrow> string \<Rightarrow> column option" where
  "column_named t k = find (\<lambda>c. co_key c = k) (rt_columns t)"

definition is_point_in_time :: "report \<Rightarrow> bool" where
  "is_point_in_time t \<longleftrightarrow> rt_as_of t \<noteq> None \<and> rt_date_from t = None \<and> rt_date_to t = None"

definition report_cells :: "report \<Rightarrow> (column \<times> cell) list list" where
  "report_cells t = map (\<lambda>r. map (\<lambda>c. (c, row_get r (co_key c))) (rt_columns t)) (rt_rows t)"

definition total_cells :: "report \<Rightarrow> (column \<times> cell) list" where
  "total_cells t = (case rt_total t of None \<Rightarrow> [] | Some r \<Rightarrow> map (\<lambda>c. (c, row_get r (co_key c))) (rt_columns t))"


section \<open>Cells as text\<close>

definition FORMULA_PREFIXES :: "char list" where
  "FORMULA_PREFIXES = [CHR ''='', CHR ''+'', CHR ''-'', CHR ''@'', CHR 0x09, CHR 0x0D]"

definition format_cell :: "(int \<Rightarrow> string) \<Rightarrow> cell \<Rightarrow> string" where
  "format_cell stamp v =
     (case v of V_None \<Rightarrow> '''' | V_Dec n x \<Rightarrow> dec_str n x | V_Date d \<Rightarrow> date_str d | V_Time t \<Rightarrow> stamp t
      | V_Bool b \<Rightarrow> if b then ''yes'' else ''no'' | V_Int i \<Rightarrow> str_int i | V_Str s \<Rightarrow> s)"

definition cell_text :: "(int \<Rightarrow> string) \<Rightarrow> cell \<Rightarrow> column \<Rightarrow> string" where
  "cell_text stamp v c =
     (let text = format_cell stamp v
      in if numeric c then text
         else if text \<noteq> '''' \<and> hd text \<in> set FORMULA_PREFIXES then CHR 0x27 # text else text)"

text \<open>\<^verbatim>\<open>" ".join(text.split())\<close>\<close>

function space_split :: "string \<Rightarrow> string list" where
  "space_split s =
     (let s = dropWhile is_space s
      in if s = '''' then []
         else takeWhile (\<lambda>c. \<not> is_space c) s # space_split (dropWhile (\<lambda>c. \<not> is_space c) s))"
  by pat_completeness auto
termination
proof (relation "measure length")
  fix s t :: string
  assume "t = dropWhile is_space s" "t \<noteq> ''''"
  then have "\<not> is_space (hd t)" "length t \<le> length s" by (simp_all add: hd_dropWhile length_dropWhile_le)
  moreover have "length (dropWhile (\<lambda>c. \<not> is_space c) t) < length t"
    using \<open>t \<noteq> ''''\<close> \<open>\<not> is_space (hd t)\<close> by (cases t) (simp_all add: less_Suc_eq_le length_dropWhile_le)
  ultimately show "(dropWhile (\<lambda>c. \<not> is_space c) t, s) \<in> measure length" by simp
qed simp

declare space_split.simps [simp del]

definition one_line :: "string \<Rightarrow> string" where
  "one_line s = join '' '' (space_split s)"

definition header_lines :: "report \<Rightarrow> string list" where
  "header_lines t =
     map one_line
       ([rt_title t]
        @ (if rt_date_from t \<noteq> None \<or> rt_date_to t \<noteq> None
           then [''Period: '' @ (case rt_date_from t of None \<Rightarrow> ''the beginning'' | Some d \<Rightarrow> date_str d) @ '' to '' @
                 (case rt_date_to t of None \<Rightarrow> ''today'' | Some d \<Rightarrow> date_str d) @ '' (both dates included)''] else [])
        @ (case rt_as_of t of None \<Rightarrow> [] | Some d \<Rightarrow> [''As at: '' @ date_str d])
        @ (if rt_group_by t = '''' then [] else [''Grouped by: '' @ rt_group_by t])
        @ (if rt_definition t = '''' then [] else [rt_definition t])
        @ rt_notes t)"


section \<open>The file\<close>

text \<open>
  The writer of Python's \<^verbatim>\<open>csv\<close> with a newline as line end and minimal quoting: a field with a
  comma, a quote, a newline or a carriage return is quoted and its quotes are doubled; a row of one
  empty field is written as a quoted one.
\<close>

definition NL :: char where "NL = CHR 0x0A"
definition CR :: char where "CR = CHR 0x0D"
definition COMMA :: char where "COMMA = CHR 0x2C"
definition QUOTE :: char where "QUOTE = CHR 0x22"

definition quoted :: "string \<Rightarrow> string" where
  "quoted f = QUOTE # concat (map (\<lambda>c. if c = QUOTE then [QUOTE, QUOTE] else [c]) f) @ [QUOTE]"

definition write_field :: "string \<Rightarrow> string" where
  "write_field f = (if COMMA \<in> set f \<or> QUOTE \<in> set f \<or> NL \<in> set f \<or> CR \<in> set f then quoted f else f)"

definition writerow :: "string list \<Rightarrow> string" where
  "writerow fs = (if fs = [''''] then quoted '''' else join [COMMA] (map write_field fs)) @ [NL]"

definition COMMENT_PREFIX :: string where "COMMENT_PREFIX = ''# ''"

definition render :: "(int \<Rightarrow> string) \<Rightarrow> report \<Rightarrow> string" where
  "render stamp t =
     concat (map (\<lambda>l. COMMENT_PREFIX @ l @ [NL]) (header_lines t))
     @ (if rt_columns t = [] then '''' else writerow (map co_label (rt_columns t)))
     @ concat (map (\<lambda>r. writerow (map (\<lambda>c. cell_text stamp (row_get r (co_key c)) c) (rt_columns t))) (rt_rows t))
     @ (case rt_total t of None \<Rightarrow> ''''
        | Some r \<Rightarrow> writerow (map (\<lambda>c. cell_text stamp (row_get r (co_key c)) c) (rt_columns t)))"

definition filename :: "report \<Rightarrow> string" where
  "filename t =
     join ''-'' (rt_key t #
       (if rt_date_from t \<noteq> None \<or> rt_date_to t \<noteq> None
        then [(case rt_date_from t of None \<Rightarrow> ''start'' | Some d \<Rightarrow> date_str d) @ ''_'' @
              (case rt_date_to t of None \<Rightarrow> ''today'' | Some d \<Rightarrow> date_str d)]
        else case rt_as_of t of None \<Rightarrow> [] | Some d \<Rightarrow> [date_str d])) @ ''.csv''"


section \<open>Reading an export back\<close>

text \<open>
  A reader of comma-separated values: outside quotes a row ends at a newline, a carriage return or
  the two together.  And one that passes over lines.
\<close>

fun read_csv :: "bool \<Rightarrow> string \<Rightarrow> string list \<Rightarrow> string \<Rightarrow> string list list" where
  "read_csv q f r [] = []"
| "read_csv False f r (c # s) =
     (if c = COMMA then read_csv False [] (r @ [f]) s
      else if c = NL then (r @ [f]) # read_csv False [] [] s
      else if c = CR then (r @ [f]) #
        (if s \<noteq> '''' \<and> hd s = NL then read_csv False [] [] (tl s) else read_csv False [] [] s)
      else if c = QUOTE then read_csv True f r s
      else read_csv False (f @ [c]) r s)"
| "read_csv True f r (c # s) =
     (if c = QUOTE then (if s \<noteq> '''' \<and> hd s = QUOTE then read_csv True (f @ [QUOTE]) r (tl s) else read_csv False f r s)
      else read_csv True (f @ [c]) r s)"

fun drop_lines :: "nat \<Rightarrow> string \<Rightarrow> string" where
  "drop_lines 0 s = s"
| "drop_lines (Suc n) s = drop_lines n (tl (dropWhile (\<lambda>c. c \<noteq> NL) s))"

lemmas marks = NL_def CR_def COMMA_def QUOTE_def

lemma read_plain:
  "COMMA \<notin> set f \<Longrightarrow> QUOTE \<notin> set f \<Longrightarrow> NL \<notin> set f \<Longrightarrow> CR \<notin> set f \<Longrightarrow> read_csv False g r (f @ s) = read_csv False (g @ f) r s"
  by (induction f arbitrary: g) auto

lemma read_quoted:
  "s = '''' \<or> hd s \<noteq> QUOTE \<Longrightarrow>
   read_csv True g r (concat (map (\<lambda>c. if c = QUOTE then [QUOTE, QUOTE] else [c]) f) @ QUOTE # s) = read_csv False (g @ f) r s"
  by (induction f arbitrary: g) auto

text \<open>A written field is read back up to the mark that ends it.\<close>

lemma read_field:
  assumes "m = COMMA \<or> m = NL"
  shows "read_csv False [] r (write_field f @ m # s) = read_csv False f r (m # s)"
proof (cases "COMMA \<in> set f \<or> QUOTE \<in> set f \<or> NL \<in> set f \<or> CR \<in> set f")
  case True
  have "QUOTE \<noteq> COMMA" "QUOTE \<noteq> NL" "QUOTE \<noteq> CR" by (simp_all add: marks)
  then have "read_csv False [] r (quoted f @ m # s) =
      read_csv True [] r (concat (map (\<lambda>c. if c = QUOTE then [QUOTE, QUOTE] else [c]) f) @ QUOTE # m # s)"
    by (simp add: quoted_def)
  also have "\<dots> = read_csv False f r (m # s)"
    using assms read_quoted [of "m # s" "[]" r f] by (auto simp: marks)
  finally show ?thesis using True by (simp only: write_field_def if_True)
next
  case False
  then show ?thesis using read_plain [of f "[]" r "m # s"] by (simp add: write_field_def)
qed

lemma read_join:
  "fs \<noteq> [] \<Longrightarrow> read_csv False [] r (join [COMMA] (map write_field fs) @ NL # s) = (r @ fs) # read_csv False [] [] s"
proof (induction fs arbitrary: r rule: induct_list012)
  case (2 f)
  have "NL \<noteq> COMMA" by (simp add: marks)
  then show ?case using read_field [of NL r f s] by simp
next
  case (3 f g fs)
  have "read_csv False [] r (join [COMMA] (map write_field (f # g # fs)) @ NL # s) =
      read_csv False [] r (write_field f @ COMMA # (join [COMMA] (map write_field (g # fs)) @ NL # s))"
    by simp
  also have "\<dots> = read_csv False [] (r @ [f]) (join [COMMA] (map write_field (g # fs)) @ NL # s)"
    by (subst read_field) simp_all
  finally show ?case using "3.IH"(2) by simp
qed simp

lemma read_row:
  assumes "fs \<noteq> []"
  shows "read_csv False [] [] (writerow fs @ s) = fs # read_csv False [] [] s"
proof (cases "fs = ['''']")
  case True
  then show ?thesis by (simp add: writerow_def quoted_def marks)
next
  case False
  then show ?thesis using read_join [OF assms, of "[]" s] by (simp add: writerow_def)
qed

lemma read_rows: "\<forall>r \<in> set rs. f r \<noteq> [] \<Longrightarrow> read_csv False [] [] (concat (map (\<lambda>r. writerow (f r)) rs) @ s) = map f rs @ read_csv False [] [] s"
  by (induction rs) (simp_all add: read_row)

text \<open>A line is one line.\<close>

lemma ball_Cons: "P a \<Longrightarrow> \<forall>w \<in> set l. P w \<Longrightarrow> \<forall>w \<in> set (a # l). P w"
  by simp

lemma space_split_no_space: "\<forall>w \<in> set (space_split s). \<forall>c \<in> set w. \<not> is_space c"
proof (induction s rule: space_split.induct)
  case (1 s)
  show ?case
  proof (cases "dropWhile is_space s = []")
    case True
    then show ?thesis by (simp add: space_split.simps [of s])
  next
    case False
    then have eq: "space_split s = takeWhile (\<lambda>c. \<not> is_space c) (dropWhile is_space s) #
        space_split (dropWhile (\<lambda>c. \<not> is_space c) (dropWhile is_space s))"
      by (subst space_split.simps) (simp only: False Let_def if_False)
    have "\<forall>c \<in> set (takeWhile (\<lambda>c. \<not> is_space c) (dropWhile is_space s)). \<not> is_space c"
      by (rule ballI, drule set_takeWhileD) (erule conjunct2)
    moreover have "\<forall>w \<in> set (space_split (dropWhile (\<lambda>c. \<not> is_space c) (dropWhile is_space s))). \<forall>c \<in> set w. \<not> is_space c"
      by (rule "1.IH" [OF refl False])
    ultimately have "\<forall>w \<in> set (takeWhile (\<lambda>c. \<not> is_space c) (dropWhile is_space s) #
        space_split (dropWhile (\<lambda>c. \<not> is_space c) (dropWhile is_space s))). \<forall>c \<in> set w. \<not> is_space c"
      by (rule ball_Cons)
    then show ?thesis by (rule ssubst [OF eq])
  qed
qed

lemma set_join: "set (join sep ws) \<subseteq> set sep \<union> (\<Union>w \<in> set ws. set w)"
  by (induction sep ws rule: join.induct) auto

lemma is_space_ends: "is_space NL" "is_space CR"
  by (simp_all add: is_space_def marks)

lemma one_line_no_newline: "NL \<notin> set (one_line s) \<and> CR \<notin> set (one_line s)"
  using set_join [of "'' ''" "space_split s"] space_split_no_space [of s]
    is_space_ends by (auto simp: one_line_def marks)

lemma header_no_newline: "l \<in> set (header_lines t) \<Longrightarrow> NL \<notin> set l \<and> CR \<notin> set l"
  using one_line_no_newline by (auto simp: header_lines_def)

lemma drop_header:
  "\<forall>l \<in> set ls. NL \<notin> set l \<Longrightarrow> drop_lines (length ls) (concat (map (\<lambda>l. COMMENT_PREFIX @ l @ [NL]) ls) @ s) = s"
proof (induction ls)
  case (Cons l ls)
  have "NL \<notin> set (COMMENT_PREFIX @ l)" using Cons.prems by (simp add: COMMENT_PREFIX_def NL_def)
  then have "dropWhile (\<lambda>c. c \<noteq> NL) ((COMMENT_PREFIX @ l) @ NL # u) = NL # u" for u
    by (subst dropWhile_append3) (auto simp: dropWhile_eq_Nil_conv)
  then show ?case using Cons by simp
qed simp

text \<open>What is read back of an export is what the screen shows.\<close>

lemma render_reads_back:
  assumes "rt_columns t \<noteq> []"
  shows "read_csv False [] [] (drop_lines (length (header_lines t)) (render stamp t)) =
    map co_label (rt_columns t) # map (map (\<lambda>(c, v). cell_text stamp v c)) (report_cells t @ (if rt_total t = None then [] else [total_cells t]))"
proof -
  have "drop_lines (length (header_lines t)) (render stamp t) =
      writerow (map co_label (rt_columns t))
      @ concat (map (\<lambda>r. writerow (map (\<lambda>c. cell_text stamp (row_get r (co_key c)) c) (rt_columns t))) (rt_rows t))
      @ (case rt_total t of None \<Rightarrow> ''''
         | Some r \<Rightarrow> writerow (map (\<lambda>c. cell_text stamp (row_get r (co_key c)) c) (rt_columns t)))"
    using assms by (simp only: render_def if_False) (rule drop_header, use header_no_newline in blast)
  then show ?thesis
    using assms read_row [of "map (\<lambda>c. cell_text stamp (row_get r (co_key c)) c) (rt_columns t)" "''''" for r]
    by (auto simp: read_row read_rows report_cells_def total_cells_def split: option.splits)
qed

text \<open>No cell of a text column is a formula.\<close>

lemma no_formula: "\<not> numeric c \<Longrightarrow> cell_text stamp v c = d # s \<Longrightarrow> d \<notin> set FORMULA_PREFIXES"
  by (auto simp: cell_text_def Let_def FORMULA_PREFIXES_def split: if_splits)

lemma numbers_unquoted: "numeric c \<Longrightarrow> cell_text stamp v c = format_cell stamp v"
  by (simp add: cell_text_def)

end
