(* ===== verification/Reports.thy ===== *)
theory Reports
  imports Tables Sync "HOL-Library.AList"
begin

text \<open>
  The reports: \<^verbatim>\<open>reporting/selectors.py\<close>.  Every figure comes from a selector of another component;
  what is computed here is the grouping, the netting of credit notes and the totals.  A row keeps
  the entries its report has columns for.  The order in which the database returns groups is not
  specified; it only matters between rows that sort alike.
\<close>


section \<open>Texts\<close>

definition EM_DASH :: string where "EM_DASH = [CHR 0xE2, CHR 0x80, CHR 0x94]"

definition code_label :: "string \<Rightarrow> string \<Rightarrow> string" where
  "code_label code name = code @ '' '' @ EM_DASH @ '' '' @ name"

definition SALES_DEFINITION :: string where
  "SALES_DEFINITION = ''Sales = invoice taxable value, excluding cancelled invoices, less credit note taxable value. GST and round-off are excluded, so this figure does not tie to the sum of invoice totals. A credit note reduces the period in which it was ISSUED, not the period of the invoice it credits.''"

definition RETURNS_NOTE :: string where
  "RETURNS_NOTE = ''This report is the FINANCIAL trace of a return: what was credited back. Goods that came back without a credit note appear in Stock Variance, not here.''"

definition VARIANCE_NOTE :: string where
  "VARIANCE_NOTE = ''This report is the PHYSICAL trace: what moved, in units. Money credited back appears in the Returns report, not here. The two are not expected to agree.''"

definition NO_VALUATION_NOTE :: string where
  "NO_VALUATION_NOTE = ''Quantities only. Stock cannot be valued until a cost basis exists (Edition 2); valuing at selling price would overstate working capital by the whole margin.''"

definition UNCATEGORISED :: string where "UNCATEGORISED = ''Not categorised''"

definition SYNC_HEALTH_DEFINITION :: string where
  "SYNC_HEALTH_DEFINITION = ''Conflict proportion = REJECTED / settled, where settled = ACCEPTED + DUPLICATE + DEFERRED + REJECTED. Vision 10.3 measures conflicts requiring manual intervention; 02 5.3 marks SC-DUPLICATE and SC-SEQUENCE automatic, so neither counts. RECEIVED is recorded but not yet resolved and is excluded from the denominator, and reported separately as in-flight. Blank when nothing settled: a fleet that has synchronised nothing has demonstrated nothing. Target (Vision 10.3): at or below 1%.''"

definition text_col :: "string \<Rightarrow> string \<Rightarrow> column" where
  "text_col k l = \<lparr>co_key = k, co_label = l, co_kind = K_TEXT\<rparr>"

definition money_col :: "string \<Rightarrow> string \<Rightarrow> column" where
  "money_col k l = \<lparr>co_key = k, co_label = l, co_kind = K_MONEY\<rparr>"

definition count_col :: "string \<Rightarrow> string \<Rightarrow> column" where
  "count_col k l = \<lparr>co_key = k, co_label = l, co_kind = K_COUNT\<rparr>"

definition quantity_col :: "string \<Rightarrow> string \<Rightarrow> column" where
  "quantity_col k l = \<lparr>co_key = k, co_label = l, co_kind = K_QUANTITY\<rparr>"

definition plain_report :: "string \<Rightarrow> string \<Rightarrow> column list \<Rightarrow> row list \<Rightarrow> row option \<Rightarrow> report" where
  "plain_report k title cols rows t =
     \<lparr>rt_key = k, rt_title = title, rt_columns = cols, rt_rows = rows, rt_definition = '''', rt_notes = [], rt_total = t,
      rt_date_from = None, rt_date_to = None, rt_as_of = None, rt_group_by = ''''\<rparr>"

definition V_Money :: "decimal \<Rightarrow> cell" where "V_Money = V_Dec 2"
definition V_Count :: "nat \<Rightarrow> cell" where "V_Count n = V_Int (int n)"


section \<open>Grouping and merging\<close>

definition in_period :: "date option \<Rightarrow> date option \<Rightarrow> ('r \<Rightarrow> date) \<Rightarrow> 'r list \<Rightarrow> 'r list" where
  "in_period date_from date_to day rows = filter (\<lambda>r. since date_from (day r) \<and> up_to date_to (day r)) rows"

text \<open>\<^verbatim>\<open>values(key).annotate(Sum(f))\<close>\<close>

definition sum_by :: "('r \<Rightarrow> 'k) \<Rightarrow> ('r \<Rightarrow> decimal) \<Rightarrow> 'r list \<Rightarrow> ('k \<times> decimal) list" where
  "sum_by key f rows = map (\<lambda>k. (k, sum_where (\<lambda>r. key r = k) f rows)) (remdups (map key rows))"

text \<open>A dict comprehension: of two entries with one key the later stays.\<close>

definition dict_of :: "('k \<times> 'v) list \<Rightarrow> ('k \<times> 'v) list" where
  "dict_of kvs = foldl (\<lambda>d (k, v). AList.update k v d) [] kvs"

record 'k sales_row =
  sr_key :: 'k
  sr_label :: string
  sr_invoiced :: decimal
  sr_credited :: decimal
  sr_sales :: decimal

definition merge_rows :: "('k \<times> (string \<times> decimal)) list \<Rightarrow> ('k \<times> decimal) list \<Rightarrow> 'k sales_row list" where
  "merge_rows invoiced returned =
     map (\<lambda>(k, l, x). let c = (case map_of returned k of None \<Rightarrow> 0 | Some c \<Rightarrow> c)
            in \<lparr>sr_key = k, sr_label = l, sr_invoiced = x, sr_credited = c, sr_sales = x - c\<rparr>) invoiced
     @ map (\<lambda>(k, c). \<lparr>sr_key = k, sr_label = '''', sr_invoiced = 0, sr_credited = c, sr_sales = - c\<rparr>)
         (filter (\<lambda>(k, c). k \<notin> fst ` set invoiced) returned)"

definition labelled :: "('k \<Rightarrow> string) \<Rightarrow> 'k sales_row list \<Rightarrow> 'k sales_row list" where
  "labelled lab rows = map (\<lambda>r. if sr_label r = '''' then r\<lparr>sr_label := lab (sr_key r)\<rparr> else r) rows"


section \<open>Sales\<close>

definition sales_sources ::
  "actor option \<Rightarrow> date option \<Rightarrow> date option \<Rightarrow> 'a billing_db_scheme \<Rightarrow> invoice list \<times> credit_note list" where
  "sales_sources user date_from date_to db =
     (in_period date_from date_to iv_invoice_date (issued_invoices user db),
      in_period date_from date_to cn_credit_note_date (visible_credit_notes user db))"

definition taxable :: "'a money_document_scheme \<Rightarrow> decimal" where
  "taxable d = da_taxable (md_amounts d)"

definition sales_by_day :: "invoice list \<Rightarrow> credit_note list \<Rightarrow> date sales_row list" where
  "sales_by_day invoices notes =
     sort_key sr_key (merge_rows (dict_of (map (\<lambda>(k, x). (k, date_str k, x)) (sum_by iv_invoice_date taxable invoices)))
       (dict_of (sum_by cn_credit_note_date taxable notes)))"

definition customer_label :: "'a customers_db_scheme \<Rightarrow> nat \<Rightarrow> string" where
  "customer_label db c =
     (case tb_get cu_pk c (db_customers db) of None \<Rightarrow> '''' | Some cu \<Rightarrow> code_label (cu_code cu) (cu_shop_name cu))"

definition label_of :: "string \<Rightarrow> ('k \<times> string) list \<Rightarrow> 'k \<Rightarrow> string" where
  "label_of otherwise labels k = (case map_of labels k of None \<Rightarrow> otherwise | Some l \<Rightarrow> l)"

definition sales_by_customer ::
  "'a customers_db_scheme \<Rightarrow> invoice list \<Rightarrow> credit_note list \<Rightarrow> nat sales_row list" where
  "sales_by_customer db invoices notes =
     (let labels = dict_of (map (\<lambda>n. (md_customer n, customer_label db (md_customer n))) notes)
      in sort_key sr_label (labelled (label_of '''' labels)
        (merge_rows (dict_of (map (\<lambda>(k, x). (k, customer_label db k, x)) (sum_by md_customer taxable invoices)))
          (dict_of (sum_by md_customer taxable notes)))))"

text \<open>The salesman is the order's; an invoice without an order has none.\<close>

definition salesman_of :: "'a orders_db_scheme \<Rightarrow> invoice \<Rightarrow> nat option" where
  "salesman_of db i =
     (case iv_sales_order i of None \<Rightarrow> None
      | Some k \<Rightarrow> (case tb_get so_pk k (db_orders db) of None \<Rightarrow> None | Some ord \<Rightarrow> so_assigned_user ord))"

definition credited_salesman :: "'a billing_db_scheme \<Rightarrow> credit_note \<Rightarrow> nat option" where
  "credited_salesman db n =
     (case tb_get iv_pk (cn_invoice n) (db_invoices db) of None \<Rightarrow> None | Some i \<Rightarrow> salesman_of db i)"

definition salesman_label :: "'a identity_db_scheme \<Rightarrow> nat option \<Rightarrow> string" where
  "salesman_label db k =
     (case user_name k db of None \<Rightarrow> ''Unassigned'' | Some s \<Rightarrow> if s = '''' then ''Unassigned'' else s)"

definition sales_by_salesman ::
  "'a billing_db_scheme \<Rightarrow> invoice list \<Rightarrow> credit_note list \<Rightarrow> nat option sales_row list" where
  "sales_by_salesman db invoices notes =
     (let labels = dict_of (map (\<lambda>n. (credited_salesman db n, salesman_label db (credited_salesman db n))) notes)
      in sort_key sr_label (labelled (label_of ''Unassigned'' labels)
        (merge_rows (dict_of (map (\<lambda>(k, x). (k, salesman_label db k, x)) (sum_by (salesman_of db) taxable invoices)))
          (dict_of (sum_by (credited_salesman db) taxable notes)))))"

text \<open>
  By product the figures are of the lines.  The invoiced ones are grouped by product and by the
  name on the line, and then put under the product alone.
\<close>

definition lines_of_invoices :: "'a billing_db_scheme \<Rightarrow> invoice list \<Rightarrow> invoice_line list" where
  "lines_of_invoices db invoices = concat (map (\<lambda>i. filter (\<lambda>l. il_invoice l = iv_pk i) (tb_rows (db_invoice_lines db))) invoices)"

definition lines_of_notes :: "'a billing_db_scheme \<Rightarrow> credit_note list \<Rightarrow> credit_note_line list" where
  "lines_of_notes db notes = concat (map (\<lambda>n. filter (\<lambda>l. cl_credit_note l = cn_pk n) (tb_rows (db_credit_note_lines db))) notes)"

definition product_key :: "'a doc_line_scheme \<Rightarrow> nat option \<times> string" where
  "product_key l = (bl_product l, bl_product_name l)"

definition sales_by_product ::
  "'a billing_db_scheme \<Rightarrow> invoice list \<Rightarrow> credit_note list \<Rightarrow> nat option sales_row list" where
  "sales_by_product db invoices notes =
     (let labels = dict_of (map product_key (lines_of_notes db notes))
      in sort_key sr_label (labelled (label_of '''' labels)
        (merge_rows (dict_of (map (\<lambda>((p, name), x). (p, name, x))
            (sum_by product_key bl_taxable_amount (lines_of_invoices db invoices))))
          (dict_of (sum_by bl_product bl_taxable_amount (lines_of_notes db notes))))))"

text \<open>What a row shows, and what the rows sum to.\<close>

record figures =
  fg_label :: cell
  fg_invoiced :: decimal
  fg_credited :: decimal
  fg_sales :: decimal

definition figures_of :: "('k sales_row \<Rightarrow> cell) \<Rightarrow> 'k sales_row list \<Rightarrow> figures list" where
  "figures_of lab rows = map (\<lambda>r. \<lparr>fg_label = lab r, fg_invoiced = sr_invoiced r, fg_credited = sr_credited r, fg_sales = sr_sales r\<rparr>) rows"

definition figures_row :: "figures \<Rightarrow> row" where
  "figures_row r = [(''label'', fg_label r), (''invoiced'', V_Money (fg_invoiced r)), (''credited'', V_Money (fg_credited r)),
     (''sales'', V_Money (fg_sales r))]"

definition sum_figures :: "cell \<Rightarrow> figures list \<Rightarrow> figures" where
  "sum_figures lab rows = \<lparr>fg_label = lab, fg_invoiced = sum_list (map fg_invoiced rows),
     fg_credited = sum_list (map fg_credited rows), fg_sales = sum_list (map fg_sales rows)\<rparr>"

definition SALES_GROUPINGS :: "string list" where
  "SALES_GROUPINGS = [''day'', ''customer'', ''product'', ''salesman'']"

definition text_label :: "'k sales_row \<Rightarrow> cell" where "text_label r = V_Str (sr_label r)"

definition sales_figures :: "string \<Rightarrow> 'a billing_db_scheme \<Rightarrow> invoice list \<times> credit_note list \<Rightarrow> string \<times> figures list" where
  "sales_figures group_by db sources =
     (if group_by = ''product'' then (''Product'', figures_of text_label (sales_by_product db (fst sources) (snd sources)))
      else if group_by = ''customer'' then (''Customer'', figures_of text_label (sales_by_customer db (fst sources) (snd sources)))
      else if group_by = ''salesman'' then (''Salesman'', figures_of text_label (sales_by_salesman db (fst sources) (snd sources)))
      else (''Date'', figures_of (\<lambda>r. V_Date (sr_key r)) (sales_by_day (fst sources) (snd sources))))"

definition sales_columns :: "column list" where
  "sales_columns = [money_col ''invoiced'' ''Invoiced'', money_col ''credited'' ''Credited'', money_col ''sales'' ''Sales'']"

definition sales_report ::
  "actor option \<Rightarrow> date option \<Rightarrow> date option \<Rightarrow> string \<Rightarrow> 'a billing_db_scheme \<Rightarrow> error + report" where
  "sales_report user date_from date_to group_by db =
     andThen (require_roles user INTERNAL) (\<lambda>_.
     let group_by = (if group_by \<in> set SALES_GROUPINGS then group_by else ''day'');
         (dimension, rows) = sales_figures group_by db (sales_sources user date_from date_to db)
     in Inr ((plain_report ''sales'' ''Sales'' (text_col ''label'' dimension # sales_columns) (map figures_row rows)
            (Some (figures_row (sum_figures (V_Str ''Total'') rows))))
          \<lparr>rt_definition := SALES_DEFINITION, rt_date_from := date_from, rt_date_to := date_to, rt_group_by := group_by\<rparr>))"

definition enumerated :: "nat \<Rightarrow> figures list \<Rightarrow> row list" where
  "enumerated n rows = map (\<lambda>(i, r). (''rank'', V_Count i) # figures_row r) (enumerate n rows)"

definition top_customers ::
  "actor option \<Rightarrow> date option \<Rightarrow> date option \<Rightarrow> int \<Rightarrow> 'a billing_db_scheme \<Rightarrow> error + report" where
  "top_customers user date_from date_to limit db =
     andThen (require_roles user INTERNAL) (\<lambda>_.
     let limit = max 1 (min limit 100);
         (invoices, notes) = sales_sources user date_from date_to db;
         rows = figures_of text_label (sort_key (\<lambda>r. - sr_sales r) (sales_by_customer db invoices notes));
         ranked = take (nat limit) rows;
         t = sum_figures (V_Str (''Total (top '' @ str_nat (length ranked) @ '')'')) ranked
     in Inr ((plain_report ''top-customers'' (''Top '' @ str_int limit @ '' customers'')
            (count_col ''rank'' ''#'' # text_col ''label'' ''Customer'' # sales_columns) (enumerated 1 ranked)
            (Some ((''rank'', V_Str '''') # figures_row t)))
          \<lparr>rt_definition := SALES_DEFINITION, rt_date_from := date_from, rt_date_to := date_to\<rparr>))"



section \<open>Stock\<close>

text \<open>
  The first and the last instant of a day in the server's time zone are the functions \<open>start_of\<close>
  and \<open>end_of\<close>.
\<close>

definition stock_position ::
  "(date \<Rightarrow> int) \<Rightarrow> env \<Rightarrow> actor option \<Rightarrow> date option \<Rightarrow> 'a inventory_db_scheme \<Rightarrow> error + report" where
  "stock_position end_of env user as_of db =
     andThen (require_roles user INTERNAL) (\<lambda>_.
     let products = stock_on_hand (map_option end_of as_of) False db
     in Inr ((plain_report ''stock-position'' ''Stock position''
            [text_col ''code'' ''Code'', text_col ''label'' ''Product'', text_col ''unit'' ''Unit'', quantity_col ''on_hand'' ''On hand'']
            (map (\<lambda>(p, q). [(''code'', V_Str (pr_code p)), (''label'', V_Str (pr_name p)), (''unit'', V_Str (pr_unit_name p)),
                (''on_hand'', V_Dec 3 q)]) products)
            (Some [(''code'', V_Str ''''), (''label'', V_Str ''Total''), (''unit'', V_Str ''''),
                (''on_hand'', V_Dec 3 (sum_list (map snd products)))]))
          \<lparr>rt_notes := [NO_VALUATION_NOTE], rt_as_of := Some (case as_of of None \<Rightarrow> today env | Some d \<Rightarrow> d)\<rparr>))"

definition stock_variance ::
  "(date \<Rightarrow> int) \<Rightarrow> (date \<Rightarrow> int) \<Rightarrow> actor option \<Rightarrow> date option \<Rightarrow> date option \<Rightarrow> string option \<Rightarrow>
   'a inventory_db_scheme \<Rightarrow> error + report" where
  "stock_variance start_of end_of user date_from date_to reason db =
     andThen (require_roles user INTERNAL) (\<lambda>_.
     let rows = filter (\<lambda>((code, name), q). reason = None \<or> reason = Some code)
           (variance_by_reason (map_option start_of date_from) (map_option end_of date_to) db)
     in Inr ((plain_report ''stock-variance'' ''Stock variance by reason''
            [text_col ''code'' ''Reason'', text_col ''label'' ''Description'', quantity_col ''quantity'' ''Net quantity'']
            (map (\<lambda>((code, name), q). [(''code'', V_Str code), (''label'', V_Str name), (''quantity'', V_Dec 3 q)]) rows)
            (Some [(''code'', V_Str ''''), (''label'', V_Str ''Total''), (''quantity'', V_Dec 3 (sum_list (map snd rows)))]))
          \<lparr>rt_notes := [VARIANCE_NOTE, NO_VALUATION_NOTE], rt_date_from := date_from, rt_date_to := date_to\<rparr>))"


section \<open>Returns\<close>

definition reason_of_note :: "'a billing_db_scheme \<Rightarrow> credit_note \<Rightarrow> (string \<times> string) option" where
  "reason_of_note db n =
     (case cn_reason_code n of None \<Rightarrow> None
      | Some k \<Rightarrow> map_option (\<lambda>r. (rc_code r, rc_name r)) (tb_get rc_pk k (db_reasons db)))"

definition note_groups :: "(credit_note \<Rightarrow> 'k) \<Rightarrow> credit_note list \<Rightarrow> ('k \<times> nat \<times> decimal) list" where
  "note_groups key notes =
     map (\<lambda>(k, x). (k, length (filter (\<lambda>n. key n = k) notes), x)) (sum_by key taxable notes)"

definition shop_of :: "'a customers_db_scheme \<Rightarrow> nat \<Rightarrow> string \<times> string" where
  "shop_of db c = (case tb_get cu_pk c (db_customers db) of None \<Rightarrow> ('''', '''') | Some cu \<Rightarrow> (cu_code cu, cu_shop_name cu))"

text \<open>Credits without a reason are a row of their own, the last one.\<close>

definition returned_by_customer :: "'a billing_db_scheme \<Rightarrow> credit_note list \<Rightarrow> (string \<times> nat \<times> decimal) list" where
  "returned_by_customer db notes =
     map (\<lambda>((code, shop), n, x). (code_label code shop, n, x))
       (sort_key (\<lambda>((code, shop), n, x). shop) (note_groups (\<lambda>n. shop_of db (md_customer n)) notes))"

definition returned_by_reason :: "'a billing_db_scheme \<Rightarrow> credit_note list \<Rightarrow> (string \<times> nat \<times> decimal) list" where
  "returned_by_reason db notes =
     map (\<lambda>(r, n, x). (case r of None \<Rightarrow> UNCATEGORISED
           | Some (code, name) \<Rightarrow> if code = '''' then UNCATEGORISED else code_label code name, n, x))
       (sort_key (\<lambda>(r, n, x). (r = None, case r of None \<Rightarrow> '''' | Some (code, name) \<Rightarrow> code))
         (note_groups (reason_of_note db) notes))"

definition returns_report ::
  "actor option \<Rightarrow> date option \<Rightarrow> date option \<Rightarrow> string \<Rightarrow> 'a billing_db_scheme \<Rightarrow> error + report" where
  "returns_report user date_from date_to group_by db =
     andThen (require_roles user INTERNAL) (\<lambda>_.
     let notes = snd (sales_sources user date_from date_to db);
         (dimension, rows) = (if group_by = ''customer'' then (''Customer'', returned_by_customer db notes)
           else (''Reason'', returned_by_reason db notes));
         credited_total = sum_list (map (snd \<circ> snd) rows)
     in Inr ((plain_report ''returns'' (''Returns '' @ EM_DASH @ '' credit notes issued'')
            [text_col ''label'' dimension, count_col ''documents'' ''Credit notes'', money_col ''credited'' ''Credited'']
            (map (\<lambda>(l, n, x). [(''label'', V_Str l), (''documents'', V_Count n), (''credited'', V_Money x)]) rows)
            (Some [(''label'', V_Str ''Total''), (''documents'', V_Count (sum_list (map (fst \<circ> snd) rows))),
                (''credited'', V_Money credited_total)]))
          \<lparr>rt_definition := ''Credited = credit note taxable value, by the date the credit note was issued. These credits reduced Sales for this period by '' @ dec_str 2 credited_total @ ''.'',
           rt_notes := [RETURNS_NOTE], rt_date_from := date_from, rt_date_to := date_to,
           rt_group_by := (if group_by = ''customer'' then ''customer'' else ''reason'')\<rparr>))"


section \<open>Receivables\<close>

definition age_of :: "position \<Rightarrow> int" where
  "age_of p = (case oldest p of None \<Rightarrow> - 1 | Some i \<Rightarrow> oi_age_days i)"

definition ageing_row :: "(nat \<times> string \<times> string) list \<Rightarrow> position \<Rightarrow> row" where
  "ageing_row names p =
     (let (code, shop) = (case map_of names (po_party_id p) of None \<Rightarrow> ('''', '''') | Some x \<Rightarrow> x) in
      [(''code'', V_Str code), (''label'', V_Str shop), (''outstanding'', V_Money (po_total_outstanding p)),
       (''on_account'', V_Money (po_credit_on_account p)), (''balance'', V_Money (po_balance p)),
       (''oldest_days'', V_Int (case oldest p of None \<Rightarrow> 0 | Some i \<Rightarrow> oi_age_days i)),
       (''bucket'', V_Str (case oldest p of None \<Rightarrow> '''' | Some i \<Rightarrow> bucket i)),
       (''oldest_document'', V_Str (case oldest p of None \<Rightarrow> '''' | Some i \<Rightarrow> oi_document i))])"

definition receivables_ageing ::
  "env \<Rightarrow> actor option \<Rightarrow> date option \<Rightarrow> 'a billing_db_scheme \<Rightarrow> error + report" where
  "receivables_ageing env user as_of db =
     andThen (require_roles user INTERNAL) (\<lambda>_.
     let as_of = (case as_of of None \<Rightarrow> today env | Some d \<Rightarrow> d);
         positions = sort_key (\<lambda>p. - age_of p) (receivables_position env user (Some as_of) False db);
         names = visible_customer_labels user db
     in Inr ((plain_report ''receivables'' ''Receivables ageing''
            [text_col ''code'' ''Code'', text_col ''label'' ''Customer'', money_col ''outstanding'' ''Outstanding'',
             money_col ''on_account'' ''On account'', money_col ''balance'' ''Balance'', count_col ''oldest_days'' ''Oldest (days)'',
             text_col ''bucket'' ''Bucket'', text_col ''oldest_document'' ''Oldest document'']
            (map (ageing_row names) positions)
            (Some [(''code'', V_Str ''''), (''label'', V_Str ''Total''),
                (''outstanding'', V_Money (sum_list (map po_total_outstanding positions))),
                (''on_account'', V_Money (sum_list (map po_credit_on_account positions))),
                (''balance'', V_Money (sum_list (map po_balance positions))),
                (''oldest_days'', V_Str ''''), (''bucket'', V_Str ''''), (''oldest_document'', V_Str '''')]))
          \<lparr>rt_definition := ''Outstanding is derived by settling payments against the oldest unsettled debits first. Nothing here is stored; the same walk over the same immutable entries produces the same answer on any later day.'',
           rt_as_of := Some as_of\<rparr>))"

definition statement_table ::
  "env \<Rightarrow> customer \<Rightarrow> date option \<Rightarrow> date option \<Rightarrow> 'a ledger_db_scheme \<Rightarrow> error + report" where
  "statement_table env c date_from date_to db =
     andThen (customer_statement env (cu_pk c) date_from date_to db) (\<lambda>st.
     Inr ((plain_report (''statement-'' @ cu_code c) (''Statement of account '' @ EM_DASH @ '' '' @ cu_shop_name c)
            [text_col ''entry_date'' ''Date'', text_col ''entry_type'' ''Type'', text_col ''narration'' ''Narration'',
             money_col ''amount'' ''Amount'']
            (map (\<lambda>e. [(''entry_date'', V_Date (ce_entry_date e)), (''entry_type'', V_Str (ce_entry_type e)),
                (''narration'', V_Str (ce_narration e)), (''amount'', V_Money (ce_amount e))]) (st_entries st))
            (Some [(''entry_date'', V_Str ''''), (''entry_type'', V_Str ''''), (''narration'', V_Str ''Closing balance''),
                (''amount'', V_Money (st_closing_balance st))]))
          \<lparr>rt_definition := ''Opening balance '' @ dec_str 2 (st_opening_balance st) @ ''. A positive amount increases what the customer owes; a negative amount reduces it.'',
           rt_date_from := st_date_from st, rt_date_to := Some (st_date_to st)\<rparr>))"


section \<open>Orders\<close>

definition order_pipeline ::
  "actor option \<Rightarrow> date option \<Rightarrow> date option \<Rightarrow> 'a orders_db_scheme \<Rightarrow> error + report" where
  "order_pipeline user date_from date_to db =
     andThen (require_roles user INTERNAL) (\<lambda>_.
     let orders = in_period date_from date_to so_order_date (visible_orders user db);
         rows = map (\<lambda>(s, x). (s, length (filter (\<lambda>r. status_str (so_status r) = s) orders), x))
           (sort_key fst (sum_by (\<lambda>r. status_str (so_status r)) so_total_amount orders))
     in Inr ((plain_report ''order-status'' ''Order pipeline''
            [text_col ''label'' ''Status'', count_col ''orders'' ''Orders'', money_col ''value'' ''Value'']
            (map (\<lambda>(s, n, x). [(''label'', V_Str s), (''orders'', V_Count n), (''value'', V_Money x)]) rows)
            (Some [(''label'', V_Str ''Total''), (''orders'', V_Count (sum_list (map (fst \<circ> snd) rows))),
                (''value'', V_Money (sum_list (map (snd \<circ> snd) rows)))]))
          \<lparr>rt_date_from := date_from, rt_date_to := date_to\<rparr>))"


section \<open>Synchronisation\<close>

text \<open>Half to even, as \<^verbatim>\<open>quantize\<close> rounds by default.\<close>

definition conflict_rate :: "nat \<Rightarrow> nat \<Rightarrow> decimal option" where
  "conflict_rate rejected settled =
     (if settled \<le> 0 then None
      else Some (of_int (round_half_even (dec_div (of_nat rejected * 100) (of_nat settled) * 100)) / 100))"

definition settled_count :: "fleet_row \<Rightarrow> nat" where
  "settled_count d = fl_accepted d + fl_duplicate d + fl_deferred d + fl_rejected d"

definition rate_cell :: "decimal option \<Rightarrow> cell" where
  "rate_cell r = (case r of None \<Rightarrow> V_None | Some x \<Rightarrow> V_Dec 2 x)"

definition health_row :: "fleet_row \<Rightarrow> row" where
  "health_row d =
     [(''device_id'', V_Str (fl_device_id d)),
      (''last_sync_at'', case fl_last_sync_at d of None \<Rightarrow> V_None | Some t \<Rightarrow> V_Time t),
      (''accepted'', V_Count (fl_accepted d)), (''duplicate'', V_Count (fl_duplicate d)), (''deferred'', V_Count (fl_deferred d)),
      (''rejected'', V_Count (fl_rejected d)), (''in_flight'', V_Count (fl_in_flight d)), (''settled'', V_Count (settled_count d)),
      (''conflict_rate'', rate_cell (conflict_rate (fl_rejected d) (settled_count d)))]"

text \<open>The fleet as one device without a name.\<close>

definition fleet_total :: "fleet_row list \<Rightarrow> fleet_row" where
  "fleet_total ds =
     \<lparr>fl_device_id = '''', fl_last_sync_at = None, fl_accepted = sum_list (map fl_accepted ds),
      fl_duplicate = sum_list (map fl_duplicate ds), fl_deferred = sum_list (map fl_deferred ds),
      fl_rejected = sum_list (map fl_rejected ds), fl_in_flight = sum_list (map fl_in_flight ds)\<rparr>"

definition sync_health ::
  "actor option \<Rightarrow> fleet_row list \<Rightarrow> date option \<Rightarrow> date option \<Rightarrow> error + report" where
  "sync_health user devices date_from date_to =
     andThen (require_roles user INTERNAL) (\<lambda>_.
     Inr ((plain_report ''sync-health'' ''Sync health''
            [text_col ''device_id'' ''Device'', text_col ''last_sync_at'' ''Last sync'', count_col ''accepted'' ''Accepted'',
             count_col ''duplicate'' ''Duplicate'', count_col ''deferred'' ''Deferred'', count_col ''rejected'' ''Rejected'',
             count_col ''in_flight'' ''In flight'', count_col ''settled'' ''Settled'',
             \<lparr>co_key = ''conflict_rate'', co_label = ''Conflict %'', co_kind = K_RATE\<rparr>]
            (map health_row devices) (if devices = [] then None else Some (health_row (fleet_total devices))))
          \<lparr>rt_definition := SYNC_HEALTH_DEFINITION, rt_date_from := date_from, rt_date_to := date_to\<rparr>))"


section \<open>The dashboard\<close>

record metric =
  mt_key :: string
  mt_label :: string
  mt_value :: cell
  mt_caption :: string
  mt_is_live :: bool
  mt_is_money :: bool

definition dashboard :: "env \<Rightarrow> actor option \<Rightarrow> date option \<Rightarrow> 'a receivables_db_scheme \<Rightarrow> error + date \<times> metric list" where
  "dashboard env user day db =
     andThen (require_roles user INTERNAL) (\<lambda>_.
     let day = (case day of None \<Rightarrow> today env | Some d \<Rightarrow> d);
         (invoices, notes) = sales_sources user (Some day) (Some day) db;
         collected = sum_list (map py_amount (search_payments user None '''' (Some day) (Some day) False db));
         outstanding = sum_list (map po_total_outstanding (receivables_position env user None False db))
     in Inr (day,
         [\<lparr>mt_key = ''sales_today'', mt_label = ''Sales today'',
           mt_value = V_Money (sum_list (map taxable invoices) - sum_list (map taxable notes)),
           mt_caption = ''Taxable value, net of credit notes'', mt_is_live = True, mt_is_money = True\<rparr>,
          \<lparr>mt_key = ''collected_today'', mt_label = ''Collected today'', mt_value = V_Money collected,
           mt_caption = ''Payments recorded today, excluding reversals'', mt_is_live = True, mt_is_money = True\<rparr>,
          \<lparr>mt_key = ''total_outstanding'', mt_label = ''Total outstanding'', mt_value = V_Money outstanding,
           mt_caption = ''Derived from the ledger, oldest first'', mt_is_live = False, mt_is_money = True\<rparr>,
          \<lparr>mt_key = ''awaiting_dispatch'', mt_label = ''Orders awaiting dispatch'',
           mt_value = V_Count (length (awaiting_dispatch user db)),
           mt_caption = ''Confirmed, not yet gone'', mt_is_live = False, mt_is_money = False\<rparr>]))"

end
