(* ===== verification/Reporting.thy ===== *)
theory Reporting
  imports Reports
begin

text \<open>
  What the reports promise: however sales are grouped, the figures sum to the same total, except
  that a product sold under two names loses what was sold under one of them; the dashboard's
  figure is the report's; and the proportion of conflicts is a percentage.
\<close>


section \<open>Groups\<close>

lemma sum_by_total: "sum_list (map snd (sum_by key f rows)) = sum_list (map f rows)"
  using sum_where_group [of "remdups (map key rows)" rows "\<lambda>_. True" key f] by (simp add: sum_by_def comp_def sum_where_def)

lemma sum_by_keys [simp]: "map fst (sum_by key f rows) = remdups (map key rows)"
  by (simp add: sum_by_def comp_def)

text \<open>A dict keeps the last of the entries with one key.\<close>

lemma dict_of_snoc: "dict_of (kvs @ [(k, v)]) = AList.update k v (dict_of kvs)"
  by (simp add: dict_of_def)

lemma dict_of_Nil [simp]: "dict_of [] = []"
  by (simp add: dict_of_def)

lemma dict_of_keys: "distinct (map fst (dict_of kvs))" "fst ` set (dict_of kvs) = fst ` set kvs"
proof -
  have "distinct (map fst (dict_of kvs)) \<and> fst ` set (dict_of kvs) = fst ` set kvs"
  proof (induction kvs rule: rev_induct)
    case (snoc kv kvs)
    then show ?case by (cases kv) (simp add: dict_of_snoc distinct_update dom_update)
  qed simp
  then show "distinct (map fst (dict_of kvs))" "fst ` set (dict_of kvs) = fst ` set kvs" by simp_all
qed

lemma update_fresh: "k \<notin> fst ` set d \<Longrightarrow> AList.update k v d = d @ [(k, v)]"
  by (induction d) auto

lemma dict_of_distinct: "distinct (map fst kvs) \<Longrightarrow> dict_of kvs = kvs"
proof (induction kvs rule: rev_induct)
  case (snoc kv kvs)
  then show ?case by (cases kv) (auto simp: dict_of_snoc update_fresh)
qed simp

lemma update_total:
  "distinct (map fst d) \<Longrightarrow> sum_list (map h (AList.update k v d)) =
     sum_list (map h d) + h (k, v) - (case map_of d k of None \<Rightarrow> 0 | Some x \<Rightarrow> (h (k, x) :: decimal))"
  by (induction d) (auto split: option.splits dest: map_of_SomeD simp: rev_image_eqI)

lemma dict_of_values: "(k, v) \<in> set (dict_of kvs) \<Longrightarrow> (k, v) \<in> set kvs"
proof (induction kvs rule: rev_induct)
  case (snoc kv kvs)
  obtain a b where kv: "kv = (a, b)" by (cases kv)
  have "set (AList.update a b d) \<subseteq> insert (a, b) (set d)" for d by (induction d) auto
  then show ?case using snoc by (auto simp: dict_of_snoc kv)
qed simp

lemma dict_of_le:
  assumes "\<forall>kv \<in> set kvs. 0 < (h kv :: decimal)"
  shows "sum_list (map h (dict_of kvs)) \<le> sum_list (map h kvs)"
    "\<not> distinct (map fst kvs) \<Longrightarrow> sum_list (map h (dict_of kvs)) < sum_list (map h kvs)"
proof -
  have "sum_list (map h (dict_of kvs)) \<le> sum_list (map h kvs) \<and>
      (\<not> distinct (map fst kvs) \<longrightarrow> sum_list (map h (dict_of kvs)) < sum_list (map h kvs))"
    using assms
  proof (induction kvs rule: rev_induct)
    case (snoc kv kvs)
    obtain k v where kv: "kv = (k, v)" by (cases kv)
    let ?old = "case map_of (dict_of kvs) k of None \<Rightarrow> 0 | Some x \<Rightarrow> h (k, x)"
    have new: "sum_list (map h (dict_of (kvs @ [kv]))) = sum_list (map h (dict_of kvs)) + h (k, v) - ?old"
      by (simp only: kv dict_of_snoc update_total [OF dict_of_keys(1)])
    have old: "0 \<le> ?old" "k \<in> fst ` set kvs \<Longrightarrow> 0 < ?old"
    proof -
      have pos: "0 < h (k, x)" if "map_of (dict_of kvs) k = Some x" for x
        using dict_of_values [OF map_of_SomeD [OF that]] snoc.prems by simp
      then show "0 \<le> ?old" by (auto split: option.splits intro: less_imp_le)
      assume "k \<in> fst ` set kvs"
      then have "map_of (dict_of kvs) k \<noteq> None" by (simp add: map_of_eq_None_iff dict_of_keys(2))
      then show "0 < ?old" using pos by auto
    qed
    have IH: "sum_list (map h (dict_of kvs)) \<le> sum_list (map h kvs)"
      "\<not> distinct (map fst kvs) \<Longrightarrow> sum_list (map h (dict_of kvs)) < sum_list (map h kvs)"
      using snoc by auto
    have sum: "sum_list (map h (kvs @ [kv])) = sum_list (map h kvs) + h (k, v)" by (simp add: kv)
    show ?case
    proof (cases "distinct (map fst kvs) \<and> k \<notin> fst ` set kvs")
      case True
      then have "distinct (map fst (kvs @ [kv]))" by (auto simp: kv)
      then show ?thesis using new old(1) IH(1) sum by linarith
    next
      case False
      then have "sum_list (map h (dict_of kvs)) - ?old < sum_list (map h kvs)" using old IH by fastforce
      then show ?thesis using new sum by linarith
    qed
  qed simp
  then show "sum_list (map h (dict_of kvs)) \<le> sum_list (map h kvs)"
    "\<not> distinct (map fst kvs) \<Longrightarrow> sum_list (map h (dict_of kvs)) < sum_list (map h kvs)" by auto
qed



section \<open>The two halves of a sale\<close>

lemma labelled_figures [simp]:
  "map sr_key (labelled lab rows) = map sr_key rows" "map sr_invoiced (labelled lab rows) = map sr_invoiced rows"
  "map sr_credited (labelled lab rows) = map sr_credited rows" "map sr_sales (labelled lab rows) = map sr_sales rows"
  by (simp_all add: labelled_def)

lemma sum_sort_key [simp]: "sum_list (map f (sort_key key rows)) = sum_list (map (f :: 'r \<Rightarrow> decimal) rows)"
  by (metis mset_map mset_sort sum_mset_sum_list)

lemma merge_invoiced: "sum_list (map sr_invoiced (merge_rows xs ys)) = sum_list (map (snd \<circ> snd) xs)"
  by (auto simp: merge_rows_def Let_def comp_def case_prod_beta intro!: arg_cong [where f = sum_list])

lemma merge_sales:
  "sum_list (map sr_sales (merge_rows xs ys)) = sum_list (map sr_invoiced (merge_rows xs ys)) - sum_list (map sr_credited (merge_rows xs ys))"
proof -
  have "\<forall>r \<in> set (merge_rows xs ys). sr_sales r = sr_invoiced r - sr_credited r" by (auto simp: merge_rows_def Let_def)
  then have "map sr_sales (merge_rows xs ys) = map (\<lambda>r. sr_invoiced r - sr_credited r) (merge_rows xs ys)" by simp
  then show ?thesis by (simp only: sum_list_subtractf)
qed

text \<open>What is credited under a key is in the row of the key, whether it was invoiced or not.\<close>

lemma matched_total:
  assumes "distinct (map fst ys)" "distinct ks"
  shows "sum_list (map (\<lambda>k. case map_of ys k of None \<Rightarrow> 0 | Some c \<Rightarrow> (c :: decimal)) ks) =
    sum_list (map snd (filter (\<lambda>(k, c). k \<in> set ks) ys))"
  using assms(1)
proof (induction ys)
  case (Cons y ys)
  obtain k c where y: "y = (k, c)" by (cases y)
  have fresh: "map_of ys k = None" using Cons.prems by (simp add: y map_of_eq_None_iff)
  have "(\<lambda>x. case map_of (y # ys) x of None \<Rightarrow> 0 | Some c \<Rightarrow> c) =
      (\<lambda>x. (if x = k then c else 0) + (case map_of ys x of None \<Rightarrow> 0 | Some c \<Rightarrow> c))"
    using fresh by (auto simp: y fun_eq_iff)
  then have "sum_list (map (\<lambda>x. case map_of (y # ys) x of None \<Rightarrow> 0 | Some c \<Rightarrow> c) ks) =
      sum_list (map (\<lambda>x. if x = k then c else 0) ks) + sum_list (map (\<lambda>x. case map_of ys x of None \<Rightarrow> 0 | Some c \<Rightarrow> c) ks)"
    by (simp only: sum_list_addf)
  also have "sum_list (map (\<lambda>x. if x = k then c else 0) ks) = (if k \<in> set ks then c else 0)"
    using assms(2) by (induction ks) auto
  finally show ?case using Cons by (simp add: y)
qed simp

lemma merge_credited:
  assumes "distinct (map fst xs)" "distinct (map fst ys)"
  shows "sum_list (map sr_credited (merge_rows xs ys)) = sum_list (map snd ys)"
proof -
  have split: "sum_list (map snd ys) = sum_list (map snd (filter (\<lambda>(k, c). k \<in> set (map fst xs)) ys)) +
      sum_list (map (snd :: 'a \<times> decimal \<Rightarrow> decimal) (filter (\<lambda>(k, c). k \<notin> set (map fst xs)) ys))" for ys
    by (induction ys) auto
  have "map sr_credited (merge_rows xs ys) =
      map (\<lambda>k. case map_of ys k of None \<Rightarrow> 0 | Some c \<Rightarrow> c) (map fst xs) @ map snd (filter (\<lambda>(k, c). k \<notin> set (map fst xs)) ys)"
    by (auto simp: merge_rows_def Let_def case_prod_beta)
  then show ?thesis using matched_total [OF assms(2,1)] split [of ys] by simp
qed


section \<open>The total of a grouping\<close>

lemma figures_sums [simp]:
  "map fg_invoiced (figures_of lab rows) = map sr_invoiced rows" "map fg_credited (figures_of lab rows) = map sr_credited rows"
  "map fg_sales (figures_of lab rows) = map sr_sales rows"
  by (simp_all add: figures_of_def)

definition sales_total :: "decimal \<Rightarrow> decimal \<Rightarrow> figures" where
  "sales_total x c = \<lparr>fg_label = V_Str ''Total'', fg_invoiced = x, fg_credited = c, fg_sales = x - c\<rparr>"

text \<open>Any grouping of whole documents.\<close>

lemma grouped_total:
  fixes invoices :: "invoice list" and cns :: "credit_note list"
  defines "rows \<equiv> \<lambda>lab key key'. merge_rows (dict_of (map (\<lambda>(k, x). (k, lab k, x)) (sum_by key taxable invoices)))
      (dict_of (sum_by key' taxable cns))"
  shows "sum_list (map sr_invoiced (rows lab key key')) = sum_list (map taxable invoices)"
    "sum_list (map sr_credited (rows lab key key')) = sum_list (map taxable cns)"
    "sum_list (map sr_sales (rows lab key key')) = sum_list (map taxable invoices) - sum_list (map taxable cns)"
proof -
  have fst: "map fst (map (\<lambda>(k, x). (k, lab k, x)) kvs) = map fst kvs" for kvs by auto
  have keys: "distinct (map fst (map (\<lambda>(k, x). (k, lab k, x)) (sum_by key taxable invoices)))"
    "distinct (map fst (sum_by key' taxable cns))"
    by (simp_all only: fst sum_by_keys distinct_remdups)
  have snd: "map (snd \<circ> snd) (map (\<lambda>(k, x). (k, lab k, x)) kvs) = map snd kvs" for kvs by auto
  show 1: "sum_list (map sr_invoiced (rows lab key key')) = sum_list (map taxable invoices)"
    unfolding rows_def merge_invoiced dict_of_distinct [OF keys(1)] by (simp only: snd sum_by_total)
  show 2: "sum_list (map sr_credited (rows lab key key')) = sum_list (map taxable cns)"
    unfolding rows_def dict_of_distinct [OF keys(1)] dict_of_distinct [OF keys(2)]
    by (simp only: merge_credited [OF keys] sum_by_total)
  show "sum_list (map sr_sales (rows lab key key')) = sum_list (map taxable invoices) - sum_list (map taxable cns)"
    using 1 2 unfolding rows_def by (simp only: merge_sales)
qed

lemma documents_total:
  "sum_figures (V_Str ''Total'') (figures_of lab (sales_by_day invoices notes)) =
     sales_total (sum_list (map taxable invoices)) (sum_list (map taxable notes))"
  "sum_figures (V_Str ''Total'') (figures_of lab' (sales_by_customer db invoices notes)) =
     sales_total (sum_list (map taxable invoices)) (sum_list (map taxable notes))"
  "sum_figures (V_Str ''Total'') (figures_of lab'' (sales_by_salesman db' invoices notes)) =
     sales_total (sum_list (map taxable invoices)) (sum_list (map taxable notes))"
  by (simp_all add: sum_figures_def sales_total_def sales_by_day_def sales_by_customer_def sales_by_salesman_def Let_def grouped_total)


section \<open>Products under two names\<close>

definition lines_add_up :: "'a billing_db_scheme \<Rightarrow> invoice list \<Rightarrow> credit_note list \<Rightarrow> bool" where
  "lines_add_up db invoices cns \<longleftrightarrow>
     (\<forall>i \<in> set invoices. sum_where (\<lambda>l. il_invoice l = iv_pk i) bl_taxable_amount (tb_rows (db_invoice_lines db)) = taxable i) \<and>
     (\<forall>n \<in> set cns. sum_where (\<lambda>l. cl_credit_note l = cn_pk n) bl_taxable_amount (tb_rows (db_credit_note_lines db)) = taxable n)"

definition lines_positive :: "invoice_line list \<Rightarrow> bool" where
  "lines_positive ls \<longleftrightarrow> (\<forall>l \<in> set ls. 0 < bl_taxable_amount l)"

definition one_name_each :: "invoice_line list \<Rightarrow> bool" where
  "one_name_each ls \<longleftrightarrow> (\<forall>l \<in> set ls. \<forall>l' \<in> set ls. bl_product l = bl_product l' \<longrightarrow> bl_product_name l = bl_product_name l')"

lemma lines_total:
  assumes "lines_add_up db invoices cns"
  shows "sum_list (map bl_taxable_amount (lines_of_invoices db invoices)) = sum_list (map taxable invoices)"
    "sum_list (map bl_taxable_amount (lines_of_notes db cns)) = sum_list (map taxable cns)"
proof -
  have inv: "\<forall>i \<in> set xs. sum_where (\<lambda>l. il_invoice l = iv_pk i) bl_taxable_amount rows = taxable i \<Longrightarrow>
      sum_list (map bl_taxable_amount (concat (map (\<lambda>i. filter (\<lambda>l. il_invoice l = iv_pk i) rows) xs))) = sum_list (map taxable xs)"
    for xs :: "invoice list" and rows by (induction xs) (simp_all add: sum_where_def)
  show "sum_list (map bl_taxable_amount (lines_of_invoices db invoices)) = sum_list (map taxable invoices)"
    unfolding lines_of_invoices_def by (rule inv) (use assms in \<open>simp add: lines_add_up_def\<close>)
  have ret: "\<forall>n \<in> set ns. sum_where (\<lambda>l. cl_credit_note l = cn_pk n) bl_taxable_amount rows = taxable n \<Longrightarrow>
      sum_list (map bl_taxable_amount (concat (map (\<lambda>n. filter (\<lambda>l. cl_credit_note l = cn_pk n) rows) ns))) = sum_list (map taxable ns)"
    for ns :: "credit_note list" and rows by (induction ns) (simp_all add: sum_where_def)
  show "sum_list (map bl_taxable_amount (lines_of_notes db cns)) = sum_list (map taxable cns)"
    unfolding lines_of_notes_def by (rule ret) (use assms in \<open>simp add: lines_add_up_def\<close>)
qed

lemma sum_where_pos: "\<forall>r \<in> set rows. 0 < (f r :: decimal) \<Longrightarrow> r \<in> set rows \<Longrightarrow> p r \<Longrightarrow> 0 < sum_where p f rows"
proof (induction rows)
  case (Cons x rows)
  have "0 \<le> sum_where p f rows" using Cons.prems(1) by (auto simp: sum_where_def less_imp_le intro!: sum_list_nonneg)
  then show ?case using Cons by (auto intro: add_pos_nonneg add_nonneg_pos)
qed simp

lemma sum_by_pos:
  assumes "\<forall>r \<in> set rows. 0 < (f r :: decimal)" "(k, x) \<in> set (sum_by key f rows)"
  shows "0 < x"
  using assms(2) sum_where_pos [OF assms(1)] by (auto simp: sum_by_def)

lemma one_name_iff:
  "one_name_each ls \<longleftrightarrow> distinct (map fst (map (\<lambda>((p, name), x). (p, name, x)) (sum_by product_key bl_taxable_amount ls)))"
proof -
  have fst: "map fst (map (\<lambda>((p, name), x). (p, name, x)) kvs) = map (fst \<circ> fst) kvs" for kvs :: "((nat option \<times> string) \<times> decimal) list"
    by auto
  have "map (fst \<circ> fst) (sum_by product_key bl_taxable_amount ls) = map fst (remdups (map product_key ls))"
    by (simp add: sum_by_def comp_def)
  then show ?thesis
    unfolding fst by (auto simp: one_name_each_def distinct_map inj_on_def product_key_def)
qed

text \<open>What was sold of a product, and what of it under one name.\<close>

definition sold :: "nat option \<Rightarrow> invoice_line list \<Rightarrow> decimal" where
  "sold p ls = sum_where (\<lambda>l. bl_product l = p) bl_taxable_amount ls"

definition sold_as :: "nat option \<Rightarrow> string \<Rightarrow> invoice_line list \<Rightarrow> decimal" where
  "sold_as p name ls = sum_where (\<lambda>l. bl_product l = p \<and> bl_product_name l = name) bl_taxable_amount ls"

text \<open>
  Every product sold has one row, and the row tells what was sold under one of the product's names:
  the one it shows, if that is not empty.
\<close>

definition one_row_each :: "invoice_line list \<Rightarrow> nat option sales_row list \<Rightarrow> bool" where
  "one_row_each ls rows \<longleftrightarrow>
     distinct (map sr_key rows) \<and> (\<forall>l \<in> set ls. bl_product l \<in> sr_key ` set rows) \<and>
     (\<forall>r \<in> set rows. if sr_key r \<in> bl_product ` set ls
        then \<exists>l \<in> set ls. bl_product l = sr_key r \<and> sr_invoiced r = sold_as (sr_key r) (bl_product_name l) ls \<and>
               (bl_product_name l \<noteq> '''' \<longrightarrow> sr_label r = bl_product_name l)
        else sr_invoiced r = 0)"

text \<open>What the rows do not tell of what was sold.\<close>

definition untold :: "invoice_line list \<Rightarrow> nat option sales_row list \<Rightarrow> decimal" where
  "untold ls rows = sum_list (map (\<lambda>r. sold (sr_key r) ls - sr_invoiced r) rows)"

lemma merge_keys:
  "map sr_key (merge_rows xs ys) = map fst xs @ map fst (filter (\<lambda>(k, c). k \<notin> fst ` set xs) ys)"
  by (auto simp: merge_rows_def Let_def)

lemma merge_keys_distinct:
  "distinct (map fst xs) \<Longrightarrow> distinct (map fst ys) \<Longrightarrow> distinct (map sr_key (merge_rows xs ys))"
  unfolding merge_keys by (auto simp: distinct_map_filter rev_image_eqI)

lemma merge_row:
  assumes "r \<in> set (merge_rows xs ys)"
  shows "(\<exists>l x. (sr_key r, l, x) \<in> set xs \<and> sr_label r = l \<and> sr_invoiced r = x) \<or> sr_key r \<notin> fst ` set xs \<and> sr_invoiced r = 0"
  using assms by (force simp: merge_rows_def Let_def)

lemma sales_by_product_rows:
  fixes db :: "'a billing_db_scheme" and invoices cns
  defines "rows \<equiv> sales_by_product db invoices cns" and "ls \<equiv> lines_of_invoices db invoices"
  shows "one_row_each ls rows"
proof -
  define entries where "entries = map (\<lambda>((p, name), x). (p, name, x)) (sum_by product_key bl_taxable_amount ls)"
  define ret where "ret = dict_of (sum_by bl_product bl_taxable_amount (lines_of_notes db cns))"
  define merged where "merged = merge_rows (dict_of entries) ret"
  obtain lab where rows: "rows = sort_key sr_label (labelled lab merged)"
    by (simp add: rows_def sales_by_product_def Let_def merged_def entries_def ret_def ls_def)
  have keys: "fst ` set (dict_of entries) = bl_product ` set ls"
    unfolding dict_of_keys(2) entries_def by (force simp: sum_by_def product_key_def)
  have "distinct (map sr_key merged)"
    unfolding merged_def ret_def by (intro merge_keys_distinct dict_of_keys(1))
  then have "distinct (map sr_key rows)"
    using mset_eq_imp_distinct_iff [of "map sr_key rows" "map sr_key merged"] unfolding rows
    by (metis labelled_figures(1) mset_map mset_sort)
  moreover have "bl_product l \<in> sr_key ` set rows" if "l \<in> set ls" for l
  proof -
    have "sr_key ` set rows = set (map sr_key merged)" unfolding rows by (metis labelled_figures(1) set_map set_sort)
    then show ?thesis using that keys unfolding merged_def merge_keys by auto
  qed
  moreover have "if sr_key r \<in> bl_product ` set ls
        then \<exists>l \<in> set ls. bl_product l = sr_key r \<and> sr_invoiced r = sold_as (sr_key r) (bl_product_name l) ls \<and>
               (bl_product_name l \<noteq> '''' \<longrightarrow> sr_label r = bl_product_name l)
        else sr_invoiced r = 0" if r: "r \<in> set rows" for r
  proof -
    obtain m where m: "m \<in> set merged" "sr_key r = sr_key m" "sr_invoiced r = sr_invoiced m"
      "sr_label m \<noteq> '''' \<Longrightarrow> sr_label r = sr_label m"
      using r unfolding rows labelled_def by (auto split: if_splits)
    show ?thesis
    proof (cases "sr_key r \<in> bl_product ` set ls")
      case True
      then obtain name x where e: "(sr_key m, name, x) \<in> set (dict_of entries)" "sr_label m = name" "sr_invoiced m = x"
        using merge_row [OF m(1) [unfolded merged_def]] m(2) keys by force
      then have "((sr_key m, name), x) \<in> set (sum_by product_key bl_taxable_amount ls)"
        using dict_of_values [OF e(1)] by (auto simp: entries_def)
      then obtain l where "l \<in> set ls" "product_key l = (sr_key m, name)" "x = sold_as (sr_key m) name ls"
        by (auto simp: sum_by_def sold_as_def product_key_def)
      then show ?thesis using True m e(2,3) by (auto simp: product_key_def)
    next
      case False
      then show ?thesis using merge_row [OF m(1) [unfolded merged_def]] m(2,3) keys by force
    qed
  qed
  ultimately show ?thesis unfolding one_row_each_def by blast
qed

lemma product_sums:
  assumes "lines_add_up db invoices cns"
  defines "rows \<equiv> sales_by_product db invoices cns"
  shows "sum_list (map sr_credited rows) = sum_list (map taxable cns)"
    "sum_list (map sr_sales rows) = sum_list (map sr_invoiced rows) - sum_list (map taxable cns)"
proof -
  define ret where "ret = dict_of (sum_by bl_product bl_taxable_amount (lines_of_notes db cns))"
  have ret: "distinct (map fst ret)" "sum_list (map snd ret) = sum_list (map taxable cns)"
    unfolding ret_def by (simp_all add: dict_of_keys dict_of_distinct sum_by_total lines_total [OF assms(1)])
  show c: "sum_list (map sr_credited rows) = sum_list (map taxable cns)"
    unfolding rows_def sales_by_product_def Let_def
    by (simp add: merge_credited [OF dict_of_keys(1) ret(1), unfolded ret_def] ret(2) [unfolded ret_def])
  then show "sum_list (map sr_sales rows) = sum_list (map sr_invoiced rows) - sum_list (map taxable cns)"
    unfolding rows_def sales_by_product_def Let_def by (simp add: merge_sales)
qed

text \<open>What is missing from the total is what the rows do not tell.\<close>

lemma product_untold:
  assumes "lines_add_up db invoices cns"
  defines "rows \<equiv> sales_by_product db invoices cns" and "ls \<equiv> lines_of_invoices db invoices"
  shows "sum_list (map sr_invoiced rows) + untold ls rows = sum_list (map taxable invoices)"
proof -
  have one: "distinct (map sr_key rows)" "\<forall>l \<in> set ls. bl_product l \<in> set (map sr_key rows)"
    using sales_by_product_rows [of db invoices cns] unfolding rows_def ls_def one_row_each_def by auto
  have "sum_list (map (\<lambda>r. sold (sr_key r) ls) rows) = sum_list (map bl_taxable_amount ls)"
    using sum_where_group [OF one(1), of ls "\<lambda>_. True" bl_product bl_taxable_amount] one(2)
    by (simp add: sold_def sum_where_def comp_def)
  then show ?thesis
    using lines_total(1) [OF assms(1)] by (simp add: untold_def sum_list_subtractf ls_def)
qed

lemma one_name_total:
  assumes "lines_add_up db invoices cns"
  defines "x \<equiv> sum_list (map sr_invoiced (sales_by_product db invoices cns))" and "ls \<equiv> lines_of_invoices db invoices"
  shows "one_name_each ls \<Longrightarrow> x = sum_list (map taxable invoices)"
    "\<not> one_name_each ls \<Longrightarrow> lines_positive ls \<Longrightarrow> x < sum_list (map taxable invoices)"
proof -
  define entries where "entries = map (\<lambda>((p, name), x). (p, name, x)) (sum_by product_key bl_taxable_amount ls)"
  have "map (snd \<circ> snd) (map (\<lambda>((p, name), x). (p, name, x)) kvs) = map snd kvs" for kvs :: "((nat option \<times> string) \<times> decimal) list"
    by auto
  then have total: "sum_list (map (snd \<circ> snd) entries) = sum_list (map taxable invoices)"
    unfolding entries_def by (simp only: sum_by_total lines_total [OF assms(1)] ls_def)
  have inv: "x = sum_list (map (snd \<circ> snd) (dict_of entries))"
    by (simp add: x_def sales_by_product_def Let_def merge_invoiced entries_def ls_def)
  show "x = sum_list (map taxable invoices)" if "one_name_each ls"
    using that dict_of_distinct [of entries] inv total unfolding one_name_iff entries_def [symmetric] by simp
  show "x < sum_list (map taxable invoices)" if "\<not> one_name_each ls" "lines_positive ls"
  proof -
    have "\<forall>kv \<in> set entries. 0 < snd (snd kv)"
      using that(2) sum_by_pos [where f = bl_taxable_amount and rows = ls] by (fastforce simp: entries_def lines_positive_def)
    then show ?thesis
      using dict_of_le(2) [of entries "snd \<circ> snd"] that(1) inv total unfolding one_name_iff entries_def [symmetric] by simp
  qed
qed


section \<open>The reports\<close>

lemma sales_report_total:
  assumes "sales_report user date_from date_to g db = Inr t" "sales_sources user date_from date_to db = (invoices, cns)"
  shows "g = ''product'' \<Longrightarrow> rt_rows t = map figures_row (figures_of text_label (sales_by_product db invoices cns))"
    and "g \<noteq> ''product'' \<Longrightarrow>
      rt_total t = Some (figures_row (sales_total (sum_list (map taxable invoices)) (sum_list (map taxable cns))))"
    and "g = ''product'' \<Longrightarrow> rt_total t = Some (figures_row (sum_figures (V_Str ''Total'') (figures_of text_label (sales_by_product db invoices cns))))"
  using assms by (auto simp: sales_report_def sales_figures_def Let_def documents_total plain_report_def SALES_GROUPINGS_def
      split: if_splits)

lemma product_figures:
  assumes "lines_add_up db invoices cns"
  shows "\<exists>x. sum_figures (V_Str ''Total'') (figures_of text_label (sales_by_product db invoices cns)) = sales_total x (sum_list (map taxable cns)) \<and>
    x + untold (lines_of_invoices db invoices) (sales_by_product db invoices cns) = sum_list (map taxable invoices) \<and>
    (one_name_each (lines_of_invoices db invoices) \<longrightarrow> x = sum_list (map taxable invoices)) \<and>
    (\<not> one_name_each (lines_of_invoices db invoices) \<and> lines_positive (lines_of_invoices db invoices) \<longrightarrow> x < sum_list (map taxable invoices))"
  using product_sums [OF assms] product_untold [OF assms] one_name_total [OF assms]
  by (intro exI [of _ "sum_list (map sr_invoiced (sales_by_product db invoices cns))"])
    (simp add: sum_figures_def sales_total_def)

text \<open>The first number of the dashboard is the total of the day's report.\<close>

lemma dashboard_sales:
  assumes "dashboard env user (Some d) db = Inr (day, metrics)" "sales_sources user (Some d) (Some d) db = (invoices, cns)"
  shows "mt_value (hd metrics) = row_get (figures_row (sales_total (sum_list (map taxable invoices)) (sum_list (map taxable cns)))) ''sales''"
  using assms by (auto simp: dashboard_def Let_def row_get_def figures_row_def sales_total_def split: if_splits)

text \<open>The conflict rate is a percentage.\<close>

lemma round_half_even_bounds: "of_int a \<le> x \<Longrightarrow> x \<le> of_int b \<Longrightarrow> a \<le> round_half_even x \<and> round_half_even x \<le> b"
proof -
  assume a: "of_int a \<le> x" "x \<le> of_int b"
  have f: "a \<le> \<lfloor>x\<rfloor>" using a(1) by (simp add: le_floor_iff)
  show ?thesis
  proof (cases "x = of_int b")
    case True
    then show ?thesis using a by simp
  next
    case False
    then have "\<lfloor>x\<rfloor> < b" using a(2) by (simp add: floor_less_iff)
    then show ?thesis using f by (simp add: round_half_even_def Let_def)
  qed
qed


lemma ctx28_percentage:
  assumes "0 \<le> x" "x \<le> 100"
  shows "0 \<le> ctx28 x \<and> ctx28 x \<le> 100"
proof (cases "x < 1")
  case True
  show ?thesis
  proof (cases "x = 0")
    case False
    define m where "m = leading_zeros x + 27"
    have "0 \<le> round_half_even (x * 10 ^ m) \<and> round_half_even (x * 10 ^ m) \<le> 10 ^ m"
      by (rule round_half_even_bounds) (use assms True in \<open>auto simp: mult_le_cancel_right1\<close>)
    then have "0 \<le> of_int (round_half_even (x * 10 ^ m)) / (10 ^ m :: rat) \<and> of_int (round_half_even (x * 10 ^ m)) / 10 ^ m \<le> (1 :: rat)"
      by (simp add: divide_le_eq_1)
    moreover have "ctx28 x = of_int (round_half_even (x * 10 ^ m)) / 10 ^ m"
      using True False assms by (simp add: ctx28_def Let_def m_def)
    ultimately show ?thesis by linarith
  qed (simp add: ctx28_def)
next
  case False
  define d where "d = int_digits (nat \<lfloor>x\<rfloor>)"
  have "nat \<lfloor>x\<rfloor> < 10 ^ 3" using assms by (simp add: nat_less_iff)
  then have d: "d \<le> 3" unfolding d_def by (rule int_digits_le) simp
  have y: "x * 10 ^ 28 / 10 ^ d \<le> of_int (10 ^ (30 - d))"
  proof -
    have "(10::rat) ^ 30 = 10 ^ (30 - d) * 10 ^ d" using d by (simp flip: power_add)
    then have "x * 10 ^ 28 \<le> 10 ^ (30 - d) * 10 ^ d" using assms(2) by simp
    then show ?thesis by (simp add: pos_divide_le_eq)
  qed
  have r: "0 \<le> round_half_even (x * 10 ^ 28 / 10 ^ d) \<and> round_half_even (x * 10 ^ 28 / 10 ^ d) \<le> 10 ^ (30 - d)"
    by (rule round_half_even_bounds) (use assms(1) y in simp_all)
  have "of_int (round_half_even (x * 10 ^ 28 / 10 ^ d)) * 10 ^ d \<le> (10::rat) ^ (30 - d) * 10 ^ d"
    by (rule mult_right_mono) (use r in simp_all)
  also have "\<dots> = 100 * 10 ^ 28" using d by (simp flip: power_add)
  finally have "of_int (round_half_even (x * 10 ^ 28 / 10 ^ d)) * 10 ^ d / 10 ^ 28 \<le> (100 :: rat)" by simp
  moreover have "ctx28 x = of_int (round_half_even (x * 10 ^ 28 / 10 ^ d)) * 10 ^ d / 10 ^ 28"
    using False by (simp add: ctx28_def Let_def d_def)
  moreover have "(0 :: rat) \<le> of_int (round_half_even (x * 10 ^ 28 / 10 ^ d)) * 10 ^ d / 10 ^ 28"
    using r by (intro divide_nonneg_nonneg mult_nonneg_nonneg) simp_all
  ultimately show ?thesis by linarith
qed

lemma conflict_rate_bounds:
  assumes "rejected \<le> settled" "conflict_rate rejected settled = Some x"
  shows "0 \<le> x \<and> x \<le> 100 \<and> at_scale 2 x"
proof -
  let ?y = "dec_div (of_nat rejected * 100) (of_nat settled)"
  have s: "0 < settled" "x = of_int (round_half_even (?y * 100)) / 100" using assms(2) by (auto simp: conflict_rate_def split: if_splits)
  have "(of_nat rejected * 100 :: rat) / of_nat settled \<le> 100" using assms(1) s(1) by (simp add: divide_le_eq)
  then have "0 \<le> ?y \<and> ?y \<le> 100" unfolding dec_div_def by (intro ctx28_percentage) simp_all
  then have "0 \<le> round_half_even (?y * 100) \<and> round_half_even (?y * 100) \<le> 10000"
    by (intro round_half_even_bounds) simp_all
  then have "0 \<le> (of_int (round_half_even (?y * 100)) :: rat) \<and> of_int (round_half_even (?y * 100)) \<le> (10000 :: rat)" by linarith
  then show ?thesis unfolding s(2) at_scale_def by auto
qed

text \<open>Nothing a device sent is counted twice or not at all.\<close>

lemma count_status_total:
  "count_status OP_RECEIVED rs + count_status OP_ACCEPTED rs + count_status OP_DUPLICATE rs + count_status OP_DEFERRED rs +
   count_status OP_REJECTED rs = length rs"
proof (induction rs)
  case (Cons r rs)
  then show ?case by (cases "op_state r") (simp_all add: count_status_def)
qed (simp add: count_status_def)

end
