(* ===== verification/Figures.thy ===== *)
theory Figures
  imports Samples Reporting
begin

text \<open>
  Samples for the reports: the billed business sells the same product again after it was given
  another name, and a table with a text a spreadsheet would run.
\<close>

definition renamed_db :: billing_db where
  "renamed_db = billed_db\<lparr>
     db_invoices := (db_invoices billed_db)\<lparr>tb_rows := tb_rows (db_invoices billed_db) @
       map (\<lambda>i. i\<lparr>iv_pk := 2, iv_sales_order := None\<rparr>) (tb_rows (db_invoices billed_db))\<rparr>,
     db_invoice_lines := (db_invoice_lines billed_db)\<lparr>tb_rows :=
       [sample_invoice_line, sample_invoice_line\<lparr>il_pk := 2, il_invoice := 2, bl_product_name := ''Soap bar''\<rparr>]\<rparr>\<rparr>"

lemma renamed_facts:
  "(let s = sales_sources sample_owner None None renamed_db
    in (sum_list (map taxable (fst s)), snd s, lines_add_up renamed_db (fst s) (snd s),
        one_name_each (lines_of_invoices renamed_db (fst s)),
        lines_positive (lines_of_invoices renamed_db (fst s)))) = (960, [], True, False, True)"
  by code_simp

definition sample_table :: report where
  "sample_table = (plain_report ''t'' (''Two'' @ [NL] @ ''lines'') [text_col ''a'' ''A'', money_col ''b'' ''B, C'']
     [[(''a'', V_Str ''=1+1''), (''b'', V_Money (- 5))], [(''a'', V_Str [QUOTE, COMMA])]] None)\<lparr>rt_notes := [''n'']\<rparr>"


text \<open>
  A manual discount does not respect the captured price: the price of the product changed after
  the order was confirmed, the line keeps the old unit price, and the order's total is no longer
  its subtotal less discount plus tax.
\<close>

definition repriced_db :: fulfilment_db where
  "repriced_db = confirmed_db\<lparr>db_products := \<lparr>tb_seq = 2, tb_rows = [sample_product\<lparr>pr_selling_price := 200\<rparr>]\<rparr>\<rparr>"

lemma discount_reprices_the_line:
  "case apply_line_discount sample_env sample_owner confirmed_order confirmed_line 20 repriced_db of
     Inl e \<Rightarrow> False
   | Inr (ord, db) \<Rightarrow> map ol_unit_price (lines_of 1 db) = [100] \<and> so_total_amount ord = 5782/5 \<and>
       so_total_amount ord \<noteq> so_subtotal_amount ord - so_discount_amount ord + so_tax_amount ord"
  by code_simp

end
