(* ===== verification/Openings.thy ===== *)
theory Openings
  imports Payables
begin

text \<open>
  The opening position: \<^verbatim>\<open>receivables/management/commands/load_opening_balances.py\<close>.  A file of
  parties and amounts is judged as a whole, then loaded row by row through the two ledgers' own
  services, then reconciled.  The command is not one transaction: every row is, so the functions
  that load return the state beside the outcome.  The file is what \<^verbatim>\<open>csv.reader\<close> makes of it, a list
  of rows of texts; of the printed report the model keeps the figures and the verdict.
\<close>


section \<open>Numbers and dates in a text\<close>

text \<open>\<^verbatim>\<open>Decimal(text)\<close>: a finite value, an infinity (negative?) or not a number (signalling?).\<close>

datatype number = Finite decimal | Infinite bool | NaN bool

definition take_sign :: "string \<Rightarrow> bool \<times> string" where
  "take_sign s =
     (case s of [] \<Rightarrow> (False, [])
      | c # r \<Rightarrow> if c = CHR ''-'' then (True, r) else if c = CHR ''+'' then (False, r) else (False, s))"

definition read_exponent :: "string \<Rightarrow> int option" where
  "read_exponent s =
     (case s of [] \<Rightarrow> Some 0
      | c # r \<Rightarrow>
        let (neg, ds) = take_sign r
        in if lower_char c = CHR ''e'' \<and> ds \<noteq> '''' \<and> list_all is_digit ds
           then Some (if neg then - int (nat_of_str ds) else int (nat_of_str ds)) else None)"

definition power_of_ten :: "int \<Rightarrow> decimal" where
  "power_of_ten e = (if 0 \<le> e then 10 ^ nat e else 1 / 10 ^ nat (- e))"

definition read_numeral :: "string \<Rightarrow> decimal option" where
  "read_numeral s =
     (let whole = takeWhile is_digit s; rest = dropWhile is_digit s;
          point = (rest \<noteq> '''' \<and> hd rest = CHR ''.'');
          frac = (if point then takeWhile is_digit (tl rest) else '''');
          rest = (if point then dropWhile is_digit (tl rest) else rest)
      in if whole = '''' \<and> frac = '''' then None
         else map_option (\<lambda>e. of_nat (nat_of_str (whole @ frac)) * power_of_ten (e - int (length frac)))
                (read_exponent rest))"

definition read_number :: "string \<Rightarrow> number option" where
  "read_number text =
     (let (neg, body) = take_sign (filter (\<lambda>c. c \<noteq> CHR ''_'') (strip text)); low = lower body
      in if low = ''inf'' \<or> low = ''infinity'' then Some (Infinite neg)
         else if take 3 low = ''nan'' \<and> list_all is_digit (drop 3 low) then Some (NaN False)
         else if take 4 low = ''snan'' \<and> list_all is_digit (drop 4 low) then Some (NaN True)
         else map_option (\<lambda>x. Finite (if neg then - x else x)) (read_numeral body))"

text \<open>
  The value the default decimal context makes of an exact result: 28 digits, half to even; below
  \<open>10 ^ - EMAX\<close> the digits run out at \<open>10 ^ - (EMAX + 27)\<close>; from \<open>10 ^ (EMAX + 1)\<close> on it
  raises \<^verbatim>\<open>Overflow\<close>.  The tests are nested so that ordinary values never meet the huge powers.
\<close>

definition EMAX :: nat where "EMAX = 999999"

definition context_value :: "decimal \<Rightarrow> decimal" where
  "context_value z =
     (if z = 0 then 0
      else if \<bar>z\<bar> * 10 ^ 28 < 1 then
        (if \<bar>z\<bar> * 10 ^ EMAX < 1
         then sgn z * of_int (round_half_even (\<bar>z\<bar> * 10 ^ (EMAX + 27))) / 10 ^ (EMAX + 27) else ctx28 z)
      else ctx28 z)"

definition context_sum :: "decimal \<Rightarrow> error + decimal" where
  "context_sum z =
     (let v = context_value z
      in if \<bar>v\<bar> < 10 ^ 28 then Inr v
         else if \<bar>v\<bar> < 10 ^ Suc EMAX then Inr v else Inl (PyError ''Overflow''))"

text \<open>
  What the command does with an amount: an ordering with a NaN and any operation on a signalling
  one raise \<^verbatim>\<open>InvalidOperation\<close>, as does the sum of opposite infinities.
\<close>

definition invalid_operation :: error where
  "invalid_operation = PyError ''InvalidOperation''"

fun number_le_zero :: "number \<Rightarrow> error + bool" where
  "number_le_zero (Finite x) = Inr (x \<le> 0)"
| "number_le_zero (Infinite neg) = Inr neg"
| "number_le_zero (NaN s) = Inl invalid_operation"

fun number_is_zero :: "number \<Rightarrow> error + bool" where
  "number_is_zero (Finite x) = Inr (x = 0)"
| "number_is_zero (Infinite neg) = Inr False"
| "number_is_zero (NaN s) = (if s then Inl invalid_operation else Inr False)"

fun number_add :: "number \<Rightarrow> number \<Rightarrow> error + number" where
  "number_add (NaN s) y = (if s \<or> y = NaN True then Inl invalid_operation else Inr (NaN False))"
| "number_add x (NaN s) = (if s then Inl invalid_operation else Inr (NaN False))"
| "number_add (Infinite a) (Infinite b) = (if a = b then Inr (Infinite a) else Inl invalid_operation)"
| "number_add (Infinite a) y = Inr (Infinite a)"
| "number_add x (Infinite b) = Inr (Infinite b)"
| "number_add (Finite x) (Finite y) = map_sum id Finite (context_sum (x + y))"

text \<open>
  \<^verbatim>\<open>date.fromisoformat\<close>: a calendar date or a week date, with both separators or neither; a week
  without a day is its Monday.
\<close>

definition digits_value :: "string \<Rightarrow> int option" where
  "digits_value s = (if s \<noteq> '''' \<and> list_all is_digit s then Some (int (nat_of_str s)) else None)"

definition year_dates :: "int \<Rightarrow> date list" where
  "year_dates y = concat (map (\<lambda>m. map (Date y m) [1..days_in_month y m]) [1..12])"

definition first_monday :: "int \<Rightarrow> int" where
  "first_monday y =
     (let first = toordinal (Date y 1 1); weekday = (first + 6) mod 7
      in first - weekday + (if weekday > 3 then 7 else 0))"

definition weeks_of :: "int \<Rightarrow> int" where
  "weeks_of y = (first_monday (y + 1) - first_monday y) div 7"

definition iso_date :: "int \<Rightarrow> int \<Rightarrow> int \<Rightarrow> date option" where
  "iso_date y w d =
     (if 1 \<le> y \<and> y \<le> 9999 \<and> 1 \<le> w \<and> w \<le> weeks_of y \<and> 1 \<le> d \<and> d \<le> 7
      then find (\<lambda>x. valid_date x \<and> toordinal x = first_monday y + (w - 1) * 7 + d - 1)
             (year_dates (y - 1) @ year_dates y @ year_dates (y + 1))
      else None)"

definition calendar_date :: "int \<Rightarrow> int \<Rightarrow> int \<Rightarrow> date option" where
  "calendar_date y m d = (if valid_date (Date y m d) then Some (Date y m d) else None)"

definition date_fromisoformat :: "string \<Rightarrow> date option" where
  "date_fromisoformat s =
     (let sep = (drop 4 s \<noteq> '''' \<and> s ! 4 = CHR ''-'');
          rest = (if sep then drop 5 s else drop 4 s);
          week = (rest \<noteq> '''' \<and> hd rest = CHR ''W'');
          a = take 2 (if week then tl rest else rest); b = drop 2 (if week then tl rest else rest);
          b = (if \<not> sep then b else if b = '''' then b else if hd b = CHR ''-'' then tl b else ''-'')
      in case (digits_value (take 4 s), digits_value a) of
           (Some y, Some m) \<Rightarrow>
             if length (take 4 s) \<noteq> 4 \<or> length a \<noteq> 2 then None
             else if week then
               if b = '''' \<and> (sep \<longrightarrow> length s = 8) then iso_date y m 1
               else if length b = 1 then Option.bind (digits_value b) (iso_date y m) else None
             else if length b = 2 then Option.bind (digits_value b) (calendar_date y m) else None
         | _ \<Rightarrow> None)"


section \<open>Reading the file\<close>

datatype party = CUSTOMER | SUPPLIER

datatype subject = Of_Customer customer | Of_Supplier supplier

record row =
  rw_line :: nat
  rw_party :: party
  rw_code :: string
  rw_amount :: number
  rw_entry_date :: "date option"
  rw_subject :: subject

datatype reason =
    Unknown_Party | Empty_Code | Duplicate_Of nat | Not_A_Number | Not_A_Date | Not_Positive
  | Zero_Amount | No_Entry_Date | No_Such_Party

record refusal =
  rf_line :: nat
  rf_party :: string
  rf_code :: string
  rf_reason :: reason

datatype verdict = Accepted row | Refused refusal

definition PARTIES :: "(string \<times> party) list" where
  "PARTIES = [(''CUSTOMER'', CUSTOMER), (''SUPPLIER'', SUPPLIER)]"

definition COLUMNS :: "string list" where
  "COLUMNS = [''party'', ''code'', ''amount'', ''entry_date'']"

text \<open>
  \<^verbatim>\<open>csv.DictReader\<close>: the first row names the columns, empty rows are passed over, of a column
  named twice the last value counts, and a short row has no value for the columns it does not reach.
\<close>

type_synonym raw = "string \<Rightarrow> string option"

definition dict_row :: "string list \<Rightarrow> string list \<Rightarrow> raw" where
  "dict_row names values = map_of (rev (zip names values))"

definition dict_reader :: "string list list \<Rightarrow> string list \<times> raw list" where
  "dict_reader file =
     (case file of [] \<Rightarrow> ([], [])
      | names # rows \<Rightarrow> (names, map (dict_row names) (filter (\<lambda>r. r \<noteq> []) rows)))"

definition text_of :: "raw \<Rightarrow> string \<Rightarrow> string" where
  "text_of raw k = (case raw k of None \<Rightarrow> '''' | Some s \<Rightarrow> s)"

definition parse_amount :: "string option \<Rightarrow> number option" where
  "parse_amount raw = Option.bind raw (\<lambda>s. read_number (strip s))"

text \<open>An empty date is no date; the outer option is a text that does not read.\<close>

definition parse_date :: "string option \<Rightarrow> date option option" where
  "parse_date raw =
     (let s = strip (case raw of None \<Rightarrow> '''' | Some s \<Rightarrow> s)
      in if s = '''' then Some None else map_option Some (date_fromisoformat s))"

definition resolve_party :: "actor option \<Rightarrow> party \<Rightarrow> string \<Rightarrow> 'a purchasing_db_scheme \<Rightarrow> subject option" where
  "resolve_party user p code db =
     (case p of
        CUSTOMER \<Rightarrow> map_option Of_Customer (find (\<lambda>c. cu_code c = code) (search_customers user '''' None None db))
      | SUPPLIER \<Rightarrow> map_option Of_Supplier (find (\<lambda>s. sp_code s = code) (search_suppliers '''' None db)))"

text \<open>The judgement of a line whose party and code are known and new.\<close>

definition judge ::
  "actor option \<Rightarrow> 'a purchasing_db_scheme \<Rightarrow> nat \<Rightarrow> party \<Rightarrow> string \<Rightarrow> string \<Rightarrow> raw \<Rightarrow> error + verdict" where
  "judge user db line p name code raw =
     (let refused = (\<lambda>r. Inr (Refused \<lparr>rf_line = line, rf_party = name, rf_code = code, rf_reason = r\<rparr>))
      in case parse_amount (raw ''amount'') of None \<Rightarrow> refused Not_A_Number
      | Some amount \<Rightarrow>
      case parse_date (raw ''entry_date'') of None \<Rightarrow> refused Not_A_Date
      | Some entry_date \<Rightarrow>
      andThen (if p = CUSTOMER then number_le_zero amount else number_is_zero amount) (\<lambda>bad.
      if bad then refused (if p = CUSTOMER then Not_Positive else Zero_Amount)
      else if p = SUPPLIER \<and> entry_date = None then refused No_Entry_Date
      else case resolve_party user p code db of None \<Rightarrow> refused No_Such_Party
      | Some subject \<Rightarrow> Inr (Accepted \<lparr>rw_line = line, rw_party = p, rw_code = code, rw_amount = amount,
            rw_entry_date = entry_date, rw_subject = subject\<rparr>)))"

type_synonym seen = "party \<times> string \<Rightarrow> nat option"

definition read_line ::
  "actor option \<Rightarrow> 'a purchasing_db_scheme \<Rightarrow> nat \<Rightarrow> seen \<Rightarrow> raw \<Rightarrow> error + verdict \<times> seen" where
  "read_line user db line seen raw =
     (let name = upper (strip (text_of raw ''party'')); code = strip (text_of raw ''code'');
          refused = (\<lambda>p r. Inr (Refused \<lparr>rf_line = line, rf_party = p, rf_code = code, rf_reason = r\<rparr>, seen))
      in case map_of PARTIES name of None \<Rightarrow> refused (if name = '''' then ''?'' else name) Unknown_Party
      | Some p \<Rightarrow>
      if code = '''' then refused name Empty_Code
      else case seen (p, code) of Some first \<Rightarrow> refused name (Duplicate_Of first)
      | None \<Rightarrow> andThen (judge user db line p name code raw) (\<lambda>v. Inr (v, seen((p, code) \<mapsto> line))))"

fun read_lines ::
  "actor option \<Rightarrow> 'a purchasing_db_scheme \<Rightarrow> nat \<Rightarrow> seen \<Rightarrow> raw list \<Rightarrow> error + row list \<times> refusal list" where
  "read_lines user db line seen [] = Inr ([], [])"
| "read_lines user db line seen (raw # raws) =
     andThen (read_line user db line seen raw) (\<lambda>(v, seen).
     andThen (read_lines user db (Suc line) seen raws) (\<lambda>(rows, refusals).
     Inr (case v of Accepted r \<Rightarrow> (r # rows, refusals) | Refused f \<Rightarrow> (rows, f # refusals))))"


section \<open>Loading it\<close>

text \<open>How the command ends other than well.  \<open>Crash\<close> is an exception it does not turn into one of its own.\<close>

datatype stop =
    File_Not_Found | Missing_Columns "string list" | Unusable_Phone | No_Active_User
  | Rows_Refused | Refused_By_Service nat error | Undated_Supplier nat | Not_Reconciled | Crash error

record tally =
  ty_rows :: "row list"
  ty_loaded :: "string list"
  ty_already :: "string list"
  ty_source_total :: number
  ty_loaded_total :: decimal
  ty_derived_total :: decimal

definition no_tally :: tally where
  "no_tally = \<lparr>ty_rows = [], ty_loaded = [], ty_already = [], ty_source_total = Finite 0,
     ty_loaded_total = 0, ty_derived_total = 0\<rparr>"

type_synonym tallies = "party \<Rightarrow> tally"

text \<open>The amount of the first \<^verbatim>\<open>OPENING\<close> entry of a party's statement: all the command reads of it.\<close>

definition opening_amount :: "subject \<Rightarrow> 'a ledger_db_scheme \<Rightarrow> decimal option" where
  "opening_amount s db =
     (case s of
        Of_Customer c \<Rightarrow> map_option ce_amount
          (find (\<lambda>e. ce_entry_type e = ''OPENING'') (statement_for (cu_pk c) None None db))
      | Of_Supplier p \<Rightarrow> map_option se_amount
          (find (\<lambda>e. se_entry_type e = ''OPENING'') (supplier_statement_for (sp_pk p) None None db)))"

text \<open>
  The service of the row's party.  An amount too large for the ledger's column, or for \<open>to_money\<close>,
  is refused there with an exception that is not the domain's.  An amount that is not finite passes its checks up to the first
  that computes: \<open>to_money\<close> cannot round an infinity, the column cannot hold a NaN.
\<close>

definition load_subject :: "env \<Rightarrow> actor option \<Rightarrow> row \<Rightarrow> 'a ledger_db_scheme \<Rightarrow> error + 'a ledger_db_scheme" where
  "load_subject env user r db =
     (case (rw_subject r, rw_amount r) of
        (Of_Customer c, Finite x) \<Rightarrow>
          andThen (load_opening_balance env user c x (rw_entry_date r) db) (\<lambda>(_, db). Inr db)
      | (Of_Supplier s, Finite x) \<Rightarrow>
          andThen (load_supplier_opening_balance env user s x (rw_entry_date r) db) (\<lambda>(_, db). Inr db)
      | (_, Infinite _) \<Rightarrow> andThen (require_roles user [OWNER]) (\<lambda>_. Inl invalid_operation)
      | (_, NaN _) \<Rightarrow> andThen (require_roles user [OWNER]) (\<lambda>_. Inl (PyError ''ValidationError'')))"

definition tally_row :: "row \<Rightarrow> tally \<Rightarrow> error + tally" where
  "tally_row r ty =
     andThen (number_add (ty_source_total ty) (rw_amount r)) (\<lambda>x.
     Inr (ty\<lparr>ty_rows := ty_rows ty @ [r], ty_source_total := x\<rparr>))"

fun load_rows ::
  "env \<Rightarrow> actor option \<Rightarrow> bool \<Rightarrow> row list \<Rightarrow> tallies \<Rightarrow> 'a ledger_db_scheme \<Rightarrow> (stop + tallies) \<times> 'a ledger_db_scheme" where
  "load_rows env user commit [] t db = (Inr t, db)"
| "load_rows env user commit (r # rs) t db =
     (case tally_row r (t (rw_party r)) of Inl e \<Rightarrow> (Inl (Crash e), db)
      | Inr ty \<Rightarrow>
      if opening_amount (rw_subject r) db \<noteq> None
      then load_rows env user commit rs (t(rw_party r := ty\<lparr>ty_already := ty_already ty @ [rw_code r]\<rparr>)) db
      else if \<not> commit then load_rows env user commit rs (t(rw_party r := ty)) db
      else if rw_party r = SUPPLIER \<and> rw_entry_date r = None then (Inl (Undated_Supplier (rw_line r)), db)
      else case load_subject env user r db of
             Inl e \<Rightarrow> (Inl (if is_domain_error e then Refused_By_Service (rw_line r) e else Crash e), db)
           | Inr db' \<Rightarrow>
               load_rows env user commit rs (t(rw_party r := ty\<lparr>ty_loaded := ty_loaded ty @ [rw_code r]\<rparr>)) db')"


section \<open>Reconciling it\<close>

definition subject_balance :: "subject \<Rightarrow> 'a ledger_db_scheme \<Rightarrow> decimal" where
  "subject_balance s db =
     (case s of Of_Customer c \<Rightarrow> settled_balance (cu_pk c) None db
      | Of_Supplier p \<Rightarrow> supplier_balance (sp_pk p) None db)"

text \<open>The two totals are sums of column values, too small to overflow.\<close>

definition reconcile_row :: "'a ledger_db_scheme \<Rightarrow> row \<Rightarrow> tally \<Rightarrow> tally" where
  "reconcile_row db r ty =
     (let ty = (case opening_amount (rw_subject r) db of None \<Rightarrow> ty
                | Some a \<Rightarrow> ty\<lparr>ty_loaded_total := context_value (ty_loaded_total ty + a)\<rparr>)
      in ty\<lparr>ty_derived_total := context_value (ty_derived_total ty + subject_balance (rw_subject r) db)\<rparr>)"

definition reconcile :: "'a ledger_db_scheme \<Rightarrow> tallies \<Rightarrow> tallies" where
  "reconcile db t = (\<lambda>p. fold (reconcile_row db) (ty_rows (t p)) (t p))"

definition reconciled :: "tallies \<Rightarrow> bool" where
  "reconciled t \<longleftrightarrow> (\<forall>p \<in> set (map snd PARTIES). ty_source_total (t p) = Finite (ty_loaded_total (t p)))"

text \<open>What the report prints, and its last line: whether the owner signs it.\<close>

record opening_report =
  or_tallies :: "tallies option"
  or_refusals :: "refusal list"
  or_committed :: bool
  or_partial :: bool
  or_blocked :: bool

definition signed_off :: "opening_report \<Rightarrow> bool" where
  "signed_off rep \<longleftrightarrow> or_committed rep \<and> or_refusals rep = [] \<and>
     (case or_tallies rep of None \<Rightarrow> True | Some t \<Rightarrow> reconciled t)"


section \<open>The command\<close>

definition import_owner :: "string \<Rightarrow> 'a identity_db_scheme \<Rightarrow> stop + actor option" where
  "import_owner phone db =
     (case normalise_phone phone of Inl _ \<Rightarrow> Inl Unusable_Phone
      | Inr login \<Rightarrow>
          (case get_active_user_by_phone login db of None \<Rightarrow> Inl No_Active_User
           | Some u \<Rightarrow> Inr (Some (actor_of db u))))"

definition read_file ::
  "actor option \<Rightarrow> 'a purchasing_db_scheme \<Rightarrow> string list list \<Rightarrow> stop + row list \<times> refusal list" where
  "read_file user db file =
     (let (names, raws) = dict_reader file;
          missing = filter (\<lambda>c. c \<notin> set names) COLUMNS
      in andThen (require (missing = []) (Missing_Columns missing)) (\<lambda>_.
         case read_lines user db 2 (\<lambda>_. None) raws of Inl e \<Rightarrow> Inl (Crash e) | Inr res \<Rightarrow> Inr res))"

text \<open>From the end of the loading on: the reconciliation, the report and the exit status.\<close>

definition finish_import ::
  "bool \<Rightarrow> bool \<Rightarrow> refusal list \<Rightarrow> (stop + tallies) \<times> 'a purchasing_db_scheme \<Rightarrow>
   (stop + unit) \<times> opening_report option \<times> 'a purchasing_db_scheme" where
  "finish_import commit allow_partial refusals loaded =
     (case loaded of (Inl e, db) \<Rightarrow> (Inl e, None, db)
      | (Inr t, db) \<Rightarrow>
          let t = reconcile db t
          in (if refusals \<noteq> [] \<or> (commit \<and> \<not> reconciled t) then Inl Not_Reconciled else Inr (),
              Some \<lparr>or_tallies = Some t, or_refusals = refusals, or_committed = commit,
                or_partial = allow_partial, or_blocked = False\<rparr>, db))"

text \<open>The outcome, the report if one was printed, and the database: \<open>file\<close> is absent when the path is not a file.\<close>

definition load_opening_balances ::
  "env \<Rightarrow> string list list option \<Rightarrow> string \<Rightarrow> bool \<Rightarrow> bool \<Rightarrow> 'a purchasing_db_scheme \<Rightarrow>
   (stop + unit) \<times> opening_report option \<times> 'a purchasing_db_scheme" where
  "load_opening_balances env file owner_phone commit allow_partial db =
     (case file of None \<Rightarrow> (Inl File_Not_Found, None, db)
      | Some file \<Rightarrow>
      case import_owner owner_phone db of Inl e \<Rightarrow> (Inl e, None, db)
      | Inr user \<Rightarrow>
      case read_file user db file of Inl e \<Rightarrow> (Inl e, None, db)
      | Inr (rows, refusals) \<Rightarrow>
      if refusals \<noteq> [] \<and> \<not> allow_partial then
        (Inl Rows_Refused, Some \<lparr>or_tallies = None, or_refusals = refusals, or_committed = False,
           or_partial = False, or_blocked = True\<rparr>, db)
      else finish_import commit allow_partial refusals (load_rows env user commit rows (\<lambda>_. no_tally) db))"

end
