(* ===== verification/Golive.thy ===== *)
theory Golive
  imports Openings Supplies
begin

text \<open>
  What the opening balance import promises: it can be repeated, after a failure as after a success,
  and on a ledger without entries a file in whole paise is loaded, derived and signed off to the
  last amount.
\<close>


section \<open>A party's entries\<close>

definition subject_key :: "subject \<Rightarrow> party \<times> nat" where
  "subject_key s = (case s of Of_Customer c \<Rightarrow> (CUSTOMER, cu_pk c) | Of_Supplier p \<Rightarrow> (SUPPLIER, sp_pk p))"

text \<open>Type and amount of every entry, in the order they were written.\<close>

definition entries_of :: "subject \<Rightarrow> 'a ledger_db_scheme \<Rightarrow> (string \<times> decimal) list" where
  "entries_of s db =
     (case s of
        Of_Customer c \<Rightarrow> map (\<lambda>e. (ce_entry_type e, ce_amount e)) (filter (\<lambda>e. ce_customer e = cu_pk c) (tb_rows (db_cle db)))
      | Of_Supplier p \<Rightarrow> map (\<lambda>e. (se_entry_type e, se_amount e)) (filter (\<lambda>e. se_supplier e = sp_pk p) (tb_rows (db_sle db))))"

definition carried :: "subject \<Rightarrow> 'a ledger_db_scheme \<Rightarrow> decimal list" where
  "carried s db = map snd (filter (\<lambda>e. fst e = ''OPENING'') (entries_of s db))"

lemma entries_of_key: "subject_key s = subject_key s' \<Longrightarrow> entries_of s db = entries_of s' db"
  by (auto simp: subject_key_def entries_of_def split: subject.splits)

lemma find_as_filter: "find P xs = (case filter P xs of [] \<Rightarrow> None | y # _ \<Rightarrow> Some y)"
  by (induction xs) simp_all

lemma find_sorted: "find P (sort_key k xs) = (case sort_key k (filter P xs) of [] \<Rightarrow> None | y # _ \<Rightarrow> Some y)"
  by (simp only: find_as_filter filter_sort)

lemma opening_amount_None: "opening_amount s db = None \<longleftrightarrow> carried s db = []"
  by (auto simp: opening_amount_def carried_def entries_of_def statement_for_def supplier_statement_for_def
      find_None_iff since_def up_to_def filter_empty_conv split: subject.splits)

lemma opening_amount_single: "carried s db = [a] \<Longrightarrow> opening_amount s db = Some a"
  by (cases s)
    (auto simp: opening_amount_def carried_def entries_of_def statement_for_def supplier_statement_for_def find_sorted
      since_def up_to_def filter_map comp_def conj_commute Suc_length_conv map_eq_Cons_conv
      split: list.splits)

lemma subject_balance_sum:
  assumes "\<And>c. s = Of_Customer c \<Longrightarrow> tb_get cu_pk (cu_pk c) (db_customers db) \<noteq> None"
  shows "subject_balance s db = sum_list (map snd (entries_of s db))"
proof (cases s)
  case (Of_Customer c)
  then obtain c' where "tb_get cu_pk (cu_pk c) (db_customers db) = Some c'" "cu_pk c' = cu_pk c"
    using assms tb_getD by fastforce
  then show ?thesis
    using Of_Customer
    by (simp add: subject_balance_def settled_balance_def balance_expression_def entries_of_def sum_where_def up_to_def comp_def)
next
  case (Of_Supplier p)
  then show ?thesis
    by (simp add: subject_balance_def supplier_balance_def entries_of_def sum_where_def up_to_def comp_def)
qed


section \<open>Sums in the decimal context\<close>

lemma round_half_even_error: "\<bar>of_int (round_half_even y) - y\<bar> \<le> 1/2"
proof -
  have "of_int \<lfloor>y\<rfloor> \<le> y" "y < of_int \<lfloor>y\<rfloor> + 1" using floor_correct [of y] by auto
  then show ?thesis by (auto simp: round_half_even_def Let_def abs_le_iff)
qed

text \<open>Rounding at a quantum not above one moves a value by at most a half.\<close>

lemma scaled_error:
  assumes "1 \<le> (q :: decimal)"
  shows "\<bar>sgn z * of_int (round_half_even (\<bar>z\<bar> * q)) / q - z\<bar> \<le> 1/2"
proof -
  let ?e = "of_int (round_half_even (\<bar>z\<bar> * q)) - \<bar>z\<bar> * q"
  have "sgn z * of_int (round_half_even (\<bar>z\<bar> * q)) / q - z = sgn z * ?e / q"
    using assms sgn_times_abs [of z] by (simp add: field_simps)
  also have "\<bar>\<dots>\<bar> \<le> \<bar>?e\<bar> / q"
    using assms by (simp add: abs_mult abs_sgn_eq divide_right_mono)
  also have "\<dots> \<le> 1/2 / 1"
    using assms round_half_even_error [of "\<bar>z\<bar> * q"] by (intro frac_le) auto
  finally show ?thesis by simp
qed

lemma ctx28_error:
  assumes "\<bar>z\<bar> < 10 ^ 28"
  shows "\<bar>ctx28 z - z\<bar> \<le> 1/2"
proof -
  consider "z = 0" | "1 \<le> \<bar>z\<bar>" | "z \<noteq> 0" "\<bar>z\<bar> < 1" by linarith
  then show ?thesis
  proof cases
    case 2
    define d where "d = int_digits (nat \<lfloor>\<bar>z\<bar>\<rfloor>)"
    have "nat \<lfloor>\<bar>z\<bar>\<rfloor> < 10 ^ 28" using assms 2 by (simp add: nat_less_iff floor_less_iff)
    then have "d \<le> 28" unfolding d_def by (rule int_digits_le) simp
    then have q: "(10::rat) ^ 28 = 10 ^ (28 - d) * 10 ^ d" by (simp flip: power_add)
    have "ctx28 z = sgn z * of_int (round_half_even (\<bar>z\<bar> * 10 ^ (28 - d))) / 10 ^ (28 - d)"
      using 2 by (simp add: ctx28_def Let_def q d_def [symmetric] del: power_numeral)
    then show ?thesis using scaled_error [of "10 ^ (28 - d)" z] by simp
  next
    case 3
    have "ctx28 z = sgn z * of_int (round_half_even (\<bar>z\<bar> * 10 ^ (leading_zeros \<bar>z\<bar> + 27))) / 10 ^ (leading_zeros \<bar>z\<bar> + 27)"
      using 3 by (simp add: ctx28_def Let_def)
    then show ?thesis using scaled_error [of "10 ^ (leading_zeros \<bar>z\<bar> + 27)" z] by simp
  qed (simp add: ctx28_def)
qed

lemma context_value_error: "\<bar>z\<bar> < 10 ^ 28 \<Longrightarrow> \<bar>context_value z - z\<bar> \<le> 1/2"
  using ctx28_error [of z] scaled_error [of "10 ^ (EMAX + 27)" z]
  unfolding context_value_def by (simp del: power_numeral)

lemma context_sum_small:
  assumes "\<bar>z\<bar> + 1 \<le> 10 ^ 28"
  shows "context_sum z = Inr (context_value z)"
proof -
  have "\<bar>context_value z\<bar> < 10 ^ 28" using assms context_value_error [of z] by linarith
  then show ?thesis by (simp only: context_sum_def Let_def if_True)
qed

text \<open>Column values add up exactly.\<close>

lemma context_value_money:
  assumes "is_money z" "\<bar>z\<bar> < 10 ^ 26"
  shows "context_value z = z"
proof (cases "z = 0")
  case False
  obtain k where k: "z = of_int k / 10 ^ 2" using assms(1) unfolding at_scale_iff by blast
  then have "1 \<le> \<bar>k\<bar>" using False by auto
  then have "1/100 \<le> \<bar>z\<bar>" by (simp add: k flip: of_int_abs)
  then have "\<not> \<bar>z\<bar> * 10 ^ 28 < 1" by simp
  then show ?thesis using ctx28_exact [OF assms] False by (simp add: context_value_def)
qed (simp add: context_value_def)

definition py_sum_from :: "decimal \<Rightarrow> decimal list \<Rightarrow> decimal" where
  "py_sum_from a xs = fold (\<lambda>x s. context_value (s + x)) xs a"

lemma py_sum_from_simps [simp]:
  "py_sum_from a [] = a" "py_sum_from a (x # xs) = py_sum_from (context_value (a + x)) xs"
  by (simp_all add: py_sum_from_def)

lemma py_sum_money:
  assumes "\<forall>x \<in> set xs. is_money x \<and> \<bar>x\<bar> \<le> 10 ^ 12" "is_money a" "\<bar>a\<bar> + of_nat (length xs) * 10 ^ 12 < 10 ^ 26"
  shows "py_sum_from a xs = a + sum_list xs"
  using assms
proof (induction xs arbitrary: a)
  case (Cons x xs)
  have m: "is_money (a + x)" using Cons.prems(1,2) by (simp add: at_scale_add)
  have b: "\<bar>a + x\<bar> + of_nat (length xs) * 10 ^ 12 < 10 ^ 26"
    using Cons.prems(1,3) abs_triangle_ineq [of a x] by (simp add: algebra_simps)
  have "0 \<le> of_nat (length xs) * (10 ^ 12 :: decimal)" by simp
  then have "\<bar>a + x\<bar> < 10 ^ 26" using b by linarith
  then show ?case using Cons.IH [OF _ m b] Cons.prems(1) context_value_money [OF m] by simp
qed simp

text \<open>Other values need not: the last digit of the second is lost.\<close>

lemma py_sum_rounds: "py_sum_from 0 [100000000000, 1 + 1 / 10 ^ 26] = 100000000001"
  by code_simp


section \<open>Loading one row\<close>

lemma load_opening_balanceD:
  assumes "load_opening_balance env user c x on db = Inr (e, db')" "opening_entry (cu_pk c) db = None"
  shows "tb_rows (db_cle db') = tb_rows (db_cle db) @ [e]" "ce_customer e = cu_pk c" "ce_entry_type e = ''OPENING''"
    "ce_amount e = to_money x" "db_sle db' = db_sle db" "db_customers db' = db_customers db"
proof -
  define d where "d = (case on of None \<Rightarrow> today env | Some d \<Rightarrow> d)"
  obtain db1 where r: "record_entry env user (cu_pk c) ''OPENING'' (to_money x) ''Opening balance carried at go-live'' (Some d) None None db = Inr (e, db1)"
    and db': "db_cle db' = db_cle db1" "db_sle db' = db_sle db1" "db_customers db' = db_customers db1"
    using assms by (auto simp: load_opening_balance_def Let_def d_def [symmetric] frame_simps
        split: sum.splits error.splits if_splits)
  note R = record_entryD [OF r]
  show "tb_rows (db_cle db') = tb_rows (db_cle db) @ [e]" "ce_customer e = cu_pk c" "ce_entry_type e = ''OPENING''"
    "ce_amount e = to_money x" using R(1,5,6,7) db' by simp_all
  show "db_sle db' = db_sle db" "db_customers db' = db_customers db"
    using arg_cong [OF R(2), of db_sle] arg_cong [OF R(2), of db_customers] db' by simp_all
qed

text \<open>A loaded row is one \<open>OPENING\<close> entry of its party and nothing else.\<close>

lemma load_subject_entries:
  assumes "load_subject env user r db = Inr db'" "carried (rw_subject r) db = []"
  obtains x where "rw_amount r = Finite x"
    "\<And>s. entries_of s db' = entries_of s db @
       (if subject_key s = subject_key (rw_subject r) then [(''OPENING'', to_money x)] else [])"
    "db_customers db' = db_customers db"
proof (cases "rw_subject r")
  case (Of_Customer c)
  then obtain x e where x: "rw_amount r = Finite x"
    and l: "load_opening_balance env user c x (rw_entry_date r) db = Inr (e, db')"
    using assms(1) by (auto simp: load_subject_def result_simps split: number.splits if_splits)
  have "opening_entry (cu_pk c) db = None"
    using assms(2) Of_Customer
    by (auto simp: opening_entry_def tb_first_None carried_def entries_of_def filter_empty_conv)
  note L = load_opening_balanceD [OF l this]
  show ?thesis
    by (rule that [OF x]) (use L Of_Customer in \<open>simp_all add: entries_of_def subject_key_def split: subject.splits\<close>)
next
  case (Of_Supplier p)
  then obtain x e where x: "rw_amount r = Finite x"
    and l: "load_supplier_opening_balance env user p x (rw_entry_date r) db = Inr (e, db')"
    using assms(1) by (auto simp: load_subject_def result_simps split: number.splits if_splits)
  note L = record_supplier_entryD [OF load_supplier_opening_balanceD(1) [OF l]]
  have "db_cle db' = db_cle db" "db_customers db' = db_customers db"
    using arg_cong [OF L(2), of db_cle] arg_cong [OF L(2), of db_customers] by simp_all
  then show ?thesis
    by (intro that [OF x]) (use L Of_Supplier in \<open>simp_all add: entries_of_def subject_key_def split: subject.splits\<close>)
qed

lemma load_subject_carried:
  assumes "load_subject env user r db = Inr db'" "carried (rw_subject r) db = []"
  shows "carried (rw_subject r) db' \<noteq> []" "carried s db \<noteq> [] \<Longrightarrow> carried s db' \<noteq> []"
  by (rule load_subject_entries [OF assms], simp add: carried_def)+

text \<open>Which rows the services take.\<close>

lemma in_column: "\<bar>x\<bar> < 10 ^ 12 \<Longrightarrow> money_column x \<and> quantizable x"
  by (simp add: money_column_def quantizable_def)

lemma load_subject_accepts:
  assumes "has_role user [OWNER]" "rw_amount r = Finite x" "carried (rw_subject r) db = []"
    and "rw_party r = fst (subject_key (rw_subject r))"
    and "rw_party r = CUSTOMER \<Longrightarrow> 0 < to_money x" "rw_party r = SUPPLIER \<Longrightarrow> to_money x \<noteq> 0 \<and> rw_entry_date r \<noteq> None"
    and "\<bar>to_money x\<bar> < 10 ^ 12"
  shows "\<exists>db'. load_subject env user r db = Inr db'"
proof (cases "rw_subject r")
  case (Of_Customer c)
  note column = in_column [OF assms(7)]
  have none: "opening_entry (cu_pk c) db = None" "\<not> (\<exists>e \<in> set (tb_rows (db_cle db)). ce_entry_type e = ''OPENING'' \<and> ce_customer e = cu_pk c)"
    using assms(3) Of_Customer
    by (auto simp: opening_entry_def tb_first_None carried_def entries_of_def filter_empty_conv)
  have pos: "0 < to_money x" using assms(4,5) Of_Customer by (simp add: subject_key_def)
  have "\<exists>e db'. record_entry env user (cu_pk c) ''OPENING'' (to_money x) ''Opening balance carried at go-live'' (Some d) None None db = Inr (e, db')" for d
    unfolding record_entry_accepts using pos none(2) assms(7) by (simp add: CLE_TYPES_def resolve_source_def)
  then obtain e db' where "record_entry env user (cu_pk c) ''OPENING'' (to_money x) ''Opening balance carried at go-live''
      (Some (case rw_entry_date r of None \<Rightarrow> today env | Some d \<Rightarrow> d)) None None db = Inr (e, db')" by blast
  then show ?thesis
    using Of_Customer assms(1,2) none(1) pos column by (simp add: load_subject_def load_opening_balance_def)
next
  case (Of_Supplier p)
  note column = in_column [OF assms(7)]
  obtain d where d: "rw_entry_date r = Some d" and x: "to_money x \<noteq> 0"
    using assms(4,6) Of_Supplier by (auto simp: subject_key_def)
  have none: "existing_opening (sp_pk p) db = None" "\<not> (\<exists>e \<in> set (tb_rows (db_sle db)). se_entry_type e = ''OPENING'' \<and> se_supplier e = sp_pk p)"
    using assms(3) Of_Supplier
    by (auto simp: existing_opening_def tb_first_None carried_def entries_of_def filter_empty_conv)
  have v: "validated_amount ''OPENING'' (to_money x) SLE_TYPES SUPPLIER_SIGN_RULES = Inr (to_money x)"
    unfolding validated_amount_Inr using x column by (simp add: SLE_TYPES_def SUPPLIER_SIGN_RULES_def)
  have "\<exists>e db'. record_supplier_entry env user (sp_pk p) ''OPENING'' (to_money x) ''Opening balance carried at go-live'' (Some d) None db = Inr (e, db')"
  proof (cases "record_supplier_entry env user (sp_pk p) ''OPENING'' (to_money x) ''Opening balance carried at go-live'' (Some d) None db")
    case (Inl err)
    then show ?thesis using record_supplier_entry_Inl [OF Inl] v none(2) column by (auto simp: resolve_source_def)
  qed auto
  then show ?thesis
    using Of_Supplier assms(1,2) none(1) x d column by (auto simp: load_subject_def load_supplier_opening_balance_def)
qed


section \<open>Running the command again\<close>

text \<open>What is carried stays carried, however the run ends.\<close>

lemma load_rows_carried:
  "load_rows env user commit rs t db = (res, db') \<Longrightarrow> carried s db \<noteq> [] \<Longrightarrow> carried s db' \<noteq> []"
proof (induction rs arbitrary: t db)
  case (Cons r rs)
  show ?case
  proof (cases "tally_row r (t (rw_party r))")
    case (Inr ty)
    show ?thesis
    proof (cases "load_subject env user r db")
      case (Inl e)
      then show ?thesis using Cons Inr by (auto split: if_splits)
    next
      case l: (Inr db1)
      show ?thesis
      proof (cases "carried (rw_subject r) db = []")
        case True
        then have "carried s db1 \<noteq> []" using load_subject_carried(2) [OF l] Cons.prems(2) by blast
        then show ?thesis using Cons Inr l by (auto split: if_splits)
      qed (use Cons Inr in \<open>auto simp: opening_amount_None split: if_splits\<close>)
    qed
  qed (use Cons.prems in auto)
qed simp

text \<open>Rows are loaded one after the other, and a row that stops the run has written nothing.\<close>

lemma load_rows_step:
  "load_rows env user commit (r # rs) t db =
     (case load_rows env user commit [r] t db of (Inl e, db1) \<Rightarrow> (Inl e, db1)
      | (Inr t1, db1) \<Rightarrow> load_rows env user commit rs t1 db1)"
  by (cases "tally_row r (t (rw_party r))"; cases "load_subject env user r db"; simp)

lemma load_rows_append:
  "load_rows env user commit (xs @ ys) t db =
     (case load_rows env user commit xs t db of (Inl e, db1) \<Rightarrow> (Inl e, db1)
      | (Inr t1, db1) \<Rightarrow> load_rows env user commit ys t1 db1)"
proof (induction xs arbitrary: t db)
  case (Cons r xs)
  obtain one db1 where o1: "load_rows env user commit [r] t db = (one, db1)" by fastforce
  show ?case
    unfolding append_Cons load_rows_step [of _ _ _ r xs] load_rows_step [of _ _ _ r "xs @ ys"] o1
    by (cases one) (simp_all only: prod.case sum.case Cons.IH)
qed simp

lemma load_row_stops: "load_rows env user commit [r] t db = (Inl e, db1) \<Longrightarrow> db1 = db"
  by (auto split: sum.splits if_splits)

text \<open>A run is the rows it has gone past and, if it failed, the row it failed at.\<close>

lemma load_rows_split:
  assumes "load_rows env user commit rs t db = (res, db')"
  shows "\<exists>xs ys t1. rs = xs @ ys \<and> load_rows env user commit xs t db = (Inr t1, db') \<and>
    (case res of Inr t' \<Rightarrow> ys = [] \<and> t' = t1
     | Inl e \<Rightarrow> ys \<noteq> [] \<and> load_rows env user commit [hd ys] t1 db' = (Inl e, db'))"
  using assms
proof (induction rs arbitrary: t db)
  case (Cons r rs)
  obtain one db1 where o1: "load_rows env user commit [r] t db = (one, db1)" by fastforce
  show ?case
  proof (cases one)
    case (Inl e)
    have "db1 = db" by (rule load_row_stops) (use o1 Inl in blast)
    moreover have "res = Inl e" "db' = db1"
      using Cons.prems o1 Inl by (simp_all only: load_rows_step [of _ _ _ r rs]) simp_all
    ultimately show ?thesis
      using o1 Inl by (intro exI [of _ "[]"] exI [of _ "r # rs"] exI [of _ t]) simp
  next
    case (Inr t1)
    have "load_rows env user commit rs t1 db1 = (res, db')"
      using Cons.prems o1 Inr by (simp only: load_rows_step [of _ _ _ r rs]) simp
    from Cons.IH [OF this] obtain xs ys t2 where I: "rs = xs @ ys"
      "load_rows env user commit xs t1 db1 = (Inr t2, db')"
      "case res of Inr t' \<Rightarrow> ys = [] \<and> t' = t2
       | Inl e \<Rightarrow> ys \<noteq> [] \<and> load_rows env user commit [hd ys] t2 db' = (Inl e, db')" by blast
    have "load_rows env user commit (r # xs) t db = (Inr t2, db')"
      using o1 Inr I(2) by (simp only: load_rows_step [of _ _ _ r xs]) simp
    then show ?thesis using I(1,3) by (intro exI [of _ "r # xs"] exI [of _ ys] exI [of _ t2]) simp
  qed
qed auto

lemma load_rows_carries:
  "load_rows env user True rs t db = (Inr t', db') \<Longrightarrow> r \<in> set rs \<Longrightarrow> carried (rw_subject r) db' \<noteq> []"
proof (induction rs arbitrary: t db)
  case (Cons q rs)
  obtain t1 db1 where o1: "load_rows env user True [q] t db = (Inr t1, db1)" "load_rows env user True rs t1 db1 = (Inr t', db')"
    using Cons.prems(1) by (auto simp only: load_rows_step [of _ _ _ q rs] split: prod.splits sum.splits)
  have "carried (rw_subject q) db1 \<noteq> []"
    using o1(1)
    by (auto simp: opening_amount_None dest: load_subject_carried(1) split: sum.splits if_splits)
  then have "carried (rw_subject q) db' \<noteq> []" by (rule load_rows_carried [OF o1(2)])
  then show ?case using Cons.IH [OF o1(2)] Cons.prems(2) by auto
qed simp

text \<open>Rows that are carried already are passed over: they are summed, and nothing is loaded.\<close>

definition same_sums :: "tallies \<Rightarrow> tallies \<Rightarrow> bool" where
  "same_sums t t2 \<longleftrightarrow> (\<forall>p. ty_source_total (t p) = ty_source_total (t2 p))"

definition loaded_none :: "tallies \<Rightarrow> bool" where
  "loaded_none t \<longleftrightarrow> (\<forall>p. ty_loaded (t p) = [])"

lemma load_rows_pass_over:
  assumes "load_rows env user commit xs t db = (Inr t1, db')" "same_sums t t2" "loaded_none t2"
    and "\<And>r. r \<in> set xs \<Longrightarrow> carried (rw_subject r) db2 \<noteq> []"
  shows "\<exists>t3. loaded_none t3 \<and> same_sums t1 t3 \<and> (\<forall>env2 user2 commit2. load_rows env2 user2 commit2 xs t2 db2 = (Inr t3, db2))"
  using assms
proof (induction xs arbitrary: t t2 db)
  case (Cons r xs)
  obtain tm dbm where o1: "load_rows env user commit [r] t db = (Inr tm, dbm)" "load_rows env user commit xs tm dbm = (Inr t1, db')"
    using Cons.prems(1) by (auto simp only: load_rows_step [of _ _ _ r xs] split: prod.splits sum.splits)
  obtain x where x: "number_add (ty_source_total (t (rw_party r))) (rw_amount r) = Inr x"
    using o1(1) by (cases "number_add (ty_source_total (t (rw_party r))) (rw_amount r)") (simp_all add: tally_row_def)
  let ?t = "t2(rw_party r := (t2 (rw_party r))\<lparr>ty_rows := ty_rows (t2 (rw_party r)) @ [r], ty_source_total := x,
      ty_already := ty_already (t2 (rw_party r)) @ [rw_code r]\<rparr>)"
  have s: "same_sums tm ?t"
    using o1(1) x Cons.prems(2) by (auto simp: tally_row_def same_sums_def split: sum.splits if_splits)
  have one: "load_rows env2 user2 commit2 (r # xs) t2 db2 = load_rows env2 user2 commit2 xs ?t db2" for env2 user2 commit2
    using x Cons.prems(2,4) by (simp add: tally_row_def opening_amount_None same_sums_def)
  have "loaded_none ?t" using Cons.prems(3) by (simp add: loaded_none_def)
  then have "\<exists>t3. loaded_none t3 \<and> same_sums t1 t3 \<and>
      (\<forall>env2 user2 commit2. load_rows env2 user2 commit2 xs ?t db2 = (Inr t3, db2))"
    by (rule Cons.IH [OF o1(2) s]) (rule Cons.prems(4), simp)
  then show ?case unfolding one .
qed auto

lemma import_again:
  assumes "load_rows env user True rows (\<lambda>_. no_tally) db = (res, db')"
  shows "\<exists>xs ys t1 t3. rows = xs @ ys \<and> load_rows env user True xs (\<lambda>_. no_tally) db = (Inr t1, db') \<and>
    (case res of Inr t' \<Rightarrow> ys = [] \<and> t' = t1
     | Inl e \<Rightarrow> ys \<noteq> [] \<and> load_rows env user True [hd ys] t1 db' = (Inl e, db')) \<and>
    loaded_none t3 \<and> same_sums t1 t3 \<and>
    (\<forall>env2 user2. load_rows env2 user2 True rows (\<lambda>_. no_tally) db' = load_rows env2 user2 True ys t3 db')"
proof -
  obtain xs ys t1 where S: "rows = xs @ ys" "load_rows env user True xs (\<lambda>_. no_tally) db = (Inr t1, db')"
    "case res of Inr t' \<Rightarrow> ys = [] \<and> t' = t1
     | Inl e \<Rightarrow> ys \<noteq> [] \<and> load_rows env user True [hd ys] t1 db' = (Inl e, db')"
    using load_rows_split [OF assms] by blast
  obtain t3 where "loaded_none t3" "same_sums t1 t3"
    "\<forall>env2 user2 commit2. load_rows env2 user2 commit2 xs (\<lambda>_. no_tally) db' = (Inr t3, db')"
    using load_rows_pass_over [OF S(2), of "\<lambda>_. no_tally" db'] load_rows_carries [OF S(2)]
    by (auto simp: same_sums_def loaded_none_def no_tally_def)
  then show ?thesis using S by (auto simp: load_rows_append)
qed

section \<open>Reading\<close>

definition row_key :: "row \<Rightarrow> party \<times> string" where
  "row_key r = (rw_party r, rw_code r)"

text \<open>What an accepted line has been through.\<close>

definition judged :: "actor option \<Rightarrow> 'a purchasing_db_scheme \<Rightarrow> row \<Rightarrow> bool" where
  "judged user db r \<longleftrightarrow>
     resolve_party user (rw_party r) (rw_code r) db = Some (rw_subject r) \<and>
     (rw_party r = CUSTOMER \<longrightarrow> number_le_zero (rw_amount r) = Inr False) \<and>
     (rw_party r = SUPPLIER \<longrightarrow> number_is_zero (rw_amount r) = Inr False \<and> rw_entry_date r \<noteq> None)"

lemma judge_accepts:
  assumes "judge user db line p name code raw = Inr (Accepted r)"
  shows "row_key r = (p, code)" "judged user db r"
  using assms
  by (cases p; auto simp: judge_def Let_def result_simps row_key_def judged_def split: option.splits if_splits)+

lemma read_line_accepts:
  assumes "read_line user db line seen raw = Inr (Accepted r, seen')"
  shows "seen (row_key r) = None" "seen' = seen(row_key r \<mapsto> line)" "judged user db r"
  using assms
  by (auto simp: read_line_def Let_def result_simps judge_accepts(1) dest: judge_accepts(2) split: option.splits if_splits)

lemma read_line_seen:
  assumes "read_line user db line seen raw = Inr (v, seen')"
  shows "seen' k = None \<Longrightarrow> seen k = None"
  using assms
  by (auto simp: read_line_def Let_def result_simps split: option.splits if_splits)

lemma read_lines_rows:
  assumes "read_lines user db line seen raws = Inr (rows, refusals)"
  shows "distinct (map row_key rows) \<and> (\<forall>r \<in> set rows. seen (row_key r) = None \<and> judged user db r)"
  using assms
proof (induction raws arbitrary: line seen rows refusals)
  case (Cons raw raws)
  obtain v seen1 rows1 ref1 where v: "read_line user db line seen raw = Inr (v, seen1)"
    "read_lines user db (Suc line) seen1 raws = Inr (rows1, ref1)"
    "(rows, refusals) = (case v of Accepted r \<Rightarrow> (r # rows1, ref1) | Refused f \<Rightarrow> (rows1, f # ref1))"
    using Cons.prems by (auto simp: result_simps)
  note IH = Cons.IH [OF v(2)]
  show ?case
  proof (cases v)
    case (Accepted r)
    note A = read_line_accepts [OF v(1) [unfolded Accepted]]
    have "row_key r \<notin> row_key ` set rows1" using IH A(2) by auto
    moreover have "\<forall>q \<in> set rows1. seen (row_key q) = None" using IH read_line_seen [OF v(1)] by blast
    ultimately show ?thesis using v(3) Accepted IH A(1,3) by simp
  next
    case (Refused f)
    have "\<forall>q \<in> set rows1. seen (row_key q) = None" using IH read_line_seen [OF v(1)] by blast
    then show ?thesis using v(3) Refused IH by simp
  qed
qed simp

lemma resolve_partyD:
  assumes "resolve_party user p code db = Some s"
  shows "fst (subject_key s) = p"
    "s = Of_Customer c \<Longrightarrow> c \<in> set (tb_rows (db_customers db)) \<and> cu_code c = code"
    "s = Of_Supplier q \<Longrightarrow> q \<in> set (tb_rows (db_suppliers db)) \<and> sp_code q = code"
proof -
  show "fst (subject_key s) = p" using assms by (cases p) (auto simp: resolve_party_def subject_key_def)
  have "set (visible_customers user db) \<subseteq> set (tb_rows (db_customers db))"
    by (auto simp: visible_customers_def Let_def)
  then show "s = Of_Customer c \<Longrightarrow> c \<in> set (tb_rows (db_customers db)) \<and> cu_code c = code"
    using assms by (cases p) (auto simp: resolve_party_def search_customers_def dest!: find_SomeD)
  show "s = Of_Supplier q \<Longrightarrow> q \<in> set (tb_rows (db_suppliers db)) \<and> sp_code q = code"
    using assms by (cases p) (auto simp: resolve_party_def search_suppliers_def dest!: find_SomeD)
qed

text \<open>Two lines that are accepted are of two parties.\<close>

lemma subject_key_code:
  assumes "resolve_party user p code db = Some s" "resolve_party user p' code' db = Some s'"
    and "table_wf cu_pk (db_customers db)" "table_wf sp_pk (db_suppliers db)" "subject_key s = subject_key s'"
  shows "(p, code) = (p', code')"
proof (cases s; cases s')
  fix c c' assume s: "s = Of_Customer c" "s' = Of_Customer c'"
  have "c = c'" using table_wf_inj [OF assms(3)] resolve_partyD(2) [OF assms(1) s(1)] resolve_partyD(2) [OF assms(2) s(2)]
      assms(5) s by (simp add: subject_key_def)
  then show ?thesis
    using resolve_partyD [OF assms(1)] resolve_partyD [OF assms(2)] s assms(5) by auto
next
  fix c c' assume s: "s = Of_Supplier c" "s' = Of_Supplier c'"
  have "c = c'" using table_wf_inj [OF assms(4)] resolve_partyD(3) [OF assms(1) s(1)] resolve_partyD(3) [OF assms(2) s(2)]
      assms(5) s by (simp add: subject_key_def)
  then show ?thesis
    using resolve_partyD [OF assms(1)] resolve_partyD [OF assms(2)] s assms(5) by auto
qed (use assms(5) in \<open>auto simp: subject_key_def\<close>)

lemma distinct_map_coarser:
  "distinct (map f xs) \<Longrightarrow> (\<And>x y. x \<in> set xs \<Longrightarrow> y \<in> set xs \<Longrightarrow> g x = g y \<Longrightarrow> f x = f y) \<Longrightarrow> distinct (map g xs)"
  unfolding distinct_map inj_on_def by blast

lemma read_lines_parties:
  assumes "read_lines user db line seen raws = Inr (rows, refusals)"
    and "table_wf cu_pk (db_customers db)" "table_wf sp_pk (db_suppliers db)"
  shows "distinct (map (\<lambda>r. subject_key (rw_subject r)) rows)"
proof (rule distinct_map_coarser [where f = row_key])
  show "distinct (map row_key rows)" using read_lines_rows [OF assms(1)] by blast
  fix x y
  assume "x \<in> set rows" "y \<in> set rows" and k: "subject_key (rw_subject x) = subject_key (rw_subject y)"
  then have "judged user db x" "judged user db y" using read_lines_rows [OF assms(1)] by blast+
  then show "row_key x = row_key y"
    using subject_key_code [OF _ _ assms(2,3) k] unfolding judged_def row_key_def by blast
qed

section \<open>The whole command again\<close>

text \<open>What a run changes: the two ledgers and the audit log.\<close>

lemma load_subject_frame:
  assumes "load_subject env user r db = Inr db'"
  shows "\<exists>a c s. db' = db\<lparr>db_audit := a, db_cle := c, db_sle := s\<rparr>"
proof (cases "rw_subject r")
  case (Of_Customer c)
  then obtain x e where l: "load_opening_balance env user c x (rw_entry_date r) db = Inr (e, db')"
    using assms by (auto simp: load_subject_def result_simps split: number.splits if_splits)
  define d where "d = (case rw_entry_date r of None \<Rightarrow> today env | Some d \<Rightarrow> d)"
  show ?thesis
  proof (cases "opening_entry (cu_pk c) db")
    case (Some old)
    then have "db' = db" using l by (auto simp: load_opening_balance_def Let_def split: if_splits)
    then show ?thesis by (intro exI [of _ "db_audit db"] exI [of _ "db_cle db"] exI [of _ "db_sle db"]) simp
  next
    case None
    obtain e1 db1 where q: "record_entry env user (cu_pk c) ''OPENING'' (to_money x) ''Opening balance carried at go-live'' (Some d) None None db = Inr (e1, db1)"
      and db': "\<exists>ei st. db' = record_audit env A_CREATE ''customer_ledger_entry'' ei user S_WEB None st db1"
      using l None by (auto simp: load_opening_balance_def Let_def d_def [symmetric] split: sum.splits error.splits if_splits)
    obtain ei st where "db' = record_audit env A_CREATE ''customer_ledger_entry'' ei user S_WEB None st db1" using db' by blast
    then obtain a where "db' = db1\<lparr>db_audit := a\<rparr>" using record_audit_eq [of env A_CREATE] by metis
    then have "db' = db\<lparr>db_audit := a, db_cle := db_cle db1, db_sle := db_sle db\<rparr>"
      by (subst (asm) record_entryD(2) [OF q]) simp
    then show ?thesis by blast
  qed
next
  case (Of_Supplier p)
  then obtain x e where "load_supplier_opening_balance env user p x (rw_entry_date r) db = Inr (e, db')"
    using assms by (auto simp: load_subject_def result_simps split: number.splits if_splits)
  from record_supplier_entryD(2) [OF load_supplier_opening_balanceD(1) [OF this]]
  have "db' = db\<lparr>db_audit := db_audit db, db_cle := db_cle db, db_sle := db_sle db'\<rparr>" by simp
  then show ?thesis by blast
qed

lemma load_rows_frame:
  "load_rows env user commit rs t db = (res, db') \<Longrightarrow> \<exists>a c s. db' = db\<lparr>db_audit := a, db_cle := c, db_sle := s\<rparr>"
proof (induction rs arbitrary: t db)
  case Nil
  then show ?case by (intro exI [of _ "db_audit db"] exI [of _ "db_cle db"] exI [of _ "db_sle db"]) simp
next
  case (Cons r rs)
  have same: "\<exists>a c s. db = db\<lparr>db_audit := a, db_cle := c, db_sle := s\<rparr>"
    by (intro exI [of _ "db_audit db"] exI [of _ "db_cle db"] exI [of _ "db_sle db"]) simp
  show ?case
  proof (cases "tally_row r (t (rw_party r))")
    case (Inl e)
    then show ?thesis using Cons.prems same by auto
  next
    case ty: (Inr ty)
    show ?thesis
    proof (cases "load_subject env user r db")
      case (Inl e)
      then show ?thesis using Cons.prems Cons.IH ty same by (auto split: if_splits)
    next
      case (Inr db1)
      obtain a c s where one: "db1 = db\<lparr>db_audit := a, db_cle := c, db_sle := s\<rparr>"
        using load_subject_frame [OF Inr] by blast
      have "\<exists>a c s. db' = db\<lparr>db_audit := a, db_cle := c, db_sle := s\<rparr>"
        if "load_rows env user commit rs t1 db1 = (res, db')" for t1
        using Cons.IH [OF that] by (auto simp: one)
      then show ?thesis using Cons.prems Cons.IH ty Inr same by (auto split: if_splits)
    qed
  qed
qed

text \<open>Reading does not depend on any of the three, nor on which owner reads.\<close>

lemma import_owner_frame:
  "import_owner phone (db\<lparr>db_audit := a, db_cle := c, db_sle := s\<rparr>) = import_owner phone db"
  by (simp add: import_owner_def get_active_user_by_phone_def actor_of_def user_role_codes_def cong: option.case_cong sum.case_cong)

lemma resolve_party_owner:
  assumes "has_role user [OWNER]" "has_role user2 [OWNER]"
  shows "resolve_party user2 p code (db\<lparr>db_audit := a, db_cle := c, db_sle := s\<rparr>) = resolve_party user p code db"
  using assms by (simp add: resolve_party_def search_customers_def visible_customers_def search_suppliers_def split: party.splits)

lemma read_file_cong:
  assumes "\<And>p code. resolve_party user2 p code db2 = resolve_party user p code db"
  shows "read_file user2 db2 file = read_file user db file"
proof -
  have judge: "judge user2 db2 line p name code raw = judge user db line p name code raw" for line p name code raw
    unfolding judge_def assms by (rule refl)
  have "read_line user2 db2 line seen raw = read_line user db line seen raw" for line seen raw
    unfolding read_line_def judge by (rule refl)
  then have lines: "read_lines user2 db2 line seen raws = read_lines user db line seen raws" for line seen raws
    by (induction raws arbitrary: line seen) simp_all
  show ?thesis unfolding read_file_def lines by (rule refl)
qed

lemma same_file_again:
  assumes "import_owner phone db = Inr user" "has_role user [OWNER]" "read_file user db file = Inr (rows, refusals)"
    "refusals = [] \<or> allow_partial" "import_owner phone2 db = Inr user2" "has_role user2 [OWNER]"
    "load_opening_balances env (Some file) phone True allow_partial db = (res, rep, db')"
  shows "\<exists>lres. load_rows env user True rows (\<lambda>_. no_tally) db = (lres, db') \<and>
      (\<forall>e. lres = Inl e \<longrightarrow> res = Inl e) \<and>
    load_opening_balances env2 (Some file) phone2 True allow_partial db' =
      finish_import True allow_partial refusals (load_rows env2 user2 True rows (\<lambda>_. no_tally) db')"
proof -
  obtain lres db1 where l: "load_rows env user True rows (\<lambda>_. no_tally) db = (lres, db1)" by fastforce
  have fin: "finish_import True allow_partial refusals (lres, db1) = (res, rep, db')"
    using assms(1,3,4,7) l by (auto simp: load_opening_balances_def)
  then have db1: "db1 = db'" by (cases lres) (auto simp: finish_import_def Let_def)
  obtain a c s where db': "db' = db\<lparr>db_audit := a, db_cle := c, db_sle := s\<rparr>"
    using load_rows_frame [OF l] db1 by blast
  have "read_file user2 db' file = Inr (rows, refusals)"
    unfolding db' read_file_cong [OF resolve_party_owner [OF assms(2,6)]] by (rule assms(3))
  moreover have "import_owner phone2 db' = Inr user2" unfolding db' import_owner_frame by (rule assms(5))
  ultimately have "load_opening_balances env2 (Some file) phone2 True allow_partial db' =
      finish_import True allow_partial refusals (load_rows env2 user2 True rows (\<lambda>_. no_tally) db')"
    using assms(4) by (auto simp: load_opening_balances_def)
  moreover have "\<forall>e. lres = Inl e \<longrightarrow> res = Inl e" using fin by (auto simp: finish_import_def)
  ultimately show ?thesis using l db1 by blast
qed


section \<open>A clean load\<close>

definition amount_of :: "row \<Rightarrow> decimal" where
  "amount_of r = (case rw_amount r of Finite x \<Rightarrow> x | _ \<Rightarrow> 0)"

definition money_of :: "row \<Rightarrow> decimal" where
  "money_of r = to_money (amount_of r)"

definition rows_of :: "party \<Rightarrow> row list \<Rightarrow> row list" where
  "rows_of p rs = filter (\<lambda>r. rw_party r = p) rs"

definition loadable :: "row \<Rightarrow> bool" where
  "loadable r \<longleftrightarrow> rw_amount r = Finite (amount_of r) \<and> rw_party r = fst (subject_key (rw_subject r)) \<and>
     \<bar>money_of r\<bar> < 10 ^ 12 \<and>
     (rw_party r = CUSTOMER \<longrightarrow> 0 < money_of r) \<and>
     (rw_party r = SUPPLIER \<longrightarrow> money_of r \<noteq> 0 \<and> rw_entry_date r \<noteq> None)"

text \<open>What the rows of a file leave of a party's entries, and the tally of a class of parties.\<close>

definition opened :: "row list \<Rightarrow> subject \<Rightarrow> (string \<times> decimal) list" where
  "opened rs s = map (\<lambda>r. (''OPENING'', money_of r)) (filter (\<lambda>r. subject_key (rw_subject r) = subject_key s) rs)"

definition tally_of :: "tally \<Rightarrow> row list \<Rightarrow> tally" where
  "tally_of ty own = ty\<lparr>ty_rows := ty_rows ty @ own, ty_loaded := ty_loaded ty @ map rw_code own,
     ty_source_total := (case ty_source_total ty of Finite a \<Rightarrow> Finite (py_sum_from a (map amount_of own)) | n \<Rightarrow> n)\<rparr>"

text \<open>How far a sum has come, and that one more amount does not take it out of range.\<close>

definition room :: "nat \<Rightarrow> number \<Rightarrow> bool" where
  "room n x \<longleftrightarrow> (\<exists>a. x = Finite a \<and> \<bar>a\<bar> + of_nat n * (10 ^ 12 + 1) \<le> 10 ^ 27)"

lemma room_step:
  assumes "room (Suc n) (Finite a)" "\<bar>to_money x\<bar> < 10 ^ 12"
  shows "context_sum (a + x) = Inr (context_value (a + x))" "room n (Finite (context_value (a + x)))"
proof -
  have x: "\<bar>x\<bar> < 10 ^ 12 + 1/200" using to_money_error [of x] assms(2) by linarith
  have n: "0 \<le> of_nat n * (10 ^ 12 + 1 :: decimal)" by simp
  have a: "\<bar>a\<bar> + (10 ^ 12 + 1) + of_nat n * (10 ^ 12 + 1) \<le> 10 ^ 27"
    using assms(1) by (simp add: room_def algebra_simps)
  have z: "\<bar>a + x\<bar> < \<bar>a\<bar> + 10 ^ 12 + 1/200" using x by linarith
  then have small: "\<bar>a + x\<bar> + 1 \<le> 10 ^ 28" using a n by (simp add: algebra_simps)
  then show "context_sum (a + x) = Inr (context_value (a + x))" by (rule context_sum_small)
  have "\<bar>context_value (a + x)\<bar> \<le> \<bar>a + x\<bar> + 1/2"
    using context_value_error [of "a + x"] small by linarith
  then show "room n (Finite (context_value (a + x)))" unfolding room_def using z a by (simp add: algebra_simps)
qed

lemma room_less: "room (Suc n) x \<Longrightarrow> room n x"
  unfolding room_def by (auto simp: algebra_simps)

lemma load_rows_clean:
  assumes "has_role user [OWNER]" "distinct (map (\<lambda>r. subject_key (rw_subject r)) rs)"
    and "\<And>r. r \<in> set rs \<Longrightarrow> loadable r \<and> carried (rw_subject r) db = []"
    and "\<And>p. room (length rs) (ty_source_total (t p))"
  shows "\<exists>db'. load_rows env user True rs t db = (Inr (\<lambda>p. tally_of (t p) (rows_of p rs)), db') \<and>
    db_customers db' = db_customers db \<and> (\<forall>s. entries_of s db' = entries_of s db @ opened rs s)"
  using assms(2-)
proof (induction rs arbitrary: t db)
  case Nil
  have "tally_of (t p) [] = t p" for p
    by (simp add: tally_of_def split: number.splits)
  then show ?case by (simp add: opened_def rows_of_def)
next
  case (Cons r rs)
  let ?p = "rw_party r"
  have l: "loadable r" "carried (rw_subject r) db = []" using Cons.prems(2) [of r] by simp_all
  then obtain db1 where db1: "load_subject env user r db = Inr db1"
    using load_subject_accepts [OF assms(1), of r "amount_of r" db env] by (auto simp: loadable_def money_of_def)
  obtain x where x: "rw_amount r = Finite x" "db_customers db1 = db_customers db"
    "\<And>s. entries_of s db1 = entries_of s db @ (if subject_key s = subject_key (rw_subject r) then [(''OPENING'', to_money x)] else [])"
    by (rule load_subject_entries [OF db1 l(2)]) (rule that)
  have xa: "amount_of r = x" "to_money x = money_of r" using x(1) by (simp_all add: amount_of_def money_of_def)
  obtain a where a: "ty_source_total (t ?p) = Finite a" using Cons.prems(3) [of ?p] by (auto simp: room_def)
  have "room (Suc (length rs)) (Finite a)" using Cons.prems(3) [of ?p] a by simp
  moreover have "\<bar>to_money x\<bar> < 10 ^ 12" using l(1) xa by (simp add: loadable_def)
  ultimately have sum: "context_sum (a + x) = Inr (context_value (a + x))" "room (length rs) (Finite (context_value (a + x)))"
    by (rule room_step)+
  let ?ty = "(t ?p)\<lparr>ty_rows := ty_rows (t ?p) @ [r], ty_source_total := Finite (context_value (a + x)), ty_loaded := ty_loaded (t ?p) @ [rw_code r]\<rparr>"
  let ?t = "t(?p := ?ty)"
  have dated: "\<not> (?p = SUPPLIER \<and> rw_entry_date r = None)" using l(1) by (auto simp: loadable_def)
  have step: "load_rows env user True (r # rs) t db = load_rows env user True rs ?t db1"
    using a sum(1) x(1) l(2) db1 dated by (auto simp: tally_row_def opening_amount_None)
  have "carried (rw_subject q) db1 = []" if "q \<in> set rs" for q
  proof -
    have "subject_key (rw_subject q) \<noteq> subject_key (rw_subject r)" using Cons.prems(1) that by simp (metis imageI)
    then show ?thesis using x(3) Cons.prems(2) [of q] that by (simp add: carried_def)
  qed
  then have "\<exists>db'. load_rows env user True rs ?t db1 = (Inr (\<lambda>p. tally_of (?t p) (rows_of p rs)), db') \<and>
      db_customers db' = db_customers db1 \<and> (\<forall>s. entries_of s db' = entries_of s db1 @ opened rs s)"
    using Cons.prems(1,2) sum(2) room_less Cons.prems(3) by (intro Cons.IH) auto
  moreover have "tally_of (?t p) (rows_of p rs) = tally_of (t p) (rows_of p (r # rs))" for p
    using a xa by (auto simp: tally_of_def rows_of_def)
  ultimately show ?case
    unfolding step using x(2,3) xa(2) by (auto simp: opened_def)
qed

text \<open>The three figures.\<close>

lemma reconcile_rows:
  assumes "\<And>r. r \<in> set own \<Longrightarrow> opening_amount (rw_subject r) db = Some (money_of r) \<and> subject_balance (rw_subject r) db = money_of r"
  shows "fold (reconcile_row db) own ty =
    ty\<lparr>ty_loaded_total := py_sum_from (ty_loaded_total ty) (map money_of own),
       ty_derived_total := py_sum_from (ty_derived_total ty) (map money_of own)\<rparr>"
  using assms by (induction own arbitrary: ty) (simp_all add: reconcile_row_def)

lemma money_sum:
  assumes "\<forall>r \<in> set own. loadable r" "length own < 10 ^ 13"
  shows "py_sum_from 0 (map money_of own) = sum_list (map money_of own)"
proof -
  have "(of_nat (length own) :: decimal) < of_nat (10 ^ 13)" using assms(2) by (simp only: of_nat_less_iff)
  then have "\<bar>0\<bar> + of_nat (length (map money_of own)) * 10 ^ 12 < (10 ^ 26 :: decimal)" by simp
  then show ?thesis
    using py_sum_money [of "map money_of own" 0] assms(1) by (force simp: loadable_def money_of_def)
qed

lemma opened_own:
  assumes "distinct (map (\<lambda>r. subject_key (rw_subject r)) rs)" "r \<in> set rs"
  shows "opened rs (rw_subject r) = [(''OPENING'', money_of r)]"
  using assms
proof (induction rs)
  case (Cons q rs)
  show ?case
  proof (cases "r \<in> set rs")
    case True
    then have "subject_key (rw_subject q) \<noteq> subject_key (rw_subject r)" using Cons.prems(1) by force
    then show ?thesis using Cons True by (simp add: opened_def)
  next
    case False
    then have "r = q" using Cons.prems(2) by simp
    moreover have "filter (\<lambda>x. subject_key (rw_subject x) = subject_key (rw_subject q)) rs = []"
      using Cons.prems(1) by (simp add: filter_empty_conv) (metis imageI)
    ultimately show ?thesis by (simp add: opened_def)
  qed
qed simp

text \<open>The tally of a committed clean file, and the figures of the command on it.\<close>

definition clean_tally :: "row list \<Rightarrow> tally" where
  "clean_tally own = \<lparr>ty_rows = own, ty_loaded = map rw_code own, ty_already = [],
     ty_source_total = Finite (py_sum_from 0 (map amount_of own)),
     ty_loaded_total = sum_list (map money_of own), ty_derived_total = sum_list (map money_of own)\<rparr>"

lemma load_rows_reconciles:
  assumes "has_role user [OWNER]" "distinct (map (\<lambda>r. subject_key (rw_subject r)) rs)"
    and "\<And>r. r \<in> set rs \<Longrightarrow> loadable r" and many: "length rs < 10 ^ 13"
    and "\<And>r. r \<in> set rs \<Longrightarrow> entries_of (rw_subject r) db = []"
    and "\<And>r c. r \<in> set rs \<Longrightarrow> rw_subject r = Of_Customer c \<Longrightarrow> tb_get cu_pk (cu_pk c) (db_customers db) \<noteq> None"
  shows "\<exists>t db'. load_rows env user True rs (\<lambda>_. no_tally) db = (Inr t, db') \<and>
    reconcile db' t = (\<lambda>p. clean_tally (rows_of p rs)) \<and>
    (\<forall>r \<in> set rs. subject_balance (rw_subject r) db' = money_of r)"
proof -
  have "(of_nat (length rs) :: decimal) < of_nat (10 ^ 13)" using many by (simp only: of_nat_less_iff)
  then have start: "room (length rs) (ty_source_total no_tally)" by (simp add: room_def no_tally_def)
  obtain db' where L: "load_rows env user True rs (\<lambda>_. no_tally) db = (Inr (\<lambda>p. tally_of no_tally (rows_of p rs)), db')"
    "db_customers db' = db_customers db" "\<And>s. entries_of s db' = entries_of s db @ opened rs s"
    using load_rows_clean [OF assms(1,2), of db "\<lambda>_. no_tally" env] assms(3,5) start by (auto simp: carried_def)
  have own: "opening_amount (rw_subject r) db' = Some (money_of r) \<and> subject_balance (rw_subject r) db' = money_of r"
    if "r \<in> set rs" for r
  proof -
    have e: "entries_of (rw_subject r) db' = [(''OPENING'', money_of r)]"
      using L(3) assms(5) [OF that] opened_own [OF assms(2) that] by simp
    have "opening_amount (rw_subject r) db' = Some (money_of r)"
      by (rule opening_amount_single) (simp add: carried_def e)
    moreover have "subject_balance (rw_subject r) db' = money_of r"
      using subject_balance_sum [of "rw_subject r" db'] assms(6) [OF that] L(2) e by simp
    ultimately show ?thesis by blast
  qed
  have "reconcile db' (\<lambda>p. tally_of no_tally (rows_of p rs)) = (\<lambda>p. clean_tally (rows_of p rs))"
  proof
    fix p
    have sum: "py_sum_from 0 (map money_of (rows_of p rs)) = sum_list (map money_of (rows_of p rs))"
      using assms(3) many le_less_trans [OF length_filter_le many]
      by (intro money_sum) (auto simp: rows_of_def)
    have "fold (reconcile_row db') (rows_of p rs) (tally_of no_tally (rows_of p rs)) = clean_tally (rows_of p rs)"
      by (subst reconcile_rows) (use own sum in \<open>auto simp: rows_of_def tally_of_def no_tally_def clean_tally_def\<close>)
    then show "reconcile db' (\<lambda>p. tally_of no_tally (rows_of p rs)) p = clean_tally (rows_of p rs)"
      by (simp add: reconcile_def tally_of_def no_tally_def)
  qed
  then show ?thesis using L(1) own by blast
qed

section \<open>The command on a clean file\<close>

definition sums_exact :: "row list \<Rightarrow> bool" where
  "sums_exact rows \<longleftrightarrow>
     (\<forall>p \<in> {CUSTOMER, SUPPLIER}. py_sum_from 0 (map amount_of (rows_of p rows)) = sum_list (map money_of (rows_of p rows)))"

text \<open>Amounts in whole paise always reconcile.\<close>

lemma whole_paise_exact:
  assumes "list_all (\<lambda>r. is_money (amount_of r)) rows" "length rows < 10 ^ 13" "\<And>r. r \<in> set rows \<Longrightarrow> loadable r"
  shows "sums_exact rows"
proof -
  have "py_sum_from 0 (map amount_of (rows_of p rows)) = sum_list (map money_of (rows_of p rows))" for p
  proof -
    have eq: "map amount_of (rows_of p rows) = map money_of (rows_of p rows)"
      using assms(1) by (auto simp: rows_of_def money_of_def list_all_iff)
    have "length (rows_of p rows) < 10 ^ 13"
      unfolding rows_of_def by (rule le_less_trans [OF length_filter_le assms(2)])
    then show ?thesis unfolding eq using assms(3) by (intro money_sum) (auto simp: rows_of_def)
  qed
  then show ?thesis by (simp add: sums_exact_def)
qed

lemma read_file_rows:
  assumes "read_file user db file = Inr (rows, refusals)" "table_wf cu_pk (db_customers db)" "table_wf sp_pk (db_suppliers db)"
  shows "distinct (map (\<lambda>r. subject_key (rw_subject r)) rows)" "r \<in> set rows \<Longrightarrow> judged user db r"
proof -
  obtain raws where "read_lines user db 2 (\<lambda>_. None) raws = Inr (rows, refusals)"
    using assms(1) by (auto simp: read_file_def Let_def split: prod.splits sum.splits if_splits)
  then show "distinct (map (\<lambda>r. subject_key (rw_subject r)) rows)" "r \<in> set rows \<Longrightarrow> judged user db r"
    using read_lines_parties [OF _ assms(2,3)] read_lines_rows by blast+
qed

lemma judged_loadable:
  assumes "judged user db r" "rw_amount r = Finite x" "to_money x \<noteq> 0" "\<bar>to_money x\<bar> < 10 ^ 12"
  shows "loadable r"
proof -
  have "rw_party r = CUSTOMER \<Longrightarrow> 0 < to_money x"
    using assms to_money_mono [of 0 x] by (auto simp: judged_def not_le less_le)
  moreover have "fst (subject_key (rw_subject r)) = rw_party r"
    using assms(1) resolve_partyD(1) unfolding judged_def by metis
  ultimately show ?thesis
    using assms by (cases "rw_party r") (auto simp: loadable_def judged_def amount_of_def money_of_def)
qed

lemma clean_import:
  assumes "import_owner phone db = Inr user" "has_role user [OWNER]" "read_file user db file = Inr (rows, [])"
    and "table_wf cu_pk (db_customers db)" "table_wf sp_pk (db_suppliers db)" "tb_rows (db_cle db) = []" "tb_rows (db_sle db) = []"
    and "\<And>r. r \<in> set rows \<Longrightarrow> \<exists>x. rw_amount r = Finite x \<and> to_money x \<noteq> 0 \<and> \<bar>to_money x\<bar> < 10 ^ 12"
    and many: "length rows < 10 ^ 13"
  shows "\<exists>rep db'. load_opening_balances env (Some file) phone True allow_partial db =
      (if sums_exact rows then Inr () else Inl Not_Reconciled, Some rep, db') \<and>
    (signed_off rep \<longleftrightarrow> sums_exact rows) \<and>
    or_tallies rep = Some (\<lambda>p. clean_tally (rows_of p rows)) \<and>
    (\<forall>r \<in> set rows. subject_balance (rw_subject r) db' = money_of r) \<and>
    (list_all (\<lambda>r. is_money (amount_of r)) rows \<longrightarrow> sums_exact rows)"
proof -
  note R = read_file_rows [OF assms(3-5)]
  have ok: "loadable r" if "r \<in> set rows" for r
    using judged_loadable [OF R(2) [OF that]] assms(8) [OF that] by blast
  moreover have "entries_of s db = []" for s
    using assms(6,7) by (simp add: entries_of_def split: subject.splits)
  moreover have "tb_get cu_pk (cu_pk c) (db_customers db) \<noteq> None" if "r \<in> set rows" "rw_subject r = Of_Customer c" for r c
  proof -
    have "c \<in> set (tb_rows (db_customers db))"
      using R(2) [OF that(1)] that(2) resolve_partyD(2) unfolding judged_def by metis
    then show ?thesis using tb_get_row [OF assms(4)] by simp
  qed
  ultimately obtain t db' where L: "load_rows env user True rows (\<lambda>_. no_tally) db = (Inr t, db')"
    "reconcile db' t = (\<lambda>p. clean_tally (rows_of p rows))" "\<forall>r \<in> set rows. subject_balance (rw_subject r) db' = money_of r"
    using load_rows_reconciles [OF assms(2) R(1) _ many, of db env] by blast
  have "reconciled (reconcile db' t) \<longleftrightarrow> sums_exact rows"
    by (simp add: L(2) reconciled_def sums_exact_def PARTIES_def clean_tally_def)
  moreover have "list_all (\<lambda>r. is_money (amount_of r)) rows \<longrightarrow> sums_exact rows"
    using whole_paise_exact [OF _ many] ok by blast
  ultimately show ?thesis
    using assms(1,3) L by (simp add: load_opening_balances_def finish_import_def signed_off_def Let_def)
qed

section \<open>A sample file\<close>

definition opening_db :: purchasing_db where
  "opening_db = empty_purchasing_db\<lparr>db_customers := \<lparr>tb_seq = 2, tb_rows = [sample_customer]\<rparr>,
     db_suppliers := \<lparr>tb_seq = 2, tb_rows = [sample_supplier]\<rparr>,
     db_users := \<lparr>tb_seq = 2, tb_rows = [\<lparr>us_pk = 1, us_phone = ''+919000000000'', us_full_name = ''Owner'',
        us_language = HINDI, us_password = None, us_customer = None, us_is_active = True, us_is_superuser = False,
        us_last_login_at = None, us_updated_at = 0\<rparr>]\<rparr>,
     db_user_roles := \<lparr>tb_seq = 2, tb_rows = [\<lparr>ur_pk = 1, ur_user = 1, ur_role = 1, ur_granted_by = None\<rparr>]\<rparr>\<rparr>"

definition opening_file :: "string \<Rightarrow> string list list" where
  "opening_file amount =
     [COLUMNS, ['' customer'', ''C1'', ''4500.00'', ''2025-03-31''], [''SUPPLIER'', ''S1'', amount, ''20250331'']]"

definition opening_rows :: "string \<Rightarrow> row list" where
  "opening_rows amount =
     (case read_file sample_owner opening_db (opening_file amount) of Inl _ \<Rightarrow> [] | Inr (rows, _) \<Rightarrow> rows)"

lemma opening_owner: "import_owner ''9000000000'' opening_db = Inr sample_owner" "has_role sample_owner [OWNER]"
  by code_simp+

definition all_accepted :: "string \<Rightarrow> bool" where
  "all_accepted amount \<longleftrightarrow> (case read_file sample_owner opening_db (opening_file amount) of Inl _ \<Rightarrow> False | Inr (_, refusals) \<Rightarrow> refusals = [])"

lemma opening_rows_read:
  "all_accepted a \<Longrightarrow> read_file sample_owner opening_db (opening_file a) = Inr (opening_rows a, [])"
  by (auto simp: all_accepted_def opening_rows_def split: sum.splits)

definition some_money :: "row \<Rightarrow> bool" where
  "some_money r \<longleftrightarrow> (case rw_amount r of Finite x \<Rightarrow> to_money x \<noteq> 0 \<and> \<bar>to_money x\<bar> < 10 ^ 12 | _ \<Rightarrow> False)"

lemma opening_files:
  "all_accepted ''-1200''" "list_all some_money (opening_rows ''-1200'')" "sums_exact (opening_rows ''-1200'')"
  "all_accepted ''1200.005''" "list_all some_money (opening_rows ''1200.005'')" "\<not> sums_exact (opening_rows ''1200.005'')"
  by code_simp+

lemma opening_files_length: "length (opening_rows ''-1200'') = 2" "length (opening_rows ''1200.005'') = 2"
  by code_simp+

lemma some_moneyD: "list_all some_money rs \<Longrightarrow> r \<in> set rs \<Longrightarrow> \<exists>x. rw_amount r = Finite x \<and> to_money x \<noteq> 0 \<and> \<bar>to_money x\<bar> < 10 ^ 12"
  by (cases "rw_amount r") (auto simp: list_all_iff some_money_def)

text \<open>The second line is refused by the service alone: it is not zero, but rounds to it.\<close>

lemma opening_interrupted:
  obtains e db' where "load_rows sample_env sample_owner True (opening_rows ''0.004'') (\<lambda>_. no_tally) opening_db = (Inl e, db')"
    "map ce_amount (tb_rows (db_cle db')) = [4500]"
proof -
  have "case load_rows sample_env sample_owner True (opening_rows ''0.004'') (\<lambda>_. no_tally) opening_db of
      (Inl e, db') \<Rightarrow> map ce_amount (tb_rows (db_cle db')) = [4500] | _ \<Rightarrow> False" by code_simp
  then show ?thesis
    using that by (cases "load_rows sample_env sample_owner True (opening_rows ''0.004'') (\<lambda>_. no_tally) opening_db")
      (simp split: sum.splits)
qed

end
