(* ===== verification/Spec2Isabelle.thy ===== *)
theory Spec2Isabelle
  imports Walk Ledger Pricing Orders Fulfilment Books Words Samples Supplies Devices Figures Golive
begin

text \<open>
  DistriCore is the back office of a distribution business: a Django program (\<^verbatim>\<open>src/backend\<close>) that keeps
  customers and their debts, products, stock, orders, deliveries, invoices, payments, purchases and the
  visits of salesmen whose devices work offline.  The development models its models, services and
  selectors, the layer every state change goes through, and proves what makes them correct.

  \<^bold>\<open>How the code is laid out, and the theories that follow it.\<close>
  Each Django application keeps its tables in \<^verbatim>\<open>models.py\<close>, the only code that writes them in
  \<^verbatim>\<open>services.py\<close> and the reads in \<^verbatim>\<open>selectors.py\<close>; a database constraint of a model is a predicate of
  its theory that the insert checks.

  \<^item> \<open>Prelude\<close>, \<open>Decimals\<close>, \<open>Dates\<close>: the errors of \<^verbatim>\<open>core/exceptions.py\<close>, results and finite tables;
    \<^verbatim>\<open>core/fields.py\<close> and the decimal arithmetic it rests on (a
    Decimal is its exact rational value, every rounding is written out); calendar dates and strings.
  \<^item> \<open>Core\<close>: \<^verbatim>\<open>core/permissions.py\<close>, \<^verbatim>\<open>context.py\<close>, \<^verbatim>\<open>services.py\<close>: role checks, the audit log and what
    is scrubbed from it, the business profile.
  \<^item> \<open>Identity\<close>: \<^verbatim>\<open>identity/\<close>: phone numbers, users, roles, one time passcodes, lockout, break-glass
    and its command, the web login.
  \<^item> \<open>Customers\<close>, \<open>Catalogue\<close>, \<open>Pricing\<close>: \<^verbatim>\<open>customers/\<close>, \<^verbatim>\<open>catalogue/\<close>, \<^verbatim>\<open>pricing/services.py\<close>.
  \<^item> \<open>Ledger\<close>, \<open>Walk\<close>: the append-only ledgers of \<^verbatim>\<open>ledger/\<close> and the walk of \<^verbatim>\<open>ledger/walk.py\<close> that
    derives from a ledger which debits are settled, first in first out.
  \<^item> \<open>Inventory\<close>: the stock ledger of \<^verbatim>\<open>inventory/\<close>.
  \<^item> \<open>Orders\<close>, \<open>Fulfilment\<close>: \<^verbatim>\<open>orders/\<close> (capture, amendment, credit policy, life cycle) and
    \<^verbatim>\<open>fulfilment/\<close> (assignment, dispatch, completion, failure of deliveries).
  \<^item> \<open>Numbering\<close>, \<open>Billing\<close>, \<open>Books\<close>, \<open>Words\<close>: \<^verbatim>\<open>billing/\<close>: number series, invoices and credit notes;
    what they guarantee; amounts in words (\<^verbatim>\<open>billing/templatetags/humanize_money.py\<close>).
  \<^item> \<open>Receivables\<close>, \<open>Walked\<close>, \<open>Positions\<close>: \<^verbatim>\<open>receivables/\<close>: payments, reversals, write-offs, opening
    balances, positions, ageing, statements; what they guarantee.
  \<^item> \<open>Purchasing\<close>, \<open>Receiving\<close>, \<open>Payables\<close>, \<open>Suppliers\<close>: \<^verbatim>\<open>purchasing/\<close>: suppliers and their products,
    purchase orders, goods receipts, supplier payments; what they guarantee.
  \<^item> \<open>Openings\<close>, \<open>Golive\<close>: \<^verbatim>\<open>receivables/management/commands/load_opening_balances.py\<close>: the import of the
    opening balances of customers and suppliers from a file, and its reconciliation; what it guarantees.
  \<^item> \<open>Visits\<close>, \<open>Sync\<close>, \<open>Syncing\<close>, \<open>Pulling\<close>: \<^verbatim>\<open>field/\<close> and \<^verbatim>\<open>sync/\<close>: visits, and the receiver of operations
    recorded offline with its recovery of interrupted work and the paged pull; what they guarantee.
  \<^item> \<open>Tables\<close>, \<open>Reports\<close>, \<open>Reporting\<close>: \<^verbatim>\<open>reporting/\<close>: the shape and CSV export of a report, the nine
    reports and the dashboard; what they guarantee.
  \<^item> \<open>Interfaces\<close>: the contracts several components share (below).
  \<^item> \<open>Samples\<close>, \<open>Supplies\<close>, \<open>Devices\<close>, \<open>Figures\<close>: small concrete businesses, reached by running the
    modelled services from the empty database; the closed instances of the properties run on them.

  \<^bold>\<open>State.\<close>  The database is one record, grown by one extension per application in the order the
  applications call each other: \<open>core_db\<close>, then identity, customers, catalogue, ledger, inventory,
  orders, fulfilment, numbering, billing, receivables, purchasing, field, sync.  An operation of an
  application is polymorphic in the tables declared after it, so that an order service, say, cannot
  touch an invoice by its type.  A table is a list of rows in insertion order or a map from keys; a row
  is a record with the columns of the Django model.

  \<^bold>\<open>Effects and errors.\<close>  A service is a function from its arguments and the database to
  \<open>error + answer \<times> database\<close>.  \<open>Inl e\<close> is the exception the code raises; the request's transaction
  is rolled back, so no new database is returned.  Synchronisation and the import, whose point is what
  survives a failure, and the logins, which count failed attempts, return the database beside the
  answer instead.  A keyword argument that may be left out is an option.  The clock, the local day and
  the identifier of the request come in an \<open>env\<close>, the user of the request is an \<open>actor option\<close>.  Python
  objects an earlier read handed to a service are passed as such where the difference from the stored
  row matters: a stale copy is then a value one can state.

  \<^bold>\<open>Interfaces.\<close>  \<open>append_ledger\<close> (theory \<open>Ledger\<close>): a ledger that is only appended to; interpreted by
  the customer, the supplier and the stock ledger.  \<open>state_machine\<close>: a table of transitions that climb;
  interpreted by orders.  \<open>checked_writer\<close> and its extension \<open>idempotent_writer\<close>: a writer keyed on an
  identifier the client chose; interpreted by order capture, delivery outcomes, invoices, credit notes,
  payments, opening balances, visits and supplier payments.  \<open>walked_ledger\<close>: a ledger read through the
  walk; interpreted by receivables and payables.

  \<^bold>\<open>What the properties show.\<close>  \<^emph>\<open>What customers owe\<close>: the walk's positions, the bulk report and the
  ledger agree; settlement is oldest first; a reversal leaves no trace.  \<^emph>\<open>Ledgers\<close>: exactly the entries
  the constraints allow are accepted; statements chain; a retried write is done once.  \<^emph>\<open>Orders\<close>:
  totals reconcile, the blocked limit is kept, the life cycle climbs, order services write no ledger.
  \<^emph>\<open>Stock and deliveries\<close>: dispatch issues an order once, failure puts it back, an outcome is final.
  \<^emph>\<open>Money\<close>: document numbers without gaps, books that refine the customer ledger, credits within
  invoices, exact tax and rounding, words that read back.  \<^emph>\<open>Supplies\<close>: what is owed is what was received
  less what was paid, tolerance, order status, preferred suppliers, submissions that pay once.
  \<^emph>\<open>Going live\<close>: the import resumes after a failure and signs off a clean file.
  \<^emph>\<open>Devices\<close>: nothing pushed is lost or done twice, and a pull tells everything once.  \<^emph>\<open>Reports\<close>: groupings
  agree, exports read back.  \<^emph>\<open>People and settings\<close>: lockout, break-glass, the scrubbed audit log,
  the owner's credit limits.

  \<^bold>\<open>Bounds and fuel.\<close>  Almost every loop of the code is over a list and is structural recursion here.  A batch of
  a push is cut at \<open>MAX_BATCH\<close> = 200 and a page of a pull at \<open>PULL_PAGE_SIZE\<close> = 500, as in the code.  A
  device's pulls are run over a list of databases, one per request, which is the only fuel; that enough
  requests deliver everything is part of the property.  Amounts are exact rationals: sums and products of column
  values fit the 28 digits of Python's decimal context (lemmas of \<open>Decimals\<close>), a quotient does not and is
  rounded as the context rounds it.  Every ledger entry goes through \<open>validated_amount\<close>, which fails
  beyond what 28 digits can hold in paise (\<open>quantizable\<close>), and an insert that checks that the amount fits
  NUMERIC(14,2) (\<open>money_column\<close>).  The import adds amounts as they are typed, with any number of digits, so its sums
  are rounded by \<open>context_sum\<close> line by line; below \<open>10 ^ 12\<close> per rounded amount and \<open>10 ^ 13\<close> lines the sums of
  whole paise stay below \<open>10 ^ 25\<close> and are exact.  The other numeric columns are taken to be wide enough for
  what is written to them.

  \<^bold>\<open>Parameters.\<close>  What the code takes from outside the repository is an argument: the password and passcode
  hashers and the random code, the JSON and base64 codec of pull cursors (with the hypothesis that
  decoding inverts encoding, instantiated in \<open>Devices\<close>), the local day of a timestamp and the bounds of
  a day, the rows \<^verbatim>\<open>csv.reader\<close> makes of a file.

  \<^bold>\<open>Not modelled.\<close>
  \<^item> The HTTP API (\<^verbatim>\<open>api/v1\<close>) and the web admin (\<^verbatim>\<open>webadmin\<close>): they parse requests, call the services
    modelled here and render serialisers and templates of Django and its REST framework.
  \<^item> Media files, health checks, logging, settings, SMS delivery and PDF rendering: input and output.
  \<^item> The scripts under \<^verbatim>\<open>ops\<close>: measurements of a running installation.
  \<^item> Row locks and concurrent transactions: a service runs alone.  The interleavings that are
    modelled are sequences of whole services and, in \<open>Syncing\<close>, services cut off part way.
  \<^item> The text of messages: an error carries its code and the fields a caller reads.
\<close>

section \<open>What customers owe\<close>

text \<open>
  C1. What the walk derives is what the ledger says: for every customer and date, the balance of
  the derived position is the sum of the customer's entries up to that date, the total
  outstanding its positive part and the credit on account its negative part.
\<close>

theorem outstanding_is_balance:
  assumes "ledger_ok db"
  shows "let p = outstanding_for env c (Some d) db; b = balance_expression (Some d) c db
         in po_balance p = b \<and> po_total_outstanding p = max 0 b \<and> po_credit_on_account p = max 0 (- b)"
  using outstanding_position [OF assms] by (simp add: Let_def)

theorem outstanding_is_balance_witness:
  "po_total_outstanding (outstanding_for sample_env 1 (Some (Date 2025 5 1)) paid_db) = 266"
proof -
  have "balance_expression (Some (Date 2025 5 1)) 1 paid_db = 266" by code_simp
  then show ?thesis
    using outstanding_is_balance [OF paid_ledger_ok, of sample_env 1 "Date 2025 5 1"] by (simp add: Let_def)
qed

definition sample_policy :: walk_policy where
  "sample_policy = \<lparr>wp_adjustment_type = ''ADJUSTMENT'', wp_annullable_source_types = [''INVOICE'', ''PAYMENT''],
     wp_reducing_type = ''CREDIT_NOTE'', wp_target_type = ''INVOICE''\<rparr>"

text \<open>
  C2. First in, first out: whatever is left owing on one debit, every younger debit is exactly
  what the pinned credit notes left of it; no payment reached past an unpaid older debit.
\<close>

theorem payments_settle_oldest_first:
  assumes "walk_debits entries targets pol = (ds, pool)" "i < j" "j < length ds"
    "0 < db_remaining (ds ! i)"
  shows "ds ! j = reduced_debits entries targets pol ! j"
  by (rule walk_debits_fifo [OF assms])

definition two_invoices :: "ledger_row list" where
  "two_invoices =
     [\<lparr>lr_pk = 1, lr_entry_date = Date 2025 4 1, lr_entry_type = ''INVOICE'', lr_amount = 100,
       lr_narration = ''INV-1'', lr_source_type = ''INVOICE'', lr_source_id = Some 1\<rparr>,
      \<lparr>lr_pk = 2, lr_entry_date = Date 2025 4 2, lr_entry_type = ''INVOICE'', lr_amount = 70,
       lr_narration = ''INV-2'', lr_source_type = ''INVOICE'', lr_source_id = Some 2\<rparr>,
      \<lparr>lr_pk = 3, lr_entry_date = Date 2025 4 3, lr_entry_type = ''PAYMENT'', lr_amount = - 30,
       lr_narration = ''PAY-1'', lr_source_type = ''PAYMENT'', lr_source_id = Some 1\<rparr>]"

theorem payments_settle_oldest_first_witness:
  "fst (walk_debits two_invoices [] sample_policy) ! 1 = reduced_debits two_invoices [] sample_policy ! 1"
proof -
  obtain ds pool where w: "walk_debits two_invoices [] sample_policy = (ds, pool)" by fastforce
  have "0 < db_remaining (fst (walk_debits two_invoices [] sample_policy) ! 0) \<and>
      length (fst (walk_debits two_invoices [] sample_policy)) = 2"
    by code_simp
  then show ?thesis using payments_settle_oldest_first [OF w, of 0 1] w by simp
qed

text \<open>
  C3. A payment that bounced leaves no trace: once it is recorded and reversed, every position of
  every customer at a date after both is the one before, open item by open item with their ages,
  and so is every balance.
\<close>

theorem reversed_payment_leaves_no_trace:
  assumes "record_payment env user q db = Inr (p, db1)" "p \<notin> set (tb_rows (db_payments db))"
    "reverse_payment env' user' (py_pk p) reason db1 = Inr (p', db2)"
    "payments_ok db" "ledger_ok db" "py_payment_date p \<le> d" "today env' \<le> d"
  shows "outstanding_for env'' c (Some d) db2 = outstanding_for env'' c (Some d) db \<and>
    balance_expression None c db2 = balance_expression None c db"
  using payment_reversal_position [OF assms] by blast

theorem reversed_payment_leaves_no_trace_witness:
  "outstanding_for sample_env 1 (Some (Date 2025 5 1)) bounced_db = outstanding_for sample_env 1 (Some (Date 2025 5 1)) owing_db"
proof -
  obtain p where p: "record_payment sample_env sample_salesman sample_payment owing_db = Inr (p, paid_db)"
    by (rule sample_collect_obtain)
  obtain p' where r: "reverse_payment sample_env sample_owner 1 ''bounced'' paid_db = Inr (p', bounced_db)"
    by (rule sample_reverse_obtain)
  have none: "tb_rows (db_payments owing_db) = []" "existing_payment (Some ''p1'') owing_db = None"
    "tb_seq (db_payments owing_db) = 1"
    by (simp_all add: owing_db_def receivables_db.defs billing_db.defs existing_payment_def find_payment_by_uuid_def tb_first_def empty_table_def)
  have "py_pk p = 1 \<and> py_payment_date p = Date 2025 4 1"
    using p
  proof (cases rule: record_paymentD)
    case (recorded number e)
    show ?thesis
      using recorded(7) arg_cong [OF recorded(5), of py_pk]
      by (simp add: none new_payment_def sample_payment_def sample_env_def)
  qed (use none in \<open>simp_all add: sample_payment_def\<close>)
  then show ?thesis
    using reversed_payment_leaves_no_trace [OF p, of sample_env sample_owner "''bounced''" p' bounced_db "Date 2025 5 1" sample_env 1]
      r none owing_payments_ok owing_ledger_ok by (simp add: sample_env_def less_eq_date_def)
qed

text \<open>
  C4. The bulk report and the single position agree: computed in one pass over all entries and
  all credit notes, the position of every customer the caller may see is the one the walk gives
  for that customer alone.
\<close>

theorem bulk_report_is_exact:
  assumes "list_all (\<lambda>n. 0 < cn_pk n) (tb_rows (db_credit_notes db))"
  shows "receivables_position env user as_of True db
    = map (\<lambda>k. outstanding_for env (cu_pk k) as_of db) (visible_customers_for_receivables user db)"
  by (rule bulk_position [OF assms])

theorem bulk_report_is_exact_witness:
  "map po_total_outstanding (receivables_position sample_env sample_owner (Some (Date 2025 5 1)) True paid_db)
    = [266]"
proof -
  have n: "list_all (\<lambda>n. 0 < cn_pk n) (tb_rows (db_credit_notes paid_db))" by code_simp
  have v: "map cu_pk (visible_customers_for_receivables sample_owner paid_db) = [1]" by code_simp
  have b: "balance_expression (Some (Date 2025 5 1)) 1 paid_db = 266" by code_simp
  have "map po_total_outstanding (receivables_position sample_env sample_owner (Some (Date 2025 5 1)) True paid_db)
      = map (\<lambda>k. po_total_outstanding (outstanding_for sample_env k (Some (Date 2025 5 1)) paid_db))
          (map cu_pk (visible_customers_for_receivables sample_owner paid_db))"
    by (simp add: bulk_report_is_exact [OF n])
  then show ?thesis using b by (simp add: v outstanding_position [OF paid_ledger_ok])
qed

text \<open>
  C5. Collections and ledger agree: in every state that recording and reversing payments can
  reach, what the ledger holds against a customer under payments is, with the sign turned,
  the sum of the customer's payments that were not reversed.
\<close>

theorem payments_match_ledger:
  assumes "receipt_step\<^sup>*\<^sup>* db db'" "payments_ok db"
  shows "sum_where (\<lambda>e. payment_entry e \<and> ce_customer e = c) ce_amount (tb_rows (db_cle db'))
    = - sum_where (\<lambda>p. py_customer p = c \<and> \<not> py_is_reversed p) py_amount (tb_rows (db_payments db'))"
  by (rule payments_ledger_total [OF receipts_reachable_ok [OF assms]])

theorem payments_match_ledger_witness:
  "sum_where (\<lambda>e. payment_entry e \<and> ce_customer e = 1) ce_amount (tb_rows (db_cle bounced_db))
    = - sum_where (\<lambda>p. py_customer p = 1 \<and> \<not> py_is_reversed p) py_amount (tb_rows (db_payments bounced_db)) \<and>
   length (tb_rows (db_payments bounced_db)) = 1"
proof -
  have "length (tb_rows (db_payments bounced_db)) = 1" by code_simp
  then show ?thesis using payments_match_ledger [OF sample_receipt_steps owing_payments_ok, of 1] by blast
qed


section \<open>Ledgers\<close>

text \<open>
  C6. The customer ledger's write path accepts exactly the entries it should: a known type, an
  amount that, rounded, is not zero, is below \<open>10 ^ 12\<close> as the column NUMERIC(14,2) demands and has
  the sign the type demands, a registered and saved source document, and at most one opening
  balance per customer.  Everything else is refused.
\<close>

theorem ledger_accepts_exactly:
  "(\<exists>e db'. record_entry env user cust t a narr d doc so db = Inr (e, db')) \<longleftrightarrow>
     t \<in> set CLE_TYPES \<and> to_money a \<noteq> 0 \<and> \<bar>to_money a\<bar> < 10 ^ 12 \<and>
     (t \<in> {''INVOICE'', ''OPENING''} \<longrightarrow> 0 < to_money a) \<and>
     (t \<in> {''PAYMENT'', ''CREDIT_NOTE'', ''WRITE_OFF''} \<longrightarrow> to_money a < 0) \<and>
     (\<exists>src. resolve_source SOURCE_DOCUMENT_REGISTRY doc = Inr src) \<and>
     \<not> (t = ''OPENING'' \<and> (\<exists>e \<in> set (tb_rows (db_cle db)). ce_entry_type e = ''OPENING'' \<and> ce_customer e = cust))"
  by (rule record_entry_accepts)

theorem ledger_accepts_exactly_witness:
  "\<not> (\<exists>e db'. record_entry sample_env sample_owner 1 ''PAYMENT'' 40 ''P'' None None None sample_db = Inr (e, db'))"
proof -
  have "is_money (40 :: decimal)" using at_scale_of_int [of 2 40] by simp
  then show ?thesis unfolding ledger_accepts_exactly by simp
qed

text \<open>
  C7. Statements chain: what a statement lists leads from its opening to its closing balance, the
  closing balance is the customer's balance at its end, and the statement of the next period
  opens where it closed.
\<close>

theorem statements_chain:
  assumes "customer_statement env c (Some f) (Some d) db = Inr s" "customer_statement env c (Some f') (Some d') db = Inr s'"
    "list_all (\<lambda>e. valid_date (ce_entry_date e)) (tb_rows (db_cle db))"
    "valid_date f" "valid_date f'" "f \<le> d" "f' \<le> d'" "prev_day f' = Inr d"
    "tb_exists (\<lambda>x. cu_pk x = c) (db_customers db)"
  shows "st_opening_balance s + sum_list (map ce_amount (st_entries s)) = st_closing_balance s \<and>
    st_closing_balance s = settled_balance c (Some d) db \<and> st_opening_balance s' = st_closing_balance s"
  using customer_statement_adds_up [OF assms(1,4,3,9,6)] customer_statement_adds_up [OF assms(2,5,3,9,7)] assms(8)
  by auto

theorem statements_chain_witness:
  "\<exists>s s'. customer_statement sample_env 1 (Some (Date 2025 4 1)) (Some (Date 2025 4 30)) paid_db = Inr s \<and>
     customer_statement sample_env 1 (Some (Date 2025 5 1)) (Some (Date 2025 5 31)) paid_db = Inr s' \<and>
     st_closing_balance s = 266 \<and> st_opening_balance s' = st_closing_balance s"
proof -
  obtain s s' where s: "customer_statement sample_env 1 (Some (Date 2025 4 1)) (Some (Date 2025 4 30)) paid_db = Inr s"
    "customer_statement sample_env 1 (Some (Date 2025 5 1)) (Some (Date 2025 5 31)) paid_db = Inr s'"
    by (simp add: customer_statement_def prev_day_def days_in_month_def Let_def)
  have v: "list_all (\<lambda>e. valid_date (ce_entry_date e)) (tb_rows (db_cle paid_db))"
    "tb_exists (\<lambda>x. cu_pk x = 1) (db_customers paid_db)" "settled_balance 1 (Some (Date 2025 4 30)) paid_db = 266"
    by code_simp+
  show ?thesis
    using statements_chain [OF s v(1) _ _ _ _ _ v(2)] s v(3)
    by (simp add: valid_date_def days_in_month_def less_eq_date_def prev_day_def)
qed

section \<open>Orders\<close>

text \<open>
  C8. What is posted under a client key is posted once: however often an order, an invoice or a
  payment is retried under its key, and a customer's opening balance under the customer, every
  retry answers with the document of the first attempt and leaves the database as it left it.
\<close>

theorem retries_are_harmless:
  "(place_order env user oq odb = Inr (ord, odb') \<and> oq_client_uuid oq = Some k \<and> orders_ok odb \<longrightarrow>
      place.retry n (env, user, oq) odb = Inr (ord, odb')) \<and>
   (issue_invoice env user pk idate (Some k) idb = Inr (i, idb') \<and> series_ok (db_series idb) \<longrightarrow>
      issue.retry n (env, user, pk, idate, Some k) idb = Inr (i, idb')) \<and>
   (record_payment env user pq pdb = Inr (p, pdb') \<and> pq_client_uuid pq = Some k \<longrightarrow>
      collect.retry n (env, user, pq) pdb = Inr (p, pdb')) \<and>
   (load_opening_balance env user cust amount d ldb = Inr (e, ldb') \<longrightarrow>
      carried.retry n (env, user, cust, amount, d) ldb = Inr (e, ldb'))"
  by (intro conjI impI place.any_number_of_retries issue.any_number_of_retries collect.any_number_of_retries
      carried.any_number_of_retries) auto

theorem retries_are_harmless_witness:
  "\<exists>ord i p. place.retry 3 (sample_env, sample_owner, sample_request) sample_db = Inr (ord, placed_db) \<and>
     issue.retry 3 (sample_env, sample_owner, 1, None, Some ''b1'') shipped_db = Inr (i, billed_db) \<and>
     collect.retry 3 (sample_env, sample_salesman, sample_payment) owing_db = Inr (p, paid_db)"
proof -
  obtain ord where ord: "place_order sample_env sample_owner sample_request sample_db = Inr (ord, placed_db)"
    by (rule sample_place_obtain)
  obtain i where i: "issue_invoice sample_env sample_owner 1 None (Some ''b1'') shipped_db = Inr (i, billed_db)"
    by (rule sample_issue_obtain)
  obtain p where p: "record_payment sample_env sample_salesman sample_payment owing_db = Inr (p, paid_db)"
    by (rule sample_collect_obtain)
  have "series_ok (db_series shipped_db)" using sample_billing_ok by (simp add: billing_ok_def numbers_ok_def)
  moreover have "oq_client_uuid sample_request = Some ''u1''" "pq_client_uuid sample_payment = Some ''p1''"
    by (simp_all add: sample_request_def sample_payment_def)
  ultimately have "place.retry 3 (sample_env, sample_owner, sample_request) sample_db = Inr (ord, placed_db)"
    and "issue.retry 3 (sample_env, sample_owner, 1, None, Some ''b1'') shipped_db = Inr (i, billed_db)"
    and "collect.retry 3 (sample_env, sample_salesman, sample_payment) owing_db = Inr (p, paid_db)"
    using retries_are_harmless [THEN conjunct1, of sample_env sample_owner sample_request sample_db ord placed_db "''u1''" 3]
      retries_are_harmless [THEN conjunct2, THEN conjunct1, of sample_env sample_owner 1 None "''b1''" shipped_db i billed_db 3]
      retries_are_harmless [THEN conjunct2, THEN conjunct2, THEN conjunct1,
        of sample_env sample_salesman sample_payment owing_db p paid_db "''p1''" 3]
      ord i p sample_orders_ok by simp_all
  then show ?thesis by blast
qed

text \<open>
  C9. A captured order reconciles: its lines are the lines asked for, numbered from one, each
  with money rounded at the line, its totals are the sums of the lines, and total = subtotal -
  discount + tax.
\<close>

theorem captured_order_reconciles:
  assumes "capture_order env user q db = Inr (ord, db')"
  shows "list_all2 (line_for db ord) (enumerate 1 (oq_lines q)) (lines_of (so_pk ord) db') \<and>
    (\<forall>l \<in> set (lines_of (so_pk ord) db'). line_wf l) \<and> totals_ok ord db' \<and>
    so_total_amount ord = so_subtotal_amount ord - so_discount_amount ord + so_tax_amount ord \<and>
    so_status ord = PLACED"
proof -
  note C = capture_orderD [OF assms]
  have "\<forall>l \<in> set (lines_of (so_pk ord) db'). line_wf l" by (rule list_all2_line_for_wf [OF C(12)])
  then show ?thesis using C(9,11,12) totals_balance by blast
qed

theorem captured_order_reconciles_witness:
  "\<exists>ord. place_order sample_env sample_owner sample_request sample_db = Inr (ord, placed_db) \<and>
     so_total_amount ord = so_subtotal_amount ord - so_discount_amount ord + so_tax_amount ord"
proof -
  obtain ord where p: "place_order sample_env sample_owner sample_request sample_db = Inr (ord, placed_db)"
    by (rule sample_place_obtain)
  moreover have "find_order_by_uuid ''u1'' sample_db = None" by code_simp
  ultimately have "capture_order sample_env sample_owner sample_request sample_db = Inr (ord, placed_db)"
    by (simp add: place_order_cases sample_request_def)
  from captured_order_reconciles [OF this] p show ?thesis by blast
qed

text \<open>
  C10. In BLOCK mode a new order never takes the customer over the limit: whenever capture
  succeeds under that policy, either no limit is set or the exposure, the new order included,
  is within it.
\<close>

theorem blocked_limit_is_kept:
  assumes "capture_order env user q db = Inr (ord, db')" "bp_credit_limit_mode (profile_of db) = BLOCK"
  shows "to_money (cu_credit_limit_amount (oq_customer q)) \<le> 0 \<or>
    credit_exposure (cu_pk (oq_customer q)) db' \<le> to_money (cu_credit_limit_amount (oq_customer q))"
  using capture_orderD(16) [OF assms(1)] assms(2) by (auto simp: evaluate_credit_check)

theorem blocked_limit_is_kept_witness:
  "credit_exposure 1 placed_db \<le> 1000"
proof -
  obtain ord where p: "place_order sample_env sample_owner sample_request sample_db = Inr (ord, placed_db)"
    by (rule sample_place_obtain)
  moreover have "find_order_by_uuid ''u1'' sample_db = None" by code_simp
  ultimately have c: "capture_order sample_env sample_owner sample_request sample_db = Inr (ord, placed_db)"
    by (simp add: place_order_cases sample_request_def)
  have "bp_credit_limit_mode (profile_of sample_db) = BLOCK" by code_simp
  from blocked_limit_is_kept [OF c this] show ?thesis
    by (simp add: sample_request_def sample_customer_def to_money_def quantize_def round_half_up_def MONEY_SCALE_def)
qed

text \<open>
  C11. The life of an order only goes forward: along any sequence of successful confirmations,
  dispatches, deliveries and cancellations, each on the order the one before returned, no status
  is ever taken twice, there are at most three changes, and none follows DELIVERED or CANCELLED.
\<close>

theorem order_life_goes_forward:
  assumes "life ord db ss ord' db'"
  shows "distinct (so_status ord # ss) \<and> status_rank (so_status ord) + length ss \<le> 3 \<and>
    (so_status ord \<in> {DELIVERED, CANCELLED} \<longrightarrow> ss = [])"
proof -
  have p: "order_machine.path (so_status ord # ss)" by (rule life_path [OF assms])
  have "so_status ord \<in> {DELIVERED, CANCELLED} \<Longrightarrow> order_machine.terminal (so_status ord)"
    by (auto simp: order_machine.terminal_def)
  then show ?thesis
    using order_machine.path_distinct [OF p] order_machine.path_length [OF p] order_machine.terminal_path [OF p]
    by blast
qed

definition placed_order :: sales_order where
  "placed_order = confirmed_order\<lparr>so_status := PLACED\<rparr>"

theorem order_life_goes_forward_witness:
  "\<exists>ord' db'. life placed_order sample_db [CONFIRMED] ord' db' \<and> distinct [PLACED, CONFIRMED] \<and>
     status_rank PLACED + length [CONFIRMED] \<le> 3"
proof -
  have "succeeds (life_call sample_env sample_owner Confirm placed_order sample_db)" by code_simp
  then obtain ord' db' where c: "life_call sample_env sample_owner Confirm placed_order sample_db = Inr (ord', db')"
    by (rule succeedsE [where db = sample_db])
  have s: "so_status ord' = CONFIRMED" using life_callD(3) [OF c] by simp
  have l: "life placed_order sample_db [CONFIRMED] ord' db'"
    using life.call [OF c life.start] s by simp
  then show ?thesis using order_life_goes_forward [OF l] by (auto simp: placed_order_def)
qed



section \<open>Stock and deliveries\<close>

text \<open>
  C13. Dispatch issues the order exactly once: a delivery that has not gone out takes from the
  stock of every product the units on the order's lines, marks the order DISPATCHED, and leaves
  both ledgers and the lines alone; dispatching it again changes nothing.
\<close>

theorem dispatch_issues_the_order_once:
  assumes "dispatch_delivery env user pk reason db = Inr (d, db')"
    "tb_get dl_pk pk (db_deliveries db) = Some locked" "dl_dispatched_at locked = None"
    "quantities_ok (lines_of (dl_order locked) db)"
  shows "on_hand_expression None k db' = on_hand_expression None k db - units_of k (lines_of (dl_order locked) db)
    \<and> (\<exists>ord. row_of ord db' \<and> so_pk ord = dl_order locked \<and> so_status ord = DISPATCHED)
    \<and> db_cle db' = db_cle db \<and> db_sle db' = db_sle db \<and> db_order_lines db' = db_order_lines db
    \<and> dispatch_delivery env2 user pk reason2 db' = Inr (d, db')"
proof -
  note D = dispatch_deliveryD [OF assms(1-3)]
  have "dispatch_delivery env2 user pk reason2 db' = Inr (d, db')"
    using D(1,3,4) by (simp add: dispatch_delivery_def)
  then show ?thesis using D(8,10) assms(4) D(2) by (simp add: shipping_frame_def)
qed

lemma sample_dispatched:
  obtains d where "dispatch_delivery sample_env sample_owner 1 '''' assigned_db = Inr (d, dispatched_db)"
    and "tb_get dl_pk 1 (db_deliveries assigned_db) = Some assigned_delivery"
    and "dl_dispatched_at assigned_delivery = None" and "dl_order assigned_delivery = 1"
    and "lines_of 1 assigned_db = [confirmed_line]" and "quantities_ok [confirmed_line]"
proof -
  obtain d where d: "dispatch_delivery sample_env sample_owner 1 '''' assigned_db = Inr (d, dispatched_db)"
    using succeedsE [OF sample_dispatch] unfolding dispatched_db_def .
  have q: "is_quantity (5 :: decimal)" using at_scale_of_int [of 3 5] by simp
  show ?thesis
    by (rule that [OF d])
      (simp_all add: assigned_db_def assigned_delivery_def confirmed_db_def confirmed_line_def lines_of_def
        tb_get_def quantities_ok_def q)
qed

theorem dispatch_issues_the_order_once_witness:
  "on_hand_expression None 1 dispatched_db = - 5"
proof -
  obtain d where d: "dispatch_delivery sample_env sample_owner 1 '''' assigned_db = Inr (d, dispatched_db)"
    and h: "tb_get dl_pk 1 (db_deliveries assigned_db) = Some assigned_delivery"
     "dl_dispatched_at assigned_delivery = None" "dl_order assigned_delivery = 1"
     "lines_of 1 assigned_db = [confirmed_line]" "quantities_ok [confirmed_line]"
    by (rule sample_dispatched)
  have q: "quantities_ok (lines_of (dl_order assigned_delivery) assigned_db)" using h(3-5) by simp
  have "on_hand_expression None 1 assigned_db = 0" by code_simp
  then show ?thesis
    using dispatch_issues_the_order_once [OF d h(1,2) q, of 1] h(3,4) by (simp add: units_of_def confirmed_line_def)
qed

text \<open>
  C14. A failed delivery brings everything back: a dispatch followed by its failure leaves the
  stock of every product as it was before the dispatch, not by undoing anything: for every line of the
  order one movement took the goods out and one more brings them back, both under the delivery and
  after all movements there were.  Neither writes a ledger entry.
\<close>

theorem failed_delivery_restores_stock:
  assumes "dispatch_delivery env user pk reason db = Inr (d, db1)"
    "tb_get dl_pk pk (db_deliveries db) = Some locked" "dl_dispatched_at locked = None"
    "dl_status locked = PENDING" "quantities_ok (lines_of (dl_order locked) db)"
    "fail_delivery env2 user2 pk why dev cu db1 = Inr (d2, db2)" "replay_of cu db1 = None"
  shows "on_hand_expression None k db2 = on_hand_expression None k db \<and> dl_status d2 = FAILED \<and>
    (\<exists>issued returned. tb_rows (db_movements db2) = tb_rows (db_movements db) @ issued @ returned \<and>
       moved_lines ''ISSUE'' (- 1) pk (lines_of (dl_order locked) db) issued \<and>
       moved_lines ''RETURN'' 1 pk (lines_of (dl_order locked) db) returned) \<and>
    db_cle db2 = db_cle db \<and> db_sle db2 = db_sle db"
proof -
  note D = dispatch_deliveryD [OF assms(1-3)]
  have p: "dl_status d = PENDING" "dl_order d = dl_order locked" using D(3) assms(4) by simp_all
  have f: "fail_locked env2 user2 d (strip why) dev cu db1 = Inr (d2, db2)"
    using assms(6,7) D(4) p(1) by (simp add: fail_delivery_cases)
  note F = fail_lockedD [OF f assms(7) D(4)]
  have ls: "lines_of (dl_order d) db1 = lines_of (dl_order locked) db"
    using shipping_frame_lines [OF D(2)] p(2) by simp
  obtain issued where "tb_rows (db_movements db1) = tb_rows (db_movements db) @ issued"
    "moved_lines ''ISSUE'' (- 1) pk (lines_of (dl_order locked) db) issued" using D(11) [OF assms(5)] by blast
  moreover obtain returned where "tb_rows (db_movements db2) = tb_rows (db_movements db1) @ returned"
    "moved_lines ''RETURN'' 1 pk (lines_of (dl_order locked) db) returned" using F(11) assms(5) unfolding ls by blast
  ultimately have "\<exists>issued returned. tb_rows (db_movements db2) = tb_rows (db_movements db) @ issued @ returned \<and>
       moved_lines ''ISSUE'' (- 1) pk (lines_of (dl_order locked) db) issued \<and>
       moved_lines ''RETURN'' 1 pk (lines_of (dl_order locked) db) returned" by (metis append_assoc)
  then show ?thesis
    using D(10) [OF assms(5)] F(1,3,10) assms(5) D(2) ls by (simp add: shipping_frame_def)
qed

theorem failed_delivery_restores_stock_witness:
  "on_hand_expression None 1 failed_db = on_hand_expression None 1 assigned_db \<and>
   (\<exists>issued returned. tb_rows (db_movements failed_db) = tb_rows (db_movements assigned_db) @ issued @ returned)"
proof -
  obtain d where d: "dispatch_delivery sample_env sample_owner 1 '''' assigned_db = Inr (d, dispatched_db)"
    and h: "tb_get dl_pk 1 (db_deliveries assigned_db) = Some assigned_delivery"
     "dl_dispatched_at assigned_delivery = None" "dl_order assigned_delivery = 1"
     "lines_of 1 assigned_db = [confirmed_line]" "quantities_ok [confirmed_line]"
    by (rule sample_dispatched)
  have q: "quantities_ok (lines_of (dl_order assigned_delivery) assigned_db)" using h(3-5) by simp
  have p: "dl_status assigned_delivery = PENDING" by (simp add: assigned_delivery_def)
  obtain d2 where f: "fail_delivery sample_env sample_owner 1 ''shop shut'' '''' (Some ''k1'') dispatched_db = Inr (d2, failed_db)"
    using succeedsE [OF sample_fail] unfolding failed_db_def .
  have r: "\<not> (\<exists>x \<in> set (tb_rows (db_deliveries dispatched_db)). dl_outcome_client_uuid x = Some ''k1'')" by code_simp
  have "replay_of (Some ''k1'') dispatched_db = None" using r by (simp add: replay_of_def tb_first_None)
  then show ?thesis using failed_delivery_restores_stock [OF d h(1,2) p q f] by blast
qed




section \<open>Money\<close>

text \<open>
  C16. Gapless statutory numbers: from books that are in order, whatever billing calls are made
  and whatever the rest of the system does in between, the invoices of a number series carry
  exactly the numbers from one to the counter's value, in the order they were issued, each once;
  so do the credit notes.
\<close>

theorem document_numbers_are_gapless:
  assumes "billing_step\<^sup>*\<^sup>* db db'" "billing_ok db" "s \<in> set (tb_rows (db_series db'))"
  shows "(ns_series_key s = ''INVOICE'' \<longrightarrow>
      map iv_invoice_number (filter (\<lambda>i. md_number_series i = ns_pk s) (tb_rows (db_invoices db')))
      = map (series_format s) [1..<Suc (ns_current_value s)]) \<and>
    (ns_series_key s = ''CREDIT_NOTE'' \<longrightarrow>
      map cn_credit_note_number (filter (\<lambda>n. md_number_series n = ns_pk s) (tb_rows (db_credit_notes db')))
      = map (series_format s) [1..<Suc (ns_current_value s)])"
  using billing_reachable_ok [OF assms(1,2)] assms(3)
  by (simp add: billing_ok_def numbers_ok_def gapless_for_def invoice_numbers_def credit_note_numbers_def
      filter_map comp_def del: upt_Suc)

theorem document_numbers_are_gapless_witness:
  "map iv_invoice_number (filter (\<lambda>i. md_number_series i = 1) (tb_rows (db_invoices credited_db))) = [''INV/25-26/00001'']"
proof -
  have k: "ns_series_key first_series = ''INVOICE''" "ns_pk first_series = 1" "ns_current_value first_series = 1"
    by (simp_all add: first_series_def)
  have "map iv_invoice_number (filter (\<lambda>i. md_number_series i = 1) (tb_rows (db_invoices credited_db)))
      = map (series_format first_series) [1..<Suc 1]"
    using document_numbers_are_gapless [OF sample_billing_steps sample_billing_ok first_series_row, unfolded k]
    by (simp only: simp_thms)
  also have "\<dots> = [series_format first_series 1]" by simp
  finally show ?thesis unfolding first_series_format .
qed

text \<open>
  C17. The books agree: in every state billing can reach, what the customer ledger holds against
  a customer under billing documents is the value of their invoices that stand less the value of
  their credit notes.  Cancelling leaves no debt standing and crediting leaves no credit behind.
\<close>

theorem books_agree_with_ledger:
  assumes "billing_step\<^sup>*\<^sup>* db db'" "billing_ok db"
  shows "sum_where (\<lambda>e. ce_source_type e \<in> {''INVOICE'', ''CREDIT_NOTE''} \<and> ce_customer e = c) ce_amount (tb_rows (db_cle db'))
    = sum_where (\<lambda>i. iv_status i \<noteq> IV_CANCELLED \<and> md_customer i = c) (\<lambda>i. da_total (md_amounts i)) (tb_rows (db_invoices db'))
      - sum_where (\<lambda>n. md_customer n = c) (\<lambda>n. da_total (md_amounts n)) (tb_rows (db_credit_notes db'))"
  using billing_reachable_ok [OF assms]
  by (simp add: billing_ok_def books_agree_def billing_balance_def billing_entry_def live_invoices_total_def
      credit_notes_total_def doc_total_def [abs_def])

theorem books_agree_with_ledger_witness:
  "sum_where (\<lambda>e. ce_source_type e \<in> {''INVOICE'', ''CREDIT_NOTE''} \<and> ce_customer e = 1) ce_amount (tb_rows (db_cle credited_db)) = 339"
proof -
  have "sum_where (\<lambda>i. iv_status i \<noteq> IV_CANCELLED \<and> md_customer i = 1) (\<lambda>i. da_total (md_amounts i)) (tb_rows (db_invoices credited_db)) = 566"
    by code_simp
  moreover have "sum_where (\<lambda>n. md_customer n = 1) (\<lambda>n. da_total (md_amounts n)) (tb_rows (db_credit_notes credited_db)) = 227"
    by code_simp
  ultimately show ?thesis using books_agree_with_ledger [OF sample_billing_steps sample_billing_ok, of 1] by simp
qed

text \<open>
  C18. Credits stay within the invoice: in every state billing can reach, no invoice is credited
  beyond its value, no credit note stands against a cancelled invoice, each note names a customer
  of its invoice, and no order is billed twice.
\<close>

theorem credits_stay_within_invoices:
  assumes "billing_step\<^sup>*\<^sup>* db db'" "billing_ok db"
  shows "list_all (\<lambda>i. credited_total (iv_pk i) db' \<le> da_total (md_amounts i) \<and>
      (iv_status i = IV_CANCELLED \<longrightarrow> credited_total (iv_pk i) db' = 0)) (tb_rows (db_invoices db')) \<and>
    list_all (\<lambda>n. list_ex (\<lambda>i. iv_pk i = cn_invoice n \<and> md_customer i = md_customer n) (tb_rows (db_invoices db')))
      (tb_rows (db_credit_notes db')) \<and>
    distinct (filter (\<lambda>k. k \<noteq> None) (map iv_sales_order (tb_rows (db_invoices db'))))"
proof -
  note ok = billing_reachable_ok [OF assms]
  have wf: "documents_wf db'" "credits_ok db'" "orders_billed_once db'" using ok by (simp_all add: billing_ok_def)
  have "credited (iv_pk i) db' = 0"
    if i: "i \<in> set (tb_rows (db_invoices db'))" "iv_status i = IV_CANCELLED" for i
  proof -
    have "cn_invoice n \<noteq> iv_pk i" if "n \<in> set (tb_rows (db_credit_notes db'))" for n
      using that i wf table_wf_inj [of iv_pk "db_invoices db'" i]
      unfolding credits_ok_def documents_wf_def by force
    then have "credited (iv_pk i) db' = sum_where (\<lambda>n. False) doc_total (tb_rows (db_credit_notes db'))"
      unfolding credited_def by (intro sum_where_cong) simp
    then show ?thesis by (simp add: sum_where_def)
  qed
  then show ?thesis
    using wf by (force simp: credited_total_eq credits_ok_def orders_billed_once_def list_all_iff list_ex_iff doc_total_def)
qed

theorem credits_stay_within_invoices_witness:
  "credited_total 1 credited_db \<le> 566"
proof -
  have "list_ex (\<lambda>i. iv_pk i = 1 \<and> da_total (md_amounts i) = 566) (tb_rows (db_invoices credited_db))" by code_simp
  then obtain i where i: "i \<in> set (tb_rows (db_invoices credited_db))" "iv_pk i = 1" "da_total (md_amounts i) = 566"
    by (auto simp: list_ex_iff)
  then show ?thesis
    using credits_stay_within_invoices [OF sample_billing_steps sample_billing_ok] by (auto simp: list_all_iff)
qed

text \<open>
  C19. An invoice states its order to the paisa: when a new invoice is issued, its subtotal,
  discount and tax are the sums of the order's line snapshots, the tax is either IGST or the
  CGST and SGST pair and never both, the total is the whole number of rupees nearest to
  taxable plus tax with the difference stated on the document, and the ledger receives exactly
  that total, while no stock, order or master row changes.
\<close>

theorem invoice_states_its_order:
  assumes "issue_invoice env user pk idate cu db = Inr (i, db')" "i \<notin> set (tb_rows (db_invoices db))"
    and "series_ok (db_series db)" "list_all line_wf (lines_of pk db)"
  shows "let a = md_amounts i; t = da_tax a; ls = lines_of pk db in
    da_subtotal a = sum_list (map gross_of ls) \<and> da_discount a = sum_list (map ol_discount_amount ls) \<and>
    da_taxable a = da_subtotal a - da_discount a \<and> tax_total t = sum_list (map ol_tax_amount ls) \<and>
    (tx_igst t = 0 \<or> tx_cgst t = 0 \<and> tx_sgst t = 0) \<and>
    da_total a = da_taxable a + tax_total t + da_round_off a \<and> \<bar>da_round_off a\<bar> \<le> 1/2 \<and> at_scale 0 (da_total a) \<and>
    (\<exists>e. tb_rows (db_cle db') = tb_rows (db_cle db) @ [e] \<and> ce_amount e = da_total a \<and> ce_source_id e = Some (iv_pk i)) \<and>
    billing_frame db db'"
proof -
  obtain ord d where b: "bill_order env user ord (lines_of pk db) d cu db = Inr (i, db')"
    using issue_new_invoice [OF assms(1,2)] by blast
  from bill_orderD [OF b assms(3)] show ?thesis
  proof cases
    case (1 s cust intra e new)
    have "md_amounts i = order_amounts (lines_of pk db) intra" by (subst 1(6)) (simp add: new_invoice_def)
    note O = order_amounts_exact [OF assms(4) [unfolded list_all_iff] this]
    show ?thesis using O(1-4,6-9) 1(13,16,18,23) unfolding Let_def gst_split_ok_def by blast
  qed
qed

theorem invoice_states_its_order_witness:
  "\<exists>i. issue_invoice sample_env sample_owner 1 None (Some ''b1'') shipped_db = Inr (i, billed_db) \<and>
     da_total (md_amounts i) = 2832/5 + da_round_off (md_amounts i)"
proof -
  obtain i where i: "issue_invoice sample_env sample_owner 1 None (Some ''b1'') shipped_db = Inr (i, billed_db)"
    by (rule sample_issue_obtain)
  have h: "i \<notin> set (tb_rows (db_invoices shipped_db))" "series_ok (db_series shipped_db)"
    using sample_billing_ok by (simp_all add: shipped_empty billing_ok_def numbers_ok_def)
  have l: "list_all line_wf (lines_of 1 shipped_db)" "sum_list (map gross_of (lines_of 1 shipped_db)) = 500"
    "sum_list (map ol_discount_amount (lines_of 1 shipped_db)) = 20" "sum_list (map ol_tax_amount (lines_of 1 shipped_db)) = 432/5"
    by code_simp+
  show ?thesis
    using invoice_states_its_order [OF i h l(1)] i l(2-4) by (intro exI [of _ i]) (simp add: Let_def)
qed

text \<open>
  C20. Billing moves an order's value between the two terms of the customer's exposure and counts
  it in neither twice: a new invoice for an order that is not settled yet changes the credit
  exposure by the invoice's rounding alone.
\<close>

theorem invoicing_moves_only_the_rounding:
  assumes "issue_invoice env user pk idate cu db = Inr (i, db')" "i \<notin> set (tb_rows (db_invoices db))"
    and "series_ok (db_series db)" "orders_ok db" "list_all line_wf (lines_of pk db)"
    and "get_order pk db = Inr ord" "totals_ok ord db" "pk \<notin> set (settled_order_ids (so_customer ord) db)"
  shows "credit_exposure (so_customer ord) db' = credit_exposure (so_customer ord) db + da_round_off (md_amounts i)"
proof -
  obtain d where b: "bill_order env user ord (lines_of pk db) d cu db = Inr (i, db')"
    and live: "so_status ord \<in> set LIVE_STATUSES"
    using issue_new_invoice [OF assms(1,2)] assms(6) by (force simp: LIVE_STATUSES_def)
  have o: "so_pk ord = pk" "ord \<in> set (tb_rows (db_orders db))"
    using get_orderD [OF assms(6)] by (auto simp: row_of_def dest: tb_getD)
  have "md_amounts i = order_amounts (lines_of pk db) (by_state_code (md_buyer i) = sl_state_code (md_seller i))"
  proof (cases rule: bill_orderD [OF b assms(3)])
    case (1 s cust intra e new)
    show ?thesis using arg_cong [OF 1(6), of md_amounts] 1(3) by (simp add: new_invoice_def)
  qed
  note A = order_amounts_exact(5) [OF assms(5) [unfolded list_all_iff] this]
  show ?thesis
    using invoice_moves_exposure [OF b assms(3,4) o(2) live] assms(7,8) o(1) A
    by (simp add: doc_total_def totals_ok_def Let_def)
qed

theorem invoicing_moves_only_the_rounding_witness:
  "\<exists>i. issue_invoice sample_env sample_owner 1 None (Some ''b1'') shipped_db = Inr (i, billed_db) \<and>
     credit_exposure 1 billed_db = credit_exposure 1 shipped_db + da_round_off (md_amounts i)"
proof -
  obtain i where i: "issue_invoice sample_env sample_owner 1 None (Some ''b1'') shipped_db = Inr (i, billed_db)"
    by (rule sample_issue_obtain)
  define ord where "ord = hd (tb_rows (db_orders shipped_db))"
  have h: "i \<notin> set (tb_rows (db_invoices shipped_db))" "series_ok (db_series shipped_db)"
    using sample_billing_ok by (simp_all add: shipped_empty billing_ok_def numbers_ok_def)
  have c: "orders_ok shipped_db" "list_all line_wf (lines_of 1 shipped_db)" "get_order 1 shipped_db = Inr ord"
    "totals_ok ord shipped_db" "1 \<notin> set (settled_order_ids (so_customer ord) shipped_db)" "so_customer ord = 1"
    unfolding ord_def by code_simp+
  show ?thesis using invoicing_moves_only_the_rounding [OF i h c(1-5)] i c(6) by auto
qed

text \<open>
  C21. The amount in words determines the amount: reading the words of a whole number back gives
  the number, so no two amounts of rupees are printed alike.
\<close>

theorem words_read_back:
  "read_words (in_words n) = n \<and> (in_words m = in_words n \<longleftrightarrow> m = n)"
  by (metis in_words_read)

text \<open>
  C22. A line's money is exact at the line: every amount of a computed line has two decimals, the
  taxable amount is gross less discount, the total taxable plus tax, the discount is not above
  the owner's percentage of the gross, and for a valid profile and product nothing is negative.
\<close>

theorem line_money_is_sound:
  assumes "compute_line p q c d db = Inr (l, db')" "profile_constraints (profile_of db)" "product_constraints p" "0 \<le> q"
  shows "line_ok l q \<and> la_discount_amount l \<le> fst (max_discount_amount (la_gross_amount l) db) \<and>
    0 \<le> la_taxable_amount l \<and> 0 \<le> la_tax_amount l \<and> 0 \<le> la_line_total l"
  using compute_line_line_ok(1,2) [OF assms(1)] compute_line_nonneg [OF assms] by blast

theorem line_money_is_sound_witness:
  "\<exists>l db. compute_line sample_product 5 None 20 sample_db = Inr (l, db) \<and> line_ok l 5 \<and> 0 \<le> la_line_total l"
proof -
  have h: "profile_constraints (profile_of sample_db)" "product_constraints sample_product"
    by code_simp+
  have "succeeds (compute_line sample_product 5 None 20 sample_db)" by code_simp
  then obtain l db where l: "compute_line sample_product 5 None 20 sample_db = Inr (l, db)"
    by (auto simp: succeeds_def split: sum.splits)
  then show ?thesis using line_money_is_sound [OF l h] by auto
qed

section \<open>Supplies\<close>

text \<open>
  C23. Payables are receipts less payments: in every state purchasing can reach, what is owed to a
  supplier is its opening balance, plus the totals of the goods received on its orders, less its
  payments that were not reversed.
\<close>

theorem payables_are_receipts_less_payments:
  assumes "purchase_step\<^sup>*\<^sup>* db db'" "purchasing_ok db" "payables_ok db"
  shows "supplier_balance s None db' = openings_total s db' + receipts_total s db' - paid_total s db'"
  using purchases_reachable_ok [OF assms] by (simp add: payables_ok_def)

theorem payables_are_receipts_less_payments_witness:
  "supplier_balance 1 None remitted_db = openings_total 1 remitted_db + receipts_total 1 remitted_db - paid_total 1 remitted_db \<and>
   supplier_balance 1 None remitted_db = 154"
proof -
  have "supplier_balance 1 None remitted_db = 154" by code_simp
  then show ?thesis
    using payables_are_receipts_less_payments [OF supply_reaches(2) supplied_ok(1,2), of 1] by simp
qed



text \<open>
  C25. Over-receipt is bounded: whatever is received in however many receipts, the total received of
  an ordered line never passes what the business profile tolerates above the quantity ordered.
\<close>

theorem received_within_tolerance:
  assumes "purchase_step\<^sup>*\<^sup>* db db'" "purchasing_ok db" "payables_ok db" "u \<in> set (tb_rows (db_purchase_lines db'))"
  shows "received_get (received_quantities (ul_purchase_order u) db') (ul_pk u)
    \<le> acceptance_limit (ul_quantity_ordered u) (to_percent (bp_over_receipt_tolerance_percent (profile_of db')))"
proof -
  have ok: "purchasing_ok db'" using purchases_reachable_ok [OF assms(1-3)] by blast
  then have "received_get (received_quantities (ul_purchase_order u) db') (ul_pk u) = received_total (ul_pk u) db'"
    using received_get_total [OF _ _ assms(4)] by (simp add: purchasing_ok_def)
  then show ?thesis using ok assms(4) by (simp add: purchasing_ok_def tolerance_def)
qed

theorem received_within_tolerance_witness:
  "received_get (received_quantities 1 received_db) 1 = 6 \<and>
   received_get (received_quantities 1 received_db) 1 \<le> acceptance_limit 10 0"
proof -
  let ?u = "hd (tb_rows (db_purchase_lines received_db))"
  have "tb_rows (db_purchase_lines received_db) \<noteq> []" by code_simp
  then have u: "?u \<in> set (tb_rows (db_purchase_lines received_db))" by simp
  have "(let db = received_db; u = hd (tb_rows (db_purchase_lines db)) in
      (ul_pk u, ul_purchase_order u, ul_quantity_ordered u, received_get (received_quantities 1 db) 1)) = (1, 1, 10, 6)"
    by code_simp
  moreover have "to_percent (bp_over_receipt_tolerance_percent (profile_of received_db)) = 0" by code_simp
  ultimately have c: "ul_pk ?u = 1" "ul_purchase_order ?u = 1" "ul_quantity_ordered ?u = 10"
    "received_get (received_quantities 1 received_db) 1 = 6"
    "to_percent (bp_over_receipt_tolerance_percent (profile_of received_db)) = 0"
    unfolding Let_def by simp_all
  show ?thesis
    using received_within_tolerance [OF supply_reaches(1) supplied_ok(1,2) u] unfolding c by simp
qed

text \<open>
  C26. A receipt moves stock and debt together: of every product as much comes on hand as the lines
  of the receipt say, the debt to the order's supplier grows by the value of those lines, which is
  the receipt's total, no other supplier's does, and no customer's ledger moves.
\<close>

theorem receipt_moves_stock_and_debt:
  assumes "create_goods_receipt env user q db = Inr ((g, p'), db')"
  shows "on_hand_expression None k db' = on_hand_expression None k db +
      sum_where (\<lambda>r. ul_product (ri_purchase_order_line r) = k) (\<lambda>r. to_quantity (ri_quantity_received r)) (rr_lines q) \<and>
    supplier_balance s None db' = supplier_balance s None db +
      (if pu_supplier (rr_purchase_order q) = s then sum_list (map receipt_value (rr_lines q)) else 0) \<and>
    gr_total_amount g = sum_list (map receipt_value (rr_lines q)) \<and> db_cle db' = db_cle db"
  by (rule create_goods_receipt_effect [OF assms])

theorem receipt_moves_stock_and_debt_witness:
  "on_hand_expression None 1 received_db = on_hand_expression None 1 issued_db + 6 \<and>
   supplier_balance 1 None received_db = supplier_balance 1 None issued_db + 354"
proof -
  obtain r where "create_goods_receipt sample_env sample_owner (sample_arrival 6 issued_db) issued_db = Inr (r, received_db)"
    using succeedsE [OF sample_receive] unfolding received_db_def .
  then obtain g p where R: "create_goods_receipt sample_env sample_owner (sample_arrival 6 issued_db) issued_db = Inr ((g, p), received_db)"
    by (cases r) simp
  have c: "pu_supplier (rr_purchase_order (sample_arrival 6 issued_db)) = 1"
    "sum_list (map receipt_value (rr_lines (sample_arrival 6 issued_db))) = 354"
    "sum_where (\<lambda>r. ul_product (ri_purchase_order_line r) = 1) (\<lambda>r. to_quantity (ri_quantity_received r))
       (rr_lines (sample_arrival 6 issued_db)) = 6"
    by code_simp+
  show ?thesis using receipt_moves_stock_and_debt [OF R, of 1 1] unfolding c by simp
qed

text \<open>
  C27. A product has at most one preferred supplier, whatever is linked, preferred and unlinked in
  whatever order; and a link made as the preferred one is the preferred one afterwards.
\<close>

theorem one_preferred_supplier:
  assumes "link_step\<^sup>*\<^sup>* db db'" "links_ok db"
  shows "length (preferred_links k db') \<le> 1 \<and>
    (link_product_supplier env user s p sku True db' = Inr (l, db'') \<longrightarrow> map ps_supplier (preferred_links p db'') = [s])"
  using links_reachable_ok [OF assms] preferred_at_most_one link_product_supplierD(4) [of env user s p sku True db' l db'' p]
  by auto

definition linked_db :: purchasing_db where
  "linked_db = after (link_product_supplier sample_env sample_owner 1 1 ''A'' True supplied_db) empty_purchasing_db"

theorem one_preferred_supplier_witness:
  "map ps_supplier (preferred_links 1 linked_db) = [1] \<and> length (preferred_links 1 linked_db) \<le> 1"
proof -
  have "succeeds (link_product_supplier sample_env sample_owner 1 1 ''A'' True supplied_db)" by code_simp
  then obtain l where l: "link_product_supplier sample_env sample_owner 1 1 ''A'' True supplied_db = Inr (l, linked_db)"
    unfolding linked_db_def by (rule succeedsE)
  have "link_step\<^sup>*\<^sup>* supplied_db supplied_db" by simp
  from one_preferred_supplier [OF this supplied_ok(4)] l show ?thesis by fastforce
qed

text \<open>
  C28. A supplier is paid once per submission: posted any number of times, a payment answers with
  the payment of the first attempt, and any other acceptable request under the same submission
  id is answered with that payment when it says the same and refused when it does not.
\<close>

theorem submissions_pay_once:
  assumes "record_supplier_payment env user q db = Inr (p, db')"
  shows "pay.retry n (env, user, q) db = Inr (p, db') \<and>
    (payment_accepted user' q' \<and> yq_submission_id q' = yq_submission_id q \<longrightarrow>
       record_supplier_payment env' user' q' db' =
         (if says_the_same q' p then Inr (p, db') else Inl (invalid ''submission_id'' ''SUBMISSION_REPLAYED_WITH_CHANGES'')))"
  using changed_submission_refused [OF assms] pay.any_number_of_retries [of "(env, user, q)" db p db'] assms by simp

theorem submissions_pay_once_witness:
  "\<exists>p. record_supplier_payment sample_env sample_owner (sample_remittance\<lparr>yq_amount := 200\<rparr>) remitted_db = Inr (p, remitted_db) \<and>
     record_supplier_payment sample_env sample_owner (sample_remittance\<lparr>yq_amount := 300\<rparr>) remitted_db =
       Inl (invalid ''submission_id'' ''SUBMISSION_REPLAYED_WITH_CHANGES'')"
proof -
  obtain p where p: "record_supplier_payment sample_env sample_owner sample_remittance received_db = Inr (p, remitted_db)"
    using succeedsE [OF sample_remit] unfolding remitted_db_def .
  have a: "payment_accepted sample_owner (sample_remittance\<lparr>yq_amount := k\<rparr>)" if "k \<in> {200, 300}" for k
  proof -
    have "payment_accepted sample_owner (sample_remittance\<lparr>yq_amount := 200\<rparr>)"
      "payment_accepted sample_owner (sample_remittance\<lparr>yq_amount := 300\<rparr>)" by code_simp+
    then show ?thesis using that by blast
  qed
  have same: "says_the_same (sample_remittance\<lparr>yq_amount := 200\<rparr>) p"
    using recorded_submission(2) [OF p] by (simp add: sample_remittance_def)
  have "to_money 300 \<noteq> to_money (200 :: decimal)" by code_simp
  then have other: "\<not> says_the_same (sample_remittance\<lparr>yq_amount := 300\<rparr>) p"
    using recorded_submission(2) [OF p] by (auto simp: says_the_same_def sample_remittance_def request_payload_def)
  show ?thesis
    using submissions_pay_once [OF p, of 0 sample_owner "sample_remittance\<lparr>yq_amount := 200\<rparr>" sample_env]
      submissions_pay_once [OF p, of 0 sample_owner "sample_remittance\<lparr>yq_amount := 300\<rparr>" sample_env]
      a same other by (simp add: sample_remittance_def)
qed

text \<open>
  C29. Life cycles guard the caller's copy, not the row: whatever became of the rows in the meantime,
  confirming a sales order from a copy read as PLACED makes it CONFIRMED, also when it was
  cancelled, and cancelling a purchase order from a copy read as a draft or as issued makes it
  CANCELLED, also when goods arrived for it.
\<close>

theorem stale_copies_overwrite:
  assumes "has_role user [OWNER]"
    "so_status ord = PLACED" "\<forall>r \<in> set (tb_rows (db_orders db)). order_constraints r"
    "pu_status p \<in> {PO_DRAFT, PO_ISSUED}" "strip reason \<noteq> ''''" "\<forall>r \<in> set (tb_rows (db_purchase_orders pdb)). po_constraints r"
  shows "(\<exists>ord' db'. confirm_order env user ord db = Inr (ord', db') \<and>
      (\<forall>r \<in> set (tb_rows (db_orders db')). so_pk r = so_pk ord \<longrightarrow> so_status r = CONFIRMED)) \<and>
    (\<exists>p' db'. cancel_purchase_order env user p reason pdb = Inr (p', db') \<and> db_receipt_lines db' = db_receipt_lines pdb \<and>
      (\<forall>r \<in> set (tb_rows (db_purchase_orders db')). pu_pk r = pu_pk p \<longrightarrow> pu_status r = PO_CANCELLED))"
  using confirm_writes_blindly [OF assms(1-3)] cancel_writes_blindly [OF assms(1,5,4,6)] by blast

definition cancelled_db :: fulfilment_db where
  "cancelled_db = confirmed_db\<lparr>db_orders := \<lparr>tb_seq = 2, tb_rows =
     [confirmed_order\<lparr>so_status := CANCELLED, so_cancelled_reason := ''shut''\<rparr>]\<rparr>\<rparr>"

theorem stale_copies_overwrite_witness:
  "map so_status (tb_rows (db_orders cancelled_db)) = [CANCELLED] \<and>
   (\<exists>ord db. confirm_order sample_env sample_owner placed_order cancelled_db = Inr (ord, db)) \<and>
   map pu_status (tb_rows (db_purchase_orders received_db)) = [PO_PARTIALLY_RECEIVED] \<and>
   (\<exists>p db. cancel_purchase_order sample_env sample_owner (sample_po issued_db) ''late'' received_db = Inr (p, db) \<and>
      (\<forall>r \<in> set (tb_rows (db_purchase_orders db)). pu_pk r = pu_pk (sample_po issued_db) \<longrightarrow> pu_status r = PO_CANCELLED))"
proof -
  have "has_role sample_owner [OWNER]" "so_status placed_order = PLACED" by code_simp+
  moreover have "list_all order_constraints (tb_rows (db_orders cancelled_db))"
    "list_all po_constraints (tb_rows (db_purchase_orders received_db))" by code_simp+
  moreover have "pu_status (sample_po issued_db) = PO_ISSUED" "strip ''late'' \<noteq> ''''" by code_simp+
  moreover have "map so_status (tb_rows (db_orders cancelled_db)) = [CANCELLED]"
    "map pu_status (tb_rows (db_purchase_orders received_db)) = [PO_PARTIALLY_RECEIVED]" by code_simp+
  ultimately show ?thesis
    using stale_copies_overwrite [where user = sample_owner and ord = placed_order and db = cancelled_db
        and p = "sample_po issued_db" and reason = "''late''" and pdb = received_db and env = sample_env]
    unfolding list_all_iff by simp blast
qed


section \<open>Going live\<close>

text \<open>
  C30. The import of opening balances can be run again after whatever happened to an owner's run: it
  has gone past some rows of the file and, if it failed, stopped at the next without a write.  The
  same file run again with the same options, by the same or another owner, is read as it was, passes
  over the rows gone past without loading any, and ends as a run over the rest of them would.
\<close>

theorem opening_import_resumes:
  assumes "import_owner phone db = Inr user" "has_role user [OWNER]" "read_file user db file = Inr (rows, refusals)"
    "refusals = [] \<or> allow_partial" "import_owner phone2 db = Inr user2" "has_role user2 [OWNER]"
    "load_opening_balances env (Some file) phone True allow_partial db = (res, rep, db')"
  shows "\<exists>xs ys t1 t3. rows = xs @ ys \<and> load_rows env user True xs (\<lambda>_. no_tally) db = (Inr t1, db') \<and>
    (ys \<noteq> [] \<longrightarrow> (\<exists>e. res = Inl e \<and> load_rows env user True [hd ys] t1 db' = (Inl e, db'))) \<and>
    loaded_none t3 \<and> same_sums t1 t3 \<and>
    load_opening_balances env2 (Some file) phone2 True allow_partial db' =
      finish_import True allow_partial refusals (load_rows env2 user2 True ys t3 db')"
proof -
  obtain lres where l: "load_rows env user True rows (\<lambda>_. no_tally) db = (lres, db')" "\<forall>e. lres = Inl e \<longrightarrow> res = Inl e"
    "load_opening_balances env2 (Some file) phone2 True allow_partial db' =
      finish_import True allow_partial refusals (load_rows env2 user2 True rows (\<lambda>_. no_tally) db')"
    using same_file_again [OF assms] by blast
  obtain xs ys t1 t3 where x: "rows = xs @ ys" "load_rows env user True xs (\<lambda>_. no_tally) db = (Inr t1, db')"
    "case lres of Inr t' \<Rightarrow> ys = [] \<and> t' = t1 | Inl e \<Rightarrow> ys \<noteq> [] \<and> load_rows env user True [hd ys] t1 db' = (Inl e, db')"
    "loaded_none t3" "same_sums t1 t3"
    "\<forall>env2 user2. load_rows env2 user2 True rows (\<lambda>_. no_tally) db' = load_rows env2 user2 True ys t3 db'"
    using import_again [OF l(1)] by (elim exE conjE) (rule that)
  have "ys \<noteq> [] \<longrightarrow> (\<exists>e. res = Inl e \<and> load_rows env user True [hd ys] t1 db' = (Inl e, db'))"
    using x(3) l(2) by (cases lres) simp_all
  moreover have "load_opening_balances env2 (Some file) phone2 True allow_partial db' =
      finish_import True allow_partial refusals (load_rows env2 user2 True ys t3 db')"
    unfolding l(3) x(6) [rule_format] by (rule refl)
  ultimately show ?thesis using x(1,2,4,5) by blast
qed

theorem opening_import_resumes_witness:
  "\<exists>(db' :: purchasing_db) e ys t3. ys \<noteq> [] \<and> loaded_none t3 \<and> map ce_amount (tb_rows (db_cle db')) = [4500] \<and>
     load_opening_balances sample_env (Some (opening_file ''0.004'')) ''9000000000'' True False opening_db = (Inl e, None, db') \<and>
     load_opening_balances sample_env (Some (opening_file ''0.004'')) ''9000000000'' True False db' =
       finish_import True False [] (load_rows sample_env sample_owner True ys t3 db')"
proof -
  obtain e db' where l: "load_rows sample_env sample_owner True (opening_rows ''0.004'') (\<lambda>_. no_tally) opening_db = (Inl e, db')"
    "map ce_amount (tb_rows (db_cle db')) = [4500]" by (rule opening_interrupted)
  have "all_accepted ''0.004''" by code_simp
  note read = opening_rows_read [OF this]
  have run: "load_opening_balances sample_env (Some (opening_file ''0.004'')) ''9000000000'' True False opening_db = (Inl e, None, db')"
    by (simp add: load_opening_balances_def finish_import_def opening_owner read l(1))
  obtain xs ys t1 t3 where x: "opening_rows ''0.004'' = xs @ ys"
    "load_rows sample_env sample_owner True xs (\<lambda>_. no_tally) opening_db = (Inr t1, db')" "loaded_none t3"
    "load_opening_balances sample_env (Some (opening_file ''0.004'')) ''9000000000'' True False db' =
       finish_import True False [] (load_rows sample_env sample_owner True ys t3 db')"
    using opening_import_resumes [OF opening_owner read disjI1 [OF refl] opening_owner run, of sample_env]
    by (elim exE conjE) (rule that)
  have ys: "ys \<noteq> []"
  proof
    assume "ys = []"
    then have "xs = opening_rows ''0.004''" using x(1) by simp
    then show False using x(2) l(1) by simp
  qed
  show ?thesis
    by (rule exI [of _ db'], rule exI [of _ e], rule exI [of _ ys], rule exI [of _ t3])
      (intro conjI, fact ys, fact x(3), fact l(2), fact run, fact x(4))
qed

text \<open>
  C31. Let no line of a file be refused, every amount be a finite number that rounded to paise is
  neither zero nor as large as \<open>10 ^ 12\<close> (any other stops the run or crashes it), and the lines be
  fewer than \<open>10 ^ 13\<close>.  On ledgers without entries it is loaded completely when an owner commits it:
  every party then owes what its line says, to the paisa; for each class of parties figure A is the
  sum of the lines as they stand, carried to 28 digits, and figures B and C are the exact sum of the
  rounded ones; and the report is signed off exactly when for both classes A is B, as it always is
  when the amounts are in whole paise.
\<close>

theorem opening_import_signs_off:
  assumes "import_owner phone db = Inr user" "has_role user [OWNER]" "read_file user db file = Inr (rows, [])"
    and "table_wf cu_pk (db_customers db)" "table_wf sp_pk (db_suppliers db)" "tb_rows (db_cle db) = []" "tb_rows (db_sle db) = []"
    and "\<And>r. r \<in> set rows \<Longrightarrow> \<exists>x. rw_amount r = Finite x \<and> to_money x \<noteq> 0 \<and> \<bar>to_money x\<bar> < 10 ^ 12"
    and "length rows < 10 ^ 13"
  shows "\<exists>rep db'. load_opening_balances env (Some file) phone True allow_partial db =
      (if sums_exact rows then Inr () else Inl Not_Reconciled, Some rep, db') \<and>
    (signed_off rep \<longleftrightarrow> sums_exact rows) \<and>
    or_tallies rep = Some (\<lambda>p. clean_tally (rows_of p rows)) \<and>
    (\<forall>r \<in> set rows. subject_balance (rw_subject r) db' = money_of r) \<and>
    (list_all (\<lambda>r. is_money (amount_of r)) rows \<longrightarrow> sums_exact rows)"
  by (rule clean_import [OF assms])

theorem opening_import_signs_off_witness:
  "(\<exists>rep db'. load_opening_balances sample_env (Some (opening_file ''-1200'')) ''9000000000'' True False opening_db = (Inr (), Some rep, db') \<and>
     signed_off rep) \<and>
   (\<exists>rep db'. load_opening_balances sample_env (Some (opening_file ''1200.005'')) ''9000000000'' True False opening_db =
     (Inl Not_Reconciled, Some rep, db') \<and> \<not> signed_off rep)"
proof -
  have tables: "table_wf cu_pk (db_customers opening_db)" "table_wf sp_pk (db_suppliers opening_db)"
    "tb_rows (db_cle opening_db) = []" "tb_rows (db_sle opening_db) = []" by code_simp+
  have run: "\<exists>rep db'. load_opening_balances sample_env (Some (opening_file a)) ''9000000000'' True False opening_db =
      (if sums_exact (opening_rows a) then Inr () else Inl Not_Reconciled, Some rep, db') \<and>
      (signed_off rep \<longleftrightarrow> sums_exact (opening_rows a))"
    if a: "all_accepted a" "list_all some_money (opening_rows a)" "length (opening_rows a) = 2" for a
  proof -
    note money = some_moneyD [OF a(2)]
    have few: "length (opening_rows a) < 10 ^ 13" by (simp add: a(3))
    from opening_import_signs_off [OF opening_owner opening_rows_read [OF a(1)] tables money few, of sample_env False]
    show ?thesis by blast
  qed
  show ?thesis using run [OF opening_files(1,2) opening_files_length(1)] run [OF opening_files(4,5) opening_files_length(2)] opening_files(3,6) by simp
qed

section \<open>Devices\<close>

text \<open>
  C32. Zero loss, zero duplicates: a push that is cut off anywhere, before or after the receipt of an
  operation or even after its effect, and as often as may be, ends when it is sent again where the
  undisturbed push would have ended.  What had its verdict before is answered as a repeat, the
  rest with the verdicts of the undisturbed push, and any further repeat changes nothing.
\<close>

theorem pushes_lose_nothing:
  assumes "process_push env user dev (ps @ q # qs) db = (Inr zs, db')" "process_all env user dev ps db = (Inr xs, db0)"
    "(cut_off env user dev q)\<^sup>*\<^sup>* db0 db1" "sync_ok db" "on_client_uuid q \<noteq> ''''"
  shows "process_push env user dev (ps @ q # qs) db1 = (Inr (map as_repeat xs @ drop (length ps) zs), db') \<and>
    process_push env' user' dev' (ps @ q # qs) db' = (Inr (map as_repeat zs), db')"
  using push_resumed [OF assms] push_again [OF assms(1,4)] by blast

theorem pushes_lose_nothing_witness:
  "\<exists>zs db'. pushed [visit_op, handover_op] device_db = (Inr zs, db') \<and> snd (pushed [visit_op, handover_op] handed_db) = db' \<and>
     fst (pushed [visit_op, handover_op] db') = Inr (map as_repeat zs)"
proof -
  obtain zs db' where zs: "pushed [visit_op, handover_op] device_db = (Inr zs, db')"
    using device_push by (cases "pushed [visit_op, handover_op] device_db") (auto simp: succeeds_def split: sum.splits)
  obtain xs where xs: "process_all sample_env sample_owner ''d1'' [visit_op] device_db = (Inr xs, visited_db)"
    using device_visit by (cases "process_all sample_env sample_owner ''d1'' [visit_op] device_db")
      (auto simp: visited_db_def succeeds_def split: sum.splits)
  have "process_push sample_env sample_owner ''d1'' ([visit_op] @ handover_op # []) device_db = (Inr zs, db')"
    using zs by (simp add: pushed_def)
  from pushes_lose_nothing [OF this xs device_cut_off_many device_ok, of sample_env sample_owner "''d1''"]
  show ?thesis using zs by (simp add: pushed_def handover_op_def)
qed

text \<open>
  C33. A completion with its time never lands: take a completion that would go through without the
  time the mobile client puts into it, of a delivery still to be completed.  With the time, the
  batch that starts with it fails whenever it is pushed, the operation gets no verdict, no
  delivery is changed, and nothing behind it is looked at.
\<close>

theorem timed_completions_never_land:
  assumes "on_operation_type q = ''DELIVERY_COMPLETE''" "pd_delivered_at (on_payload q) = Given t"
    "pd_delivery_id (on_payload q) = Given k" "tb_get dl_pk k (db_deliveries db) = Some d" "dl_status d = PENDING"
    "replay_of (Some (on_client_uuid q)) db = None" "handle_delivery_complete env user dev (untimed q) db = Inr y"
    "sync_ok db" "find_operation (on_client_uuid q) db = None" "insert_operation env user dev q db = Inr (r, db1)"
    "length (q # qs) \<le> MAX_BATCH"
  shows "fst (process_push env user dev (q # qs) (((\<lambda>db. snd (process_push env user dev (q # qs) db)) ^^ n) db)) =
      Inl (PyError ''AttributeError'') \<and>
    ((\<lambda>db. snd (process_push env user dev (q # qs) db)) ^^ n) db \<in> {db, db1} \<and>
    op_state r = OP_RECEIVED \<and> db1 = db\<lparr>db_operations := db_operations db1\<rparr>"
  using breaks_forever [OF good_completion_breaks [OF assms(1-7)] assms(8-11), where n = n]
    insertion_only_notes [OF assms(10)] by blast

theorem timed_completions_never_land_witness:
  "fst (pushed [timed_op, visit_op] (((\<lambda>db. snd (pushed [timed_op, visit_op] db)) ^^ 3) device_db)) = Inl (PyError ''AttributeError'')"
proof -
  obtain d where d: "tb_get dl_pk 1 (db_deliveries device_db) = Some d" "dl_status d = PENDING" using device_delivery by auto
  obtain y where y: "handle_delivery_complete sample_env sample_owner ''d1'' (untimed timed_op) device_db = Inr y"
    using device_timed_facts(1) by (auto simp: timed_untimed succeeds_def split: sum.splits)
  obtain r db1 where r: "insert_operation sample_env sample_owner ''d1'' timed_op device_db = Inr (r, db1)"
    using device_timed_facts(2) by (auto simp: succeeds_def split: sum.splits)
  have t: "on_operation_type timed_op = ''DELIVERY_COMPLETE''" "pd_delivered_at (on_payload timed_op) = Given 950"
    "pd_delivery_id (on_payload timed_op) = Given 1" "on_client_uuid timed_op = ''k1''"
    by (simp_all add: timed_op_def handover_op_def)
  have "find_operation (on_client_uuid timed_op) device_db = None" by (simp add: find_operation_def tb_first_def device_rows)
  moreover have "replay_of (Some (on_client_uuid timed_op)) device_db = None" using device_timed_facts(3) t(4) by simp
  ultimately show ?thesis
    using timed_completions_never_land [OF t(1-3) d _ y device_ok _ r, of "[visit_op]" 3]
    by (simp add: pushed_def MAX_BATCH_def)
qed

text \<open>
  C34. A pull tells everything once: a customer or delivery that the user may see, that changed since
  the cursor and that stays as it is while the device asks for page after page is in exactly one
  page, whatever happens to all others meanwhile; and over a database at rest the device comes to
  the end after as many pages as the larger collection needs, having got both collections whole
  and in order, no page beyond its bound.
\<close>

theorem pulls_tell_everything_once:
  assumes "codec_ok cd"
  shows "(pull_chain cd env user cutoff None dbs = Some pgs \<and>
      (\<forall>db \<in> set dbs. keys_ok db \<and> c \<in> set (visible_customers user db) \<and> d \<in> set (visible_deliveries user db)) \<and>
      since_ok cu_updated_at cutoff c \<and> since_ok dl_updated_at cutoff d \<longrightarrow>
      count_list (concat (map pg_customers pgs)) c = 1 \<and> count_list (concat (map pg_deliveries pgs)) d = 1) \<and>
    (keys_ok db \<and> 0 < n \<and> length (visible_customers user db) \<le> n * PULL_PAGE_SIZE \<and>
      length (visible_deliveries user db) \<le> n * PULL_PAGE_SIZE \<longrightarrow>
      (\<exists>pgs. pull_chain cd env user cutoff None (replicate n db) = Some pgs \<and>
        concat (map pg_customers pgs) =
          ordered_rows cu_updated_at cu_pk (filter (since_ok cu_updated_at cutoff) (visible_customers user db)) \<and>
        concat (map pg_deliveries pgs) =
          ordered_rows dl_updated_at dl_pk (filter (since_ok dl_updated_at cutoff) (visible_deliveries user db)) \<and>
        (\<forall>pg \<in> set pgs. length (pg_customers pg) \<le> PULL_PAGE_SIZE \<and> length (pg_deliveries pg) \<le> PULL_PAGE_SIZE)))"
proof (intro conjI impI; elim conjE)
  assume "pull_chain cd env user cutoff None dbs = Some pgs"
    and all: "\<forall>db \<in> set dbs. keys_ok db \<and> c \<in> set (visible_customers user db) \<and> d \<in> set (visible_deliveries user db)"
    and since: "since_ok cu_updated_at cutoff c" "since_ok dl_updated_at cutoff d"
  note once = first_pull_once [OF assms this(1)]
  show "count_list (concat (map pg_customers pgs)) c = 1" by (rule once(1)) (use all since in simp_all)
  show "count_list (concat (map pg_deliveries pgs)) d = 1" by (rule once(2)) (use all since in simp_all)
qed (rule first_pull_resting [OF assms])

theorem pulls_tell_everything_once_witness:
  "\<exists>pgs. pull_chain sample_codec sample_env sample_owner None None [device_db] = Some pgs \<and>
     count_list (concat (map pg_customers pgs)) sample_customer = 1"
proof -
  have v: "visible_customers sample_owner device_db = [sample_customer]" "length (visible_deliveries sample_owner device_db) = 1"
    by code_simp+
  have s: "sample_customer \<in> set (visible_customers sample_owner device_db)" by (simp only: v list.set_intros)
  obtain d where d: "d \<in> set (visible_deliveries sample_owner device_db)"
    using v(2) by (cases "visible_deliveries sample_owner device_db") auto
  note once = pulls_tell_everything_once [OF sample_codec_ok, where env = sample_env and user = sample_owner and cutoff = None,
      THEN conjunct1, rule_format] and rest = pulls_tell_everything_once [OF sample_codec_ok, where env = sample_env and
      user = sample_owner and cutoff = None, THEN conjunct2, rule_format]
  have "keys_ok device_db \<and> 0 < (1::nat) \<and> length (visible_customers sample_owner device_db) \<le> 1 * PULL_PAGE_SIZE \<and>
      length (visible_deliveries sample_owner device_db) \<le> 1 * PULL_PAGE_SIZE"
    using device_keys v by (simp add: PULL_PAGE_SIZE_def)
  from rest [OF this] obtain pgs where p: "pull_chain sample_codec sample_env sample_owner None None [device_db] = Some pgs"
    by auto
  have "count_list (concat (map pg_customers pgs)) sample_customer = 1"
    by (rule once [where dbs = "[device_db]" and d = d, THEN conjunct1])
      (simp add: p device_keys s d since_ok_def del: pull_chain.simps)
  then show ?thesis using p by blast
qed


section \<open>Reports\<close>

text \<open>
  C35. However sales are grouped, they sum to the same, unless a product was renamed: by day, by
  customer and by salesman the report's total is the taxable value of the period's invoices less
  that of its credit notes.  By product every product sold has one row, and that row tells what was
  sold under one of its names, the one it shows; what was sold under the others is in no row.  When
  the documents' taxable values are the sums of their lines, exactly that is missing from the total:
  nothing if every product has one name, and something if one has two and every line's taxable
  value is positive.
\<close>

theorem sales_groupings_agree:
  assumes "sales_report user date_from date_to g db = Inr t" "sales_sources user date_from date_to db = (invoices, cns)"
  shows "(g \<noteq> ''product'' \<longrightarrow>
      rt_total t = Some (figures_row (sales_total (sum_list (map taxable invoices)) (sum_list (map taxable cns))))) \<and>
    (g = ''product'' \<longrightarrow>
      rt_rows t = map figures_row (figures_of text_label (sales_by_product db invoices cns)) \<and>
      one_row_each (lines_of_invoices db invoices) (sales_by_product db invoices cns)) \<and>
    (g = ''product'' \<and> lines_add_up db invoices cns \<longrightarrow>
      (\<exists>x. rt_total t = Some (figures_row (sales_total x (sum_list (map taxable cns)))) \<and>
        x + untold (lines_of_invoices db invoices) (sales_by_product db invoices cns) = sum_list (map taxable invoices) \<and>
        (one_name_each (lines_of_invoices db invoices) \<longrightarrow> x = sum_list (map taxable invoices)) \<and>
        (\<not> one_name_each (lines_of_invoices db invoices) \<and> lines_positive (lines_of_invoices db invoices) \<longrightarrow>
          x < sum_list (map taxable invoices))))"
  using sales_report_total [OF assms] sales_by_product_rows [of db invoices cns] product_figures [of db invoices cns] by metis

theorem sales_groupings_agree_witness:
  "\<exists>t t' x. sales_report sample_owner None None ''customer'' renamed_db = Inr t \<and>
     rt_total t = Some (figures_row (sales_total 960 0)) \<and>
     sales_report sample_owner None None ''product'' renamed_db = Inr t' \<and>
     rt_total t' = Some (figures_row (sales_total x 0)) \<and> x < 960"
proof -
  obtain i n where n: "sales_sources sample_owner None None renamed_db = (i, n)" by fastforce
  then have s: "sales_sources sample_owner None None renamed_db = (i, [])" using renamed_facts by simp
  have f: "sum_list (map taxable i) = 960" "lines_add_up renamed_db i []" "\<not> one_name_each (lines_of_invoices renamed_db i)"
    "lines_positive (lines_of_invoices renamed_db i)"
    using renamed_facts by (simp_all add: s)
  have r: "\<exists>t. sales_report sample_owner None None g renamed_db = Inr t" for g
  proof -
    have "has_role sample_owner INTERNAL" by code_simp
    then show ?thesis by (simp add: sales_report_def Let_def split: prod.splits)
  qed
  obtain t where t: "sales_report sample_owner None None ''customer'' renamed_db = Inr t" using r by blast
  obtain t' where t': "sales_report sample_owner None None ''product'' renamed_db = Inr t'" using r by blast
  have "rt_total t = Some (figures_row (sales_total 960 0))"
    using sales_groupings_agree [OF t s] f(1) by simp
  moreover obtain x where "rt_total t' = Some (figures_row (sales_total x 0))" "x < 960"
    using sales_groupings_agree [OF t' s] f by auto
  ultimately show ?thesis using t t' by fastforce
qed

text \<open>
  C36. An export says what the screen says: read back as comma-separated values, what follows the
  header lines of an exported report is the row of its column labels, the cells of its rows and
  its total, row for row; whatever is typed into a text, newlines and carriage returns included, no
  header line breaks and no cell of a text column starts like a formula.
\<close>

theorem exports_read_back:
  assumes "rt_columns t \<noteq> []"
  shows "read_csv False [] [] (drop_lines (length (header_lines t)) (render stamp t)) =
      map co_label (rt_columns t) #
      map (map (\<lambda>(c, v). cell_text stamp v c)) (report_cells t @ (if rt_total t = None then [] else [total_cells t])) \<and>
    (\<forall>l \<in> set (header_lines t). NL \<notin> set l \<and> CR \<notin> set l) \<and>
    (\<not> numeric c \<and> cell_text stamp v c = d # s \<longrightarrow> d \<notin> set FORMULA_PREFIXES)"
  using render_reads_back [OF assms] header_no_newline no_formula by metis

theorem exports_read_back_witness:
  "read_csv False [] [] (drop_lines 2 (render (\<lambda>t. ''T'') sample_table)) =
     [[''A'', ''B, C''], [CHR 0x27 # ''=1+1'', ''-5.00''], [[QUOTE, COMMA], '''']]"
proof -
  have c: "rt_columns sample_table \<noteq> []" by (simp add: sample_table_def plain_report_def)
  have "length (header_lines sample_table) = 2" by code_simp
  moreover have "map co_label (rt_columns sample_table) #
      map (map (\<lambda>(c, v). cell_text (\<lambda>t. ''T'') v c)) (report_cells sample_table @
        (if rt_total sample_table = None then [] else [total_cells sample_table])) =
      [[''A'', ''B, C''], [CHR 0x27 # ''=1+1'', ''-5.00''], [[QUOTE, COMMA], '''']]"
    by code_simp
  ultimately show ?thesis using exports_read_back [OF c, of "\<lambda>t. ''T''"] by simp
qed


section \<open>People and settings\<close>

text \<open>
  C37. Guessing a passcode locks it: once the attempts allowed have been spent on wrong codes, no
  further code, the right one included, is looked at.
\<close>

theorem passcode_guessing_locks_out:
  assumes "normalise_phone phone = Inr q" "active_otp q db = Some otp" "now env < ot_expires_at otp"
    "\<forall>c \<in> set cs. \<not> check_password hs c (ot_code_hash otp)" "ot_attempt_count otp \<le> OTP_MAX_ATTEMPTS cfg"
    "OTP_MAX_ATTEMPTS cfg \<le> ot_attempt_count otp + int (length cs)"
  shows "fst (verify_otp env' hs cfg phone code device ip (guess_all env hs cfg phone cs db))
       = Inl OtpAttemptsExceeded"
  by (rule guess_all_locks_out [OF assms])

definition plain_hashers :: hashers where
  "plain_hashers = \<lparr>make_password = (\<lambda>c. c), check_password = (\<lambda>c h. c = h)\<rparr>"

definition sample_otp :: otp_request where
  "sample_otp = \<lparr>ot_pk = 1, ot_phone = ''+919999999999'', ot_code_hash = ''123456'', ot_purpose = LOGIN,
     ot_expires_at = 5000, ot_attempt_count = 3, ot_consumed_at = None, ot_requested_ip = '''', ot_created_at = 0\<rparr>"

definition otp_db :: fulfilment_db where
  "otp_db = sample_db\<lparr>db_otps := \<lparr>tb_seq = 2, tb_rows = [sample_otp]\<rparr>\<rparr>"

theorem passcode_guessing_locks_out_witness:
  "fst (verify_otp sample_env plain_hashers \<lparr>OTP_MAX_ATTEMPTS = 5\<rparr> ''9999999999'' ''123456'' '''' ''''
     (guess_all sample_env plain_hashers \<lparr>OTP_MAX_ATTEMPTS = 5\<rparr> ''9999999999'' [''000000'', ''111111''] otp_db))
   = Inl OtpAttemptsExceeded"
proof -
  have "normalise_phone ''9999999999'' = Inr ''+919999999999''" by code_simp
  moreover have "active_otp ''+919999999999'' otp_db = Some sample_otp"
    by (simp add: active_otp_def otp_db_def sample_otp_def)
  ultimately show ?thesis
    by (rule passcode_guessing_locks_out)
      (simp_all add: sample_env_def sample_otp_def plain_hashers_def)
qed

text \<open>
  C38. Break-glass works only on a business nobody owns: when it succeeds no active owner existed
  before, one exists after, and the act is the last thing the audit log records; when an active
  owner exists it is refused.
\<close>

theorem break_glass_only_without_owner:
  assumes "normalise_phone phone = Inr q" "tb_first (\<lambda>r. ro_code r = OWNER) (db_roles db) = Some r"
  shows "(active_owner (ro_pk r) db \<longrightarrow>
       bootstrap_owner env hs phone full_name password reason db = Inl PermissionDenied) \<and>
    (bootstrap_owner env hs phone full_name password reason db = Inr (res, db') \<longrightarrow>
       \<not> active_owner (ro_pk r) db \<and> active_owner (ro_pk r) db' \<and> al_action (last_audit db') = A_OWNER_BOOTSTRAP)"
  using bootstrap_owner_refused [OF assms, of env hs full_name password reason]
    bootstrap_owner_active [where env = env and hs = hs and phone = phone and full_name = full_name
      and password = password and reason = reason and res = res and db' = db', OF _ assms(2)]
  by blast

theorem break_glass_only_without_owner_witness:
  "\<exists>res db'. bootstrap_owner sample_env plain_hashers ''9999999999'' ''Owner'' (Some ''pw'') ''lost'' empty_identity_db = Inr (res, db')
     \<and> active_owner 1 db'"
proof -
  have q: "normalise_phone ''9999999999'' = Inr ''+919999999999''" by code_simp
  have r: "tb_first (\<lambda>r. ro_code r = OWNER) (db_roles empty_identity_db) = Some \<lparr>ro_pk = 1, ro_code = OWNER\<rparr>"
    by (simp add: tb_first_def empty_identity_db_def identity_db.defs core_db.defs empty_core_db_def)
  have "succeeds (bootstrap_owner sample_env plain_hashers ''9999999999'' ''Owner'' (Some ''pw'') ''lost'' empty_identity_db)"
    by code_simp
  then obtain res db' where b: "bootstrap_owner sample_env plain_hashers ''9999999999'' ''Owner'' (Some ''pw'') ''lost'' empty_identity_db = Inr (res, db')"
    by (rule succeedsE [where db = empty_identity_db])
  have "active_owner 1 db'"
    using break_glass_only_without_owner [OF q r, THEN conjunct2, THEN mp, OF b] by simp
  then show ?thesis using b by blast
qed

text \<open>
  C39. Nothing under a sensitive key of an audited state and no decimal reaches the audit log: an
  audited change adds one row after the ones there were, and each of its two states, the one before
  and the one after, has the keys it was given, of a value under a sensitive key only that there was
  one, and the other values with their decimals as text.  Only the keys of the states themselves are
  looked at, not those of dicts nested in them.
\<close>

theorem audit_log_is_scrubbed:
  "\<exists>e. tb_rows (db_audit (record_audit_from env a et ei u s st1 st2 dev ip db)) = tb_rows (db_audit db) @ [e] \<and>
     clean_copy st1 (al_before e) \<and> clean_copy st2 (al_after e)"
  using record_audit_from_row [of env a et ei u s st1 st2 dev ip db] scrub_clean_copy by metis

theorem audit_log_is_scrubbed_witness:
  "\<exists>e. tb_rows (db_audit (record_audit_from sample_env A_UPDATE ''x'' None None S_WEB
       (Some [(''code'', PStr ''P1'')]) (Some [(''code'', PStr ''P2''), (''total'', PDec 2 5)]) '''' '''' sample_db))
     = tb_rows (db_audit sample_db) @ [e] \<and> al_before e \<noteq> Some [(''code'', PStr ''P1'')]"
proof -
  have "lower ''code'' \<in> set SENSITIVE" by code_simp
  then show ?thesis
    using audit_log_is_scrubbed [of sample_env A_UPDATE "''x''" None None S_WEB
        "Some [(''code'', PStr ''P1'')]" "Some [(''code'', PStr ''P2''), (''total'', PDec 2 5)]" "''''" "''''" sample_db]
    by (auto simp: clean_copy_def stored_as_def)
qed



end
